(* ===== verification/Ast.thy ===== *)
theory Ast
  imports Prelude
begin

text \<open>
  The syntax trees of \<^verbatim>\<open>packages/fuel-indexer-graphql/parser/src\<close>: the values, types and
  directives of \<^verbatim>\<open>common.rs\<close>, the query documents of \<^verbatim>\<open>query/ast.rs\<close> and the schema
  documents of \<^verbatim>\<open>schema/ast.rs\<close>. Source positions and spans are left out: they serve error
  messages only. A \<^verbatim>\<open>BTreeMap\<close> is its list of entries in key order; a float literal is carried
  as its printed text, since nothing computes with it.
\<close>

section \<open>Values, types and directives (common.rs)\<close>

type_synonym number = "64 word"

type_synonym big_number = "128 word"

datatype gql_value =
    Variable string
  | BigInt big_number
  | IntVal number
  | Float string
  | String string
  | Boolean bool
  | Null
  | Enum string
  | List "gql_value list"
  | Object "(string \<times> gql_value) list"

datatype gql_type =
    NamedType string
  | ListType gql_type
  | NonNullType gql_type

record directive =
  dir_name :: string
  dir_arguments :: "(string \<times> gql_value) list"

definition big_as_u64 :: "big_number \<Rightarrow> 64 word option" where
  "big_as_u64 n = (if unat n < 2 ^ 64 then Some (ucast n) else None)"

definition big_as_u128 :: "big_number \<Rightarrow> 128 word" where
  "big_as_u128 n = n"

definition number_as_i64 :: "number \<Rightarrow> int option" where
  "number_as_i64 n = (if unat n < 2 ^ 63 then Some (int (unat n)) else None)"

definition number_as_u64 :: "number \<Rightarrow> 64 word" where
  "number_as_u64 n = n"

text \<open>\<^verbatim>\<open>impl Displayable for Type\<close> (\<^verbatim>\<open>query/format.rs\<close>).\<close>

fun type_to_string :: "gql_type \<Rightarrow> string" where
  "type_to_string (NamedType n) = n"
| "type_to_string (ListType t) = ''['' @ type_to_string t @ '']''"
| "type_to_string (NonNullType t) = type_to_string t @ ''!''"

section \<open>Query documents (query/ast.rs)\<close>

datatype selection =
    Field (sel_alias: "string option") (sel_name: string)
      (sel_arguments: "(string \<times> gql_value) list") (sel_directives: "directive list")
      (sel_items: "selection list")
  | FragmentSpread string "directive list"
  | InlineFragment "string option" "directive list" "selection list"

type_synonym selection_set = "selection list"

record variable_definition =
  var_name :: string
  var_type :: gql_type
  var_default :: "gql_value option"

text \<open>The shared shape of \<^verbatim>\<open>Query\<close>, \<^verbatim>\<open>Mutation\<close> and \<^verbatim>\<open>Subscription\<close>.\<close>

record op_body =
  op_name :: "string option"
  op_variables :: "variable_definition list"
  op_directives :: "directive list"
  op_selection_set :: selection_set

datatype operation_definition =
    SelectionSet selection_set
  | Query op_body
  | Mutation op_body
  | Subscription op_body

record fragment_definition =
  frag_name :: string
  frag_type_condition :: string
  frag_directives :: "directive list"
  frag_selection_set :: selection_set

datatype query_definition =
    Operation operation_definition
  | Fragment fragment_definition

type_synonym query_document = "query_definition list"

section \<open>Schema documents (schema/ast.rs)\<close>

record schema_definition =
  sd_directives :: "directive list"
  sd_query :: "string option"
  sd_mutation :: "string option"
  sd_subscription :: "string option"

record input_value =
  iv_description :: "string option"
  iv_name :: string
  iv_type :: gql_type
  iv_default :: "gql_value option"
  iv_directives :: "directive list"

record field =
  fd_description :: "string option"
  fd_name :: string
  fd_arguments :: "input_value list"
  fd_type :: gql_type
  fd_directives :: "directive list"

record scalar_type =
  sc_description :: "string option"
  sc_name :: string
  sc_directives :: "directive list"

record object_type =
  ob_description :: "string option"
  ob_name :: string
  ob_implements :: "string list"
  ob_directives :: "directive list"
  ob_fields :: "field list"

record union_type =
  un_description :: "string option"
  un_name :: string
  un_directives :: "directive list"
  un_types :: "string list"

record enum_value =
  ev_description :: "string option"
  ev_name :: string
  ev_directives :: "directive list"

record enum_type =
  en_description :: "string option"
  en_name :: string
  en_directives :: "directive list"
  en_values :: "enum_value list"

record input_object_type =
  io_description :: "string option"
  io_name :: string
  io_directives :: "directive list"
  io_fields :: "input_value list"

text \<open>
  The interface type has the fields of the object type, and an extension has the fields of the
  type it extends except the description, which is \<open>None\<close> there.
\<close>

datatype type_definition =
    TScalar scalar_type
  | TObject object_type
  | TInterface object_type
  | TUnion union_type
  | TEnum enum_type
  | TInputObject input_object_type

datatype type_extension =
    XScalar scalar_type
  | XObject object_type
  | XInterface object_type
  | XUnion union_type
  | XEnum enum_type
  | XInputObject input_object_type

datatype directive_location =
    LQuery | LMutation | LSubscription | LField | LFragmentDefinition | LFragmentSpread
  | LInlineFragment | LSchema | LScalar | LObject | LFieldDefinition | LArgumentDefinition
  | LInterface | LUnion | LEnum | LEnumValue | LInputObject | LInputFieldDefinition
  | LVariableDefinition

record directive_definition =
  dd_description :: "string option"
  dd_name :: string
  dd_arguments :: "input_value list"
  dd_repeatable :: bool
  dd_locations :: "directive_location list"

datatype schema_item =
    SchemaDefinition schema_definition
  | TypeDefinition type_definition
  | TypeExtension type_extension
  | DirectiveDefinition directive_definition

type_synonym schema_document = "schema_item list"

subsection \<open>Directive locations\<close>

fun location_as_str :: "directive_location \<Rightarrow> string" where
  "location_as_str LQuery = ''QUERY''"
| "location_as_str LMutation = ''MUTATION''"
| "location_as_str LSubscription = ''SUBSCRIPTION''"
| "location_as_str LField = ''FIELD''"
| "location_as_str LFragmentDefinition = ''FRAGMENT_DEFINITION''"
| "location_as_str LFragmentSpread = ''FRAGMENT_SPREAD''"
| "location_as_str LInlineFragment = ''INLINE_FRAGMENT''"
| "location_as_str LSchema = ''SCHEMA''"
| "location_as_str LScalar = ''SCALAR''"
| "location_as_str LObject = ''OBJECT''"
| "location_as_str LFieldDefinition = ''FIELD_DEFINITION''"
| "location_as_str LArgumentDefinition = ''ARGUMENT_DEFINITION''"
| "location_as_str LInterface = ''INTERFACE''"
| "location_as_str LUnion = ''UNION''"
| "location_as_str LEnum = ''ENUM''"
| "location_as_str LEnumValue = ''ENUM_VALUE''"
| "location_as_str LInputObject = ''INPUT_OBJECT''"
| "location_as_str LInputFieldDefinition = ''INPUT_FIELD_DEFINITION''"
| "location_as_str LVariableDefinition = ''VARIABLE_DEFINITION''"

fun location_is_query :: "directive_location \<Rightarrow> bool" where
  "location_is_query LQuery = True"
| "location_is_query LMutation = True"
| "location_is_query LSubscription = True"
| "location_is_query LField = True"
| "location_is_query LFragmentDefinition = True"
| "location_is_query LFragmentSpread = True"
| "location_is_query LInlineFragment = True"
| "location_is_query _ = False"

definition location_is_schema :: "directive_location \<Rightarrow> bool" where
  "location_is_schema l \<longleftrightarrow> \<not> location_is_query l"

definition location_from_str :: "string \<Rightarrow> directive_location option" where
  "location_from_str s =
     (if s = ''QUERY'' then Some LQuery
      else if s = ''MUTATION'' then Some LMutation
      else if s = ''SUBSCRIPTION'' then Some LSubscription
      else if s = ''FIELD'' then Some LField
      else if s = ''FRAGMENT_DEFINITION'' then Some LFragmentDefinition
      else if s = ''FRAGMENT_SPREAD'' then Some LFragmentSpread
      else if s = ''INLINE_FRAGMENT'' then Some LInlineFragment
      else if s = ''SCHEMA'' then Some LSchema
      else if s = ''SCALAR'' then Some LScalar
      else if s = ''OBJECT'' then Some LObject
      else if s = ''FIELD_DEFINITION'' then Some LFieldDefinition
      else if s = ''ARGUMENT_DEFINITION'' then Some LArgumentDefinition
      else if s = ''INTERFACE'' then Some LInterface
      else if s = ''UNION'' then Some LUnion
      else if s = ''ENUM'' then Some LEnum
      else if s = ''ENUM_VALUE'' then Some LEnumValue
      else if s = ''INPUT_OBJECT'' then Some LInputObject
      else if s = ''INPUT_FIELD_DEFINITION'' then Some LInputFieldDefinition
      else if s = ''VARIABLE_DEFINITION'' then Some LVariableDefinition
      else None)"

lemma location_from_as_str [simp]: "location_from_str (location_as_str l) = Some l"
  by (cases l) (simp_all add: location_from_str_def)

lemma location_from_str_Some: "location_from_str s = Some l \<Longrightarrow> location_as_str l = s"
  unfolding location_from_str_def by (auto split: if_splits)

text \<open>The type text without its \<^verbatim>\<open>!\<close> marks, for a type whose names hold none.\<close>

fun type_bare :: "gql_type \<Rightarrow> string" where
  "type_bare (NamedType n) = n"
| "type_bare (ListType t) = ''['' @ type_bare t @ '']''"
| "type_bare (NonNullType t) = type_bare t"

fun type_names_clean :: "gql_type \<Rightarrow> bool" where
  "type_names_clean (NamedType n) \<longleftrightarrow> CHR ''!'' \<notin> set n"
| "type_names_clean (ListType t) \<longleftrightarrow> type_names_clean t"
| "type_names_clean (NonNullType t) \<longleftrightarrow> type_names_clean t"

lemma remove_bang_type: "type_names_clean t \<Longrightarrow> remove_char (CHR ''!'') (type_to_string t) = type_bare t"
  by (induction t) (auto simp: remove_char_id, simp_all add: remove_char_def)

end
