(* ===== verification/Text_Format.thy ===== *)
theory Text_Format
  imports Ast
begin

text \<open>
  The pretty printer of \<^verbatim>\<open>parser/src/format.rs\<close> and \<^verbatim>\<open>parser/src/query/format.rs\<close>. A printing
  step takes the formatter and returns it changed, or \<open>None\<close> where \<^verbatim>\<open>dec_indent\<close> panics
  (negative indent). The lemmas show that the documents print without that panic, leave the
  indentation as they found it and only ever append to the buffer.
\<close>

section \<open>The formatter (format.rs)\<close>

record style =
  st_indent :: nat
  st_multiline :: bool

record formatter =
  f_buf :: string
  f_style :: style
  f_indent :: nat

definition default_style :: style where
  "default_style = \<lparr>st_indent = 2, st_multiline = False\<rparr>"

definition style_indent :: "style \<Rightarrow> nat \<Rightarrow> style" where
  "style_indent s n = s\<lparr>st_indent := n\<rparr>"

definition style_multiline_arguments :: "style \<Rightarrow> bool \<Rightarrow> style" where
  "style_multiline_arguments s b = s\<lparr>st_multiline := b\<rparr>"

definition new_formatter :: "style \<Rightarrow> formatter" where
  "new_formatter s = \<lparr>f_buf = [], f_style = s, f_indent = 0\<rparr>"

type_synonym step = "formatter \<Rightarrow> formatter option"

definition emit :: "string \<Rightarrow> step" where
  "emit s f = Some (f\<lparr>f_buf := f_buf f @ s\<rparr>)"

text \<open>Steps one after the other.\<close>

fun run :: "step list \<Rightarrow> step" where
  "run [] f = Some f"
| "run (s # ss) f = (case s f of None \<Rightarrow> None | Some f' \<Rightarrow> run ss f')"

definition indent :: step where
  "indent f = emit (replicate (f_indent f) (CHR '' '')) f"

definition endline :: step where
  "endline f = emit [CHR 0x0A] f"

definition inc_indent :: step where
  "inc_indent f = Some (f\<lparr>f_indent := f_indent f + st_indent (f_style f)\<rparr>)"

definition dec_indent :: step where
  "dec_indent f = (if st_indent (f_style f) \<le> f_indent f
     then Some (f\<lparr>f_indent := f_indent f - st_indent (f_style f)\<rparr>) else None)"

definition start_argument_block :: "char \<Rightarrow> step" where
  "start_argument_block c f = run [emit [c], \<lambda>f. if st_multiline (f_style f) then inc_indent f else Some f] f"

definition end_argument_block :: "char \<Rightarrow> step" where
  "end_argument_block c f =
     run [\<lambda>f. if st_multiline (f_style f) then run [endline, dec_indent, indent] f else Some f, emit [c]] f"

definition start_argument :: step where
  "start_argument f = (if st_multiline (f_style f) then run [endline, indent] f else Some f)"

definition deliniate_argument :: step where
  "deliniate_argument f =
     run [emit '','', \<lambda>f. if \<not> st_multiline (f_style f) then emit '' '' f else Some f] f"

definition start_block :: step where
  "start_block f = run [emit ''{'', endline, inc_indent] f"

definition end_block :: step where
  "end_block f = run [dec_indent, indent, emit ''}'', endline] f"

definition margin :: step where
  "margin f = (if f_buf f \<noteq> [] then endline f else Some f)"

subsection \<open>Quoted strings\<close>

definition printable :: "char \<Rightarrow> bool" where
  "printable c \<longleftrightarrow> c = CHR 0x0D \<or> c = CHR 0x09 \<or> 32 \<le> (of_char c :: nat)"

definition has_newline :: "string \<Rightarrow> bool" where
  "has_newline s \<longleftrightarrow> CHR 0x0A \<in> set s"

definition has_nonprintable :: "string \<Rightarrow> bool" where
  "has_nonprintable s \<longleftrightarrow> (\<exists>c \<in> set s. c \<noteq> CHR 0x0A \<and> \<not> printable c)"

text \<open>\<^verbatim>\<open>{:04}\<close>: at least four decimal digits.\<close>

definition pad4 :: "string \<Rightarrow> string" where
  "pad4 s = replicate (4 - length s) (CHR ''0'') @ s"

definition escape_char :: "char \<Rightarrow> string" where
  "escape_char c =
     (if c = CHR 0x0D then [CHR 0x5C, CHR ''r'']
      else if c = CHR 0x0A then [CHR 0x5C, CHR ''n'']
      else if c = CHR 0x09 then [CHR 0x5C, CHR ''t'']
      else if c = CHR 0x22 then [CHR 0x5C, CHR 0x22]
      else if c = CHR 0x5C then [CHR 0x5C, CHR 0x5C]
      else if 32 \<le> (of_char c :: nat) then [c]
      else [CHR 0x5C, CHR ''u''] @ pad4 (show_nat (of_char c)))"

text \<open>\<^verbatim>\<open>str::lines\<close>: split at line feeds, without a final empty line and without the carriage
  return before a line feed.\<close>

fun split_lf :: "string \<Rightarrow> string list" where
  "split_lf [] = [[]]"
| "split_lf (c # cs) =
     (if c = CHR 0x0A then [] # split_lf cs
      else (case split_lf cs of [] \<Rightarrow> [[c]] | l # ls \<Rightarrow> (c # l) # ls))"

definition chomp_cr :: "string \<Rightarrow> string" where
  "chomp_cr l = (if l \<noteq> [] \<and> last l = CHR 0x0D then butlast l else l)"

definition lines :: "string \<Rightarrow> string list" where
  "lines s = (let ls = split_lf s in
     map chomp_cr (butlast ls) @ (if last ls = [] then [] else [last ls]))"

text \<open>\<^verbatim>\<open>replace\<close> of three double quotes by an escaped three.\<close>

fun escape_triple :: "string \<Rightarrow> string" where
  "escape_triple (a # b # c # cs) =
     (if a = CHR 0x22 \<and> b = CHR 0x22 \<and> c = CHR 0x22
      then [CHR 0x5C, CHR 0x22, CHR 0x22, CHR 0x22] @ escape_triple cs
      else a # escape_triple (b # c # cs))"
| "escape_triple cs = cs"

definition block_line :: "string \<Rightarrow> step" where
  "block_line l = run [\<lambda>f. if trim l \<noteq> [] then run [indent, emit (escape_triple l)] f else Some f, endline]"

definition write_quoted :: "string \<Rightarrow> step" where
  "write_quoted s f =
     (if \<not> has_newline s \<or> has_nonprintable s
      then run [emit [CHR 0x22], emit (concat (map escape_char s)), emit [CHR 0x22]] f
      else run ([emit [CHR 0x22, CHR 0x22, CHR 0x22], endline, inc_indent]
        @ map block_line (lines s)
        @ [\<lambda>f. Some (f\<lparr>f_indent := f_indent f - st_indent (f_style f)\<rparr>), indent,
           emit [CHR 0x22, CHR 0x22, CHR 0x22]]) f)"

section \<open>Steps that keep the indentation\<close>

text \<open>
  \<open>steady s\<close>: the step returns (no panic), leaves the style and the indentation unchanged, and
  appends to the buffer.
\<close>

definition steady :: "step \<Rightarrow> bool" where
  "steady s \<longleftrightarrow> (\<forall>f. \<exists>t. s f = Some (f\<lparr>f_buf := f_buf f @ t\<rparr>))"

named_theorems steady_steps \<open>printing steps that keep the indentation\<close>

lemma steadyI: "(\<And>f. \<exists>t. s f = Some (f\<lparr>f_buf := f_buf f @ t\<rparr>)) \<Longrightarrow> steady s"
  by (simp add: steady_def)

lemma append_nothing [intro, simp]: "\<exists>t. f = f\<lparr>f_buf := f_buf f @ t\<rparr>" for f :: formatter
  by (rule exI [of _ "[]"]) simp

lemma append_something [intro, simp]:
  "\<exists>t. f\<lparr>f_buf := f_buf f @ s\<rparr> = f\<lparr>f_buf := f_buf f @ t\<rparr>" for f :: formatter
  by blast

lemma steadyE:
  assumes "steady s" obtains t where "s f = Some (f\<lparr>f_buf := f_buf f @ t\<rparr>)"
  using assms by (auto simp: steady_def)

lemma run_append: "run (xs @ ys) f = (case run xs f of None \<Rightarrow> None | Some f' \<Rightarrow> run ys f')"
  by (induction xs arbitrary: f) (auto split: option.splits)

declare run.simps [simp del]

lemma steady_run: "(\<And>s. s \<in> set ss \<Longrightarrow> steady s) \<Longrightarrow> steady (run ss)"
proof (induction ss)
  case Nil
  show ?case by (rule steadyI) (auto simp: run.simps)
next
  case (Cons s ss)
  then have s: "steady s" and ss: "steady (run ss)" by auto
  show ?case
  proof (rule steadyI)
    fix f
    obtain t where t: "s f = Some (f\<lparr>f_buf := f_buf f @ t\<rparr>)" using s by (rule steadyE)
    obtain u where "run ss (f\<lparr>f_buf := f_buf f @ t\<rparr>)
        = Some (f\<lparr>f_buf := (f_buf f @ t) @ u\<rparr>)"
      using steadyE [OF ss, of "f\<lparr>f_buf := f_buf f @ t\<rparr>"] by auto
    with t show "\<exists>t. run (s # ss) f = Some (f\<lparr>f_buf := f_buf f @ t\<rparr>)"
      by (auto simp: run.simps)
  qed
qed

lemma steady_cond [steady_steps]:
  "steady s \<Longrightarrow> steady s' \<Longrightarrow> steady (\<lambda>f. if b f then s f else s' f)"
  by (simp add: steady_def)

lemma steady_skip [steady_steps]: "steady Some"
  by (rule steadyI) auto

lemma steady_emit [steady_steps]: "steady (emit s)"
  by (rule steadyI) (auto simp: emit_def)

lemma steady_indent [steady_steps]: "steady indent"
  by (rule steadyI) (auto simp: indent_def emit_def)

lemma steady_endline [steady_steps]: "steady endline"
  by (rule steadyI) (auto simp: endline_def emit_def)

lemma steady_margin [steady_steps]: "steady margin"
  unfolding margin_def [abs_def] by (intro steady_steps)

lemma steady_start_argument [steady_steps]: "steady start_argument"
  unfolding start_argument_def [abs_def] by (intro steady_cond steady_run) (auto intro: steady_steps)

lemma steady_deliniate_argument [steady_steps]: "steady deliniate_argument"
  by (rule steadyI) (auto simp: deliniate_argument_def emit_def run.simps)

text \<open>A bracketed body: indented by the opening step, restored by the closing one.\<close>

lemma indented_body:
  fixes f :: formatter
  assumes "steady (run ss)"
  obtains t where "run ss (f\<lparr>f_buf := b, f_indent := n\<rparr>) = Some (f\<lparr>f_buf := b @ t, f_indent := n\<rparr>)"
proof -
  obtain t where "run ss (f\<lparr>f_buf := b, f_indent := n\<rparr>)
      = Some (f\<lparr>f_buf := b, f_indent := n, f_buf := b @ t\<rparr>)"
    using steadyE [OF assms, of "f\<lparr>f_buf := b, f_indent := n\<rparr>"] by auto
  with that show ?thesis by (cases f) simp
qed

lemma steady_block [steady_steps]:
  assumes "steady (run ss)"
  shows "steady (run (start_block # ss @ [end_block]))"
proof (rule steadyI)
  fix f :: formatter
  let ?b = "f_buf f @ ''{'' @ [CHR 0x0A]" and ?n = "f_indent f + st_indent (f_style f)"
  obtain t where "run ss (f\<lparr>f_buf := ?b, f_indent := ?n\<rparr>) = Some (f\<lparr>f_buf := ?b @ t, f_indent := ?n\<rparr>)"
    by (rule indented_body [OF assms])
  then show "\<exists>t. run (start_block # ss @ [end_block]) f = Some (f\<lparr>f_buf := f_buf f @ t\<rparr>)"
    by (simp add: start_block_def end_block_def run.simps run_append emit_def endline_def inc_indent_def
        dec_indent_def indent_def)
qed

lemma steady_argument_block [steady_steps]:
  assumes "steady (run ss)"
  shows "steady (run (start_argument_block c # ss @ [end_argument_block d]))"
proof (rule steadyI)
  fix f :: formatter
  let ?b = "f_buf f @ [c]"
  let ?n = "if st_multiline (f_style f) then f_indent f + st_indent (f_style f) else f_indent f"
  obtain t where "run ss (f\<lparr>f_buf := ?b, f_indent := ?n\<rparr>) = Some (f\<lparr>f_buf := ?b @ t, f_indent := ?n\<rparr>)"
    by (rule indented_body [OF assms])
  then show "\<exists>t. run (start_argument_block c # ss @ [end_argument_block d]) f
      = Some (f\<lparr>f_buf := f_buf f @ t\<rparr>)"
    by (auto simp: start_argument_block_def end_argument_block_def run.simps run_append emit_def endline_def
        inc_indent_def dec_indent_def indent_def split: if_splits)
qed

lemma steady_block_line [steady_steps]: "steady (block_line l)"
  unfolding block_line_def
  by (intro steady_run) (auto intro!: steady_cond steady_run intro: steady_steps)

lemma steady_write_quoted [steady_steps]: "steady (write_quoted s)"
proof (rule steadyI)
  fix f :: formatter
  let ?q = "[CHR 0x22, CHR 0x22, CHR 0x22]"
  let ?b = "f_buf f @ ?q @ [CHR 0x0A]" and ?n = "f_indent f + st_indent (f_style f)"
  have "steady (run (map block_line (lines s)))"
    by (rule steady_run) (auto intro: steady_steps)
  then obtain t where "run (map block_line (lines s)) (f\<lparr>f_buf := ?b, f_indent := ?n\<rparr>)
      = Some (f\<lparr>f_buf := ?b @ t, f_indent := ?n\<rparr>)"
    by (rule indented_body)
  then show "\<exists>t. write_quoted s f = Some (f\<lparr>f_buf := f_buf f @ t\<rparr>)"
    by (simp add: write_quoted_def run.simps run_append emit_def endline_def inc_indent_def indent_def)
qed

section \<open>Types, values and directives (query/format.rs)\<close>

fun display_type :: "gql_type \<Rightarrow> step" where
  "display_type (NamedType n) = emit n"
| "display_type (ListType t) = run [emit ''['', display_type t, emit '']'']"
| "display_type (NonNullType t) = run [display_type t, emit ''!'']"

text \<open>Items with a separator before every one but the first, each after \<^verbatim>\<open>start_argument\<close>.\<close>

fun arguments_body :: "step list \<Rightarrow> step list" where
  "arguments_body [] = []"
| "arguments_body [s] = [start_argument, s]"
| "arguments_body (s # t # ss) = [start_argument, s, deliniate_argument] @ arguments_body (t # ss)"

fun display_value :: "gql_value \<Rightarrow> step" where
  "display_value (Variable n) = run [emit ''$'', emit n]"
| "display_value (BigInt n) = emit (show_nat (unat n))"
| "display_value (IntVal n) = emit (show_nat (unat n))"
| "display_value (Float s) = emit s"
| "display_value (String s) = write_quoted s"
| "display_value (Boolean b) = emit (show_bool b)"
| "display_value Null = emit ''null''"
| "display_value (Enum n) = emit n"
| "display_value (List vs) =
     run ([start_argument_block (CHR ''['')] @ arguments_body (map display_value vs)
       @ [end_argument_block (CHR '']'')])"
| "display_value (Object kvs) =
     run ([start_argument_block (CHR ''{'')]
       @ arguments_body (map (\<lambda>(k, v). run [emit k, emit '': '', display_value v]) kvs)
       @ [end_argument_block (CHR ''}'')])"

definition value_to_string :: "gql_value \<Rightarrow> string" where
  "value_to_string v = (case display_value v (new_formatter default_style) of
     None \<Rightarrow> [] | Some f \<Rightarrow> f_buf f)"

definition format_arguments :: "(string \<times> gql_value) list \<Rightarrow> step" where
  "format_arguments args =
     (if args = [] then Some
      else run ([start_argument_block (CHR ''('')]
        @ arguments_body (map (\<lambda>(k, v). run [emit k, emit '': '', display_value v]) args)
        @ [end_argument_block (CHR '')'')]))"

definition display_directive :: "directive \<Rightarrow> step" where
  "display_directive d = run [emit ''@'', emit (dir_name d), format_arguments (dir_arguments d)]"

definition format_directives :: "directive list \<Rightarrow> step" where
  "format_directives ds = run (concat (map (\<lambda>d. [emit '' '', display_directive d]) ds))"

lemma steady_arguments_body: "(\<And>s. s \<in> set ss \<Longrightarrow> steady s) \<Longrightarrow> steady (run (arguments_body ss))"
proof (rule steady_run)
  fix s assume *: "\<And>s. s \<in> set ss \<Longrightarrow> steady s" and "s \<in> set (arguments_body ss)"
  then show "steady s"
    by (induction ss rule: arguments_body.induct) (auto intro: steady_steps)
qed

lemma steady_display_type [steady_steps]: "steady (display_type t)"
  by (induction t) (auto intro!: steady_run intro: steady_steps)

lemma steady_display_value [steady_steps]: "steady (display_value v)"
proof (induction v rule: display_value.induct)
  case (9 vs)
  then have "steady (run (arguments_body (map display_value vs)))"
    by (intro steady_arguments_body) auto
  then show ?case by (simp add: steady_argument_block)
next
  case (10 kvs)
  then have "steady (run [emit k, emit '': '', display_value v])" if "(k, v) \<in> set kvs" for k v
    using that by (intro steady_run) (auto intro: steady_steps)
  then have "steady (run (arguments_body (map (\<lambda>(k, v). run [emit k, emit '': '', display_value v]) kvs)))"
    by (intro steady_arguments_body) auto
  then show ?case by (simp add: steady_argument_block)
qed (auto intro!: steady_run intro: steady_steps)

lemma steady_format_arguments [steady_steps]: "steady (format_arguments args)"
proof -
  have "steady (run (arguments_body (map (\<lambda>(k, v). run [emit k, emit '': '', display_value v]) args)))"
    by (intro steady_arguments_body) (auto intro!: steady_run intro: steady_steps)
  then show ?thesis by (simp add: format_arguments_def steady_argument_block steady_skip)
qed

lemma steady_format_directives [steady_steps]: "steady (format_directives ds)"
  unfolding format_directives_def
  by (intro steady_run) (auto simp: display_directive_def split: if_splits intro!: steady_run intro: steady_steps)

end
