(* ===== verification/Document_Format.thy ===== *)
theory Document_Format
  imports Text_Format
begin

text \<open>
  Printing of whole documents: \<^verbatim>\<open>parser/src/query/format.rs\<close> for queries and
  \<^verbatim>\<open>parser/src/schema/format.rs\<close> for schemas, as steps of the formatter. Every document prints
  without the \<^verbatim>\<open>negative indent\<close> panic and leaves the indentation as it was.
\<close>

section \<open>Query documents (query/format.rs)\<close>

definition block :: "step list \<Rightarrow> step" where
  "block items = run (start_block # items @ [end_block])"

definition opt_step :: "'a option \<Rightarrow> ('a \<Rightarrow> step) \<Rightarrow> step" where
  "opt_step x f = (case x of None \<Rightarrow> Some | Some v \<Rightarrow> f v)"

text \<open>Items with a separator before every one but the first.\<close>

definition separated :: "string \<Rightarrow> step list \<Rightarrow> step" where
  "separated sep items = (case items of [] \<Rightarrow> Some
     | x # xs \<Rightarrow> run (x # concat (map (\<lambda>y. [emit sep, y]) xs)))"

definition type_condition :: "string \<Rightarrow> step" where
  "type_condition name = run [emit ''on '', emit name]"

fun display_selection :: "selection \<Rightarrow> step" where
  "display_selection (Field al name arguments directives items) =
     run [indent, opt_step al (\<lambda>a. run [emit a, emit '': '']), emit name, format_arguments arguments,
       format_directives directives,
       if items \<noteq> [] then run [emit '' '', block (map display_selection items)] else endline]"
| "display_selection (InlineFragment cond directives items) =
     run [indent, emit ''...'', opt_step cond (\<lambda>c. run [emit '' '', type_condition c]),
       format_directives directives, emit '' '', block (map display_selection items)]"
| "display_selection (FragmentSpread name directives) =
     run [indent, emit ''...'', emit name, format_directives directives, endline]"

definition display_selection_set :: "selection_set \<Rightarrow> step" where
  "display_selection_set items = run [margin, indent, block (map display_selection items)]"

definition display_variable :: "variable_definition \<Rightarrow> step" where
  "display_variable v = run [emit ''$'', emit (var_name v), emit '': '', display_type (var_type v),
     opt_step (var_default v) (\<lambda>d. run [emit '' = '', display_value d])]"

definition display_variables :: "variable_definition list \<Rightarrow> step" where
  "display_variables vs = (if vs = [] then Some
     else run [emit ''('', separated '', '' (map display_variable vs), emit '')''])"

text \<open>Queries and mutations print alike; a subscription prints its variables under its name only,
  and without separators.\<close>

definition display_body :: "op_body \<Rightarrow> step" where
  "display_body q = run [format_directives (op_directives q), emit '' '',
     block (map display_selection (op_selection_set q))]"

definition display_query :: "string \<Rightarrow> op_body \<Rightarrow> step" where
  "display_query keyword q = run [margin, indent, emit keyword,
     opt_step (op_name q) (\<lambda>n. run [emit '' '', emit n]),
     display_variables (op_variables q), display_body q]"

definition display_subscription :: "op_body \<Rightarrow> step" where
  "display_subscription q = run [margin, indent, emit ''subscription'',
     opt_step (op_name q) (\<lambda>n. run [emit '' '', emit n,
       if op_variables q \<noteq> []
       then run ([emit ''(''] @ map display_variable (op_variables q) @ [emit '')'']) else Some]),
     display_body q]"

fun display_operation :: "operation_definition \<Rightarrow> step" where
  "display_operation (SelectionSet items) = display_selection_set items"
| "display_operation (Query q) = display_query ''query'' q"
| "display_operation (Mutation m) = display_query ''mutation'' m"
| "display_operation (Subscription s) = display_subscription s"

definition display_fragment :: "fragment_definition \<Rightarrow> step" where
  "display_fragment frag = run [margin, indent, emit ''fragment '', emit (frag_name frag), emit '' '',
     type_condition (frag_type_condition frag), format_directives (frag_directives frag), emit '' '',
     block (map display_selection (frag_selection_set frag))]"

fun display_definition :: "query_definition \<Rightarrow> step" where
  "display_definition (Operation op) = display_operation op"
| "display_definition (Fragment frag) = display_fragment frag"

definition display_query_document :: "query_document \<Rightarrow> step" where
  "display_query_document doc = run (map display_definition doc)"

text \<open>\<^verbatim>\<open>Document::format\<close>: the text, or \<open>None\<close> for a panic.\<close>

definition format_with :: "style \<Rightarrow> step \<Rightarrow> string option" where
  "format_with st s = map_option f_buf (s (new_formatter st))"

definition format_query_document :: "style \<Rightarrow> query_document \<Rightarrow> string option" where
  "format_query_document st doc = format_with st (display_query_document doc)"

section \<open>Schema documents (schema/format.rs)\<close>

definition description :: "string option \<Rightarrow> step" where
  "description d = opt_step d (\<lambda>s. run [indent, write_quoted s, endline])"

definition named_root :: "string \<Rightarrow> string option \<Rightarrow> step" where
  "named_root keyword t = opt_step t (\<lambda>n. run [indent, emit keyword, emit n, endline])"

definition display_schema_definition :: "schema_definition \<Rightarrow> step" where
  "display_schema_definition s = run [indent, emit ''schema'', format_directives (sd_directives s), emit '' '',
     block [named_root ''query: '' (sd_query s), named_root ''mutation: '' (sd_mutation s),
       named_root ''subscription: '' (sd_subscription s)]]"

definition display_input_value :: "input_value \<Rightarrow> step" where
  "display_input_value v = run [opt_step (iv_description v) (\<lambda>d. run [write_quoted d, emit '' '']),
     emit (iv_name v), emit '': '', display_type (iv_type v),
     opt_step (iv_default v) (\<lambda>d. run [emit '' = '', display_value d]),
     format_directives (iv_directives v)]"

definition format_input_arguments :: "input_value list \<Rightarrow> step" where
  "format_input_arguments args = (if args = [] then Some
     else run [emit ''('', separated '', '' (map display_input_value args), emit '')''])"

definition display_field :: "field \<Rightarrow> step" where
  "display_field f = run [description (fd_description f), indent, emit (fd_name f),
     format_input_arguments (fd_arguments f), emit '': '', display_type (fd_type f),
     format_directives (fd_directives f), endline]"

definition format_fields :: "field list \<Rightarrow> step" where
  "format_fields fs = (if fs \<noteq> [] then run [emit '' '', block (map display_field fs)] else endline)"

definition format_inputs :: "input_value list \<Rightarrow> step" where
  "format_inputs fs = (if fs \<noteq> []
     then run [emit '' '', block (concat (map (\<lambda>f. [indent, display_input_value f, endline]) fs))]
     else endline)"

definition display_implements :: "string list \<Rightarrow> step" where
  "display_implements names = (if names \<noteq> []
     then run [emit '' implements '', separated '' & '' (map emit names)] else Some)"

definition display_enum_value :: "enum_value \<Rightarrow> step" where
  "display_enum_value v = run [indent,
     opt_step (ev_description v) (\<lambda>d. run [write_quoted d, emit '' '']),
     emit (ev_name v), format_directives (ev_directives v), endline]"

text \<open>A definition and its extension print alike but for the keyword and the description, which
  an extension does not have.\<close>

definition display_scalar :: "string \<Rightarrow> scalar_type \<Rightarrow> step" where
  "display_scalar keyword s = run [indent, emit keyword, emit (sc_name s),
     format_directives (sc_directives s), endline]"

definition display_object :: "string \<Rightarrow> object_type \<Rightarrow> step" where
  "display_object keyword t = run [indent, emit keyword, emit (ob_name t),
     display_implements (ob_implements t), format_directives (ob_directives t), format_fields (ob_fields t)]"

definition display_union :: "string \<Rightarrow> union_type \<Rightarrow> step" where
  "display_union keyword u = run [indent, emit keyword, emit (un_name u), format_directives (un_directives u),
     if un_types u \<noteq> [] then run [emit '' = '', separated '' | '' (map emit (un_types u))] else Some, endline]"

definition display_enum :: "string \<Rightarrow> enum_type \<Rightarrow> step" where
  "display_enum keyword e = run [indent, emit keyword, emit (en_name e), format_directives (en_directives e),
     if en_values e \<noteq> [] then run [emit '' '', block (map display_enum_value (en_values e))] else endline]"

definition display_input_object :: "string \<Rightarrow> input_object_type \<Rightarrow> step" where
  "display_input_object keyword t = run [indent, emit keyword, emit (io_name t),
     format_directives (io_directives t), format_inputs (io_fields t)]"

fun display_type_definition :: "type_definition \<Rightarrow> step" where
  "display_type_definition (TScalar s) = run [description (sc_description s), display_scalar ''scalar '' s]"
| "display_type_definition (TObject t) = run [description (ob_description t), display_object ''type '' t]"
| "display_type_definition (TInterface t) = run [description (ob_description t), display_object ''interface '' t]"
| "display_type_definition (TUnion u) = run [description (un_description u), display_union ''union '' u]"
| "display_type_definition (TEnum e) = run [description (en_description e), display_enum ''enum '' e]"
| "display_type_definition (TInputObject t) = run [description (io_description t), display_input_object ''input '' t]"

fun display_type_extension :: "type_extension \<Rightarrow> step" where
  "display_type_extension (XScalar s) = display_scalar ''extend scalar '' s"
| "display_type_extension (XObject t) = display_object ''extend type '' t"
| "display_type_extension (XInterface t) = display_object ''extend interface '' t"
| "display_type_extension (XUnion u) = display_union ''extend union '' u"
| "display_type_extension (XEnum e) = display_enum ''extend enum '' e"
| "display_type_extension (XInputObject t) = display_input_object ''extend input '' t"

definition display_directive_definition :: "directive_definition \<Rightarrow> step" where
  "display_directive_definition d = run [description (dd_description d), indent, emit ''directive @'',
     emit (dd_name d), format_input_arguments (dd_arguments d),
     if dd_repeatable d then emit '' repeatable'' else Some,
     if dd_locations d \<noteq> []
     then run [emit '' on '', separated '' | '' (map (\<lambda>l. emit (location_as_str l)) (dd_locations d))]
     else Some,
     endline]"

fun display_schema_item :: "schema_item \<Rightarrow> step" where
  "display_schema_item (SchemaDefinition s) = run [margin, display_schema_definition s]"
| "display_schema_item (TypeDefinition t) = run [margin, display_type_definition t]"
| "display_schema_item (TypeExtension e) = run [margin, display_type_extension e]"
| "display_schema_item (DirectiveDefinition d) = run [margin, display_directive_definition d]"

definition display_schema_document :: "schema_document \<Rightarrow> step" where
  "display_schema_document doc = run (map display_schema_item doc)"

definition format_schema_document :: "style \<Rightarrow> schema_document \<Rightarrow> string option" where
  "format_schema_document st doc = format_with st (display_schema_document doc)"

section \<open>Every document prints\<close>

lemma steady_runI: "\<forall>s \<in> set ss. steady s \<Longrightarrow> steady (run ss)"
  by (rule steady_run) simp

lemma steady_block_items [steady_steps]: "\<forall>s \<in> set items. steady s \<Longrightarrow> steady (block items)"
  unfolding block_def by (intro steady_block steady_runI)

lemma steady_opt [steady_steps]: "(\<And>v. steady (f v)) \<Longrightarrow> steady (opt_step x f)"
  by (cases x) (simp_all add: opt_step_def steady_skip)

lemma steady_separated [steady_steps]: "\<forall>s \<in> set items. steady s \<Longrightarrow> steady (separated sep items)"
  by (cases items) (simp_all add: separated_def steady_runI steady_steps)

lemma steady_pair: "steady s \<Longrightarrow> steady t \<Longrightarrow> steady (run [s, t])"
  by (rule steady_run) auto

lemma steady_type_condition [steady_steps]: "steady (type_condition c)"
  unfolding type_condition_def by (intro steady_pair steady_emit)

lemma steady_selection [steady_steps]: "steady (display_selection s)"
proof (induction s rule: display_selection.induct)
  case (1 al name arguments directives items)
  then have "steady (block (map display_selection items))" by (intro steady_block_items) fastforce
  then show ?case by (simp add: steady_runI steady_steps)
next
  case (2 cond directives items)
  then have "steady (block (map display_selection items))" by (intro steady_block_items) fastforce
  then show ?case by (simp add: steady_runI steady_steps)
qed (simp add: steady_runI steady_steps)

lemma steady_selections [steady_steps]: "steady (block (map display_selection items))"
  by (intro steady_block_items) (auto simp: steady_selection)

lemma steady_variable [steady_steps]: "steady (display_variable v)"
  by (simp add: display_variable_def steady_runI steady_steps)

lemma steady_variables [steady_steps]: "steady (display_variables vs)"
  by (simp add: display_variables_def steady_runI steady_steps)

lemma steady_body [steady_steps]: "steady (display_body q)"
  by (simp add: display_body_def steady_runI steady_steps)

lemma steady_query [steady_steps]: "steady (display_query k q)"
  by (simp add: display_query_def steady_runI steady_steps)

lemma steady_subscription [steady_steps]: "steady (display_subscription q)"
  by (simp add: display_subscription_def steady_runI steady_steps)

lemma steady_operation [steady_steps]: "steady (display_operation op)"
  by (cases op) (simp_all add: display_selection_set_def steady_runI steady_steps)

lemma steady_definition [steady_steps]: "steady (display_definition d)"
  by (cases d) (simp_all add: display_fragment_def steady_runI steady_steps)

lemma steady_query_document: "steady (display_query_document doc)"
  by (simp add: display_query_document_def steady_runI steady_steps)

lemma steady_description [steady_steps]: "steady (description d)"
  by (simp add: description_def steady_runI steady_steps)

lemma steady_named_root [steady_steps]: "steady (named_root k t)"
  by (simp add: named_root_def steady_runI steady_steps)

lemma steady_input_value [steady_steps]: "steady (display_input_value v)"
  by (simp add: display_input_value_def steady_runI steady_steps)

lemma steady_input_arguments [steady_steps]: "steady (format_input_arguments args)"
  by (simp add: format_input_arguments_def steady_runI steady_steps)

lemma steady_field [steady_steps]: "steady (display_field f)"
  by (simp add: display_field_def steady_runI steady_steps)

lemma steady_fields [steady_steps]: "steady (format_fields fs)"
  by (simp add: format_fields_def steady_runI steady_steps)

lemma steady_inputs [steady_steps]: "steady (format_inputs fs)"
  by (simp add: format_inputs_def steady_runI steady_steps)

lemma steady_implements [steady_steps]: "steady (display_implements ns)"
  by (simp add: display_implements_def steady_runI steady_steps)

lemma steady_enum_value [steady_steps]: "steady (display_enum_value v)"
  by (simp add: display_enum_value_def steady_runI steady_steps)

lemma steady_scalar [steady_steps]: "steady (display_scalar k s)"
  by (simp add: display_scalar_def steady_runI steady_steps)

lemma steady_object [steady_steps]: "steady (display_object k t)"
  by (simp add: display_object_def steady_runI steady_steps)

lemma steady_union [steady_steps]: "steady (display_union k u)"
  by (simp add: display_union_def steady_runI steady_steps)

lemma steady_enum [steady_steps]: "steady (display_enum k e)"
  by (simp add: display_enum_def steady_runI steady_steps)

lemma steady_input_object [steady_steps]: "steady (display_input_object k t)"
  by (simp add: display_input_object_def steady_runI steady_steps)

lemma steady_type_definition [steady_steps]: "steady (display_type_definition t)"
  by (cases t) (simp_all add: steady_runI steady_steps)

lemma steady_type_extension [steady_steps]: "steady (display_type_extension t)"
  by (cases t) (simp_all add: steady_steps)

lemma steady_schema_definition [steady_steps]: "steady (display_schema_definition s)"
  by (simp add: display_schema_definition_def steady_runI steady_steps)

lemma steady_directive_definition [steady_steps]: "steady (display_directive_definition d)"
  by (simp add: display_directive_definition_def steady_runI steady_steps)

lemma steady_schema_item [steady_steps]: "steady (display_schema_item i)"
  by (cases i) (simp_all add: steady_runI steady_steps)

lemma steady_schema_document: "steady (display_schema_document doc)"
  by (simp add: display_schema_document_def steady_runI steady_steps)

lemma format_with_steady: "steady s \<Longrightarrow> \<exists>t. format_with st s = Some t"
  unfolding format_with_def by (erule steadyE [of s "new_formatter st"]) simp

section \<open>Properties\<close>

text \<open>
  Printing never panics: every query document and every schema document has a text in every
  style, so the \<^verbatim>\<open>negative indent\<close> check of \<^verbatim>\<open>dec_indent\<close> is never hit.
\<close>

theorem documents_print:
  "(\<exists>t. format_query_document st doc = Some t) \<and> (\<exists>t. format_schema_document st sdoc = Some t)"
  unfolding format_query_document_def format_schema_document_def
  by (simp add: format_with_steady steady_query_document steady_schema_document)

text \<open>
  Printing is compositional: the text of a document is appended to what the formatter holds,
  at the indentation it holds, and indentation and style are as before.
\<close>

theorem display_appends:
  "\<exists>t u. display_query_document doc f = Some (f\<lparr>f_buf := f_buf f @ t\<rparr>)
    \<and> display_schema_document sdoc f = Some (f\<lparr>f_buf := f_buf f @ u\<rparr>)"
  using steadyE [OF steady_query_document] steadyE [OF steady_schema_document] by metis

text \<open>
  An unnamed subscription prints without its variables: documents that differ in them print
  the same, so the text cannot be read back.
\<close>

theorem unnamed_subscription_drops_variables:
  "format_query_document st [Operation (Subscription (q\<lparr>op_name := None, op_variables := vs\<rparr>))]
   = format_query_document st [Operation (Subscription (q\<lparr>op_name := None, op_variables := vs'\<rparr>))]"
  by (simp add: format_query_document_def display_query_document_def display_subscription_def
      display_body_def opt_step_def)

end
