(* ===== verification/Database_Types.thy ===== *)
theory Database_Types
  imports Ast
begin

text \<open>
  \<^verbatim>\<open>fuel-indexer-database/database-types/src\<close>: the column types of the indexer and their
  numbering, the rows of the registry tables, columns, indices and foreign keys with the SQL that
  creates them, and the one-time nonces of the login.
\<close>

section \<open>Column types\<close>

datatype column_type =
    CtID | CtAddress | CtAssetId | CtBytes4 | CtBytes8 | CtBytes32 | CtContractId | CtSalt
  | CtInt4 | CtInt8 | CtUInt4 | CtUInt8 | CtTimestamp | CtBlob | CtForeignKey | CtJson
  | CtMessageId | CtCharfield | CtIdentity | CtBoolean | CtObject | CtUInt16 | CtInt16

fun column_type_number :: "column_type \<Rightarrow> int" where
  "column_type_number CtID = 0"
| "column_type_number CtAddress = 1"
| "column_type_number CtAssetId = 2"
| "column_type_number CtBytes4 = 3"
| "column_type_number CtBytes8 = 4"
| "column_type_number CtBytes32 = 5"
| "column_type_number CtContractId = 6"
| "column_type_number CtSalt = 7"
| "column_type_number CtInt4 = 8"
| "column_type_number CtInt8 = 9"
| "column_type_number CtUInt4 = 10"
| "column_type_number CtUInt8 = 11"
| "column_type_number CtTimestamp = 12"
| "column_type_number CtBlob = 13"
| "column_type_number CtForeignKey = 14"
| "column_type_number CtJson = 15"
| "column_type_number CtMessageId = 16"
| "column_type_number CtCharfield = 17"
| "column_type_number CtIdentity = 18"
| "column_type_number CtBoolean = 19"
| "column_type_number CtObject = 20"
| "column_type_number CtUInt16 = 21"
| "column_type_number CtInt16 = 22"

definition column_type_of_number :: "int \<Rightarrow> (column_type, 'e) result" where
  "column_type_of_number n =
     (if n = 0 then Inr CtID
      else if n = 1 then Inr CtAddress
      else if n = 2 then Inr CtAssetId
      else if n = 3 then Inr CtBytes4
      else if n = 4 then Inr CtBytes8
      else if n = 5 then Inr CtBytes32
      else if n = 6 then Inr CtContractId
      else if n = 7 then Inr CtSalt
      else if n = 8 then Inr CtInt4
      else if n = 9 then Inr CtInt8
      else if n = 10 then Inr CtUInt4
      else if n = 11 then Inr CtUInt8
      else if n = 12 then Inr CtTimestamp
      else if n = 13 then Inr CtBlob
      else if n = 14 then Inr CtForeignKey
      else if n = 15 then Inr CtJson
      else if n = 16 then Inr CtMessageId
      else if n = 17 then Inr CtCharfield
      else if n = 18 then Inr CtIdentity
      else if n = 19 then Inr CtBoolean
      else if n = 20 then Inr CtObject
      else if n = 21 then Inr CtInt16
      else if n = 22 then Inr CtUInt16
      else Inl (Panic ''Invalid column type.''))"

text \<open>The derived \<^verbatim>\<open>Debug\<close> text, which is also the \<^verbatim>\<open>Display\<close> text.\<close>

fun column_type_name :: "column_type \<Rightarrow> string" where
  "column_type_name CtID = ''ID''"
| "column_type_name CtAddress = ''Address''"
| "column_type_name CtAssetId = ''AssetId''"
| "column_type_name CtBytes4 = ''Bytes4''"
| "column_type_name CtBytes8 = ''Bytes8''"
| "column_type_name CtBytes32 = ''Bytes32''"
| "column_type_name CtContractId = ''ContractId''"
| "column_type_name CtSalt = ''Salt''"
| "column_type_name CtInt4 = ''Int4''"
| "column_type_name CtInt8 = ''Int8''"
| "column_type_name CtUInt4 = ''UInt4''"
| "column_type_name CtUInt8 = ''UInt8''"
| "column_type_name CtTimestamp = ''Timestamp''"
| "column_type_name CtBlob = ''Blob''"
| "column_type_name CtForeignKey = ''ForeignKey''"
| "column_type_name CtJson = ''Json''"
| "column_type_name CtMessageId = ''MessageId''"
| "column_type_name CtCharfield = ''Charfield''"
| "column_type_name CtIdentity = ''Identity''"
| "column_type_name CtBoolean = ''Boolean''"
| "column_type_name CtObject = ''Object''"
| "column_type_name CtUInt16 = ''UInt16''"
| "column_type_name CtInt16 = ''Int16''"

definition column_type_of_name :: "string \<Rightarrow> (column_type, 'e) result" where
  "column_type_of_name s =
     (if s = ''ID'' then Inr CtID
      else if s = ''Address'' then Inr CtAddress
      else if s = ''AssetId'' then Inr CtAssetId
      else if s = ''Bytes4'' then Inr CtBytes4
      else if s = ''Bytes8'' then Inr CtBytes8
      else if s = ''Bytes32'' then Inr CtBytes32
      else if s = ''ContractId'' then Inr CtContractId
      else if s = ''Salt'' then Inr CtSalt
      else if s = ''Int4'' then Inr CtInt4
      else if s = ''Int8'' then Inr CtInt8
      else if s = ''UInt4'' then Inr CtUInt4
      else if s = ''UInt8'' then Inr CtUInt8
      else if s = ''Timestamp'' then Inr CtTimestamp
      else if s = ''Blob'' then Inr CtBlob
      else if s = ''ForeignKey'' then Inr CtForeignKey
      else if s = ''Json'' then Inr CtJson
      else if s = ''MessageId'' then Inr CtMessageId
      else if s = ''Charfield'' then Inr CtCharfield
      else if s = ''Identity'' then Inr CtIdentity
      else if s = ''Boolean'' then Inr CtBoolean
      else if s = ''Object'' then Inr CtObject
      else if s = ''UInt16'' then Inr CtUInt16
      else if s = ''Int16'' then Inr CtInt16
      else Inl (Panic (''Invalid column type: '' @ [CHR 0x27] @ s @ [CHR 0x27])))"

lemma column_type_of_name_name [simp]: "column_type_of_name (column_type_name t) = Inr t"
  by (cases t) (simp_all add: column_type_of_name_def)

lemma column_type_of_name_Inr: "column_type_of_name s = Inr t \<Longrightarrow> s = column_type_name t"
  unfolding column_type_of_name_def by (auto split: if_splits)

section \<open>Columns\<close>

record new_column =
  nc_type_id :: int
  nc_position :: int
  nc_name :: string
  nc_type :: string
  nc_nullable :: bool
  nc_graphql_type :: string
  nc_unique :: bool

fun sql_type_text :: "column_type \<Rightarrow> (string, 'e) result" where
  "sql_type_text CtID = Inr ''numeric(20, 0) primary key''"
| "sql_type_text CtAddress = Inr ''varchar(64)''"
| "sql_type_text CtBytes4 = Inr ''varchar(8)''"
| "sql_type_text CtBytes8 = Inr ''varchar(16)''"
| "sql_type_text CtBytes32 = Inr ''varchar(64)''"
| "sql_type_text CtAssetId = Inr ''varchar(64)''"
| "sql_type_text CtContractId = Inr ''varchar(64)''"
| "sql_type_text CtSalt = Inr ''varchar(64)''"
| "sql_type_text CtInt4 = Inr ''integer''"
| "sql_type_text CtInt8 = Inr ''bigint''"
| "sql_type_text CtInt16 = Inr ''numeric(39, 0)''"
| "sql_type_text CtUInt4 = Inr ''integer''"
| "sql_type_text CtUInt8 = Inr ''numeric(20, 0)''"
| "sql_type_text CtUInt16 = Inr ''numeric(39, 0)''"
| "sql_type_text CtTimestamp = Inr ''timestamp''"
| "sql_type_text CtObject = Inr ''bytea''"
| "sql_type_text CtBlob = Inr ''varchar(10485760)''"
| "sql_type_text CtForeignKey = Inl (Panic ''ForeignKey ColumnType is a reference type only.'')"
| "sql_type_text CtJson = Inr ''Json''"
| "sql_type_text CtMessageId = Inr ''varchar(64)''"
| "sql_type_text CtCharfield = Inr ''varchar(255)''"
| "sql_type_text CtIdentity = Inr ''varchar(66)''"
| "sql_type_text CtBoolean = Inr ''boolean''"

definition sql_type :: "new_column \<Rightarrow> (string, 'e) result" where
  "sql_type c = rbind (column_type_of_name (nc_type c)) sql_type_text"

definition sql_fragment :: "new_column \<Rightarrow> (string, 'e) result" where
  "sql_fragment c =
     rbind (sql_type c) (\<lambda>t.
     Inr (trim (nc_name c @ '' '' @ t @ '' '' @ (if nc_nullable c then [] else ''not null'') @ '' ''
       @ (if nc_unique c then ''unique'' else []))))"

lemma sql_fragment_Inr:
  "(\<exists>s. sql_fragment c = (Inr s :: (string, 'e) result)) \<longleftrightarrow>
    (\<exists>t. nc_type c = column_type_name t \<and> t \<noteq> CtForeignKey)"
proof -
  have typed: "(\<exists>s. sql_type_text t = (Inr s :: (string, 'e) result)) \<longleftrightarrow> t \<noteq> CtForeignKey" for t
    by (cases t) auto
  show ?thesis
  proof
    assume "\<exists>s. sql_fragment c = (Inr s :: (string, 'e) result)"
    then obtain t s where t: "column_type_of_name (nc_type c) = (Inr t :: (column_type, 'e) result)"
      and "sql_type_text t = (Inr s :: (string, 'e) result)"
      by (auto simp: sql_fragment_def sql_type_def)
    with typed column_type_of_name_Inr [OF t]
    show "\<exists>t. nc_type c = column_type_name t \<and> t \<noteq> CtForeignKey" by blast
  next
    assume "\<exists>t. nc_type c = column_type_name t \<and> t \<noteq> CtForeignKey"
    then obtain t s where "nc_type c = column_type_name t"
      "sql_type_text t = (Inr s :: (string, 'e) result)" using typed by blast
    then show "\<exists>s. sql_fragment c = (Inr s :: (string, 'e) result)"
      by (simp add: sql_fragment_def sql_type_def)
  qed
qed

section \<open>Indices and foreign keys\<close>

datatype index_method = Btree | Hash

fun index_method_text :: "index_method \<Rightarrow> string" where
  "index_method_text Btree = ''btree''"
| "index_method_text Hash = ''hash''"

record join_info =
  ji_reference_field_name :: string
  ji_field_name :: string
  ji_field_type_name :: string
  ji_object_name :: string
  ji_reference_field_type_name :: string

record column_index =
  ci_table :: string
  ci_namespace :: string
  ci_method :: index_method
  ci_unique :: bool
  ci_column :: string

definition index_name :: "column_index \<Rightarrow> string" where
  "index_name i = ci_table i @ ''_'' @ ci_column i @ ''_idx''"

definition index_create_statement :: "column_index \<Rightarrow> string" where
  "index_create_statement i =
     ''CREATE '' @ (if ci_unique i then ''UNIQUE '' else []) @ ''INDEX '' @ index_name i @ '' ON ''
     @ ci_namespace i @ ''.'' @ ci_table i @ '' USING '' @ index_method_text (ci_method i)
     @ '' ('' @ ci_column i @ '');''"

datatype on_delete = NoAction | Cascade | SetNull

fun on_delete_text :: "on_delete \<Rightarrow> string" where
  "on_delete_text NoAction = ''NO ACTION''"
| "on_delete_text Cascade = ''CASCADE''"
| "on_delete_text SetNull = ''SET NULL''"

record foreign_key =
  fk_namespace :: string
  fk_table :: string
  fk_column :: string
  fk_reference_table :: string
  fk_reference_column :: string
  fk_reference_type :: string
  fk_on_delete :: on_delete

definition foreign_key_new ::
    "string \<Rightarrow> string \<Rightarrow> string \<Rightarrow> string \<Rightarrow> string \<Rightarrow> string \<Rightarrow> foreign_key" where
  "foreign_key_new ns tbl col rtbl rcol rtype =
     \<lparr>fk_namespace = ns, fk_table = tbl, fk_column = col, fk_reference_table = rtbl,
      fk_reference_column = rcol, fk_reference_type = rtype, fk_on_delete = NoAction\<rparr>"

definition foreign_key_name :: "foreign_key \<Rightarrow> string" where
  "foreign_key_name f = ''fk_'' @ fk_table f @ ''_'' @ fk_column f @ ''__''
     @ fk_reference_table f @ ''_'' @ fk_reference_column f"

text \<open>\<^verbatim>\<open>OnUpdate\<close> has the one value \<^verbatim>\<open>NO ACTION\<close>.\<close>

definition foreign_key_create_statement :: "foreign_key \<Rightarrow> string" where
  "foreign_key_create_statement f =
     ''ALTER TABLE '' @ fk_namespace f @ ''.'' @ fk_table f @ '' ADD CONSTRAINT '' @ foreign_key_name f
     @ '' FOREIGN KEY ('' @ fk_column f @ '') REFERENCES '' @ fk_namespace f @ ''.'' @ fk_reference_table f
     @ ''('' @ fk_reference_column f @ '') ON DELETE '' @ on_delete_text (fk_on_delete f)
     @ '' ON UPDATE NO ACTION INITIALLY DEFERRED;''"

definition db_table_name :: "string \<Rightarrow> string \<Rightarrow> string" where
  "db_table_name ns tbl = ns @ ''.'' @ tbl"

section \<open>Rows of the registry\<close>

record root_column =
  rc_id :: int
  rc_root_id :: int
  rc_column_name :: string
  rc_graphql_type :: string

record graph_root =
  gr_id :: int
  gr_version :: string
  gr_schema_name :: string
  gr_schema_identifier :: string
  gr_query :: string
  gr_schema :: string

record type_id_row =
  ti_id :: int
  ti_schema_version :: string
  ti_schema_name :: string
  ti_schema_identifier :: string
  ti_graphql_name :: string
  ti_table_name :: string

record column_row =
  co_id :: int
  co_type_id :: int
  co_position :: int
  co_name :: string
  co_type :: string
  co_nullable :: bool
  co_graphql_type :: string

record column_info =
  cf_type_id :: int
  cf_table_name :: string
  cf_position :: int
  cf_name :: string
  cf_type :: string

datatype asset_type = Wasm | Manifest | Schema

type_synonym bytes = "8 word list"

record index_asset =
  as_id :: int
  as_index_id :: int
  as_version :: int
  as_digest :: string
  as_bytes :: bytes

record asset_bundle =
  ab_schema :: index_asset
  ab_manifest :: index_asset
  ab_wasm :: index_asset

record registered_index =
  ri_id :: int
  ri_namespace :: string
  ri_identifier :: string
  ri_pubkey :: "string option"

definition index_uid :: "registered_index \<Rightarrow> string" where
  "index_uid i = ri_namespace i @ ''.'' @ ri_identifier i"

record nonce =
  no_uid :: string
  no_expiry :: int

text \<open>The clock is read by the caller: seconds since the epoch.\<close>

definition nonce_is_expired :: "int \<Rightarrow> nonce \<Rightarrow> bool" where
  "nonce_is_expired now n \<longleftrightarrow> now \<ge> no_expiry n"

section \<open>Properties\<close>

text \<open>
  Column types survive a trip through their names, but not through their numbers: 21 and 22
  are swapped on the way back, so a stored \<^verbatim>\<open>UInt16\<close> is read as \<^verbatim>\<open>Int16\<close> and conversely.
\<close>

theorem column_type_roundtrips:
  "column_type_of_name (column_type_name t) = (Inr t :: (column_type, 'e) result)
   \<and> column_type_of_number (column_type_number t) = (Inr (if t = CtUInt16 then CtInt16
        else if t = CtInt16 then CtUInt16 else t) :: (column_type, 'e) result)"
  by (cases t) (simp_all add: column_type_of_name_def column_type_of_number_def)

end
