(* ===== verification/Registry.thy ===== *)
theory Registry
  imports Database_Types
begin

text \<open>
  \<^verbatim>\<open>fuel-indexer-database/postgres/src/lib.rs\<close>: the queries on the registry tables, as
  operations on the tables' rows. Postgres is the state they act on: the tables of the migrations
  with their keys and length limits, one sequence per generated id, and the transaction of the
  connection. A failed statement aborts an open transaction until it is rolled back; a committed
  aborted transaction is rolled back; sequences are never rolled back. Rows without \<^verbatim>\<open>ORDER BY\<close>
  come in insertion order. The digest (SHA-256 in hexadecimal) is an argument.
\<close>

section \<open>The database state\<close>

datatype sql_error =
    RowNotFound
  | UniqueViolation
  | ForeignKeyViolation
  | ValueTooLong
  | SyntaxError
  | TransactionAborted

record nonce_row =
  nr_id :: int
  nr_nonce :: nonce

record tables =
  tb_roots :: "graph_root list"
  tb_root_columns :: "root_column list"
  tb_type_ids :: "type_id_row list"
  tb_columns :: "column_row list"
  tb_indexes :: "registered_index list"
  tb_assets :: "asset_type \<Rightarrow> index_asset list"
  tb_nonces :: "nonce_row list"
  tb_executed :: "string list"

datatype sequence = SqRoots | SqRootColumns | SqColumns | SqIndexes | SqAssets asset_type | SqNonces

record database =
  db_tables :: tables
  db_seq :: "sequence \<Rightarrow> int"
  db_saved :: "tables option"
  db_aborted :: bool

definition empty_tables :: tables where
  "empty_tables = \<lparr>tb_roots = [], tb_root_columns = [], tb_type_ids = [], tb_columns = [],
     tb_indexes = [], tb_assets = (\<lambda>_. []), tb_nonces = [], tb_executed = []\<rparr>"

definition empty_database :: database where
  "empty_database = \<lparr>db_tables = empty_tables, db_seq = (\<lambda>_. 1), db_saved = None, db_aborted = False\<rparr>"

type_synonym 'a db = "database \<Rightarrow> ('a, sql_error) result \<times> database"

definition dret :: "'a \<Rightarrow> 'a db" where
  "dret x d = (Inr x, d)"

definition dfail :: "sql_error \<Rightarrow> 'a db" where
  "dfail e d = (Inl (Err e), d)"

definition dpanic :: "string \<Rightarrow> 'a db" where
  "dpanic m d = (Inl (Panic m), d)"

definition dbind :: "'a db \<Rightarrow> ('a \<Rightarrow> 'b db) \<Rightarrow> 'b db" where
  "dbind m f d = (case m d of (Inl e, d') \<Rightarrow> (Inl e, d') | (Inr x, d') \<Rightarrow> f x d')"

text \<open>A fallible computation without database access, and a loop over a list.\<close>

definition dlift :: "('a, sql_error) result \<Rightarrow> 'a db" where
  "dlift r d = (r, d)"

fun dfor :: "'x list \<Rightarrow> ('x \<Rightarrow> unit db) \<Rightarrow> unit db" where
  "dfor [] f = dret ()"
| "dfor (x # xs) f = dbind (f x) (\<lambda>_. dfor xs f)"

text \<open>A statement on the tables and the sequences: it fails without effect in an aborted transaction.\<close>

type_synonym 'a statement = "tables \<Rightarrow> (sequence \<Rightarrow> int) \<Rightarrow> sql_error + ('a \<times> tables \<times> (sequence \<Rightarrow> int))"

definition statement :: "'a statement \<Rightarrow> 'a db" where
  "statement f d =
     (if db_aborted d then (Inl (Err TransactionAborted), d)
      else case f (db_tables d) (db_seq d) of
        Inl e \<Rightarrow> (Inl (Err e), d\<lparr>db_aborted := db_saved d \<noteq> None\<rparr>)
      | Inr (x, t, s) \<Rightarrow> (Inr x, d\<lparr>db_tables := t, db_seq := s\<rparr>))"

definition select :: "(tables \<Rightarrow> 'a) \<Rightarrow> 'a db" where
  "select f = statement (\<lambda>t s. Inr (f t, t, s))"

text \<open>\<^verbatim>\<open>fetch_one\<close>: no row is an error of the client, which leaves the transaction alone.\<close>

definition select_one :: "(tables \<Rightarrow> 'a list) \<Rightarrow> 'a db" where
  "select_one f = dbind (select f) (\<lambda>rows. case rows of [] \<Rightarrow> dfail RowNotFound | r # _ \<Rightarrow> dret r)"

definition update :: "(tables \<Rightarrow> tables) \<Rightarrow> unit db" where
  "update f = statement (\<lambda>t s. Inr ((), f t, s))"

definition fits :: "nat \<Rightarrow> string \<Rightarrow> bool" where
  "fits n s \<longleftrightarrow> length s \<le> n"

text \<open>\<^verbatim>\<open>ORDER BY id DESC\<close>.\<close>

definition by_id_desc :: "('a \<Rightarrow> int) \<Rightarrow> 'a list \<Rightarrow> 'a list" where
  "by_id_desc f xs = sort_key (\<lambda>x. - f x) xs"

section \<open>Raw statements and transactions\<close>

text \<open>
  A raw statement (the DDL of the schema builder) is logged. How Postgres answers it, given what
  it executed before, is the argument \<open>ddl\<close>.
\<close>

definition execute_query :: "(string list \<Rightarrow> string \<Rightarrow> sql_error option) \<Rightarrow> string \<Rightarrow> unit db" where
  "execute_query ddl q = statement (\<lambda>t s. case ddl (tb_executed t) q of
     Some e \<Rightarrow> Inl e
   | None \<Rightarrow> Inr ((), t\<lparr>tb_executed := tb_executed t @ [q]\<rparr>, s))"

text \<open>A nested \<^verbatim>\<open>BEGIN\<close> only warns.\<close>

definition start_transaction :: "unit db" where
  "start_transaction d =
     (if db_aborted d then (Inl (Err TransactionAborted), d)
      else (Inr (), if db_saved d = None then d\<lparr>db_saved := Some (db_tables d)\<rparr> else d))"

definition revert_transaction :: "unit db" where
  "revert_transaction d =
     (Inr (), case db_saved d of None \<Rightarrow> d
        | Some t \<Rightarrow> d\<lparr>db_tables := t, db_saved := None, db_aborted := False\<rparr>)"

definition commit_transaction :: "unit db" where
  "commit_transaction d =
     (if db_aborted d then revert_transaction d else (Inr (), d\<lparr>db_saved := None\<rparr>))"

section \<open>Graph roots, types and columns\<close>

definition root_columns_list_by_id :: "int \<Rightarrow> root_column list db" where
  "root_columns_list_by_id root_id =
     select (\<lambda>t. filter (\<lambda>c. rc_root_id c = root_id) (tb_root_columns t))"

text \<open>Inserting no row at all is not SQL.\<close>

definition new_root_columns :: "(int \<times> string \<times> string) list \<Rightarrow> unit db" where
  "new_root_columns cols = statement (\<lambda>t s.
     if cols = [] then Inl SyntaxError
     else if \<not> list_all (\<lambda>(_, n, ty). fits 32 n \<and> fits 32 ty) cols then Inl ValueTooLong
     else if \<not> list_all (\<lambda>(r, _, _). r \<in> gr_id ` set (tb_roots t)) cols then Inl ForeignKeyViolation
     else Inr ((), t\<lparr>tb_root_columns := tb_root_columns t
            @ map (\<lambda>(i, r, n, ty). \<lparr>rc_id = i, rc_root_id = r, rc_column_name = n, rc_graphql_type = ty\<rparr>)
                (zip (map (\<lambda>k. s SqRootColumns + int k) [0..<length cols]) cols)\<rparr>,
          s(SqRootColumns := s SqRootColumns + int (length cols))))"

definition new_graph_root :: "graph_root \<Rightarrow> unit db" where
  "new_graph_root r = statement (\<lambda>t s.
     if \<not> fits 255 (gr_schema_identifier r) then Inl ValueTooLong
     else if list_ex (\<lambda>q. gr_version q = gr_version r \<and> gr_schema_name q = gr_schema_name r
         \<and> gr_schema_identifier q = gr_schema_identifier r) (tb_roots t) then Inl UniqueViolation
     else Inr ((), t\<lparr>tb_roots := tb_roots t @ [r\<lparr>gr_id := s SqRoots\<rparr>]\<rparr>, s(SqRoots := s SqRoots + 1)))"

definition graph_root_latest :: "string \<Rightarrow> string \<Rightarrow> graph_root db" where
  "graph_root_latest ns ident = select_one (\<lambda>t. by_id_desc gr_id
     (filter (\<lambda>r. gr_schema_name r = ns \<and> gr_schema_identifier r = ident) (tb_roots t)))"

definition type_id_list_by_name :: "string \<Rightarrow> string \<Rightarrow> string \<Rightarrow> type_id_row list db" where
  "type_id_list_by_name ns version ident = select (\<lambda>t. filter (\<lambda>r. ti_schema_name r = ns
     \<and> ti_schema_version r = version \<and> ti_schema_identifier r = ident) (tb_type_ids t))"

definition type_id_latest :: "string \<Rightarrow> string \<Rightarrow> string db" where
  "type_id_latest ns ident = select_one (\<lambda>t. map ti_schema_version (sort_key ti_id
     (filter (\<lambda>r. ti_schema_name r = ns \<and> ti_schema_identifier r = ident) (tb_type_ids t))))"

definition type_id_fits :: "type_id_row \<Rightarrow> bool" where
  "type_id_fits r \<longleftrightarrow> fits 512 (ti_schema_version r) \<and> fits 32 (ti_schema_name r)
     \<and> fits 255 (ti_schema_identifier r) \<and> fits 32 (ti_graphql_name r) \<and> fits 32 (ti_table_name r)"

definition type_id_insert :: "type_id_row list \<Rightarrow> unit db" where
  "type_id_insert rows = statement (\<lambda>t s.
     if rows = [] then Inl SyntaxError
     else if \<not> list_all type_id_fits rows then Inl ValueTooLong
     else if \<not> distinct (map ti_id (tb_type_ids t @ rows)) then Inl UniqueViolation
     else Inr ((), t\<lparr>tb_type_ids := tb_type_ids t @ rows\<rparr>, s))"

definition schema_exists :: "string \<Rightarrow> string \<Rightarrow> string \<Rightarrow> bool db" where
  "schema_exists ns ident version = select (\<lambda>t. length (filter (\<lambda>r. ti_schema_name r = ns
     \<and> ti_schema_identifier r = ident \<and> ti_schema_version r = version) (tb_type_ids t)) > 0)"

definition column_of :: "int \<Rightarrow> new_column \<Rightarrow> column_row" where
  "column_of i c = \<lparr>co_id = i, co_type_id = nc_type_id c, co_position = nc_position c,
     co_name = nc_name c, co_type = nc_type c, co_nullable = nc_nullable c,
     co_graphql_type = nc_graphql_type c\<rparr>"

definition new_column_insert :: "new_column list \<Rightarrow> unit db" where
  "new_column_insert cols = statement (\<lambda>t s.
     if cols = [] then Inl SyntaxError
     else if \<not> list_all (\<lambda>c. fits 32 (nc_name c) \<and> fits 32 (nc_type c)) cols then Inl ValueTooLong
     else if \<not> list_all (\<lambda>c. nc_type_id c \<in> ti_id ` set (tb_type_ids t)) cols then Inl ForeignKeyViolation
     else Inr ((), t\<lparr>tb_columns := tb_columns t
            @ map (\<lambda>(i, c). column_of i c) (zip (map (\<lambda>k. s SqColumns + int k) [0..<length cols]) cols)\<rparr>,
          s(SqColumns := s SqColumns + int (length cols))))"

definition list_column_by_id :: "int \<Rightarrow> column_row list db" where
  "list_column_by_id type_id = select (\<lambda>t. filter (\<lambda>c. co_type_id c = type_id) (tb_columns t))"

text \<open>The join of the types of one schema with their columns, by type and position.\<close>

definition columns_get_schema :: "string \<Rightarrow> string \<Rightarrow> string \<Rightarrow> column_info list db" where
  "columns_get_schema ns ident version = select (\<lambda>t.
     sort_key cf_type_id (sort_key cf_position
       (concat (map (\<lambda>r. map (\<lambda>c. \<lparr>cf_type_id = co_type_id c, cf_table_name = ti_table_name r,
             cf_position = co_position c, cf_name = co_name c, cf_type = co_type c\<rparr>)
           (filter (\<lambda>c. co_type_id c = ti_id r) (tb_columns t)))
         (filter (\<lambda>r. ti_schema_name r = ns \<and> ti_schema_identifier r = ident \<and> ti_schema_version r = version)
           (tb_type_ids t))))))"

section \<open>Registered indexers and their assets\<close>

definition find_index :: "tables \<Rightarrow> string \<Rightarrow> string \<Rightarrow> registered_index option" where
  "find_index t ns ident = find (\<lambda>i. ri_namespace i = ns \<and> ri_identifier i = ident) (tb_indexes t)"

definition index_is_registered :: "string \<Rightarrow> string \<Rightarrow> registered_index option db" where
  "index_is_registered ns ident = select (\<lambda>t. find_index t ns ident)"

definition insert_index :: "string \<Rightarrow> string \<Rightarrow> string option \<Rightarrow> registered_index db" where
  "insert_index ns ident pubkey = statement (\<lambda>t s.
     let row = \<lparr>ri_id = s SqIndexes, ri_namespace = ns, ri_identifier = ident, ri_pubkey = pubkey\<rparr>
     in if \<not> (fits 32 ns \<and> fits 32 ident \<and> (case pubkey of None \<Rightarrow> True | Some k \<Rightarrow> fits 255 k))
        then Inl ValueTooLong
        else if find_index t ns ident \<noteq> None then Inl UniqueViolation
        else Inr (row, t\<lparr>tb_indexes := tb_indexes t @ [row]\<rparr>, s(SqIndexes := s SqIndexes + 1)))"

definition register_index :: "string \<Rightarrow> string \<Rightarrow> string option \<Rightarrow> registered_index db" where
  "register_index ns ident pubkey =
     dbind (index_is_registered ns ident) (\<lambda>r.
       case r of Some index \<Rightarrow> dret index | None \<Rightarrow> insert_index ns ident pubkey)"

definition registered_indices :: "registered_index list db" where
  "registered_indices = select tb_indexes"

definition index_id_for :: "string \<Rightarrow> string \<Rightarrow> int db" where
  "index_id_for ns ident = select_one (\<lambda>t. map ri_id
     (filter (\<lambda>i. ri_namespace i = ns \<and> ri_identifier i = ident) (tb_indexes t)))"

text \<open>A query that fails counts zero assets.\<close>

definition index_asset_version :: "int \<Rightarrow> asset_type \<Rightarrow> int db" where
  "index_asset_version index_id ty d =
     (case select (\<lambda>t. int (length (filter (\<lambda>a. as_index_id a = index_id) (tb_assets t ty)))) d of
        (Inr n, d') \<Rightarrow> (Inr n, d')
      | (Inl _, d') \<Rightarrow> (Inr 0, d'))"

definition asset_already_exists ::
    "(bytes \<Rightarrow> string) \<Rightarrow> asset_type \<Rightarrow> bytes \<Rightarrow> int \<Rightarrow> index_asset option db" where
  "asset_already_exists digest ty bs index_id d =
     (case select_one (\<lambda>t. filter (\<lambda>a. as_index_id a = index_id \<and> as_digest a = digest bs) (tb_assets t ty)) d of
        (Inr a, d') \<Rightarrow> (Inr (Some a), d')
      | (Inl _, d') \<Rightarrow> (Inr None, d'))"

definition insert_asset ::
    "(bytes \<Rightarrow> string) \<Rightarrow> asset_type \<Rightarrow> int \<Rightarrow> bytes \<Rightarrow> int \<Rightarrow> index_asset db" where
  "insert_asset digest ty index_id bs version = statement (\<lambda>t s.
     let row = \<lparr>as_id = s (SqAssets ty), as_index_id = index_id, as_version = version,
                as_digest = digest bs, as_bytes = bs\<rparr>
     in if \<not> fits 64 (digest bs) then Inl ValueTooLong
        else if index_id \<notin> ri_id ` set (tb_indexes t) then Inl ForeignKeyViolation
        else Inr (row, t\<lparr>tb_assets := (tb_assets t)(ty := tb_assets t ty @ [row])\<rparr>,
          s(SqAssets ty := s (SqAssets ty) + 1)))"

text \<open>The second half of \<^verbatim>\<open>register_index_asset\<close>, once the indexer is known.\<close>

definition store_asset :: "(bytes \<Rightarrow> string) \<Rightarrow> asset_type \<Rightarrow> int \<Rightarrow> bytes \<Rightarrow> index_asset db" where
  "store_asset digest ty index_id bs =
     dbind (asset_already_exists digest ty bs index_id) (\<lambda>a.
       case a of
         Some asset \<Rightarrow> dret asset
       | None \<Rightarrow>
           dbind (index_asset_version index_id ty) (\<lambda>v.
           insert_asset digest ty index_id bs (v + 1)))"

definition register_index_asset ::
    "(bytes \<Rightarrow> string) \<Rightarrow> string \<Rightarrow> string \<Rightarrow> bytes \<Rightarrow> asset_type \<Rightarrow> string option \<Rightarrow> index_asset db" where
  "register_index_asset digest ns ident bs ty pubkey =
     dbind (index_is_registered ns ident) (\<lambda>r.
     dbind (case r of Some index \<Rightarrow> dret index | None \<Rightarrow> register_index ns ident pubkey) (\<lambda>index.
     store_asset digest ty (ri_id index) bs))"

definition assets_of :: "tables \<Rightarrow> asset_type \<Rightarrow> int \<Rightarrow> index_asset list" where
  "assets_of t ty index_id = by_id_desc as_id (filter (\<lambda>a. as_index_id a = index_id) (tb_assets t ty))"

definition latest_asset_for_index :: "int \<Rightarrow> asset_type \<Rightarrow> index_asset db" where
  "latest_asset_for_index index_id ty = select_one (\<lambda>t. assets_of t ty index_id)"

definition latest_assets_for_index :: "int \<Rightarrow> asset_bundle db" where
  "latest_assets_for_index index_id =
     dbind (latest_asset_for_index index_id Wasm) (\<lambda>w.
     dbind (latest_asset_for_index index_id Schema) (\<lambda>s.
     dbind (latest_asset_for_index index_id Manifest) (\<lambda>m.
     dret \<lparr>ab_schema = s, ab_manifest = m, ab_wasm = w\<rparr>)))"

definition penultimate_asset_for_index :: "string \<Rightarrow> string \<Rightarrow> asset_type \<Rightarrow> index_asset db" where
  "penultimate_asset_for_index ns ident ty =
     dbind (index_id_for ns ident) (\<lambda>index_id.
     select_one (\<lambda>t. drop 1 (assets_of t ty index_id)))"

definition delete_assets :: "asset_type \<Rightarrow> int \<Rightarrow> unit db" where
  "delete_assets ty index_id = update (\<lambda>t. t\<lparr>tb_assets := (tb_assets t)
     (ty := filter (\<lambda>a. as_index_id a \<noteq> index_id) (tb_assets t ty))\<rparr>)"

text \<open>Deleting an indexer cascades to its assets.\<close>

definition delete_index :: "int \<Rightarrow> unit db" where
  "delete_index index_id = update (\<lambda>t. t\<lparr>tb_indexes := filter (\<lambda>i. ri_id i \<noteq> index_id) (tb_indexes t),
     tb_assets := (\<lambda>ty. filter (\<lambda>a. as_index_id a \<noteq> index_id) (tb_assets t ty))\<rparr>)"

definition remove_indexer :: "string \<Rightarrow> string \<Rightarrow> unit db" where
  "remove_indexer ns ident =
     dbind (index_id_for ns ident) (\<lambda>index_id.
     dbind (delete_assets Wasm index_id) (\<lambda>_.
     dbind (delete_assets Manifest index_id) (\<lambda>_.
     dbind (delete_assets Schema index_id) (\<lambda>_.
     delete_index index_id))))"

definition remove_asset_by_version :: "int \<Rightarrow> int \<Rightarrow> asset_type \<Rightarrow> unit db" where
  "remove_asset_by_version index_id version ty = update (\<lambda>t. t\<lparr>tb_assets := (tb_assets t)
     (ty := filter (\<lambda>a. \<not> (as_index_id a = index_id \<and> as_version a = version)) (tb_assets t ty))\<rparr>)"

section \<open>Nonces\<close>

definition nonce_expiry :: int where
  "nonce_expiry = 3600"

text \<open>The fresh identifier (a random UUID) and the clock are arguments.\<close>

definition create_nonce :: "string \<Rightarrow> int \<Rightarrow> nonce db" where
  "create_nonce uid now = statement (\<lambda>t s.
     let n = \<lparr>no_uid = uid, no_expiry = now + nonce_expiry\<rparr>
     in if \<not> fits 64 uid then Inl ValueTooLong
        else if uid \<in> (\<lambda>r. no_uid (nr_nonce r)) ` set (tb_nonces t) then Inl UniqueViolation
        else Inr (n, t\<lparr>tb_nonces := tb_nonces t @ [\<lparr>nr_id = s SqNonces, nr_nonce = n\<rparr>]\<rparr>,
          s(SqNonces := s SqNonces + 1)))"

definition delete_nonce :: "nonce \<Rightarrow> unit db" where
  "delete_nonce n = update (\<lambda>t. t\<lparr>tb_nonces :=
     filter (\<lambda>r. no_uid (nr_nonce r) \<noteq> no_uid n) (tb_nonces t)\<rparr>)"

definition get_nonce :: "string \<Rightarrow> nonce db" where
  "get_nonce uid = select_one (\<lambda>t. map nr_nonce (filter (\<lambda>r. no_uid (nr_nonce r) = uid) (tb_nonces t)))"

end
