(* ===== verification/Registry_Laws.thy ===== *)
theory Registry_Laws
  imports Registry "HOL-Library.Multiset"
begin

text \<open>
  Laws of the registry: the interface of a store that is written at most once per key, which the
  indexer table and the asset tables provide, and the invariant of the tables that every
  operation keeps, rollbacks included.
\<close>

section \<open>Stores written once per key\<close>

text \<open>
  \<open>look\<close> finds the value of a key, \<open>ins\<close> registers a key and returns its value, \<open>live\<close> are the
  states in which statements run. A known key keeps its value, a new one can be found
  afterwards, and a failure loses nothing.
\<close>

locale write_once =
  fixes live :: "'s \<Rightarrow> bool"
    and look :: "'s \<Rightarrow> 'k \<Rightarrow> 'v option"
    and ins :: "'k \<Rightarrow> 's \<Rightarrow> ('v, 'e) result \<times> 's"
  assumes known: "live s \<Longrightarrow> look s k = Some v \<Longrightarrow> ins k s = (Inr v, s)"
    and created: "ins k s = (Inr v, s') \<Longrightarrow> live s' \<and> look s' k = Some v"
    and others: "ins k s = (r, s') \<Longrightarrow> look s k' = Some v \<Longrightarrow> look s' k' = Some v"
begin

text \<open>Registering a key twice gives the same value and changes nothing the second time.\<close>

lemma ins_twice:
  assumes "ins k s = (Inr v, s')"
  shows "ins k s' = (Inr v, s')"
  using created [OF assms] known by blast

text \<open>Registrations one after the other.\<close>

fun ins_all :: "'k list \<Rightarrow> 's \<Rightarrow> 's" where
  "ins_all [] s = s"
| "ins_all (k # ks) s = ins_all ks (snd (ins k s))"

lemma ins_all_keeps: "look s k = Some v \<Longrightarrow> look (ins_all ks s) k = Some v"
proof (induction ks arbitrary: s)
  case (Cons k' ks)
  then show ?case using others [of k' s "fst (ins k' s)" "snd (ins k' s)" k v] by simp
qed simp

lemma ins_all_value:
  assumes "ins k s = (Inr v, s')" and "live (ins_all ks s')"
  shows "ins k (ins_all ks s') = (Inr v, ins_all ks s')"
proof -
  from created [OF assms(1)] have "look (ins_all ks s') k = Some v" by (intro ins_all_keeps) simp
  with assms(2) show ?thesis by (rule known)
qed

end

section \<open>The monad\<close>

lemma dbind_Inr:
  "dbind m f d = (Inr y, d'') \<longleftrightarrow> (\<exists>x d'. m d = (Inr x, d') \<and> f x d' = (Inr y, d''))"
  by (cases "m d"; cases "fst (m d)") (auto simp: dbind_def)

lemma dret_simp [simp]: "dret x d = (Inr x, d)" by (simp add: dret_def)

lemma dfail_simp [simp]: "dfail e d = (Inl (Err e), d)" by (simp add: dfail_def)

lemma select_simp: "select f d = (if db_aborted d then (Inl (Err TransactionAborted), d) else (Inr (f (db_tables d)), d))"
  by (simp add: select_def statement_def)

lemma select_one_simp:
  "select_one f d = (if db_aborted d then (Inl (Err TransactionAborted), d)
     else case f (db_tables d) of [] \<Rightarrow> (Inl (Err RowNotFound), d) | r # _ \<Rightarrow> (Inr r, d))"
  by (auto simp: select_one_def dbind_def select_simp split: list.splits)

lemma update_simp:
  "update f d = (if db_aborted d then (Inl (Err TransactionAborted), d)
     else (Inr (), d\<lparr>db_tables := f (db_tables d)\<rparr>))"
  by (simp add: update_def statement_def)

definition live :: "database \<Rightarrow> bool" where
  "live d \<longleftrightarrow> \<not> db_aborted d"

section \<open>The indexer table is written once per indexer\<close>

definition look_index :: "database \<Rightarrow> string \<times> string \<Rightarrow> registered_index option" where
  "look_index d k = find_index (db_tables d) (fst k) (snd k)"

definition ins_index :: "string option \<Rightarrow> string \<times> string \<Rightarrow> registered_index db" where
  "ins_index pubkey k = register_index (fst k) (snd k) pubkey"

lemma find_append: "find P (xs @ ys) = (case find P xs of None \<Rightarrow> find P ys | Some x \<Rightarrow> Some x)"
  by (induction xs) auto

lemma register_index_cases:
  "register_index ns ident pubkey d =
    (if db_aborted d then (Inl (Err TransactionAborted), d)
     else case find_index (db_tables d) ns ident of
        Some i \<Rightarrow> (Inr i, d)
      | None \<Rightarrow> insert_index ns ident pubkey d)"
  by (auto simp: register_index_def dbind_def index_is_registered_def select_simp split: option.splits)

lemma insert_index_tables:
  assumes "insert_index ns ident pubkey d = (r, d')"
  shows "\<exists>rows. tb_indexes (db_tables d') = tb_indexes (db_tables d) @ rows \<and> tb_assets (db_tables d') = tb_assets (db_tables d)"
  using assms by (auto simp: insert_index_def statement_def Let_def split: if_splits)

lemma look_index_extends:
  assumes "tb_indexes (db_tables d') = tb_indexes (db_tables d) @ rows" "look_index d k = Some v"
  shows "look_index d' k = Some v"
  using assms by (simp add: look_index_def find_index_def find_append)

interpretation indexers: write_once live look_index "ins_index pubkey"
proof unfold_locales
  fix s k v assume "live s" "look_index s k = Some v"
  then show "ins_index pubkey k s = (Inr v, s)"
    by (simp add: live_def look_index_def ins_index_def register_index_cases)
next
  fix k s v s' assume "ins_index pubkey k s = (Inr v, s')"
  then show "live s' \<and> look_index s' k = Some v"
    by (auto simp: live_def look_index_def ins_index_def register_index_cases insert_index_def
        statement_def Let_def find_index_def find_append split: if_splits option.splits)
next
  fix k s r s' k' v assume r: "ins_index pubkey k s = (r, s')" and k': "look_index s k' = Some v"
  show "look_index s' k' = Some v"
  proof (cases "db_aborted s \<or> find_index (db_tables s) (fst k) (snd k) \<noteq> None")
    case True
    with r k' show ?thesis by (auto simp: ins_index_def register_index_cases split: if_splits)
  next
    case False
    with r have "insert_index (fst k) (snd k) pubkey s = (r, s')"
      by (auto simp: ins_index_def register_index_cases)
    from insert_index_tables [OF this] k' look_index_extends show ?thesis by blast
  qed
qed

section \<open>An asset table is written once per content\<close>

definition look_asset ::
    "(bytes \<Rightarrow> string) \<Rightarrow> database \<Rightarrow> asset_type \<times> int \<times> bytes \<Rightarrow> index_asset option" where
  "look_asset digest d k = (case k of (ty, index_id, bs) \<Rightarrow>
     find (\<lambda>a. as_index_id a = index_id \<and> as_digest a = digest bs) (tb_assets (db_tables d) ty))"

definition ins_asset :: "(bytes \<Rightarrow> string) \<Rightarrow> asset_type \<times> int \<times> bytes \<Rightarrow> index_asset db" where
  "ins_asset digest k = (case k of (ty, index_id, bs) \<Rightarrow> store_asset digest ty index_id bs)"

lemma filter_find: "(case filter P xs of [] \<Rightarrow> None | x # _ \<Rightarrow> Some x) = find P xs"
  by (induction xs) auto

lemma asset_already_exists_simp:
  "asset_already_exists digest ty bs index_id d =
    (Inr (if db_aborted d then None else look_asset digest d (ty, index_id, bs)), d)"
proof -
  let ?P = "\<lambda>a. as_index_id a = index_id \<and> as_digest a = digest bs"
  show ?thesis
    using filter_find [of ?P "tb_assets (db_tables d) ty"]
    by (auto simp: asset_already_exists_def select_one_simp look_asset_def split: list.splits)
qed

lemma index_asset_version_simp:
  "index_asset_version index_id ty d = (Inr (if db_aborted d then 0
     else int (length (filter (\<lambda>a. as_index_id a = index_id) (tb_assets (db_tables d) ty)))), d)"
  by (simp add: index_asset_version_def select_simp)

lemma store_asset_cases:
  "store_asset digest ty index_id bs d =
    (if db_aborted d then (Inl (Err TransactionAborted), d)
     else case look_asset digest d (ty, index_id, bs) of
        Some a \<Rightarrow> (Inr a, d)
      | None \<Rightarrow> insert_asset digest ty index_id bs
          (int (length (filter (\<lambda>a. as_index_id a = index_id) (tb_assets (db_tables d) ty))) + 1) d)"
  by (auto simp: store_asset_def dbind_def asset_already_exists_simp index_asset_version_simp
      insert_asset_def statement_def split: option.splits)

lemma insert_asset_tables:
  assumes "insert_asset digest ty index_id bs v d = (r, d')"
  shows "\<exists>rows. tb_assets (db_tables d') = (tb_assets (db_tables d))(ty := tb_assets (db_tables d) ty @ rows)
    \<and> tb_indexes (db_tables d') = tb_indexes (db_tables d)"
  using assms by (auto simp: insert_asset_def statement_def Let_def split: if_splits intro: exI [of _ "[]"])

interpretation assets: write_once live "look_asset digest" "ins_asset digest"
proof unfold_locales
  fix s k v assume "live s" "look_asset digest s k = Some v"
  then show "ins_asset digest k s = (Inr v, s)"
    by (cases k) (simp add: live_def ins_asset_def store_asset_cases)
next
  fix k s v s' assume "ins_asset digest k s = (Inr v, s')"
  then show "live s' \<and> look_asset digest s' k = Some v"
    by (cases k) (auto simp: live_def look_asset_def ins_asset_def store_asset_cases insert_asset_def
        statement_def Let_def find_append split: if_splits option.splits)
next
  fix k s r s' k' v assume r: "ins_asset digest k s = (r, s')" and k': "look_asset digest s k' = Some v"
  obtain ty index_id bs where k: "k = (ty, index_id, bs)" by (cases k)
  show "look_asset digest s' k' = Some v"
  proof (cases "db_aborted s \<or> look_asset digest s k \<noteq> None")
    case True
    with r k' k show ?thesis by (auto simp: ins_asset_def store_asset_cases split: if_splits)
  next
    case False
    with r k obtain n where "insert_asset digest ty index_id bs n s = (r, s')"
      by (auto simp: ins_asset_def store_asset_cases)
    from insert_asset_tables [OF this] k' show ?thesis
      by (cases k') (auto simp: look_asset_def find_append)
  qed
qed

section \<open>The invariant of the tables\<close>

text \<open>
  Ids below the sequence and, in an asset table, in increasing order; one row per indexer; every
  asset of a registered indexer. The saved tables of an open transaction meet it too.
\<close>

definition assets_ok :: "(sequence \<Rightarrow> int) \<Rightarrow> tables \<Rightarrow> asset_type \<Rightarrow> bool" where
  "assets_ok s t ty \<longleftrightarrow> sorted_wrt (<) (map as_id (tb_assets t ty))
     \<and> (\<forall>a \<in> set (tb_assets t ty). as_id a < s (SqAssets ty) \<and> as_index_id a \<in> ri_id ` set (tb_indexes t))"

definition tables_ok :: "(sequence \<Rightarrow> int) \<Rightarrow> tables \<Rightarrow> bool" where
  "tables_ok s t \<longleftrightarrow> distinct (map ri_id (tb_indexes t))
     \<and> distinct (map (\<lambda>i. (ri_namespace i, ri_identifier i)) (tb_indexes t))
     \<and> (\<forall>i \<in> set (tb_indexes t). ri_id i < s SqIndexes)
     \<and> (\<forall>ty. assets_ok s t ty)"

definition db_ok :: "database \<Rightarrow> bool" where
  "db_ok d \<longleftrightarrow> tables_ok (db_seq d) (db_tables d)
     \<and> (case db_saved d of None \<Rightarrow> True | Some t \<Rightarrow> tables_ok (db_seq d) t)"

definition keeps :: "'a db \<Rightarrow> bool" where
  "keeps m \<longleftrightarrow> (\<forall>d r d'. db_ok d \<longrightarrow> m d = (r, d') \<longrightarrow> db_ok d')"

named_theorems keeps_rules \<open>operations that keep the invariant of the tables\<close>

lemma keepsD: "keeps m \<Longrightarrow> db_ok d \<Longrightarrow> db_ok (snd (m d))"
  by (cases "m d") (auto simp: keeps_def)

lemma keeps_dret [keeps_rules]: "keeps (dret x)"
  by (simp add: keeps_def)

lemma keeps_dfail [keeps_rules]: "keeps (dfail e)"
  by (simp add: keeps_def)

lemma keeps_dbind [keeps_rules]: "keeps m \<Longrightarrow> (\<And>x. keeps (f x)) \<Longrightarrow> keeps (dbind m f)"
proof -
  assume m: "keeps m" and f: "\<And>x. keeps (f x)"
  show ?thesis
    unfolding keeps_def
  proof (intro allI impI)
    fix d r d' assume ok: "db_ok d" and b: "dbind m f d = (r, d')"
    obtain a d1 where a: "m d = (a, d1)" by (cases "m d")
    with m ok have ok1: "db_ok d1" by (auto simp: keeps_def)
    show "db_ok d'"
    proof (cases a)
      case (Inl e)
      with a b ok1 show ?thesis by (simp add: dbind_def)
    next
      case (Inr x)
      with a b have "f x d1 = (r, d')" by (simp add: dbind_def)
      with f [of x] ok1 show ?thesis by (simp add: keeps_def)
    qed
  qed
qed

lemma tables_ok_mono:
  assumes "tables_ok s t" "\<And>q. s q \<le> s' q" shows "tables_ok s' t"
  using assms(1) order.strict_trans2 [OF _ assms(2)] by (auto simp: tables_ok_def assets_ok_def)

lemma keeps_statement:
  assumes "\<And>t s x t' s'. tables_ok s t \<Longrightarrow> f t s = Inr (x, t', s') \<Longrightarrow> tables_ok s' t' \<and> (\<forall>q. s q \<le> s' q)"
  shows "keeps (statement f)"
  unfolding keeps_def
proof (intro allI impI)
  fix d r d' assume ok: "db_ok d" and st: "statement f d = (r, d')"
  show "db_ok d'"
  proof (cases "db_aborted d \<or> (\<exists>e. f (db_tables d) (db_seq d) = Inl e)")
    case True
    with ok st show ?thesis by (auto simp: statement_def db_ok_def split: if_splits option.splits)
  next
    case False
    then obtain x t s where f: "f (db_tables d) (db_seq d) = Inr (x, t, s)"
      by (cases "f (db_tables d) (db_seq d)") auto
    with False st have d': "d' = d\<lparr>db_tables := t, db_seq := s\<rparr>" by (simp add: statement_def)
    from ok have "tables_ok (db_seq d) (db_tables d)" by (simp add: db_ok_def)
    with assms f have "tables_ok s t" "\<forall>q. db_seq d q \<le> s q" by blast+
    with ok d' show ?thesis by (auto simp: db_ok_def intro: tables_ok_mono split: option.splits)
  qed
qed

text \<open>Statements that leave indexers, assets and their sequences alone.\<close>

lemma tables_ok_frame:
  assumes "tables_ok s t" "tb_indexes t' = tb_indexes t" "tb_assets t' = tb_assets t"
    and "s' SqIndexes = s SqIndexes" "\<And>ty. s' (SqAssets ty) = s (SqAssets ty)"
  shows "tables_ok s' t'"
  using assms by (simp add: tables_ok_def assets_ok_def)

lemma keeps_frame:
  assumes "\<And>t s x t' s'. f t s = Inr (x, t', s') \<Longrightarrow> tb_indexes t' = tb_indexes t \<and> tb_assets t' = tb_assets t
      \<and> s' SqIndexes = s SqIndexes \<and> (\<forall>ty. s' (SqAssets ty) = s (SqAssets ty)) \<and> (\<forall>q. s q \<le> s' q)"
  shows "keeps (statement f)"
proof (rule keeps_statement)
  fix t s x t' s' assume ok: "tables_ok s t" and "f t s = Inr (x, t', s')"
  with assms [of t s x t' s'] show "tables_ok s' t' \<and> (\<forall>q. s q \<le> s' q)"
    by (auto intro: tables_ok_frame [OF ok])
qed

lemma keeps_select [keeps_rules]: "keeps (select f)"
  unfolding select_def by (rule keeps_frame) auto

lemma keeps_select_one [keeps_rules]: "keeps (select_one f)"
  unfolding select_one_def by (intro keeps_rules) (auto intro: keeps_rules split: list.split)

lemma keeps_dpanic [keeps_rules]: "keeps (dpanic m)"
  by (simp add: keeps_def dpanic_def)

lemma keeps_dlift [keeps_rules]: "keeps (dlift r)"
  by (simp add: keeps_def dlift_def)

lemma keeps_dfor [keeps_rules]: "(\<And>x. keeps (f x)) \<Longrightarrow> keeps (dfor xs f)"
  by (induction xs) (auto intro: keeps_rules)

lemma keeps_execute [keeps_rules]: "keeps (execute_query ddl q)"
  unfolding execute_query_def by (rule keeps_frame) (auto split: option.splits)

lemma keeps_new_root_columns [keeps_rules]: "keeps (new_root_columns cols)"
  unfolding new_root_columns_def by (rule keeps_frame) (auto split: if_splits)

lemma keeps_new_graph_root [keeps_rules]: "keeps (new_graph_root r)"
  unfolding new_graph_root_def by (rule keeps_frame) (auto split: if_splits)

lemma keeps_type_id_insert [keeps_rules]: "keeps (type_id_insert rows)"
  unfolding type_id_insert_def by (rule keeps_frame) (auto split: if_splits)

lemma keeps_new_column_insert [keeps_rules]: "keeps (new_column_insert cols)"
  unfolding new_column_insert_def by (rule keeps_frame) (auto split: if_splits)

lemma keeps_create_nonce [keeps_rules]: "keeps (create_nonce uid now)"
  unfolding create_nonce_def by (rule keeps_frame) (auto simp: Let_def split: if_splits)

lemma keeps_delete_nonce [keeps_rules]: "keeps (delete_nonce n)"
  unfolding delete_nonce_def update_def by (rule keeps_frame) auto

lemma keeps_insert_index [keeps_rules]: "keeps (insert_index ns ident pubkey)"
  unfolding insert_index_def
proof (rule keeps_statement)
  fix t s x t' s' assume ok: "tables_ok s t"
    and "(let row = \<lparr>ri_id = s SqIndexes, ri_namespace = ns, ri_identifier = ident, ri_pubkey = pubkey\<rparr>
     in if \<not> (fits 32 ns \<and> fits 32 ident \<and> (case pubkey of None \<Rightarrow> True | Some k \<Rightarrow> fits 255 k))
        then Inl ValueTooLong
        else if find_index t ns ident \<noteq> None then Inl UniqueViolation
        else Inr (row, t\<lparr>tb_indexes := tb_indexes t @ [row]\<rparr>, s(SqIndexes := s SqIndexes + 1))) = Inr (x, t', s')"
  then have new: "find_index t ns ident = None" and t': "t' = t\<lparr>tb_indexes := tb_indexes t
      @ [\<lparr>ri_id = s SqIndexes, ri_namespace = ns, ri_identifier = ident, ri_pubkey = pubkey\<rparr>]\<rparr>"
    and s': "s' = s(SqIndexes := s SqIndexes + 1)" by (auto simp: Let_def split: if_splits)
  from new have "\<forall>i \<in> set (tb_indexes t). (ri_namespace i, ri_identifier i) \<noteq> (ns, ident)"
    by (auto simp: find_index_def find_None_iff)
  with ok show "tables_ok s' t' \<and> (\<forall>q. s q \<le> s' q)"
    by (auto simp: tables_ok_def assets_ok_def t' s' image_iff)
qed

lemma keeps_insert_asset [keeps_rules]: "keeps (insert_asset digest ty index_id bs v)"
  unfolding insert_asset_def
proof (rule keeps_statement)
  fix t s x t' s' assume ok: "tables_ok s t"
    and "(let row = \<lparr>as_id = s (SqAssets ty), as_index_id = index_id, as_version = v,
                as_digest = digest bs, as_bytes = bs\<rparr>
     in if \<not> fits 64 (digest bs) then Inl ValueTooLong
        else if index_id \<notin> ri_id ` set (tb_indexes t) then Inl ForeignKeyViolation
        else Inr (row, t\<lparr>tb_assets := (tb_assets t)(ty := tb_assets t ty @ [row])\<rparr>,
          s(SqAssets ty := s (SqAssets ty) + 1))) = Inr (x, t', s')"
  then have "index_id \<in> ri_id ` set (tb_indexes t)" and t': "t' = t\<lparr>tb_assets := (tb_assets t)(ty := tb_assets t ty
      @ [\<lparr>as_id = s (SqAssets ty), as_index_id = index_id, as_version = v, as_digest = digest bs, as_bytes = bs\<rparr>])\<rparr>"
    and s': "s' = s(SqAssets ty := s (SqAssets ty) + 1)" by (auto simp: Let_def split: if_splits)
  with ok show "tables_ok s' t' \<and> (\<forall>q. s q \<le> s' q)"
    by (fastforce simp: tables_ok_def assets_ok_def sorted_wrt_append)
qed

lemma sorted_ids_filter: "sorted_wrt (<) (map f xs) \<Longrightarrow> sorted_wrt (<) (map f (filter P xs))"
  for f :: "'a \<Rightarrow> int"
  by (induction xs) auto

lemma keeps_filter_assets:
  assumes "\<And>t ty. \<exists>P. g t ty = filter P (tb_assets t ty)"
  shows "keeps (update (\<lambda>t. t\<lparr>tb_assets := g t\<rparr>))"
  unfolding update_def
proof (rule keeps_statement)
  fix t s x t' s' assume ok: "tables_ok s t" and "Inr ((), t\<lparr>tb_assets := g t\<rparr>, s) = (Inr (x, t', s') :: sql_error + _)"
  then have t': "t' = t\<lparr>tb_assets := g t\<rparr>" and "s' = s" by auto
  have "assets_ok s t' ty" for ty
  proof -
    from assms [of t ty] obtain P where "g t ty = filter P (tb_assets t ty)" ..
    with ok show ?thesis by (auto simp: tables_ok_def assets_ok_def t' intro: sorted_ids_filter)
  qed
  with ok \<open>s' = s\<close> show "tables_ok s' t' \<and> (\<forall>q. s q \<le> s' q)" by (simp add: tables_ok_def t')
qed

lemma filter_same: "\<exists>P. xs = filter P xs"
  by (rule exI [of _ "\<lambda>_. True"]) simp

lemma keeps_delete_assets [keeps_rules]: "keeps (delete_assets ty index_id)"
  unfolding delete_assets_def by (rule keeps_filter_assets) (auto intro: filter_same)

lemma keeps_remove_asset_by_version [keeps_rules]: "keeps (remove_asset_by_version index_id v ty)"
  unfolding remove_asset_by_version_def by (rule keeps_filter_assets) (auto intro: filter_same)

lemma keeps_delete_index [keeps_rules]: "keeps (delete_index index_id)"
  unfolding delete_index_def update_def
proof (rule keeps_statement)
  fix t s x t' s' assume ok: "tables_ok s t"
    and "Inr ((), t\<lparr>tb_indexes := filter (\<lambda>i. ri_id i \<noteq> index_id) (tb_indexes t),
     tb_assets := (\<lambda>ty. filter (\<lambda>a. as_index_id a \<noteq> index_id) (tb_assets t ty))\<rparr>, s) = (Inr (x, t', s') :: sql_error + _)"
  then have t': "tb_indexes t' = filter (\<lambda>i. ri_id i \<noteq> index_id) (tb_indexes t)"
    "tb_assets t' = (\<lambda>ty. filter (\<lambda>a. as_index_id a \<noteq> index_id) (tb_assets t ty))" and "s' = s" by auto
  have "assets_ok s t' ty" for ty
  proof -
    from ok have a: "assets_ok s t ty" by (simp add: tables_ok_def)
    then have "sorted_wrt (<) (map as_id (filter (\<lambda>a. as_index_id a \<noteq> index_id) (tb_assets t ty)))"
      by (intro sorted_ids_filter) (simp add: assets_ok_def)
    with a show ?thesis by (force simp: assets_ok_def t')
  qed
  with ok \<open>s' = s\<close> show "tables_ok s' t' \<and> (\<forall>q. s q \<le> s' q)"
    by (auto simp: tables_ok_def t' intro: distinct_map_filter)
qed

lemma keeps_register_index [keeps_rules]: "keeps (register_index ns ident pubkey)"
  unfolding register_index_def index_is_registered_def
  by (intro keeps_dbind keeps_select) (auto intro: keeps_rules split: option.split)

lemma keeps_store_asset [keeps_rules]: "keeps (store_asset digest ty index_id bs)"
proof -
  have "keeps (asset_already_exists digest ty bs index_id)" "keeps (index_asset_version index_id ty)"
    by (simp_all add: keeps_def asset_already_exists_simp index_asset_version_simp)
  then show ?thesis
    unfolding store_asset_def by (intro keeps_dbind) (auto intro: keeps_rules split: option.split)
qed

lemma keeps_register_index_asset [keeps_rules]: "keeps (register_index_asset digest ns ident bs ty pubkey)"
  unfolding register_index_asset_def index_is_registered_def
  by (intro keeps_dbind keeps_select) (auto intro: keeps_rules split: option.split)

lemma keeps_remove_indexer [keeps_rules]: "keeps (remove_indexer ns ident)"
  unfolding remove_indexer_def index_id_for_def by (intro keeps_rules)

lemma keeps_transactions [keeps_rules]:
  "keeps start_transaction" "keeps commit_transaction" "keeps revert_transaction"
  by (auto simp: keeps_def start_transaction_def commit_transaction_def revert_transaction_def db_ok_def
      split: if_splits option.splits)

section \<open>Order of the assets\<close>

lemma by_id_desc_rev:
  assumes "sorted_wrt (<) (map f xs)" shows "by_id_desc f xs = rev xs"
  unfolding by_id_desc_def
proof (rule sort_key_inj_key_eq)
  show "mset xs = mset (rev xs)" by simp
  from assms have "distinct (map f xs)" by (simp add: strict_sorted_iff)
  then show "inj_on (\<lambda>x. - f x) (set xs)" by (simp add: distinct_map inj_on_def)
  from assms have "sorted_wrt (>) (rev (map f xs))" by (simp add: sorted_wrt_rev)
  then have "sorted_wrt (\<ge>) (rev (map f xs))" by (rule sorted_wrt_mono_rel [rotated]) simp
  then have "sorted_wrt (\<le>) (map uminus (rev (map f xs)))" by (simp add: sorted_wrt_map)
  then show "sorted (map (\<lambda>x. - f x) (rev xs))" by (simp add: rev_map o_def)
qed

lemma assets_of_rev:
  assumes "tables_ok s t"
  shows "assets_of t ty index_id = rev (filter (\<lambda>a. as_index_id a = index_id) (tb_assets t ty))"
  using assms unfolding assets_of_def
  by (intro by_id_desc_rev sorted_ids_filter) (simp add: tables_ok_def assets_ok_def)

lemma latest_asset_simp:
  assumes "db_ok d" "live d"
  shows "latest_asset_for_index index_id ty d =
    (case rev (filter (\<lambda>a. as_index_id a = index_id) (tb_assets (db_tables d) ty)) of
       [] \<Rightarrow> (Inl (Err RowNotFound), d) | a # _ \<Rightarrow> (Inr a, d))"
  using assms assets_of_rev [of "db_seq d" "db_tables d" ty index_id]
  by (simp add: latest_asset_for_index_def select_one_simp live_def db_ok_def)

lemma register_index_asset_steps:
  assumes "register_index_asset digest ns ident bs ty pubkey d = (Inr a, d')"
  obtains i d1 where "ins_index pubkey (ns, ident) d = (Inr i, d1)"
    and "ins_asset digest (ty, ri_id i, bs) d1 = (Inr a, d')"
proof -
  from assms obtain r d0 where r: "index_is_registered ns ident d = (Inr r, d0)"
    and rest: "dbind (case r of Some index \<Rightarrow> dret index | None \<Rightarrow> register_index ns ident pubkey) (\<lambda>index.
       store_asset digest ty (ri_id index) bs) d0 = (Inr a, d')"
    unfolding register_index_asset_def by (auto simp: dbind_Inr)
  from r have "d0 = d" "r = find_index (db_tables d) ns ident" "\<not> db_aborted d"
    by (auto simp: index_is_registered_def select_simp split: if_splits)
  with rest that show ?thesis
    by (auto simp: dbind_Inr ins_index_def ins_asset_def register_index_cases split: option.splits)
qed

lemma ins_index_assets: "ins_index pubkey k d = (r, d1) \<Longrightarrow> tb_assets (db_tables d1) = tb_assets (db_tables d)"
  by (auto simp: ins_index_def register_index_cases insert_index_def statement_def Let_def
      split: if_splits option.splits)

lemma ins_asset_indexes: "ins_asset digest k d = (r, d1) \<Longrightarrow> tb_indexes (db_tables d1) = tb_indexes (db_tables d)"
  by (cases k) (auto simp: ins_asset_def store_asset_cases insert_asset_def statement_def Let_def
      split: if_splits option.splits)

text \<open>What registering an asset does to the tables.\<close>

lemma registered_asset:
  assumes "db_ok d" and "register_index_asset digest ns ident bs ty pubkey d = (Inr a, d')"
  obtains i where "find_index (db_tables d') ns ident = Some i" "as_index_id a = ri_id i" "as_digest a = digest bs"
    and "db_ok d'" "live d'" "look_asset digest d' (ty, ri_id i, bs) = Some a"
    and "look_asset digest d (ty, ri_id i, bs) = None \<Longrightarrow> as_bytes a = bs
      \<and> tb_assets (db_tables d') = (tb_assets (db_tables d))(ty := tb_assets (db_tables d) ty @ [a])"
    and "look_asset digest d (ty, ri_id i, bs) \<noteq> None \<Longrightarrow> tb_assets (db_tables d') = tb_assets (db_tables d)"
proof -
  from register_index_asset_steps [OF assms(2)] obtain i d1
    where i: "ins_index pubkey (ns, ident) d = (Inr i, d1)"
    and a: "ins_asset digest (ty, ri_id i, bs) d1 = (Inr a, d')" .
  have live1: "live d1" and look1: "look_index d1 (ns, ident) = Some i"
    using indexers.created [OF i] by auto
  have live': "live d'" and look': "look_asset digest d' (ty, ri_id i, bs) = Some a"
    using assets.created [OF a] by auto
  have index': "find_index (db_tables d') ns ident = Some i"
    using look1 ins_asset_indexes [OF a] by (simp add: look_index_def find_index_def)
  have row: "as_index_id a = ri_id i" "as_digest a = digest bs"
    using look' by (auto simp: look_asset_def find_Some_iff)
  have assets1: "tb_assets (db_tables d1) = tb_assets (db_tables d)" by (rule ins_index_assets [OF i])
  have db1: "db_ok d1"
    using keepsD [OF keeps_register_index assms(1), of ns ident pubkey] i by (simp add: ins_index_def)
  have ok': "db_ok d'"
    using keepsD [OF keeps_store_asset db1, of digest ty "ri_id i" bs] a by (simp add: ins_asset_def)
  have look: "look_asset digest d1 k = look_asset digest d k" for k
    using assets1 by (cases k) (simp add: look_asset_def)
  have fresh: "as_bytes a = bs \<and> tb_assets (db_tables d') = (tb_assets (db_tables d))(ty := tb_assets (db_tables d) ty @ [a])"
    if "look_asset digest d (ty, ri_id i, bs) = None"
    using that a live1 unfolding assets1 [symmetric] look [symmetric]
    by (auto simp: ins_asset_def store_asset_cases live_def insert_asset_def statement_def Let_def split: if_splits)
  have old: "tb_assets (db_tables d') = tb_assets (db_tables d)"
    if "look_asset digest d (ty, ri_id i, bs) \<noteq> None"
  proof -
    from that obtain b where "look_asset digest d1 (ty, ri_id i, bs) = Some b" by (auto simp: look)
    from assets.known [OF live1 this] a assets1 show ?thesis by simp
  qed
  show ?thesis by (rule that [OF index' row ok' live' look' fresh old])
qed

section \<open>Properties\<close>

text \<open>
  Every operation on the registry keeps its tables consistent: one row per indexer, fresh
  increasing ids, assets of registered indexers only; a rollback returns to consistent tables.
\<close>

theorem registry_invariant:
  assumes "db_ok d"
  shows "db_ok (snd (register_index ns ident pubkey d))
    \<and> db_ok (snd (register_index_asset digest ns ident bs ty pubkey d))
    \<and> db_ok (snd (remove_indexer ns ident d))
    \<and> db_ok (snd (remove_asset_by_version index_id v ty d))
    \<and> db_ok (snd (create_nonce uid now d)) \<and> db_ok (snd (delete_nonce n d))
    \<and> db_ok (snd (start_transaction d)) \<and> db_ok (snd (commit_transaction d))
    \<and> db_ok (snd (revert_transaction d))"
  by (intro conjI keepsD [OF _ assms] keeps_rules)

lemma empty_db_ok: "db_ok empty_database"
  by (simp add: db_ok_def empty_database_def empty_tables_def tables_ok_def assets_ok_def)

lemma registry_invariant_witness:
  "db_ok (snd (register_index_asset (\<lambda>_. ''d1'') ''ns'' ''idx'' [1, 2] Wasm None empty_database))"
  using registry_invariant [OF empty_db_ok] by blast

text \<open>
  C25: registering an asset returns a row of the right indexer with the digest of the bytes;
  registering the same bytes again returns the same row and changes nothing. New bytes become
  the latest asset of the indexer; bytes that were registered before do not: they return the old
  row and leave the asset tables as they are, so a re-upload of an older version is not deployed.
\<close>

theorem asset_registration:
  assumes "db_ok d" and "register_index_asset digest ns ident bs ty pubkey d = (Inr a, d')"
  shows "(\<exists>i. find_index (db_tables d') ns ident = Some i \<and> as_index_id a = ri_id i)
    \<and> as_digest a = digest bs
    \<and> register_index_asset digest ns ident bs ty pubkey d' = (Inr a, d')
    \<and> (if look_asset digest d (ty, as_index_id a, bs) = None
       then latest_asset_for_index (as_index_id a) ty d' = (Inr a, d')
       else tb_assets (db_tables d') = tb_assets (db_tables d))"
proof -
  from registered_asset [OF assms] obtain i where
    i: "find_index (db_tables d') ns ident = Some i" "as_index_id a = ri_id i" "as_digest a = digest bs" "db_ok d'" "live d'"
      "look_asset digest d' (ty, ri_id i, bs) = Some a"
    and fresh: "look_asset digest d (ty, ri_id i, bs) = None \<Longrightarrow>
      tb_assets (db_tables d') = (tb_assets (db_tables d))(ty := tb_assets (db_tables d) ty @ [a])"
    and old: "look_asset digest d (ty, ri_id i, bs) \<noteq> None \<Longrightarrow> tb_assets (db_tables d') = tb_assets (db_tables d)"
    by metis
  have "ins_index pubkey (ns, ident) d' = (Inr i, d')"
    by (rule indexers.known [OF i(5)]) (simp add: look_index_def i)
  then have "register_index_asset digest ns ident bs ty pubkey d' = (Inr a, d')"
    using assets.known [OF i(5,6)] i(1,5)
    by (simp add: register_index_asset_def dbind_def index_is_registered_def select_simp live_def ins_asset_def)
  with i fresh old show ?thesis by (auto simp: latest_asset_simp [OF i(4,5)])
qed

lemma asset_registration_witness:
  "\<exists>a d'. register_index_asset (\<lambda>_. ''d1'') ''ns'' ''idx'' [1, 2] Wasm None empty_database = (Inr a, d')
    \<and> latest_asset_for_index (as_index_id a) Wasm d' = (Inr a, d')"
proof -
  let ?a = "\<lparr>as_id = 1, as_index_id = 1, as_version = 1, as_digest = ''d1'', as_bytes = [1, 2]\<rparr>"
  obtain d' where r: "register_index_asset (\<lambda>_. ''d1'') ''ns'' ''idx'' [1, 2] Wasm None empty_database = (Inr ?a, d')"
    by (simp add: register_index_asset_def dbind_def index_is_registered_def select_simp empty_database_def
        empty_tables_def find_index_def register_index_cases insert_index_def statement_def Let_def fits_def
        store_asset_cases look_asset_def insert_asset_def)
  have "look_asset (\<lambda>_. ''d1'') empty_database (Wasm, as_index_id ?a, [1, 2]) = None"
    by (simp add: look_asset_def empty_database_def empty_tables_def)
  with asset_registration [OF empty_db_ok r]
  have "latest_asset_for_index (as_index_id ?a) Wasm d' = (Inr ?a, d')" by (simp only: if_True simp_thms)
  with r show ?thesis by blast
qed

text \<open>
  Removing an indexer removes its row and all its assets and nothing else: every other
  indexer and its assets are as before.
\<close>

theorem removed_indexer_is_gone:
  assumes "db_ok d" and "remove_indexer ns ident d = (Inr u, d')"
  shows "\<exists>i. find_index (db_tables d) ns ident = Some i
    \<and> find_index (db_tables d') ns ident = None
    \<and> tb_indexes (db_tables d') = filter (\<lambda>j. (ri_namespace j, ri_identifier j) \<noteq> (ns, ident)) (tb_indexes (db_tables d))
    \<and> tb_assets (db_tables d') = (\<lambda>ty. filter (\<lambda>a. as_index_id a \<noteq> ri_id i) (tb_assets (db_tables d) ty))"
proof -
  let ?rows = "filter (\<lambda>j. ri_namespace j = ns \<and> ri_identifier j = ident) (tb_indexes (db_tables d))"
  from assms(2) have live: "\<not> db_aborted d" and "?rows \<noteq> []"
    by (auto simp: remove_indexer_def dbind_def index_id_for_def select_one_simp split: if_splits)
  then obtain i rest where i: "?rows = i # rest" by (cases ?rows) auto
  have find: "find_index (db_tables d) ns ident = Some i"
    using filter_find [of "\<lambda>j. ri_namespace j = ns \<and> ri_identifier j = ident" "tb_indexes (db_tables d)"] i
    by (simp add: find_index_def)
  have tables: "tb_indexes (db_tables d') = filter (\<lambda>j. ri_id j \<noteq> ri_id i) (tb_indexes (db_tables d))"
    "tb_assets (db_tables d') = (\<lambda>ty. filter (\<lambda>a. as_index_id a \<noteq> ri_id i) (tb_assets (db_tables d) ty))"
    using assms(2) live i
    by (auto simp: remove_indexer_def dbind_def index_id_for_def select_one_simp delete_assets_def
        delete_index_def update_simp)
  from i have mem: "i \<in> set (tb_indexes (db_tables d))" "ri_namespace i = ns" "ri_identifier i = ident"
    using list.set_intros(1) [of i rest] unfolding i [symmetric] by auto
  from assms(1) have inj: "distinct (map ri_id (tb_indexes (db_tables d)))"
    "distinct (map (\<lambda>j. (ri_namespace j, ri_identifier j)) (tb_indexes (db_tables d)))"
    by (auto simp: db_ok_def tables_ok_def)
  have same: "ri_id j \<noteq> ri_id i \<longleftrightarrow> (ri_namespace j, ri_identifier j) \<noteq> (ns, ident)"
    if "j \<in> set (tb_indexes (db_tables d))" for j
    using inj mem that by (auto simp: distinct_map inj_on_def)
  have idx: "tb_indexes (db_tables d') = filter (\<lambda>j. (ri_namespace j, ri_identifier j) \<noteq> (ns, ident)) (tb_indexes (db_tables d))"
    unfolding tables by (rule filter_cong [OF refl same])
  then have "find_index (db_tables d') ns ident = None" by (auto simp: find_index_def find_None_iff)
  with find idx tables show ?thesis by blast
qed

lemma remove_indexer_found:
  assumes "\<not> db_aborted d" "find_index (db_tables d) ns ident = Some i"
  shows "\<exists>d'. remove_indexer ns ident d = (Inr (), d') \<and> \<not> db_aborted d'"
proof -
  have "filter (\<lambda>j. ri_namespace j = ns \<and> ri_identifier j = ident) (tb_indexes (db_tables d)) \<noteq> []"
    using assms(2) filter_find [of "\<lambda>j. ri_namespace j = ns \<and> ri_identifier j = ident" "tb_indexes (db_tables d)"]
    by (auto simp: find_index_def)
  then show ?thesis
    using assms(1) by (cases "filter (\<lambda>j. ri_namespace j = ns \<and> ri_identifier j = ident) (tb_indexes (db_tables d))")
      (auto simp: remove_indexer_def dbind_def index_id_for_def select_one_simp delete_assets_def delete_index_def update_simp)
qed

lemma removed_indexer_is_gone_witness:
  "\<exists>d d'. db_ok d \<and> remove_indexer ''ns'' ''idx'' d = (Inr (), d') \<and> find_index (db_tables d') ''ns'' ''idx'' = None"
proof -
  let ?d = "snd (register_index ''ns'' ''idx'' None empty_database)"
  have ok: "db_ok ?d" by (rule keepsD [OF keeps_register_index empty_db_ok])
  obtain d' where "remove_indexer ''ns'' ''idx'' ?d = (Inr (), d')"
    by (simp add: register_index_cases insert_index_def statement_def Let_def fits_def empty_database_def
        empty_tables_def find_index_def remove_indexer_def dbind_def index_id_for_def select_one_simp
        delete_assets_def delete_index_def update_simp)
  with removed_indexer_is_gone [OF ok this] ok show ?thesis by blast
qed

text \<open>
  Version numbers of assets can repeat: they count the stored assets, so when an indexer has
  the versions \<open>1 \<dots> n\<close> and an earlier one is removed, the next asset is given \<open>n\<close> again.
\<close>

theorem removed_version_repeats:
  assumes "live d" and "map as_version (filter (\<lambda>a. as_index_id a = index_id) (tb_assets (db_tables d) ty)) = [1..int n]"
    and "1 \<le> v" "v < int n"
    and "remove_asset_by_version index_id v ty d = (Inr u, d1)"
    and "look_asset digest d1 (ty, index_id, bs) = None"
    and "store_asset digest ty index_id bs d1 = (Inr a, d2)"
  shows "as_version a = int n
    \<and> (\<exists>b \<in> set (tb_assets (db_tables d1) ty). as_index_id b = index_id \<and> as_version b = int n)"
proof -
  let ?own = "filter (\<lambda>a. as_index_id a = index_id) (tb_assets (db_tables d) ty)"
  have d1: "d1 = d\<lparr>db_tables := (db_tables d)\<lparr>tb_assets := (tb_assets (db_tables d))
      (ty := filter (\<lambda>a. \<not> (as_index_id a = index_id \<and> as_version a = v)) (tb_assets (db_tables d) ty))\<rparr>\<rparr>"
    using assms(1,5) by (simp add: remove_asset_by_version_def update_simp live_def)
  have own1: "filter (\<lambda>a. as_index_id a = index_id) (tb_assets (db_tables d1) ty) = filter (\<lambda>a. as_version a \<noteq> v) ?own"
    by (auto simp: d1 intro: filter_cong)
  have "length (filter (\<lambda>a. as_version a \<noteq> v) ?own) = length (filter (\<lambda>x. x \<noteq> v) (map as_version ?own))"
    by (simp only: filter_map length_map o_def)
  also have "\<dots> = length (removeAll v [1..int n])" by (simp only: assms(2) removeAll_filter_not_eq) (metis (mono_tags, lifting))
  also have "\<dots> = n - 1"
    using assms(3,4) by (simp add: distinct_remove1_removeAll [symmetric] length_remove1)
  finally have len: "length (filter (\<lambda>a. as_version a \<noteq> v) ?own) = n - 1" .
  from assms(1) d1 have "live d1" by (simp add: live_def)
  with assms(6,7) own1 len assms(3,4) have "as_version a = int n"
    by (auto simp: store_asset_cases live_def insert_asset_def statement_def Let_def split: if_splits)
  moreover have "\<exists>b \<in> set ?own. as_version b = int n"
  proof -
    have "int n \<in> set (map as_version ?own)" using assms(2,3,4) by simp
    then show ?thesis by auto
  qed
  then have "\<exists>b \<in> set (tb_assets (db_tables d1) ty). as_index_id b = index_id \<and> as_version b = int n"
    using assms(4) by (auto simp: d1)
  ultimately show ?thesis ..
qed

definition two_versions :: database where
  "two_versions = empty_database\<lparr>db_tables := empty_tables\<lparr>
     tb_indexes := [\<lparr>ri_id = 1, ri_namespace = ''ns'', ri_identifier = ''idx'', ri_pubkey = None\<rparr>],
     tb_assets := (\<lambda>_. [\<lparr>as_id = 1, as_index_id = 1, as_version = 1, as_digest = ''d1'', as_bytes = [1]\<rparr>,
                        \<lparr>as_id = 2, as_index_id = 1, as_version = 2, as_digest = ''d2'', as_bytes = [2]\<rparr>])\<rparr>,
     db_seq := (\<lambda>_. 3)\<rparr>"

lemma removed_version_repeats_witness:
  "\<exists>a d1 d2. remove_asset_by_version 1 1 Wasm two_versions = (Inr (), d1)
    \<and> store_asset (\<lambda>_. ''d3'') Wasm 1 [3] d1 = (Inr a, d2) \<and> as_version a = 2"
proof -
  note defs = two_versions_def empty_database_def empty_tables_def remove_asset_by_version_def update_simp
    store_asset_cases look_asset_def insert_asset_def statement_def Let_def fits_def live_def
  obtain d1 where d1: "remove_asset_by_version 1 1 Wasm two_versions = (Inr (), d1)"
    and none: "look_asset (\<lambda>_. ''d3'') d1 (Wasm, 1, [3]) = None"
    and "\<exists>a d2. store_asset (\<lambda>_. ''d3'') Wasm 1 [3] d1 = (Inr a, d2)"
    by (simp add: defs)
  then obtain a d2 where st: "store_asset (\<lambda>_. ''d3'') Wasm 1 [3] d1 = (Inr a, d2)" by blast
  have live: "live two_versions" by (simp add: defs)
  have vs: "map as_version (filter (\<lambda>a. as_index_id a = 1) (tb_assets (db_tables two_versions) Wasm)) = [1..int 2]"
    by (simp add: defs upto.simps)
  from removed_version_repeats [OF live vs _ _ d1 none st] d1 st show ?thesis by auto
qed

end
