(* ===== verification/Ft_Column.thy ===== *)
theory Ft_Column
  imports Database_Types
begin

text \<open>
  \<^verbatim>\<open>fuel-indexer-schema/src/lib.rs\<close>: the column values an indexer module passes to the host
  (\<^verbatim>\<open>FtColumn\<close>), decoded from little-endian bytes and printed into SQL. The decoding of UTF-8
  text and of an \<^verbatim>\<open>Identity\<close> belongs to Rust's library and to the Fuel SDK: both are arguments.
\<close>

datatype ft_identity = IdAddress bytes | IdContract bytes

datatype ft_column =
    FtID "64 word option"
  | FtAddress "bytes option"
  | FtAssetId "bytes option"
  | FtBytes4 "bytes option"
  | FtBytes8 "bytes option"
  | FtBytes32 "bytes option"
  | FtContractId "bytes option"
  | FtInt4 "32 word option"
  | FtInt8 "64 word option"
  | FtInt16 "128 word option"
  | FtUInt4 "32 word option"
  | FtUInt8 "64 word option"
  | FtUInt16 "128 word option"
  | FtTimestamp "64 word option"
  | FtSalt "bytes option"
  | FtJson "string option"
  | FtMessageId "bytes option"
  | FtCharfield "string option"
  | FtIdentity "ft_identity option"
  | FtBoolean "bool option"
  | FtBlob "bytes option"

text \<open>\<^verbatim>\<open>from_le_bytes\<close>: the first byte is the lowest.\<close>

definition from_le_bytes :: "bytes \<Rightarrow> 'a::len word" where
  "from_le_bytes bs = word_of_int (foldr (\<lambda>b n. int (unat b) + 256 * n) bs 0)"

text \<open>A slice of exactly \<open>n\<close> bytes, as \<^verbatim>\<open>try_into\<close> and the \<^verbatim>\<open>try_from\<close> of the byte types want it.\<close>

definition sized :: "nat \<Rightarrow> bytes \<Rightarrow> (bytes, 'e) result" where
  "sized n bs = (if length bs = n then Inr bs else Inl (Panic ''Invalid slice length''))"

definition slice_to :: "bytes \<Rightarrow> nat \<Rightarrow> (bytes, 'e) result" where
  "slice_to bs n = (if n \<le> length bs then Inr (take n bs)
     else Inl (Panic ''range end index out of range for slice''))"

fun ft_decode ::
    "(bytes \<Rightarrow> string) \<Rightarrow> (bytes \<Rightarrow> ft_identity option) \<Rightarrow> column_type \<Rightarrow> bytes \<Rightarrow> (ft_column, 'e) result" where
  "ft_decode utf8 ident CtID bs = rbind (sized 8 bs) (\<lambda>b. Inr (FtID (Some (from_le_bytes b))))"
| "ft_decode utf8 ident CtAddress bs = rbind (sized 32 bs) (\<lambda>b. Inr (FtAddress (Some b)))"
| "ft_decode utf8 ident CtAssetId bs = rbind (sized 32 bs) (\<lambda>b. Inr (FtAssetId (Some b)))"
| "ft_decode utf8 ident CtBytes4 bs = rbind (sized 4 bs) (\<lambda>b. Inr (FtBytes4 (Some b)))"
| "ft_decode utf8 ident CtBytes8 bs = rbind (sized 8 bs) (\<lambda>b. Inr (FtBytes8 (Some b)))"
| "ft_decode utf8 ident CtBytes32 bs = rbind (sized 32 bs) (\<lambda>b. Inr (FtBytes32 (Some b)))"
| "ft_decode utf8 ident CtContractId bs = rbind (sized 32 bs) (\<lambda>b. Inr (FtContractId (Some b)))"
| "ft_decode utf8 ident CtSalt bs = rbind (sized 32 bs) (\<lambda>b. Inr (FtSalt (Some b)))"
| "ft_decode utf8 ident CtInt4 bs = rbind (sized 4 bs) (\<lambda>b. Inr (FtInt4 (Some (from_le_bytes b))))"
| "ft_decode utf8 ident CtInt8 bs = rbind (sized 8 bs) (\<lambda>b. Inr (FtInt8 (Some (from_le_bytes b))))"
| "ft_decode utf8 ident CtInt16 bs = rbind (sized 16 bs) (\<lambda>b. Inr (FtInt16 (Some (from_le_bytes b))))"
| "ft_decode utf8 ident CtUInt4 bs = rbind (sized 4 bs) (\<lambda>b. Inr (FtUInt4 (Some (from_le_bytes b))))"
| "ft_decode utf8 ident CtUInt8 bs = rbind (sized 8 bs) (\<lambda>b. Inr (FtUInt8 (Some (from_le_bytes b))))"
| "ft_decode utf8 ident CtUInt16 bs = rbind (sized 16 bs) (\<lambda>b. Inr (FtUInt16 (Some (from_le_bytes b))))"
| "ft_decode utf8 ident CtTimestamp bs = rbind (sized 8 bs) (\<lambda>b. Inr (FtTimestamp (Some (from_le_bytes b))))"
| "ft_decode utf8 ident CtBlob bs = Inr (FtBlob (Some bs))"
| "ft_decode utf8 ident CtForeignKey bs = Inl (Panic ''ForeignKey not supported for FtColumn.'')"
| "ft_decode utf8 ident CtJson bs = Inr (FtJson (Some (utf8 bs)))"
| "ft_decode utf8 ident CtMessageId bs = rbind (sized 32 bs) (\<lambda>b. Inr (FtMessageId (Some b)))"
| "ft_decode utf8 ident CtCharfield bs =
     (if length (utf8 bs) \<le> 255 then Inr (FtCharfield (Some (utf8 bs)))
      else Inl (Panic ''Charfield exceeds max length.''))"
| "ft_decode utf8 ident CtIdentity bs =
     rbind (expect (ident bs) ''Invalid slice length'') (\<lambda>i. Inr (FtIdentity (Some i)))"
| "ft_decode utf8 ident CtBoolean bs =
     rbind (sized 1 bs) (\<lambda>b. Inr (FtBoolean (Some ((from_le_bytes b :: 8 word) \<noteq> 0))))"
| "ft_decode utf8 ident CtObject bs = Inl (Panic ''Object not supported for FtColumn.'')"

text \<open>\<^verbatim>\<open>FtColumn::new\<close>. The two types that are never stored panic before the slice is taken.\<close>

definition ft_column_new ::
    "(bytes \<Rightarrow> string) \<Rightarrow> (bytes \<Rightarrow> ft_identity option) \<Rightarrow> column_type \<Rightarrow> nat \<Rightarrow> bytes \<Rightarrow> (ft_column, 'e) result" where
  "ft_column_new utf8 ident ty sz bs =
     (if ty = CtForeignKey \<or> ty = CtObject then ft_decode utf8 ident ty bs
      else rbind (slice_to bs sz) (ft_decode utf8 ident ty))"

definition null_value :: string where
  "null_value = ''NULL''"

definition sql_quoted :: "string \<Rightarrow> string" where
  "sql_quoted s = [CHR 0x27] @ s @ [CHR 0x27]"

definition opt_fragment :: "('a \<Rightarrow> string) \<Rightarrow> 'a option \<Rightarrow> string" where
  "opt_fragment f v = (case v of None \<Rightarrow> null_value | Some x \<Rightarrow> f x)"

definition hex_fragment :: "bytes option \<Rightarrow> string" where
  "hex_fragment = opt_fragment (\<lambda>b. sql_quoted (hex_encode b))"

definition signed_fragment :: "'a::len word option \<Rightarrow> string" where
  "signed_fragment = opt_fragment (\<lambda>w. show_int (sint w))"

definition unsigned_fragment :: "'a::len word option \<Rightarrow> string" where
  "unsigned_fragment = opt_fragment (\<lambda>w. show_nat (unat w))"

fun identity_bytes :: "ft_identity \<Rightarrow> bytes" where
  "identity_bytes (IdAddress b) = b"
| "identity_bytes (IdContract b) = b"

fun query_fragment :: "ft_column \<Rightarrow> (string, 'e) result" where
  "query_fragment (FtID v) =
     (case v of Some n \<Rightarrow> Inr (show_nat (unat n))
      | None \<Rightarrow> Inl (Panic ''Schema fields of type ID cannot be nullable''))"
| "query_fragment (FtAddress v) = Inr (hex_fragment v)"
| "query_fragment (FtAssetId v) = Inr (hex_fragment v)"
| "query_fragment (FtBytes4 v) = Inr (hex_fragment v)"
| "query_fragment (FtBytes8 v) = Inr (hex_fragment v)"
| "query_fragment (FtBytes32 v) = Inr (hex_fragment v)"
| "query_fragment (FtContractId v) = Inr (hex_fragment v)"
| "query_fragment (FtInt4 v) = Inr (signed_fragment v)"
| "query_fragment (FtInt8 v) = Inr (signed_fragment v)"
| "query_fragment (FtInt16 v) = Inr (signed_fragment v)"
| "query_fragment (FtUInt4 v) = Inr (unsigned_fragment v)"
| "query_fragment (FtUInt8 v) = Inr (unsigned_fragment v)"
| "query_fragment (FtUInt16 v) = Inr (unsigned_fragment v)"
| "query_fragment (FtTimestamp v) = Inr (signed_fragment v)"
| "query_fragment (FtSalt v) = Inr (hex_fragment v)"
| "query_fragment (FtJson v) = Inr (opt_fragment sql_quoted v)"
| "query_fragment (FtMessageId v) = Inr (hex_fragment v)"
| "query_fragment (FtCharfield v) = Inr (opt_fragment sql_quoted v)"
| "query_fragment (FtIdentity v) = Inr (opt_fragment (\<lambda>i. sql_quoted (hex_encode (identity_bytes i))) v)"
| "query_fragment (FtBoolean v) = Inr (opt_fragment show_bool v)"
| "query_fragment (FtBlob v) = Inr (hex_fragment v)"

section \<open>Little-endian bytes\<close>

lemma from_le_bytes_Cons:
  "from_le_bytes (b # bs) = (word_of_int (int (unat b)) + 256 * from_le_bytes bs :: 'a::len word)"
  by (simp add: from_le_bytes_def)

definition le_value :: "bytes \<Rightarrow> nat" where
  "le_value bs = foldr (\<lambda>b n. unat b + 256 * n) bs 0"

lemma le_value_simps [simp]: "le_value [] = 0" "le_value (b # bs) = unat b + 256 * le_value bs"
  by (simp_all add: le_value_def)

lemma from_le_bytes_value: "from_le_bytes bs = word_of_nat (le_value bs)"
proof (induction bs)
  case Nil
  then show ?case by (simp add: from_le_bytes_def)
next
  case (Cons b bs)
  then show ?case by (simp add: from_le_bytes_Cons)
qed

lemma le_value_bound: "le_value bs < 256 ^ length bs"
proof (induction bs)
  case (Cons b bs)
  have "unat b < 256" using unsigned_less [of b, where ?'a = nat] by simp
  with Cons show ?case by simp
qed simp

lemma le_value_inject: "length bs = length cs \<Longrightarrow> le_value bs = le_value cs \<Longrightarrow> bs = cs"
proof (induction bs cs rule: list_induct2)
  case (Cons b bs c cs)
  have lt: "unat b < 256" "unat c < 256"
    using unsigned_less [of b, where ?'a = nat] unsigned_less [of c, where ?'a = nat] by simp_all
  have "unat b = (unat b + 256 * le_value bs) mod 256" using lt by simp
  also have "\<dots> = (unat c + 256 * le_value cs) mod 256" using Cons.prems by simp
  also have "\<dots> = unat c" using lt by simp
  finally have "unat b = unat c" .
  with Cons.prems have "le_value bs = le_value cs" by simp
  with Cons.IH \<open>unat b = unat c\<close> show ?case by (simp add: word_unat_eq_iff)
qed simp

section \<open>What the columns of the database accept\<close>

text \<open>
  The SQL types that \<open>sql_type_text\<close> gives to the columns: \<^verbatim>\<open>integer\<close> and \<^verbatim>\<open>bigint\<close> are
  signed with 32 and 64 bits, \<^verbatim>\<open>numeric(p, 0)\<close> holds \<open>p\<close> digits, \<^verbatim>\<open>varchar(n)\<close> at most \<open>n\<close>
  characters. A null fits every nullable column.
\<close>

definition opt_all :: "('a \<Rightarrow> bool) \<Rightarrow> 'a option \<Rightarrow> bool" where
  "opt_all P v = (case v of None \<Rightarrow> True | Some x \<Rightarrow> P x)"

fun column_accepts :: "ft_column \<Rightarrow> bool" where
  "column_accepts (FtID v) = (case v of None \<Rightarrow> False | Some n \<Rightarrow> unat n < 10 ^ 20)"
| "column_accepts (FtAddress v) = opt_all (\<lambda>b. length (hex_encode b) \<le> 64) v"
| "column_accepts (FtAssetId v) = opt_all (\<lambda>b. length (hex_encode b) \<le> 64) v"
| "column_accepts (FtBytes4 v) = opt_all (\<lambda>b. length (hex_encode b) \<le> 8) v"
| "column_accepts (FtBytes8 v) = opt_all (\<lambda>b. length (hex_encode b) \<le> 16) v"
| "column_accepts (FtBytes32 v) = opt_all (\<lambda>b. length (hex_encode b) \<le> 64) v"
| "column_accepts (FtContractId v) = opt_all (\<lambda>b. length (hex_encode b) \<le> 64) v"
| "column_accepts (FtInt4 v) = opt_all (\<lambda>n. - (2 ^ 31) \<le> sint n \<and> sint n < 2 ^ 31) v"
| "column_accepts (FtInt8 v) = opt_all (\<lambda>n. - (2 ^ 63) \<le> sint n \<and> sint n < 2 ^ 63) v"
| "column_accepts (FtInt16 v) = opt_all (\<lambda>n. \<bar>sint n\<bar> < 10 ^ 39) v"
| "column_accepts (FtUInt4 v) = opt_all (\<lambda>n. unat n < 2 ^ 31) v"
| "column_accepts (FtUInt8 v) = opt_all (\<lambda>n. unat n < 10 ^ 20) v"
| "column_accepts (FtUInt16 v) = opt_all (\<lambda>n. unat n < 10 ^ 39) v"
| "column_accepts (FtTimestamp v) = (v = None)"
| "column_accepts (FtSalt v) = opt_all (\<lambda>b. length (hex_encode b) \<le> 64) v"
| "column_accepts (FtJson v) = True"
| "column_accepts (FtMessageId v) = opt_all (\<lambda>b. length (hex_encode b) \<le> 64) v"
| "column_accepts (FtCharfield v) = opt_all (\<lambda>s. length s \<le> 255) v"
| "column_accepts (FtIdentity v) = opt_all (\<lambda>i. length (hex_encode (identity_bytes i)) \<le> 66) v"
| "column_accepts (FtBoolean v) = True"
| "column_accepts (FtBlob v) = opt_all (\<lambda>b. length (hex_encode b) \<le> 10485760) v"

lemma sized_Inr [simp]: "sized n bs = Inr b \<longleftrightarrow> b = bs \<and> length bs = n"
  by (auto simp: sized_def)

lemma unat_bounds:
  "unat (w :: 64 word) < 10 ^ 20" "unat (v :: 128 word) < 10 ^ 39"
  using unsigned_less [of w, where ?'a = nat] unsigned_less [of v, where ?'a = nat] by simp_all

lemma sint_bounds:
  "- (2 ^ 31) \<le> sint (a :: 32 word) \<and> sint a < 2 ^ 31"
  "- (2 ^ 63) \<le> sint (b :: 64 word) \<and> sint b < 2 ^ 63"
  "\<bar>sint (c :: 128 word)\<bar> < 10 ^ 39"
  using sint_greater_eq [of a] sint_less [of a] sint_greater_eq [of b] sint_less [of b]
    sint_greater_eq [of c] sint_less [of c]
  by simp_all

lemma ft_decode_accepted:
  assumes "ft_decode utf8 ident ty bs = Inr col"
    and "ty \<noteq> CtTimestamp" "ty = CtUInt4 \<Longrightarrow> le_value bs < 2 ^ 31" "ty = CtBlob \<Longrightarrow> length bs \<le> 5242880"
    and "\<And>i. ident bs = Some i \<Longrightarrow> length (identity_bytes i) = 32"
  shows "column_accepts col"
  using assms
  by (cases ty)
    (auto simp: opt_all_def unat_bounds sint_bounds [simplified] from_le_bytes_value unat_of_nat take_bit_eq_mod
      split: if_splits)

section \<open>Properties\<close>



text \<open>
  An unsigned 32-bit value fits its column exactly when it is below \<open>2 ^ 31\<close>: the other half
  of the type prints to a number that Postgres rejects.
\<close>

theorem uint4_overflows_column:
  "column_accepts (FtUInt4 (Some n)) \<longleftrightarrow> unat n < 2 ^ 31"
  by (simp add: opt_all_def)

text \<open>
  Decoding fixed-width numbers loses nothing: two byte strings of the right length give the
  same 64-bit value only if they are equal.
\<close>

theorem decode_inject:
  assumes "ft_column_new utf8 ident CtUInt8 8 bs = Inr col" "ft_column_new utf8 ident CtUInt8 8 cs = Inr col"
  shows "take 8 bs = take 8 cs"
proof -
  from assms have l: "length (take 8 bs) = 8" "length (take 8 cs) = 8"
    and e: "(from_le_bytes (take 8 bs) :: 64 word) = from_le_bytes (take 8 cs)"
    by (auto simp: ft_column_new_def slice_to_def split: if_splits)
  have "le_value (take 8 bs) < 2 ^ 64" "le_value (take 8 cs) < 2 ^ 64"
    using le_value_bound [of "take 8 bs"] le_value_bound [of "take 8 cs"] l by simp_all
  with arg_cong [OF e, of unat] have "le_value (take 8 bs) = le_value (take 8 cs)"
    by (simp add: from_le_bytes_value unat_of_nat)
  with le_value_inject [of "take 8 bs" "take 8 cs"] l show ?thesis by simp
qed

lemma decode_inject_witness: "take 8 [7, 0, 0, 0, 0, 0, 0, 0] = take 8 [7, 0, 0, 0, 0, 0, 0, 0, 9 :: 8 word]"
proof -
  have "ft_column_new (\<lambda>_. []) (\<lambda>_. None) CtUInt8 8 [7, 0, 0, 0, 0, 0, 0, 0]
      = (Inr (FtUInt8 (Some 7)) :: (ft_column, nat) result)"
    and "ft_column_new (\<lambda>_. []) (\<lambda>_. None) CtUInt8 8 [7, 0, 0, 0, 0, 0, 0, 0, 9]
      = (Inr (FtUInt8 (Some 7)) :: (ft_column, nat) result)"
    by (simp_all add: ft_column_new_def slice_to_def sized_def from_le_bytes_def)
  then show ?thesis by (rule decode_inject)
qed

end
