(* ===== verification/Graphql_Types.thy ===== *)
theory Graphql_Types
  imports Text_Format
begin

text \<open>
  The data of the query compiler: the schema a query is checked against
  (\<^verbatim>\<open>fuel-indexer-schema/src/db/tables.rs\<close>), the filters and parameters of
  \<^verbatim>\<open>fuel-indexer-graphql/src/arguments.rs\<close>, the selections, fragments and errors of
  \<^verbatim>\<open>graphql.rs\<close>. A \<^verbatim>\<open>HashMap\<close> that is only looked up is a map; one that is iterated is an
  association list in iteration order.
\<close>

section \<open>The schema (tables.rs)\<close>

datatype db_type = Postgres

record schema =
  s_version :: string
  s_namespace :: string
  s_identifier :: string
  s_query :: string
  s_types :: "string set"
  s_fields :: "string \<rightharpoonup> (string \<rightharpoonup> string)"
  s_foreign_keys :: "string \<rightharpoonup> (string \<rightharpoonup> string \<times> string)"

definition normalize_field_type_name :: "string \<Rightarrow> string" where
  "normalize_field_type_name name = remove_char (CHR ''!'') name"

definition check_type :: "schema \<Rightarrow> string \<Rightarrow> bool" where
  "check_type s t \<longleftrightarrow> t \<in> s_types s"

definition field_type :: "schema \<Rightarrow> string \<Rightarrow> string \<Rightarrow> string option" where
  "field_type s cond name =
     (case s_fields s cond of
        Some fieldset \<Rightarrow> fieldset name
      | None \<Rightarrow>
          (case s_fields s (normalize_field_type_name cond) of
             Some fieldset \<Rightarrow> fieldset name
           | None \<Rightarrow> None))"

text \<open>A type name and the same name marked non-null have the same fields, unless the marked text
  is itself a type of the schema.\<close>

lemma field_type_bang:
  assumes "s_fields s (t @ ''!'') = None" "CHR ''!'' \<notin> set t"
  shows "field_type s (t @ ''!'') n = field_type s t n"
proof -
  have "remove_char (CHR ''!'') ''!'' = []" by (simp add: remove_char_def)
  with assms show ?thesis
    by (auto simp: field_type_def normalize_field_type_name_def remove_char_id split: option.splits)
qed

section \<open>Parameters and filters (arguments.rs)\<close>

datatype parsed_value =
    PBigNumber "128 word"
  | PNumber "64 word"
  | PString string
  | PBoolean bool

datatype comparison =
    Between string parsed_value parsed_value
  | Greater string parsed_value
  | GreaterEqual string parsed_value
  | Less string parsed_value
  | LessEqual string parsed_value
  | Equals string parsed_value
  | NotEquals string parsed_value

datatype membership =
    In string "parsed_value list"
  | NotIn string "parsed_value list"

datatype null_value_check =
    NoNulls "string list"
  | OnlyNulls "string list"

datatype filter_type =
    IdSelection parsed_value
  | Comparison comparison
  | Membership membership
  | NullValueCheck null_value_check
  | And filter_type filter_type
  | Or filter_type filter_type
  | Not filter_type

datatype sort_order = Asc | Desc

datatype param_type =
    Filter filter_type
  | Sort string sort_order
  | Offset "64 word"
  | Limit "64 word"

record filter_entry =
  fl_table :: string
  fl_type :: filter_type

record sort_entry =
  so_table :: string
  so_order :: sort_order

record query_params =
  qp_filters :: "filter_entry list"
  qp_sorts :: "sort_entry list"
  qp_offset :: "64 word option"
  qp_limit :: "64 word option"

definition default_params :: query_params where
  "default_params = \<lparr>qp_filters = [], qp_sorts = [], qp_offset = None, qp_limit = None\<rparr>"

section \<open>Selections, fragments and errors (graphql.rs)\<close>

datatype gselection =
    GField (g_name: string) (g_params: "param_type list") (g_sub: gselections) (g_alias: "string option")
  | GFragment string
and gselections =
    Selections (gs_field_type: string) (gs_has_fragments: bool) (gs_selections: "gselection list")

record fragment =
  fr_cond :: string
  fr_selections :: gselections

datatype graphql_error =
    ParseError string
  | UnrecognizedType string
  | UnrecognizedField string string
  | UnrecognizedArgument string string
  | OperationNotSupported string
  | InvalidFragmentSelection fragment string
  | UnsupportedValueType string
  | FragmentResolverFailed
  | SelectionNotSupported
  | UnsupportedNegation string
  | NoPredicatesInFilter
  | UnsupportedFilterOperation string
  | UnableToParseValue string
  | MissingPartnerForBinaryLogicalOperator
  | UnorderedPaginatedQuery

type_synonym 'a gresult = "('a, graphql_error) result"

end
