(* ===== verification/Schema_Builder.thy ===== *)
theory Schema_Builder
  imports Registry_Laws Ft_Column Graphql_Types "HOL-Library.AList"
begin

text \<open>
  \<^verbatim>\<open>fuel-indexer-schema/src/utils.rs\<close>, \<^verbatim>\<open>db/tables.rs\<close> and \<^verbatim>\<open>db/manager.rs\<close>: a GraphQL schema is
  turned into tables, columns, foreign keys and indices (\<^verbatim>\<open>SchemaBuilder\<close>), recorded in the
  registry and loaded back for queries (\<^verbatim>\<open>Schema::load_from_db\<close>). The parser of schema texts
  and SHA-256 are arguments.
\<close>

section \<open>Schema utilities (utils.rs)\<close>

definition newline :: char where
  "newline = CHR 0x0A"

definition metadata_fragment :: string where
  "metadata_fragment = [newline, newline] @ ''type IndexMetadataEntity {'' @ [newline]
     @ ''    id: ID!'' @ [newline] @ ''    time: Int8!'' @ [newline] @ ''}'' @ [newline]"

definition inject_native_entities_into_schema :: "string \<Rightarrow> string" where
  "inject_native_entities_into_schema schema = schema @ metadata_fragment"

definition field_type_table_name :: "field \<Rightarrow> string" where
  "field_type_table_name f = to_lowercase (normalize_field_type_name (type_to_string (fd_type f)))"

definition schema_version :: "(string \<Rightarrow> bytes) \<Rightarrow> string \<Rightarrow> string" where
  "schema_version sha schema = hex_encode (sha schema)"

text \<open>\<^verbatim>\<open>type_id\<close> (\<^verbatim>\<open>fuel-indexer-types/src/lib.rs\<close>): the first eight bytes of the digest.\<close>

definition type_id :: "(string \<Rightarrow> bytes) \<Rightarrow> string \<Rightarrow> string \<Rightarrow> int" where
  "type_id sha namespace name = sint (from_le_bytes (take 8 (sha (namespace @ '':'' @ name))) :: 64 word)"

fun type_name :: "type_definition \<Rightarrow> string" where
  "type_name (TScalar t) = sc_name t"
| "type_name (TObject t) = ob_name t"
| "type_name (TInterface t) = ob_name t"
| "type_name (TUnion t) = un_name t"
| "type_name (TEnum t) = en_name t"
| "type_name (TInputObject t) = io_name t"

text \<open>A directive counts only when it is the only one of its field.\<close>

definition sole_directive :: "field \<Rightarrow> directive option" where
  "sole_directive f = (case fd_directives f of [d] \<Rightarrow> Some d | _ \<Rightarrow> None)"

definition get_index_directive :: "field \<Rightarrow> (string \<times> index_method) option" where
  "get_index_directive f = (case sole_directive f of
     Some d \<Rightarrow> if dir_name d = ''indexed'' then Some (fd_name f, Btree) else None
   | None \<Rightarrow> None)"

definition get_unique_directive :: "field \<Rightarrow> bool" where
  "get_unique_directive f = (case sole_directive f of
     Some d \<Rightarrow> dir_name d = ''unique''
   | None \<Rightarrow> False)"

definition field_id :: "string \<Rightarrow> string \<Rightarrow> string" where
  "field_id obj fld = obj @ ''.'' @ fld"

definition referenced_type :: "(string \<rightharpoonup> string) \<Rightarrow> string \<Rightarrow> (string, 'e) result" where
  "referenced_type types_map fid = expect (types_map fid)
     (''Foreign key field '' @ [CHR 0x27] @ fid @ [CHR 0x27] @ '' is not defined in the schema.'')"

definition get_join_directive_info ::
    "field \<Rightarrow> object_type \<Rightarrow> (string \<rightharpoonup> string) \<Rightarrow> (join_info, 'e) result" where
  "get_join_directive_info f obj types_map =
     (let ftn = normalize_field_type_name (type_to_string (fd_type f));
          mk = (\<lambda>ref ty. \<lparr>ji_reference_field_name = ref, ji_field_name = fd_name f, ji_field_type_name = ftn,
                 ji_object_name = ob_name obj, ji_reference_field_type_name = ty\<rparr>)
      in case sole_directive f of
           Some d \<Rightarrow>
             if dir_name d \<noteq> ''join''
             then Inl (Panic ''Cannot call get_join_directive_info on a non-foreign key item.'')
             else if dir_arguments d = [] then Inl (Panic ''called `Option::unwrap()` on a `None` value'')
             else let ref = value_to_string (snd (last (dir_arguments d)))
                  in rbind (referenced_type types_map (field_id ftn ref)) (\<lambda>ty. Inr (mk ref ty))
         | None \<Rightarrow>
             rbind (referenced_type types_map (field_id ftn ''id'')) (\<lambda>ty.
             Inr (mk ''id'' (if ty = ''ID'' then ''UInt8'' else ty))))"

definition insert_field_types :: "object_type \<Rightarrow> (string \<rightharpoonup> string) \<Rightarrow> (string \<rightharpoonup> string)" where
  "insert_field_types obj m = foldl (\<lambda>m f. m(field_id (ob_name obj) (fd_name f) \<mapsto>
     remove_char (CHR ''!'') (type_to_string (fd_type f)))) m (ob_fields obj)"

definition add_types_of :: "(string \<rightharpoonup> string) \<Rightarrow> schema_item \<Rightarrow> (string \<rightharpoonup> string, 'e) result" where
  "add_types_of m def = (case def of
     TypeDefinition (TObject obj) \<Rightarrow> Inr (insert_field_types obj m)
   | TypeDefinition _ \<Rightarrow> Inl (Panic ''Got a non-object type'')
   | _ \<Rightarrow> Inr m)"

definition build_schema_fields_and_types_map :: "schema_document \<Rightarrow> (string \<rightharpoonup> string, 'e) result" where
  "build_schema_fields_and_types_map doc = foldM add_types_of Map.empty doc"

fun type_definitions :: "schema_document \<Rightarrow> type_definition list" where
  "type_definitions [] = []"
| "type_definitions (TypeDefinition t # doc) = t # type_definitions doc"
| "type_definitions (_ # doc) = type_definitions doc"

fun directive_definitions :: "schema_document \<Rightarrow> directive_definition list" where
  "directive_definitions [] = []"
| "directive_definitions (DirectiveDefinition d # doc) = d # directive_definitions doc"
| "directive_definitions (_ # doc) = directive_definitions doc"

definition build_schema_objects_set :: "schema_document \<Rightarrow> string set \<times> string set" where
  "build_schema_objects_set doc =
     (set (map type_name (type_definitions doc)), set (map dd_name (directive_definitions doc)))"

text \<open>The document of \<^verbatim>\<open>base.graphql\<close>: its scalars and its one enumeration.\<close>

definition base_scalar :: "string \<Rightarrow> schema_item" where
  "base_scalar n = TypeDefinition (TScalar \<lparr>sc_description = None, sc_name = n, sc_directives = []\<rparr>)"

definition base_schema :: schema_document where
  "base_schema = map base_scalar [''ID'', ''Address'', ''AssetId'', ''Bytes4'', ''Bytes8'', ''Bytes32'', ''Bytes64'',
       ''Int4'', ''Int8'', ''Int16'', ''UInt4'', ''UInt8'', ''UInt16'', ''Timestamp'', ''Color'', ''ContractId'', ''Salt'',
       ''Json'', ''MessageId'', ''Charfield'', ''Identity'', ''Boolean'', ''Blob'']
     @ [TypeDefinition (TEnum \<lparr>en_description = None, en_name = ''IndexType'', en_directives = [],
          en_values = [\<lparr>ev_description = None, ev_name = ''Btree'', ev_directives = []\<rparr>,
                       \<lparr>ev_description = None, ev_name = ''Hash'', ev_directives = []\<rparr>]\<rparr>)]"

definition primitives :: "string set" where
  "primitives = fst (build_schema_objects_set base_schema)"

section \<open>The schema builder (db/tables.rs)\<close>

record schema_builder =
  sb_statements :: "string list"
  sb_type_ids :: "type_id_row list"
  sb_columns :: "new_column list"
  sb_foreign_keys :: "foreign_key list"
  sb_indices :: "column_index list"
  sb_namespace :: string
  sb_identifier :: string
  sb_version :: string
  sb_schema :: string
  sb_types :: "string set"
  sb_fields :: "string \<rightharpoonup> (string \<times> string) list"
  sb_query :: string
  sb_query_fields :: "string \<rightharpoonup> (string \<times> string) list"

definition schema_builder_new :: "string \<Rightarrow> string \<Rightarrow> string \<Rightarrow> schema_builder" where
  "schema_builder_new namespace identifier version =
     \<lparr>sb_statements = [], sb_type_ids = [], sb_columns = [], sb_foreign_keys = [], sb_indices = [],
      sb_namespace = namespace, sb_identifier = identifier, sb_version = version, sb_schema = [],
      sb_types = {}, sb_fields = Map.empty, sb_query = [], sb_query_fields = Map.empty\<rparr>"

definition full_namespace :: "schema_builder \<Rightarrow> string" where
  "full_namespace sb = sb_namespace sb @ ''_'' @ sb_identifier sb"

fun process_type :: "gql_type \<Rightarrow> (column_type \<times> bool, 'e) result" where
  "process_type (NamedType t) =
     (if t \<notin> primitives then Inr (CtForeignKey, True)
      else rbind (column_type_of_name t) (\<lambda>ty. Inr (ty, True)))"
| "process_type (ListType _) = Inl (Panic ''List types not supported yet.'')"
| "process_type (NonNullType t) = rbind (process_type t) (\<lambda>(typ, _). Inr (typ, False))"

text \<open>\<^verbatim>\<open>map_fields\<close>, with the order in which the map is filled.\<close>

definition map_fields :: "field list \<Rightarrow> (string \<times> string) list" where
  "map_fields fs = foldl (\<lambda>m f. AList.update (fd_name f) (type_to_string (fd_type f)) m) [] fs"

definition column_for ::
    "int \<Rightarrow> nat \<Rightarrow> field \<Rightarrow> string \<Rightarrow> string \<Rightarrow> bool \<Rightarrow> new_column" where
  "column_for tid pos f ty gty nullable =
     \<lparr>nc_type_id = tid, nc_position = int pos, nc_name = fd_name f, nc_type = ty, nc_nullable = nullable,
      nc_graphql_type = gty, nc_unique = get_unique_directive f\<rparr>"

text \<open>The loop body of \<^verbatim>\<open>generate_columns\<close>: the fragments so far, and the builder.\<close>

definition generate_column ::
    "object_type \<Rightarrow> int \<Rightarrow> string \<Rightarrow> (string \<rightharpoonup> string) \<Rightarrow> string list \<times> schema_builder \<Rightarrow> nat \<times> field
      \<Rightarrow> (string list \<times> schema_builder, 'e) result" where
  "generate_column obj tid tbl types_map st pf =
     (case (st, pf) of ((fragments, sb), (pos, f)) \<Rightarrow>
        rbind (process_type (fd_type f)) (\<lambda>(typ, nullable).
          if typ = CtForeignKey then
            rbind (get_join_directive_info f obj types_map) (\<lambda>ji.
            let fk = foreign_key_new (full_namespace sb) tbl (fd_name f) (field_type_table_name f)
                  (ji_reference_field_name ji) (ji_reference_field_type_name ji);
                column = column_for tid pos f (ji_reference_field_type_name ji) (ji_field_type_name ji) nullable
            in rbind (sql_fragment column) (\<lambda>frag.
               Inr (fragments @ [frag], sb\<lparr>sb_columns := sb_columns sb @ [column],
                 sb_foreign_keys := sb_foreign_keys sb @ [fk]\<rparr>)))
          else
            let column = column_for tid pos f (column_type_name typ) (type_to_string (fd_type f)) nullable;
                indices = (case get_index_directive f of
                    None \<Rightarrow> []
                  | Some (name, method) \<Rightarrow> [\<lparr>ci_table = tbl, ci_namespace = full_namespace sb, ci_method = method,
                      ci_unique = get_unique_directive f, ci_column = name\<rparr>])
            in rbind (sql_fragment column) (\<lambda>frag.
               Inr (fragments @ [frag], sb\<lparr>sb_columns := sb_columns sb @ [column],
                 sb_indices := sb_indices sb @ indices\<rparr>))))"

definition object_column :: "int \<Rightarrow> nat \<Rightarrow> new_column" where
  "object_column tid pos = \<lparr>nc_type_id = tid, nc_position = int pos, nc_name = ''object'', nc_type = ''Object'',
     nc_nullable = False, nc_graphql_type = ''__'', nc_unique = False\<rparr>"

definition generate_columns ::
    "schema_builder \<Rightarrow> object_type \<Rightarrow> int \<Rightarrow> string \<Rightarrow> (string \<rightharpoonup> string)
      \<Rightarrow> (string \<times> schema_builder, 'e) result" where
  "generate_columns sb obj tid tbl types_map =
     rbind (foldM (generate_column obj tid tbl types_map) ([], sb) (enumerate 0 (ob_fields obj)))
       (\<lambda>(fragments, sb').
     rbind (sql_fragment (object_column tid (length fragments))) (\<lambda>frag.
     Inr (join ('','' @ [newline]) (fragments @ [frag]),
       sb'\<lparr>sb_columns := sb_columns sb' @ [object_column tid (length fragments)]\<rparr>)))"

definition generate_table_sql ::
    "(string \<Rightarrow> bytes) \<Rightarrow> string \<Rightarrow> (string \<rightharpoonup> string) \<Rightarrow> schema_builder \<Rightarrow> type_definition
      \<Rightarrow> (schema_builder, 'e) result" where
  "generate_table_sql sha root types_map sb typ =
     (case typ of
        TObject obj \<Rightarrow>
          (let sb1 = sb\<lparr>sb_types := insert (ob_name obj) (sb_types sb),
                        sb_fields := (sb_fields sb)(ob_name obj \<mapsto> map_fields (ob_fields obj))\<rparr>
           in if ob_name obj = root
              then Inr (sb1\<lparr>sb_query_fields := (sb_query_fields sb)(root \<mapsto> map_fields (ob_fields obj))\<rparr>)
              else
                let tbl = to_lowercase (ob_name obj);
                    tid = type_id sha (full_namespace sb) (ob_name obj)
                in rbind (generate_columns sb1 obj tid tbl types_map) (\<lambda>(columns, sb2).
                   Inr (sb2\<lparr>sb_statements := sb_statements sb2
                       @ [''CREATE TABLE IF NOT EXISTS'' @ [newline] @ '' '' @ db_table_name (full_namespace sb) tbl
                          @ '' ('' @ [newline] @ '' '' @ columns @ [newline] @ '')''],
                     sb_type_ids := sb_type_ids sb2 @ [\<lparr>ti_id = tid, ti_schema_version = sb_version sb,
                       ti_schema_name = sb_namespace sb, ti_schema_identifier = sb_identifier sb,
                       ti_graphql_name = ob_name obj, ti_table_name = tbl\<rparr>]\<rparr>)))
      | _ \<Rightarrow> Inl (Panic ''Got a non-object type''))"

text \<open>The name of the query root: of the first schema definition that has one.\<close>

fun schema_query :: "schema_document \<Rightarrow> string option" where
  "schema_query [] = None"
| "schema_query (SchemaDefinition s # doc) = (case sd_query s of Some q \<Rightarrow> Some q | None \<Rightarrow> schema_query doc)"
| "schema_query (_ # doc) = schema_query doc"

definition schema_builder_build ::
    "(string \<Rightarrow> schema_document option) \<Rightarrow> (string \<Rightarrow> bytes) \<Rightarrow> schema_builder \<Rightarrow> string
      \<Rightarrow> (schema_builder, 'e) result" where
  "schema_builder_build parse sha sb schema =
     (let sb0 = sb\<lparr>sb_statements := sb_statements sb @ [''CREATE SCHEMA IF NOT EXISTS '' @ full_namespace sb]\<rparr>
      in rbind (expect (parse schema) ''Error parsing graphql schema'') (\<lambda>doc.
         rbind (expect (schema_query doc) ''TODO: this needs to be error type'') (\<lambda>query.
         rbind (build_schema_fields_and_types_map doc) (\<lambda>types_map.
         rbind (foldM (generate_table_sql sha query types_map) sb0 (type_definitions doc)) (\<lambda>sb1.
         Inr (sb1\<lparr>sb_query := query, sb_schema := schema\<rparr>))))))"

definition commit_metadata ::
    "(string list \<Rightarrow> string \<Rightarrow> sql_error option) \<Rightarrow> schema_builder \<Rightarrow> schema db" where
  "commit_metadata ddl sb =
     dbind (new_graph_root \<lparr>gr_id = 0, gr_version = sb_version sb, gr_schema_name = sb_namespace sb,
       gr_schema_identifier = sb_identifier sb, gr_query = sb_query sb, gr_schema = sb_schema sb\<rparr>) (\<lambda>_.
     dbind (graph_root_latest (sb_namespace sb) (sb_identifier sb)) (\<lambda>latest.
     dbind (dlift (expect (sb_query_fields sb (sb_query sb)) ''No query root.'')) (\<lambda>field_defs.
     dbind (new_root_columns (map (\<lambda>(key, val). (gr_id latest, key, val)) field_defs)) (\<lambda>_.
     dbind (dfor (sb_statements sb) (execute_query ddl)) (\<lambda>_.
     dbind (dfor (map foreign_key_create_statement (sb_foreign_keys sb)) (execute_query ddl)) (\<lambda>_.
     dbind (dfor (map index_create_statement (sb_indices sb)) (execute_query ddl)) (\<lambda>_.
     dbind (type_id_insert (sb_type_ids sb)) (\<lambda>_.
     dbind (new_column_insert (sb_columns sb)) (\<lambda>_.
     dret \<lparr>s_version = sb_version sb, s_namespace = sb_namespace sb, s_identifier = sb_identifier sb,
       s_query = sb_query sb, s_types = sb_types sb,
       s_fields = (\<lambda>t. map_option map_of (sb_fields sb t)), s_foreign_keys = Map.empty\<rparr>)))))))))"

section \<open>Loading a schema (db/tables.rs)\<close>

fun get_column_type :: "gql_type \<Rightarrow> (column_type, 'e) result" where
  "get_column_type (NamedType t) =
     (if t \<notin> primitives then Inr CtForeignKey else column_type_of_name t)"
| "get_column_type (ListType _) = Inl (Panic ''List types not supported yet.'')"
| "get_column_type (NonNullType t) = get_column_type t"

type_synonym foreign_key_map = "string \<rightharpoonup> (string \<rightharpoonup> string \<times> string)"

definition add_foreign_key :: "string \<Rightarrow> string \<Rightarrow> string \<times> string \<Rightarrow> foreign_key_map \<Rightarrow> foreign_key_map" where
  "add_foreign_key tbl col ref m =
     (case m tbl of
        Some fks \<Rightarrow> m(tbl \<mapsto> fks(col \<mapsto> ref))
      | None \<Rightarrow> m(tbl \<mapsto> [col \<mapsto> ref]))"

definition field_foreign_key ::
    "(string \<rightharpoonup> string) \<Rightarrow> object_type \<Rightarrow> foreign_key_map \<Rightarrow> field \<Rightarrow> (foreign_key_map, 'e) result" where
  "field_foreign_key types_map obj m f =
     rbind (get_column_type (fd_type f)) (\<lambda>typ.
       if typ = CtForeignKey then
         rbind (get_join_directive_info f obj types_map) (\<lambda>ji.
         Inr (add_foreign_key (to_lowercase (ob_name obj)) (fd_name f)
           (field_type_table_name f, ji_reference_field_name ji) m))
       else Inr m)"

definition type_foreign_keys ::
    "(string \<rightharpoonup> string) \<Rightarrow> foreign_key_map \<Rightarrow> schema_item \<Rightarrow> (foreign_key_map, 'e) result" where
  "type_foreign_keys types_map m def = (case def of
     TypeDefinition (TObject obj) \<Rightarrow>
       if to_lowercase (ob_name obj) = ''queryroot'' then Inr m
       else foldM (field_foreign_key types_map obj) m (ob_fields obj)
   | _ \<Rightarrow> Inr m)"

definition get_foreign_keys ::
    "(string \<Rightarrow> schema_document option) \<Rightarrow> string \<Rightarrow> (foreign_key_map, 'e) result" where
  "get_foreign_keys parse schema =
     rbind (expect (parse schema) ''Error parsing graphql schema'') (\<lambda>doc.
     rbind (build_schema_fields_and_types_map doc) (\<lambda>types_map.
     foldM (type_foreign_keys types_map) Map.empty doc))"

text \<open>\<^verbatim>\<open>collect\<close> into a map: a later entry replaces an earlier one.\<close>

definition collect_map :: "('k \<times> 'v) list \<Rightarrow> ('k \<rightharpoonup> 'v)" where
  "collect_map xs = map_of (rev xs)"

text \<open>The loop over the types of the schema.\<close>

fun load_types ::
    "type_id_row list \<Rightarrow> string set \<times> (string \<rightharpoonup> (string \<rightharpoonup> string))
      \<Rightarrow> (string set \<times> (string \<rightharpoonup> (string \<rightharpoonup> string))) db" where
  "load_types [] st = dret st"
| "load_types (tid # tids) (tys, flds) =
     dbind (list_column_by_id (ti_id tid)) (\<lambda>columns.
     load_types tids (insert (ti_graphql_name tid) tys,
       flds(ti_graphql_name tid \<mapsto> collect_map (map (\<lambda>c. (co_name c, co_graphql_type c)) columns))))"

definition load_from_db ::
    "(string \<Rightarrow> schema_document option) \<Rightarrow> string \<Rightarrow> string \<Rightarrow> schema db" where
  "load_from_db parse namespace identifier =
     dbind (graph_root_latest namespace identifier) (\<lambda>root.
     dbind (root_columns_list_by_id (gr_id root)) (\<lambda>root_cols.
     dbind (type_id_list_by_name (gr_schema_name root) (gr_version root) identifier) (\<lambda>typeids.
     dbind (load_types typeids ({gr_query root},
       [gr_query root \<mapsto> collect_map (map (\<lambda>c. (rc_column_name c, rc_graphql_type c)) root_cols)])) (\<lambda>(tys, flds).
     dbind (dlift (get_foreign_keys parse (gr_schema root))) (\<lambda>foreign_keys.
     dret \<lparr>s_version = gr_version root, s_namespace = gr_schema_name root,
       s_identifier = gr_schema_identifier root, s_query = gr_query root, s_types = tys,
       s_fields = flds, s_foreign_keys = foreign_keys\<rparr>)))))"

section \<open>The schema manager (db/manager.rs)\<close>

definition new_schema ::
    "(string \<Rightarrow> schema_document option) \<Rightarrow> (string \<Rightarrow> bytes) \<Rightarrow> (string list \<Rightarrow> string \<Rightarrow> sql_error option)
      \<Rightarrow> string \<Rightarrow> string \<Rightarrow> string \<Rightarrow> unit db" where
  "new_schema parse sha ddl namespace identifier schema0 =
     (let schema = inject_native_entities_into_schema schema0; version = schema_version sha schema
      in dbind (schema_exists namespace identifier version) (\<lambda>ex.
         if ex then dret ()
         else dbind (dlift (schema_builder_build parse sha (schema_builder_new namespace identifier version) schema)) (\<lambda>sb.
              dbind (commit_metadata ddl sb) (\<lambda>_. dret ()))))"

definition load_schema ::
    "(string \<Rightarrow> schema_document option) \<Rightarrow> string \<Rightarrow> string \<Rightarrow> schema db" where
  "load_schema parse namespace identifier = load_from_db parse namespace identifier"

end
