(* ===== verification/Schema_Laws.thy ===== *)
theory Schema_Laws
  imports Schema_Builder
begin

text \<open>
  Correctness of the schema builder: the columns it generates, the agreement of its foreign keys
  with those the query compiler derives from the schema text on its own, what a committed schema
  loads back to, and why a second version of a schema cannot be committed.
\<close>

section \<open>Column types\<close>

lemma process_type_column:
  "process_type t = (Inr (ty, nullable) :: (column_type \<times> bool, 'e) result)
    \<Longrightarrow> get_column_type t = (Inr ty :: (column_type, 'e) result)"
  by (induction t arbitrary: ty nullable) (auto split: if_splits)

lemma process_type_error:
  "process_type t = (Inl e :: (column_type \<times> bool, 'e) result)
    \<Longrightarrow> get_column_type t = (Inl e :: (column_type, 'e) result)"
proof (induction t)
  case (NamedType n)
  then show ?case by (cases "column_type_of_name n :: (column_type, 'e) result") (auto split: if_splits)
next
  case (NonNullType t)
  then show ?case by (cases "process_type t :: (column_type \<times> bool, 'e) result") auto
qed simp

lemma primitives_eq: "primitives = set [''ID'', ''Address'', ''AssetId'', ''Bytes4'', ''Bytes8'', ''Bytes32'', ''Bytes64'',
   ''Int4'', ''Int8'', ''Int16'', ''UInt4'', ''UInt8'', ''UInt16'', ''Timestamp'', ''Color'', ''ContractId'', ''Salt'',
   ''Json'', ''MessageId'', ''Charfield'', ''Identity'', ''Boolean'', ''Blob'', ''IndexType'']"
  by (simp add: primitives_def build_schema_objects_set_def base_schema_def base_scalar_def)

section \<open>Generated columns\<close>

definition column_key :: "new_column \<Rightarrow> int \<times> int \<times> string" where
  "column_key c = (nc_type_id c, nc_position c, nc_name c)"

definition expected_keys :: "int \<Rightarrow> nat \<Rightarrow> string list \<Rightarrow> (int \<times> int \<times> string) list" where
  "expected_keys tid n names = map (\<lambda>(p, name). (tid, int p, name)) (enumerate n names)"

lemma generate_column_keys:
  assumes "generate_column obj tid tbl tm (frs, sb) (pos, f) = (Inr (frs', sb') :: (string list \<times> schema_builder, 'e) result)"
  shows "length frs' = Suc (length frs)
    \<and> (\<exists>c. sb_columns sb' = sb_columns sb @ [c] \<and> column_key c = (tid, int pos, fd_name f))"
  using assms
  by (auto simp: generate_column_def Let_def column_for_def column_key_def split: if_splits option.splits)

lemma generate_fold_keys:
  "foldM (generate_column obj tid tbl tm) (frs, sb) (enumerate n fs) = (Inr (frs', sb') :: (string list \<times> schema_builder, 'e) result)
    \<Longrightarrow> length frs' = length frs + length fs
      \<and> (\<exists>cs. sb_columns sb' = sb_columns sb @ cs \<and> map column_key cs = expected_keys tid n (map fd_name fs))"
proof (induction fs arbitrary: n frs sb)
  case Nil
  then show ?case by (simp add: expected_keys_def)
next
  case (Cons f fs)
  from Cons.prems(1) obtain frs1 sb1 where step: "generate_column obj tid tbl tm (frs, sb) (n, f) = (Inr (frs1, sb1) :: (string list \<times> schema_builder, 'e) result)"
    and rest: "foldM (generate_column obj tid tbl tm) (frs1, sb1) (enumerate (Suc n) fs) = (Inr (frs', sb') :: (string list \<times> schema_builder, 'e) result)"
    by auto
  from generate_column_keys [OF step] Cons.IH [OF rest] show ?case
    by (auto simp: expected_keys_def)
qed

lemma generate_columns_keys:
  assumes "generate_columns sb obj tid tbl tm = (Inr (txt, sb') :: (string \<times> schema_builder, 'e) result)"
  shows "\<exists>cs. sb_columns sb' = sb_columns sb @ cs
    \<and> map column_key cs = expected_keys tid 0 (map fd_name (ob_fields obj) @ [''object''])"
proof -
  from assms obtain frs sb1 where f: "foldM (generate_column obj tid tbl tm) ([], sb) (enumerate 0 (ob_fields obj)) = (Inr (frs, sb1) :: (string list \<times> schema_builder, 'e) result)"
    and sb': "sb_columns sb' = sb_columns sb1 @ [object_column tid (length frs)]"
    by (auto simp: generate_columns_def)
  from generate_fold_keys [OF f] sb' show ?thesis
    by (auto simp: expected_keys_def object_column_def column_key_def enumerate_append_eq)
qed

section \<open>Foreign keys\<close>

definition fk_entry :: "foreign_key_map \<Rightarrow> foreign_key \<Rightarrow> foreign_key_map" where
  "fk_entry m fk = add_foreign_key (fk_table fk) (fk_column fk) (fk_reference_table fk, fk_reference_column fk) m"

text \<open>One field: the builder appends the foreign key that the query compiler adds to its map.\<close>

lemma generate_column_fk:
  assumes "generate_column obj tid tbl tm (frs, sb) (pos, f) = (Inr (frs', sb') :: (string list \<times> schema_builder, 'e) result)"
    and "tbl = to_lowercase (ob_name obj)"
  shows "\<exists>fks. sb_foreign_keys sb' = sb_foreign_keys sb @ fks
    \<and> field_foreign_key tm obj m f = (Inr (foldl fk_entry m fks) :: (_, 'e) result)"
proof -
  from assms(1) obtain ty nullable where p: "process_type (fd_type f) = (Inr (ty, nullable) :: (_, 'e) result)"
    by (cases "process_type (fd_type f) :: (column_type \<times> bool, 'e) result") (auto simp: generate_column_def)
  from process_type_column [OF p] assms p show ?thesis
    by (cases "ty = CtForeignKey")
      (auto simp: generate_column_def field_foreign_key_def Let_def foreign_key_new_def fk_entry_def
        split: if_splits option.splits)
qed

lemma generate_fold_fk:
  "foldM (generate_column obj tid tbl tm) (frs, sb) (enumerate n fs) = (Inr (frs', sb') :: (string list \<times> schema_builder, 'e) result)
    \<Longrightarrow> tbl = to_lowercase (ob_name obj)
    \<Longrightarrow> \<exists>fks. sb_foreign_keys sb' = sb_foreign_keys sb @ fks
      \<and> foldM (field_foreign_key tm obj) m fs = (Inr (foldl fk_entry m fks) :: (foreign_key_map, 'e) result)"
proof (induction fs arbitrary: n frs sb m)
  case (Cons f fs)
  from Cons.prems(1) obtain frs1 sb1 where step: "generate_column obj tid tbl tm (frs, sb) (n, f) = (Inr (frs1, sb1) :: (string list \<times> schema_builder, 'e) result)"
    and rest: "foldM (generate_column obj tid tbl tm) (frs1, sb1) (enumerate (Suc n) fs) = (Inr (frs', sb') :: (string list \<times> schema_builder, 'e) result)"
    by auto
  from generate_column_fk [OF step Cons.prems(2)] obtain fks where fks: "sb_foreign_keys sb1 = sb_foreign_keys sb @ fks"
    "field_foreign_key tm obj m f = (Inr (foldl fk_entry m fks) :: (foreign_key_map, 'e) result)" by blast
  from Cons.IH [OF rest Cons.prems(2), of "foldl fk_entry m fks"] obtain fks' where
    "sb_foreign_keys sb' = sb_foreign_keys sb1 @ fks'"
    "foldM (field_foreign_key tm obj) (foldl fk_entry m fks) fs = (Inr (foldl fk_entry (foldl fk_entry m fks) fks') :: (foreign_key_map, 'e) result)" by blast
  with fks show ?case by (intro exI [of _ "fks @ fks'"]) simp
qed auto

text \<open>The query root is the type that the query compiler takes for it, by its name.\<close>

definition root_named :: "string \<Rightarrow> schema_document \<Rightarrow> bool" where
  "root_named query doc \<longleftrightarrow> list_all (\<lambda>t. case t of
      TObject obj \<Rightarrow> (to_lowercase (ob_name obj) = ''queryroot'') = (ob_name obj = query)
    | _ \<Rightarrow> True) (type_definitions doc)"

lemma generate_table_fk:
  assumes "generate_table_sql sha root tm sb ty = (Inr sb' :: (schema_builder, 'e) result)"
    and "case ty of TObject obj \<Rightarrow> (to_lowercase (ob_name obj) = ''queryroot'') = (ob_name obj = root) | _ \<Rightarrow> True"
  shows "\<exists>fks. sb_foreign_keys sb' = sb_foreign_keys sb @ fks
    \<and> type_foreign_keys tm m (TypeDefinition ty) = (Inr (foldl fk_entry m fks) :: (foreign_key_map, 'e) result)"
proof -
  from assms(1) obtain obj where ty: "ty = TObject obj"
    by (cases ty) (auto simp: generate_table_sql_def)
  show ?thesis
  proof (cases "ob_name obj = root")
    case True
    with assms ty show ?thesis by (auto simp: generate_table_sql_def type_foreign_keys_def)
  next
    case False
    let ?sb1 = "sb\<lparr>sb_types := insert (ob_name obj) (sb_types sb),
                        sb_fields := (sb_fields sb)(ob_name obj \<mapsto> map_fields (ob_fields obj))\<rparr>"
    from False assms(1) ty obtain columns sb2 where
      g: "generate_columns ?sb1 obj (type_id sha (full_namespace sb) (ob_name obj)) (to_lowercase (ob_name obj)) tm = (Inr (columns, sb2) :: (string \<times> schema_builder, 'e) result)"
      and sb': "sb_foreign_keys sb' = sb_foreign_keys sb2"
      by (auto simp: generate_table_sql_def Let_def)
    from g obtain frs sb3 where
      f: "foldM (generate_column obj (type_id sha (full_namespace sb) (ob_name obj)) (to_lowercase (ob_name obj)) tm)
            ([], ?sb1) (enumerate 0 (ob_fields obj)) = (Inr (frs, sb3) :: (string list \<times> schema_builder, 'e) result)"
      and "sb_foreign_keys sb2 = sb_foreign_keys sb3"
      by (auto simp: generate_columns_def)
    with generate_fold_fk [OF f refl, of m] sb' False assms(2) ty show ?thesis
      by (auto simp: type_foreign_keys_def)
  qed
qed

lemma generate_tables_fk:
  "foldM (generate_table_sql sha root tm) sb (type_definitions doc) = (Inr sb' :: (schema_builder, 'e) result) \<Longrightarrow> root_named root doc
    \<Longrightarrow> \<exists>fks. sb_foreign_keys sb' = sb_foreign_keys sb @ fks
      \<and> foldM (type_foreign_keys tm) m doc = (Inr (foldl fk_entry m fks) :: (foreign_key_map, 'e) result)"
proof (induction doc arbitrary: sb m)
  case (Cons def doc)
  show ?case
  proof (cases def)
    case (TypeDefinition ty)
    with Cons.prems(1) obtain sb1 where step: "generate_table_sql sha root tm sb ty = (Inr sb1 :: (schema_builder, 'e) result)"
      and rest: "foldM (generate_table_sql sha root tm) sb1 (type_definitions doc) = (Inr sb' :: (schema_builder, 'e) result)" by auto
    from Cons.prems(2) TypeDefinition have named: "root_named root doc"
      "case ty of TObject obj \<Rightarrow> (to_lowercase (ob_name obj) = ''queryroot'') = (ob_name obj = root) | _ \<Rightarrow> True"
      by (auto simp: root_named_def)
    from generate_table_fk [OF step named(2), of m] obtain fks where fks:
      "sb_foreign_keys sb1 = sb_foreign_keys sb @ fks"
      "type_foreign_keys tm m (TypeDefinition ty) = (Inr (foldl fk_entry m fks) :: (foreign_key_map, 'e) result)" by blast
    from Cons.IH [OF rest named(1), of "foldl fk_entry m fks"] obtain fks' where
      "sb_foreign_keys sb' = sb_foreign_keys sb1 @ fks'"
      "foldM (type_foreign_keys tm) (foldl fk_entry m fks) doc = (Inr (foldl fk_entry (foldl fk_entry m fks) fks') :: (foreign_key_map, 'e) result)" by blast
    with fks TypeDefinition show ?thesis by (intro exI [of _ "fks @ fks'"]) simp
  qed (use Cons in \<open>auto simp: type_foreign_keys_def root_named_def\<close>)
qed auto

section \<open>The schema that is built\<close>

text \<open>The object types that become tables, and what the builder records for one of them.\<close>

fun objects_of :: "schema_document \<Rightarrow> object_type list" where
  "objects_of [] = []"
| "objects_of (TypeDefinition (TObject obj) # doc) = obj # objects_of doc"
| "objects_of (_ # doc) = objects_of doc"

definition tables_in :: "string \<Rightarrow> schema_document \<Rightarrow> object_type list" where
  "tables_in root doc = filter (\<lambda>obj. ob_name obj \<noteq> root) (objects_of doc)"

definition type_row :: "(string \<Rightarrow> bytes) \<Rightarrow> schema_builder \<Rightarrow> object_type \<Rightarrow> type_id_row" where
  "type_row sha sb obj = \<lparr>ti_id = type_id sha (full_namespace sb) (ob_name obj), ti_schema_version = sb_version sb,
     ti_schema_name = sb_namespace sb, ti_schema_identifier = sb_identifier sb,
     ti_graphql_name = ob_name obj, ti_table_name = to_lowercase (ob_name obj)\<rparr>"

definition table_keys :: "(string \<Rightarrow> bytes) \<Rightarrow> schema_builder \<Rightarrow> object_type \<Rightarrow> (int \<times> int \<times> string) list" where
  "table_keys sha sb obj = expected_keys (type_id sha (full_namespace sb) (ob_name obj)) 0
     (map fd_name (ob_fields obj) @ [''object''])"

definition same_target :: "schema_builder \<Rightarrow> schema_builder \<Rightarrow> bool" where
  "same_target sb sb' \<longleftrightarrow> sb_namespace sb' = sb_namespace sb \<and> sb_identifier sb' = sb_identifier sb
     \<and> sb_version sb' = sb_version sb"

lemma same_target_row: "same_target sb sb' \<Longrightarrow> type_row sha sb' = type_row sha sb \<and> table_keys sha sb' = table_keys sha sb"
  by (auto simp: same_target_def type_row_def table_keys_def full_namespace_def fun_eq_iff)

definition only_columns :: "schema_builder \<Rightarrow> schema_builder \<Rightarrow> bool" where
  "only_columns sb sb' \<longleftrightarrow> sb_statements sb' = sb_statements sb
     \<and> sb_type_ids sb' = sb_type_ids sb
     \<and> sb_namespace sb' = sb_namespace sb
     \<and> sb_identifier sb' = sb_identifier sb
     \<and> sb_version sb' = sb_version sb
     \<and> sb_schema sb' = sb_schema sb
     \<and> sb_types sb' = sb_types sb
     \<and> sb_fields sb' = sb_fields sb
     \<and> sb_query sb' = sb_query sb
     \<and> sb_query_fields sb' = sb_query_fields sb"

lemma only_columns_refl: "only_columns sb sb"
  by (simp add: only_columns_def)

lemma only_columns_update [simp]:
  "only_columns sb (sb'\<lparr>sb_columns := cs\<rparr>) = only_columns sb sb'"
  "only_columns sb (sb'\<lparr>sb_foreign_keys := fks\<rparr>) = only_columns sb sb'"
  "only_columns sb (sb'\<lparr>sb_indices := is\<rparr>) = only_columns sb sb'"
  by (simp_all add: only_columns_def)

lemma generate_column_frame:
  "generate_column obj tid tbl tm (frs, sb) pf = Inr (frs', sb') \<Longrightarrow> only_columns sb0 sb \<Longrightarrow> only_columns sb0 sb'"
  by (cases pf) (auto simp: generate_column_def Let_def split: if_splits)

lemma generate_columns_frame:
  assumes "generate_columns sb obj tid tbl tm = (Inr (txt, sb') :: (string \<times> schema_builder, 'e) result)"
  shows "only_columns sb sb'"
proof -
  from assms obtain frs sb1 where f: "foldM (generate_column obj tid tbl tm) ([], sb) (enumerate 0 (ob_fields obj))
      = (Inr (frs, sb1) :: (string list \<times> schema_builder, 'e) result)"
    and sb': "\<exists>cs. sb' = sb1\<lparr>sb_columns := cs\<rparr>"
    by (auto simp: generate_columns_def)
  from f have "only_columns sb (snd (frs, sb1))"
    by (rule foldM_invariant) (auto simp: only_columns_refl dest: generate_column_frame)
  with sb' show ?thesis by auto
qed

text \<open>One type of the schema.\<close>

lemma generate_table_effect:
  assumes "generate_table_sql sha root tm sb (TObject obj) = (Inr sb' :: (schema_builder, 'e) result)"
  shows "same_target sb sb' \<and> sb_types sb' = insert (ob_name obj) (sb_types sb)
    \<and> sb_fields sb' = (sb_fields sb)(ob_name obj \<mapsto> map_fields (ob_fields obj))
    \<and> sb_query_fields sb' = (if ob_name obj = root then (sb_query_fields sb)(root \<mapsto> map_fields (ob_fields obj)) else sb_query_fields sb)
    \<and> sb_type_ids sb' = sb_type_ids sb @ (if ob_name obj = root then [] else [type_row sha sb obj])
    \<and> map column_key (sb_columns sb') = map column_key (sb_columns sb)
        @ (if ob_name obj = root then [] else table_keys sha sb obj)
    \<and> length (sb_statements sb') = length (sb_statements sb) + (if ob_name obj = root then 0 else 1)"
proof (cases "ob_name obj = root")
  case True
  with assms show ?thesis by (auto simp: generate_table_sql_def same_target_def)
next
  case False
  let ?sb1 = "sb\<lparr>sb_types := insert (ob_name obj) (sb_types sb),
                      sb_fields := (sb_fields sb)(ob_name obj \<mapsto> map_fields (ob_fields obj))\<rparr>"
  from False assms obtain columns sb2 where
    g: "generate_columns ?sb1 obj (type_id sha (full_namespace sb) (ob_name obj)) (to_lowercase (ob_name obj)) tm
      = (Inr (columns, sb2) :: (string \<times> schema_builder, 'e) result)"
    and sb': "sb_types sb' = sb_types sb2" "sb_fields sb' = sb_fields sb2" "sb_query_fields sb' = sb_query_fields sb2"
      "sb_columns sb' = sb_columns sb2" "same_target sb2 sb'"
      "sb_type_ids sb' = sb_type_ids sb2 @ [type_row sha sb obj]" "length (sb_statements sb') = Suc (length (sb_statements sb2))"
    by (auto simp: generate_table_sql_def Let_def same_target_def type_row_def)
  from generate_columns_frame [OF g] have "only_columns ?sb1 sb2" .
  moreover from generate_columns_keys [OF g] sb'(4) have "map column_key (sb_columns sb') = map column_key (sb_columns sb)
      @ table_keys sha sb obj" by (auto simp: table_keys_def)
  ultimately show ?thesis using sb' False by (simp add: only_columns_def same_target_def)
qed

lemma generate_table_object:
  "generate_table_sql sha root tm sb ty = Inr sb' \<Longrightarrow> \<exists>obj. ty = TObject obj"
  by (cases ty) (auto simp: generate_table_sql_def)

definition object_fields :: "(string \<rightharpoonup> (string \<times> string) list) \<Rightarrow> object_type list \<Rightarrow> (string \<rightharpoonup> (string \<times> string) list)" where
  "object_fields m objs = foldl (\<lambda>m obj. m(ob_name obj \<mapsto> map_fields (ob_fields obj))) m objs"

definition built_from :: "(string \<Rightarrow> bytes) \<Rightarrow> string \<Rightarrow> schema_document \<Rightarrow> schema_builder \<Rightarrow> schema_builder \<Rightarrow> bool" where
  "built_from sha root doc sb sb' \<longleftrightarrow> same_target sb sb'
    \<and> sb_types sb' = sb_types sb \<union> ob_name ` set (objects_of doc)
    \<and> sb_fields sb' = object_fields (sb_fields sb) (objects_of doc)
    \<and> (sb_query_fields sb root = sb_fields sb root \<longrightarrow> sb_query_fields sb' root = sb_fields sb' root)
    \<and> sb_type_ids sb' = sb_type_ids sb @ map (type_row sha sb) (tables_in root doc)
    \<and> map column_key (sb_columns sb') = map column_key (sb_columns sb) @ concat (map (table_keys sha sb) (tables_in root doc))
    \<and> length (sb_statements sb') = length (sb_statements sb) + length (tables_in root doc)"

lemma generate_tables_built:
  "foldM (generate_table_sql sha root tm) sb (type_definitions doc) = (Inr sb' :: (schema_builder, 'e) result)
    \<Longrightarrow> built_from sha root doc sb sb'"
proof (induction doc arbitrary: sb)
  case Nil
  then show ?case by (simp add: built_from_def same_target_def tables_in_def object_fields_def)
next
  case (Cons def doc)
  show ?case
  proof (cases def)
    case (TypeDefinition ty)
    with Cons.prems obtain sb1 where step: "generate_table_sql sha root tm sb ty = (Inr sb1 :: (schema_builder, 'e) result)"
      and rest: "foldM (generate_table_sql sha root tm) sb1 (type_definitions doc) = (Inr sb' :: (schema_builder, 'e) result)"
      by auto
    from generate_table_object [OF step] obtain obj where ty: "ty = TObject obj" ..
    note effect = generate_table_effect [OF step [unfolded ty]]
    then have "same_target sb sb1" by simp
    note same_target_row [OF this, of sha, THEN conjunct1] same_target_row [OF this, of sha, THEN conjunct2]
    with effect Cons.IH [OF rest] show ?thesis
      by (auto simp: built_from_def same_target_def tables_in_def object_fields_def TypeDefinition ty)
  qed (use Cons in \<open>auto simp: built_from_def tables_in_def\<close>)
qed

lemma schema_builder_build_steps:
  assumes "schema_builder_build parse sha sb schema = (Inr sb' :: (schema_builder, 'e) result)"
  obtains doc tm sb1 where "parse schema = Some doc" "schema_query doc = Some (sb_query sb')"
    and "build_schema_fields_and_types_map doc = (Inr tm :: (string \<rightharpoonup> string, 'e) result)"
    and "foldM (generate_table_sql sha (sb_query sb') tm)
          (sb\<lparr>sb_statements := sb_statements sb @ [''CREATE SCHEMA IF NOT EXISTS '' @ full_namespace sb]\<rparr>)
          (type_definitions doc) = (Inr sb1 :: (schema_builder, 'e) result)"
    and "sb' = sb1\<lparr>sb_query := sb_query sb', sb_schema := schema\<rparr>"
proof -
  from assms obtain doc query tm sb1 where "parse schema = Some doc" "schema_query doc = Some query"
    and "build_schema_fields_and_types_map doc = (Inr tm :: (string \<rightharpoonup> string, 'e) result)"
    and "foldM (generate_table_sql sha query tm)
          (sb\<lparr>sb_statements := sb_statements sb @ [''CREATE SCHEMA IF NOT EXISTS '' @ full_namespace sb]\<rparr>)
          (type_definitions doc) = (Inr sb1 :: (schema_builder, 'e) result)"
    and sb': "sb' = sb1\<lparr>sb_query := query, sb_schema := schema\<rparr>"
    unfolding schema_builder_build_def Let_def by (elim rbind_InrE) simp
  moreover from sb' have "sb_query sb' = query" by simp
  ultimately show thesis using that by simp
qed

definition opened_builder :: "string \<Rightarrow> string \<Rightarrow> string \<Rightarrow> schema_builder" where
  "opened_builder ns ident v = (schema_builder_new ns ident v)
     \<lparr>sb_statements := [''CREATE SCHEMA IF NOT EXISTS '' @ full_namespace (schema_builder_new ns ident v)]\<rparr>"

lemma built_schema:
  assumes "schema_builder_build parse sha (schema_builder_new ns ident v) schema = (Inr sb :: (schema_builder, 'e) result)"
    and "parse schema = Some doc"
  shows "built_from sha (sb_query sb) doc (opened_builder ns ident v) sb \<and> sb_schema sb = schema
    \<and> schema_query doc = Some (sb_query sb)
    \<and> (root_named (sb_query sb) doc \<longrightarrow> get_foreign_keys parse schema
        = (Inr (foldl fk_entry Map.empty (sb_foreign_keys sb)) :: (foreign_key_map, 'e) result))"
proof -
  have opened: "(schema_builder_new ns ident v)\<lparr>sb_statements := sb_statements (schema_builder_new ns ident v)
      @ [''CREATE SCHEMA IF NOT EXISTS '' @ full_namespace (schema_builder_new ns ident v)]\<rparr> = opened_builder ns ident v"
    by (simp add: opened_builder_def schema_builder_new_def)
  from schema_builder_build_steps [OF assms(1), unfolded opened] obtain doc' tm sb1 where doc: "parse schema = Some doc'"
    and query: "schema_query doc' = Some (sb_query sb)"
    and tm: "build_schema_fields_and_types_map doc' = (Inr tm :: (string \<rightharpoonup> string, 'e) result)"
    and f: "foldM (generate_table_sql sha (sb_query sb) tm) (opened_builder ns ident v) (type_definitions doc')
      = (Inr sb1 :: (schema_builder, 'e) result)"
    and sb: "sb = sb1\<lparr>sb_query := sb_query sb, sb_schema := schema\<rparr>" .
  from doc assms(2) have doc': "doc' = doc" by simp
  from generate_tables_built [OF f] doc' have "built_from sha (sb_query sb) doc (opened_builder ns ident v) sb"
    by (subst (2) sb) (simp add: built_from_def same_target_def)
  moreover have "sb_schema sb = schema" by (subst sb) simp
  moreover have "get_foreign_keys parse schema = (Inr (foldl fk_entry Map.empty (sb_foreign_keys sb)) :: (foreign_key_map, 'e) result)"
    if named: "root_named (sb_query sb) doc"
  proof -
    have "sb_foreign_keys sb = sb_foreign_keys sb1" by (subst sb) simp
    with generate_tables_fk [OF f [unfolded doc'] named, of Map.empty] tm assms(2) doc' show ?thesis
      by (auto simp: get_foreign_keys_def expect_def opened_builder_def schema_builder_new_def)
  qed
  ultimately show ?thesis using query doc' by simp
qed

lemma built_rows:
  assumes "schema_builder_build parse sha (schema_builder_new ns ident v) schema = (Inr sb :: (schema_builder, 'e) result)"
    and "parse schema = Some doc"
  shows "sb_type_ids sb = map (type_row sha sb) (tables_in (sb_query sb) doc)"
    and "map column_key (sb_columns sb) = concat (map (table_keys sha sb) (tables_in (sb_query sb) doc))"
    and "length (sb_statements sb) = Suc (length (tables_in (sb_query sb) doc))"
    and "sb_types sb = ob_name ` set (objects_of doc)"
    and "sb_namespace sb = ns" "sb_identifier sb = ident" "sb_version sb = v"
proof -
  from built_schema [OF assms] have b: "built_from sha (sb_query sb) doc (opened_builder ns ident v) sb" by simp
  then have "same_target (opened_builder ns ident v) sb" by (simp add: built_from_def)
  from same_target_row [OF this, of sha] b show
    "sb_type_ids sb = map (type_row sha sb) (tables_in (sb_query sb) doc)"
    "map column_key (sb_columns sb) = concat (map (table_keys sha sb) (tables_in (sb_query sb) doc))"
    "length (sb_statements sb) = Suc (length (tables_in (sb_query sb) doc))"
    "sb_types sb = ob_name ` set (objects_of doc)"
    "sb_namespace sb = ns" "sb_identifier sb = ident" "sb_version sb = v"
    by (simp_all add: built_from_def same_target_def opened_builder_def schema_builder_new_def)
qed

section \<open>Properties of the built schema\<close>

text \<open>
  A schema that builds gives one table, one type row and one \<^verbatim>\<open>CREATE TABLE\<close> statement for each
  object type other than the query root, in order, after the \<^verbatim>\<open>CREATE SCHEMA\<close> statement; the
  columns of a table are the fields of the type at positions \<open>0, 1, \<dots>\<close> followed by the column
  \<^verbatim>\<open>object\<close>, all with the id of the type.
\<close>

theorem built_schema_tables:
  assumes "schema_builder_build parse sha (schema_builder_new ns ident v) schema = (Inr sb :: (schema_builder, 'e) result)"
    and "parse schema = Some doc"
  shows "sb_type_ids sb = map (type_row sha sb) (tables_in (sb_query sb) doc)
    \<and> map column_key (sb_columns sb) = concat (map (table_keys sha sb) (tables_in (sb_query sb) doc))
    \<and> length (sb_statements sb) = Suc (length (tables_in (sb_query sb) doc))
    \<and> sb_types sb = ob_name ` set (objects_of doc)"
  using built_rows [OF assms] by simp

text \<open>
  C26: the query compiler and the schema builder agree on foreign keys. The compiler recomputes
  them from the stored schema text, knowing the query root by its name only; for a schema that
  built, it never fails, and finds exactly the constraints that the builder created (the later one
  where a field name repeats), provided the root is the type named \<^verbatim>\<open>queryroot\<close> up to case.
\<close>

theorem foreign_keys_agree:
  assumes "schema_builder_build parse sha (schema_builder_new ns ident v) schema = (Inr sb :: (schema_builder, 'e) result)"
    and "parse schema = Some doc" and "root_named (sb_query sb) doc"
  shows "get_foreign_keys parse schema
    = (Inr (foldl fk_entry Map.empty (sb_foreign_keys sb)) :: (foreign_key_map, 'e) result)"
  using built_schema [OF assms(1,2)] assms(3) by simp

text \<open>A small schema: a thing with an owner, and the entity that is added to every schema.\<close>

definition plain_field :: "string \<Rightarrow> gql_type \<Rightarrow> field" where
  "plain_field n t = \<lparr>fd_description = None, fd_name = n, fd_arguments = [], fd_type = t, fd_directives = []\<rparr>"

definition plain_object :: "string \<Rightarrow> field list \<Rightarrow> schema_item" where
  "plain_object n fs = TypeDefinition (TObject \<lparr>ob_description = None, ob_name = n, ob_implements = [],
     ob_directives = [], ob_fields = fs\<rparr>)"

definition thing_schema :: schema_document where
  "thing_schema = [
     SchemaDefinition \<lparr>sd_directives = [], sd_query = Some ''QueryRoot'', sd_mutation = None, sd_subscription = None\<rparr>,
     plain_object ''QueryRoot'' [plain_field ''thing'' (NamedType ''Thing''), plain_field ''user'' (NamedType ''User'')],
     plain_object ''Thing'' [plain_field ''id'' (NonNullType (NamedType ''ID'')), plain_field ''owner'' (NonNullType (NamedType ''User''))],
     plain_object ''User'' [plain_field ''id'' (NonNullType (NamedType ''ID'')), plain_field ''name'' (NamedType ''Charfield'')],
     plain_object ''IndexMetadataEntity'' [plain_field ''id'' (NonNullType (NamedType ''ID'')), plain_field ''time'' (NonNullType (NamedType ''Int8''))]]"

definition parse_thing :: "string \<Rightarrow> schema_document option" where
  "parse_thing s = Some thing_schema"

definition last_bytes :: "string \<Rightarrow> bytes" where
  "last_bytes s = map (\<lambda>c. of_nat (of_char c)) (rev s)"

definition thing_builder :: "(schema_builder, sql_error) result" where
  "thing_builder = schema_builder_build parse_thing last_bytes (schema_builder_new ''ns'' ''idx'' ''v1'') ''text''"

lemmas build_defs = schema_builder_build_def schema_builder_new_def build_schema_fields_and_types_map_def
  plain_object_def plain_field_def add_types_of_def insert_field_types_def field_id_def remove_char_def
  generate_table_sql_def map_fields_def generate_columns_def generate_column_def primitives_eq column_type_of_name_def
  full_namespace_def to_lowercase_def lower_char_def get_join_directive_info_def sole_directive_def
  referenced_type_def expect_def normalize_field_type_name_def foreign_key_new_def column_for_def sql_fragment_def
  sql_type_def field_type_table_name_def get_unique_directive_def get_index_directive_def object_column_def
  trim_def is_whitespace_def type_id_def last_bytes_def from_le_bytes_def Let_def
  thing_builder_def parse_thing_def thing_schema_def

lemma thing_builder_Inr:
  "\<exists>sb. thing_builder = Inr sb \<and> sb_query sb = ''QueryRoot'' \<and> length (sb_type_ids sb) = 3
    \<and> map fk_column (sb_foreign_keys sb) = [''owner''] \<and> sb_query_fields sb ''QueryRoot'' = Some [(''thing'', ''Thing''), (''user'', ''User'')]"
  by (simp add: build_defs)

lemma lower_names:
  "to_lowercase ''QueryRoot'' = ''queryroot''" "to_lowercase ''Thing'' = ''thing''" "to_lowercase ''User'' = ''user''"
  "to_lowercase ''IndexMetadataEntity'' = ''indexmetadataentity''"
  by code_simp+

lemma thing_tables: "map ob_name (tables_in ''QueryRoot'' thing_schema) = [''Thing'', ''User'', ''IndexMetadataEntity'']"
  by (simp add: tables_in_def thing_schema_def plain_object_def)

lemma thing_root_named: "root_named ''QueryRoot'' thing_schema"
  by (simp add: root_named_def thing_schema_def plain_object_def lower_names)

lemma built_schema_tables_witness:
  "\<exists>sb. thing_builder = Inr sb \<and> map ti_table_name (sb_type_ids sb) = [''thing'', ''user'', ''indexmetadataentity'']
    \<and> length (sb_statements sb) = 4"
proof -
  obtain sb where sb: "thing_builder = Inr sb" "sb_query sb = ''QueryRoot''" using thing_builder_Inr by blast
  have "parse_thing ''text'' = Some thing_schema" by (simp add: parse_thing_def)
  note built = built_schema_tables [OF sb(1) [unfolded thing_builder_def] this]
  from built sb(2) have "map ti_table_name (sb_type_ids sb) = map to_lowercase (map ob_name (tables_in ''QueryRoot'' thing_schema))"
    by (simp add: type_row_def)
  moreover have "length (tables_in ''QueryRoot'' thing_schema) = 3" using thing_tables by (metis length_map length_Cons list.size(3) numeral_3_eq_3)
  ultimately show ?thesis using built sb by (auto simp: thing_tables lower_names simp del: map_map)
qed

lemma foreign_keys_agree_witness:
  "\<exists>sb. thing_builder = Inr sb \<and> map fk_column (sb_foreign_keys sb) = [''owner'']
    \<and> get_foreign_keys parse_thing ''text''
      = (Inr (foldl fk_entry Map.empty (sb_foreign_keys sb)) :: (foreign_key_map, sql_error) result)"
proof -
  obtain sb where sb: "thing_builder = Inr sb" "sb_query sb = ''QueryRoot''" "map fk_column (sb_foreign_keys sb) = [''owner'']"
    using thing_builder_Inr by (elim exE conjE) (rule that)
  have "parse_thing ''text'' = Some thing_schema" by (simp add: parse_thing_def)
  note agree = foreign_keys_agree [OF sb(1) [unfolded thing_builder_def] this, unfolded sb(2), OF thing_root_named]
  show ?thesis by (intro exI conjI) (rule sb(1), rule sb(3), rule agree)
qed

text \<open>
  The base schema that every schema text may use declares three types without a column type:
  a field of type \<^verbatim>\<open>Bytes64\<close>, \<^verbatim>\<open>Color\<close> or \<^verbatim>\<open>IndexType\<close> makes the builder panic, and so does any list. Every
  other named type gives a nullable column: its own type, or a foreign key.
\<close>

theorem column_types_of_fields:
  "(\<exists>m. process_type (NamedType t) = (Inl (Panic m) :: (column_type \<times> bool, 'e) result))
      = (t = ''Bytes64'' \<or> t = ''Color'' \<or> t = ''IndexType'')
    \<and> (\<exists>m. process_type (ListType ty) = (Inl (Panic m) :: (column_type \<times> bool, 'e) result))
    \<and> (\<exists>ct. process_type (NamedType t) = (Inr (ct, True) :: (column_type \<times> bool, 'e) result)
        \<and> (ct = CtForeignKey \<and> t \<notin> primitives \<or> ct \<noteq> CtForeignKey \<and> column_type_name ct = t))
      = (t \<noteq> ''Bytes64'' \<and> t \<noteq> ''Color'' \<and> t \<noteq> ''IndexType'')"
proof (cases "t \<in> primitives")
  case True
  then show ?thesis by (auto simp: primitives_eq column_type_of_name_def)
next
  case False
  then show ?thesis by (auto simp: primitives_eq)
qed

end
