(* ===== verification/Schema_Store.thy ===== *)
theory Schema_Store
  imports Schema_Laws
begin

text \<open>
  A schema in the registry: what \<^verbatim>\<open>commit_metadata\<close> stores, what \<^verbatim>\<open>load_from_db\<close> reads back, and why
  a second version of a schema is refused.
\<close>

section \<open>The effect of the insertions\<close>

lemma new_graph_root_Inr:
  "new_graph_root r d = (Inr u, d') \<longleftrightarrow> live d \<and> fits 255 (gr_schema_identifier r)
    \<and> \<not> list_ex (\<lambda>q. gr_version q = gr_version r \<and> gr_schema_name q = gr_schema_name r
         \<and> gr_schema_identifier q = gr_schema_identifier r) (tb_roots (db_tables d))
    \<and> d' = d\<lparr>db_tables := (db_tables d)\<lparr>tb_roots := tb_roots (db_tables d) @ [r\<lparr>gr_id := db_seq d SqRoots\<rparr>]\<rparr>,
        db_seq := (db_seq d)(SqRoots := db_seq d SqRoots + 1)\<rparr>"
  by (auto simp: new_graph_root_def statement_def live_def)

definition root_rows :: "int \<Rightarrow> (int \<times> string \<times> string) list \<Rightarrow> root_column list" where
  "root_rows i cols = map (\<lambda>(i, r, n, ty). \<lparr>rc_id = i, rc_root_id = r, rc_column_name = n, rc_graphql_type = ty\<rparr>)
     (zip (map (\<lambda>k. i + int k) [0..<length cols]) cols)"

definition column_rows :: "int \<Rightarrow> new_column list \<Rightarrow> column_row list" where
  "column_rows i cols = map (\<lambda>(i, c). column_of i c) (zip (map (\<lambda>k. i + int k) [0..<length cols]) cols)"

lemma root_rows_content:
  "map (\<lambda>c. (rc_root_id c, rc_column_name c, rc_graphql_type c)) (root_rows i cols) = cols"
  by (rule nth_equalityI) (auto simp: root_rows_def split: prod.split)

lemma column_rows_content:
  "map (\<lambda>c. (co_type_id c, co_position c, co_name c, co_graphql_type c)) (column_rows i cols)
    = map (\<lambda>c. (nc_type_id c, nc_position c, nc_name c, nc_graphql_type c)) cols"
  by (rule nth_equalityI) (auto simp: column_rows_def column_of_def)

lemma new_root_columns_Inr:
  "new_root_columns cols d = (Inr u, d') \<longleftrightarrow> live d \<and> cols \<noteq> [] \<and> list_all (\<lambda>(_, n, ty). fits 32 n \<and> fits 32 ty) cols
    \<and> list_all (\<lambda>(r, _, _). r \<in> gr_id ` set (tb_roots (db_tables d))) cols
    \<and> d' = d\<lparr>db_tables := (db_tables d)\<lparr>tb_root_columns := tb_root_columns (db_tables d) @ root_rows (db_seq d SqRootColumns) cols\<rparr>,
        db_seq := (db_seq d)(SqRootColumns := db_seq d SqRootColumns + int (length cols))\<rparr>"
  by (auto simp: new_root_columns_def statement_def live_def root_rows_def)

lemma type_id_insert_Inr:
  "type_id_insert rows d = (Inr u, d') \<longleftrightarrow> live d \<and> rows \<noteq> [] \<and> list_all type_id_fits rows
    \<and> distinct (map ti_id (tb_type_ids (db_tables d) @ rows))
    \<and> d' = d\<lparr>db_tables := (db_tables d)\<lparr>tb_type_ids := tb_type_ids (db_tables d) @ rows\<rparr>\<rparr>"
  by (auto simp: type_id_insert_def statement_def live_def)

lemma new_column_insert_Inr:
  "new_column_insert cols d = (Inr u, d') \<longleftrightarrow> live d \<and> cols \<noteq> []
    \<and> list_all (\<lambda>c. fits 32 (nc_name c) \<and> fits 32 (nc_type c)) cols
    \<and> list_all (\<lambda>c. nc_type_id c \<in> ti_id ` set (tb_type_ids (db_tables d))) cols
    \<and> d' = d\<lparr>db_tables := (db_tables d)\<lparr>tb_columns := tb_columns (db_tables d) @ column_rows (db_seq d SqColumns) cols\<rparr>,
        db_seq := (db_seq d)(SqColumns := db_seq d SqColumns + int (length cols))\<rparr>"
  by (auto simp: new_column_insert_def statement_def live_def column_rows_def)

lemma execute_all_Inr:
  "dfor qs (execute_query ddl) d = (Inr u, d') \<Longrightarrow> d' = d\<lparr>db_tables := (db_tables d)\<lparr>tb_executed := tb_executed (db_tables d) @ qs\<rparr>\<rparr>"
proof (induction qs arbitrary: d)
  case (Cons q qs)
  from Cons.prems obtain v d1 where q: "execute_query ddl q d = (Inr v, d1)"
    and rest: "dfor qs (execute_query ddl) d1 = (Inr u, d')"
    by (auto simp: dbind_Inr)
  from q have "d1 = d\<lparr>db_tables := (db_tables d)\<lparr>tb_executed := tb_executed (db_tables d) @ [q]\<rparr>\<rparr>"
    by (auto simp: execute_query_def statement_def split: if_splits option.splits)
  with Cons.IH [OF rest] show ?case by simp
qed simp

lemma dlift_Inr: "dlift r d = (Inr x, d') \<longleftrightarrow> r = Inr x \<and> d' = d"
  by (auto simp: dlift_def)

section \<open>The newest root\<close>

definition roots_ok :: "database \<Rightarrow> bool" where
  "roots_ok d \<longleftrightarrow> (\<forall>r \<in> set (tb_roots (db_tables d)). gr_id r < db_seq d SqRoots)
     \<and> (\<forall>c \<in> set (tb_root_columns (db_tables d)). rc_root_id c < db_seq d SqRoots)
     \<and> (\<forall>c \<in> set (tb_columns (db_tables d)). co_type_id c \<in> ti_id ` set (tb_type_ids (db_tables d)))"

lemma by_id_desc_newest:
  assumes "\<forall>x \<in> set xs. f x < f y"
  shows "by_id_desc f (xs @ [y]) = y # by_id_desc f xs"
  using assms unfolding by_id_desc_def by (induction xs) auto

text \<open>The rows that a commit adds.\<close>

definition new_root_row :: "schema_builder \<Rightarrow> int \<Rightarrow> graph_root" where
  "new_root_row sb i = \<lparr>gr_id = i, gr_version = sb_version sb, gr_schema_name = sb_namespace sb,
     gr_schema_identifier = sb_identifier sb, gr_query = sb_query sb, gr_schema = sb_schema sb\<rparr>"

definition query_columns :: "schema_builder \<Rightarrow> int \<Rightarrow> (int \<times> string \<times> string) list" where
  "query_columns sb i = (case sb_query_fields sb (sb_query sb) of None \<Rightarrow> [] | Some fs \<Rightarrow> map (\<lambda>(key, val). (i, key, val)) fs)"

lemma commit_metadata_Inr:
  assumes "commit_metadata ddl sb d = (Inr s, d')" and "roots_ok d"
  shows "live d \<and> (\<exists>fs. sb_query_fields sb (sb_query sb) = Some fs)
    \<and> distinct (map ti_id (tb_type_ids (db_tables d) @ sb_type_ids sb))
    \<and> list_all (\<lambda>c. nc_type_id c \<in> ti_id ` set (tb_type_ids (db_tables d) @ sb_type_ids sb)) (sb_columns sb)
    \<and> tb_roots (db_tables d') = tb_roots (db_tables d) @ [new_root_row sb (db_seq d SqRoots)]
    \<and> tb_root_columns (db_tables d') = tb_root_columns (db_tables d)
        @ root_rows (db_seq d SqRootColumns) (query_columns sb (db_seq d SqRoots))
    \<and> tb_type_ids (db_tables d') = tb_type_ids (db_tables d) @ sb_type_ids sb
    \<and> tb_columns (db_tables d') = tb_columns (db_tables d) @ column_rows (db_seq d SqColumns) (sb_columns sb)
    \<and> db_seq d' SqRoots = db_seq d SqRoots + 1 \<and> live d'
    \<and> s = \<lparr>s_version = sb_version sb, s_namespace = sb_namespace sb, s_identifier = sb_identifier sb,
       s_query = sb_query sb, s_types = sb_types sb,
       s_fields = (\<lambda>t. map_option map_of (sb_fields sb t)), s_foreign_keys = Map.empty\<rparr>"
proof -
  let ?i = "db_seq d SqRoots"
  from assms(1) obtain u1 d1 latest d2 fs d3 u4 d4 u5 d5 u6 d6 u7 d7 u8 d8 u9 where
    s1: "new_graph_root (new_root_row sb 0) d = (Inr u1, d1)"
    and s2: "graph_root_latest (sb_namespace sb) (sb_identifier sb) d1 = (Inr latest, d2)"
    and s3: "dlift (expect (sb_query_fields sb (sb_query sb)) ''No query root.'') d2 = (Inr fs, d3)"
    and s4: "new_root_columns (map (\<lambda>(key, val). (gr_id latest, key, val)) fs) d3 = (Inr u4, d4)"
    and s5: "dfor (sb_statements sb) (execute_query ddl) d4 = (Inr u5, d5)"
    and s6: "dfor (map foreign_key_create_statement (sb_foreign_keys sb)) (execute_query ddl) d5 = (Inr u6, d6)"
    and s7: "dfor (map index_create_statement (sb_indices sb)) (execute_query ddl) d6 = (Inr u7, d7)"
    and s8: "type_id_insert (sb_type_ids sb) d7 = (Inr u8, d8)"
    and s9: "new_column_insert (sb_columns sb) d8 = (Inr u9, d')"
    and s: "s = \<lparr>s_version = sb_version sb, s_namespace = sb_namespace sb, s_identifier = sb_identifier sb,
       s_query = sb_query sb, s_types = sb_types sb,
       s_fields = (\<lambda>t. map_option map_of (sb_fields sb t)), s_foreign_keys = Map.empty\<rparr>"
    unfolding commit_metadata_def dbind_Inr new_root_row_def by auto
  let ?old = "filter (\<lambda>r. gr_schema_name r = sb_namespace sb \<and> gr_schema_identifier r = sb_identifier sb) (tb_roots (db_tables d))"
  note d1 = s1 [unfolded new_graph_root_Inr]
  have "by_id_desc gr_id (?old @ [new_root_row sb ?i]) = new_root_row sb ?i # by_id_desc gr_id ?old"
    using assms(2) by (intro by_id_desc_newest) (auto simp: roots_ok_def new_root_row_def)
  with s2 d1 have latest: "latest = new_root_row sb ?i" "d2 = d1"
    by (auto simp: graph_root_latest_def select_one_simp live_def new_root_row_def)
  note d3 = s3 [unfolded dlift_Inr] and d4 = s4 [unfolded new_root_columns_Inr]
  note d5 = execute_all_Inr [OF s5] and d6 = execute_all_Inr [OF s6] and d7 = execute_all_Inr [OF s7]
  note d8 = s8 [unfolded type_id_insert_Inr] and d9 = s9 [unfolded new_column_insert_Inr]
  have fs: "sb_query_fields sb (sb_query sb) = Some fs" using d3 by simp
  then have "map (\<lambda>(key, val). (gr_id latest, key, val)) fs = query_columns sb ?i"
    by (simp add: query_columns_def latest new_root_row_def)
  with fs d1 d3 d4 d5 d6 d7 d8 d9 s latest show ?thesis
    by (simp add: live_def new_root_row_def)
qed

section \<open>Loading\<close>

lemma load_types_eq:
  assumes "live d"
  shows "load_types rows (tys, flds) d = (Inr (tys \<union> ti_graphql_name ` set rows,
    foldl (\<lambda>m r. m(ti_graphql_name r \<mapsto> collect_map (map (\<lambda>c. (co_name c, co_graphql_type c))
      (filter (\<lambda>c. co_type_id c = ti_id r) (tb_columns (db_tables d)))))) flds rows), d)"
  using assms
  by (induction rows arbitrary: tys flds) (auto simp: dbind_def list_column_by_id_def select_simp live_def)

lemma foldl_upd_other: "k \<notin> f ` set xs \<Longrightarrow> foldl (\<lambda>m x. m(f x \<mapsto> g x)) m xs k = m k"
  by (induction xs arbitrary: m) auto

lemma foldl_upd_in:
  assumes "x \<in> set xs" "\<forall>y \<in> set xs. f y = f x \<longrightarrow> y = x"
  shows "foldl (\<lambda>m x. m(f x \<mapsto> g x)) m xs (f x) = Some (g x)"
  using assms
proof (induction xs arbitrary: m)
  case (Cons y ys)
  show ?case
  proof (cases "x \<in> set ys")
    case True
    with Cons.IH [of "m(f y \<mapsto> g y)"] Cons.prems(2) show ?thesis by simp
  next
    case False
    with Cons.prems have "x = y" "f x \<notin> f ` set ys" by auto
    with foldl_upd_other [of "f x" f ys g "m(f x \<mapsto> g x)"] show ?thesis
      by (simp add: fun_upd_same del: fun_upd_apply)
  qed
qed simp

lemma dom_collect_map [simp]: "dom (collect_map xs) = fst ` set xs"
  by (simp add: collect_map_def dom_map_of_conv_image_fst)

lemma distinct_map_fields: "distinct (map fst (map_fields fs))"
proof -
  have "distinct (map fst m) \<Longrightarrow> distinct (map fst (foldl (\<lambda>m f. AList.update (fd_name f) (type_to_string (fd_type f)) m) m fs))"
    for m by (induction fs arbitrary: m) (simp_all add: distinct_update)
  then show ?thesis by (simp add: map_fields_def)
qed

lemma dom_map_fields: "fst ` set (map_fields fs) = fd_name ` set fs"
proof -
  have "fst ` set (foldl (\<lambda>m f. AList.update (fd_name f) (type_to_string (fd_type f)) m) m fs) = fst ` set m \<union> fd_name ` set fs"
    for m by (induction fs arbitrary: m) (auto simp: dom_update)
  then show ?thesis by (simp add: map_fields_def)
qed

text \<open>With one row for each key, \<^verbatim>\<open>collect\<close> keeps every row.\<close>

lemma collect_map_distinct: "distinct (map fst xs) \<Longrightarrow> collect_map xs = map_of xs"
  unfolding collect_map_def by (metis distinct_rev map_of_eqI map_of_inject_set rev_map set_rev set_map)

text \<open>What the loader reads after a commit.\<close>

definition loaded_columns :: "tables \<Rightarrow> type_id_row \<Rightarrow> (string \<rightharpoonup> string)" where
  "loaded_columns t r = collect_map (map (\<lambda>c. (co_name c, co_graphql_type c)) (filter (\<lambda>c. co_type_id c = ti_id r) (tb_columns t)))"

lemma load_after_commit:
  assumes "commit_metadata ddl sb d = (Inr s, d')" and "roots_ok d"
    and "\<forall>r \<in> set (tb_type_ids (db_tables d)). \<not> (ti_schema_name r = sb_namespace sb \<and> ti_schema_version r = sb_version sb
          \<and> ti_schema_identifier r = sb_identifier sb)"
    and "\<forall>r \<in> set (sb_type_ids sb). ti_schema_name r = sb_namespace sb \<and> ti_schema_version r = sb_version sb
          \<and> ti_schema_identifier r = sb_identifier sb"
    and "sb_query_fields sb (sb_query sb) = Some fs" and "distinct (map fst fs)"
    and "get_foreign_keys parse (sb_schema sb) = (Inr fks :: (foreign_key_map, sql_error) result)"
  shows "load_from_db parse (sb_namespace sb) (sb_identifier sb) d' = (Inr
    \<lparr>s_version = sb_version sb, s_namespace = sb_namespace sb, s_identifier = sb_identifier sb, s_query = sb_query sb,
     s_types = insert (sb_query sb) (ti_graphql_name ` set (sb_type_ids sb)),
     s_fields = foldl (\<lambda>m r. m(ti_graphql_name r \<mapsto> loaded_columns (db_tables d') r)) [sb_query sb \<mapsto> map_of fs] (sb_type_ids sb),
     s_foreign_keys = fks\<rparr>, d')"
proof -
  let ?i = "db_seq d SqRoots"
  let ?old = "filter (\<lambda>r. gr_schema_name r = sb_namespace sb \<and> gr_schema_identifier r = sb_identifier sb) (tb_roots (db_tables d))"
  note commit = commit_metadata_Inr [OF assms(1,2)]
  then have live: "\<not> db_aborted d'" by (simp add: live_def)
  have "by_id_desc gr_id (?old @ [new_root_row sb ?i]) = new_root_row sb ?i # by_id_desc gr_id ?old"
    using assms(2) by (intro by_id_desc_newest) (auto simp: roots_ok_def new_root_row_def)
  with commit live have root: "graph_root_latest (sb_namespace sb) (sb_identifier sb) d' = (Inr (new_root_row sb ?i), d')"
    by (simp add: graph_root_latest_def select_one_simp new_root_row_def)
  have old: "filter (\<lambda>c. rc_root_id c = ?i) (tb_root_columns (db_tables d)) = []"
    using assms(2) by (auto simp: roots_ok_def filter_empty_conv)
  have q: "query_columns sb ?i = map (\<lambda>(k, v). (?i, k, v)) fs" by (simp add: query_columns_def assms(5))
  note content = root_rows_content [of "db_seq d SqRootColumns" "query_columns sb ?i"]
  have "filter (\<lambda>c. rc_root_id c = ?i) (root_rows (db_seq d SqRootColumns) (query_columns sb ?i))
      = root_rows (db_seq d SqRootColumns) (query_columns sb ?i)"
    using arg_cong [OF content, of "\<lambda>xs. fst ` set xs"] by (auto simp: q image_image intro!: filter_True)
  with commit live old have cols: "root_columns_list_by_id ?i d' = (Inr (root_rows (db_seq d SqRootColumns) (query_columns sb ?i)), d')"
    by (simp add: root_columns_list_by_id_def select_simp)
  have pairs: "map (\<lambda>c. (rc_column_name c, rc_graphql_type c)) (root_rows (db_seq d SqRootColumns) (query_columns sb ?i)) = fs"
    using arg_cong [OF content, of "map snd"] by (simp add: q o_def case_prod_beta)
  from assms(3,4) commit live have types: "type_id_list_by_name (sb_namespace sb) (sb_version sb) (sb_identifier sb) d'
      = (Inr (sb_type_ids sb), d')"
    by (auto simp: type_id_list_by_name_def select_simp filter_empty_conv intro!: filter_True)
  have query: "[sb_query sb \<mapsto> collect_map fs] = [sb_query sb \<mapsto> map_of fs]"
    by (simp add: collect_map_distinct assms(6))
  show ?thesis
    by (simp add: load_from_db_def dbind_def root cols types new_root_row_def pairs query load_types_eq live_def live
        dlift_def assms(7) loaded_columns_def)
qed

lemma object_fields_distinct:
  "object_fields Map.empty objs k = Some fs \<Longrightarrow> distinct (map fst fs)"
proof -
  have "(\<forall>k fs. m k = Some fs \<longrightarrow> distinct (map fst fs)) \<Longrightarrow> object_fields m objs k = Some fs \<Longrightarrow> distinct (map fst fs)" for m
  proof (induction objs arbitrary: m)
    case (Cons obj objs)
    from Cons.prems(1) have "\<forall>k fs. (m(ob_name obj \<mapsto> map_fields (ob_fields obj))) k = Some fs \<longrightarrow> distinct (map fst fs)"
      by (simp add: distinct_map_fields)
    from Cons.IH [OF this] Cons.prems(2) show ?case by (simp add: object_fields_def del: fun_upd_apply)
  qed (simp add: object_fields_def)
  from this [of Map.empty] show "object_fields Map.empty objs k = Some fs \<Longrightarrow> distinct (map fst fs)" by simp
qed

text \<open>The columns of one table among those that a commit adds.\<close>

lemma table_keys_id: "(tid, p, n) \<in> set (table_keys sha sb obj) \<Longrightarrow> tid = ti_id (type_row sha sb obj)"
  by (auto simp: table_keys_def expected_keys_def type_row_def)

lemma table_keys_names:
  "{n. \<exists>p. (ti_id (type_row sha sb obj), p, n) \<in> set (table_keys sha sb obj)} = set (map fd_name (ob_fields obj) @ [''object''])"
proof -
  have "{n. \<exists>p. (tid, p, n) \<in> set (expected_keys tid k names)} = snd ` set (enumerate k names)" for tid k names
    by (force simp: expected_keys_def)
  then show ?thesis by (simp only: table_keys_def type_row_def type_id_row.simps set_map [symmetric] map_snd_enumerate)
qed

lemma loaded_columns_dom:
  assumes "tb_columns t' = tb_columns t @ column_rows i (sb_columns sb)"
    and "map column_key (sb_columns sb) = concat (map (table_keys sha sb) tables)"
    and "distinct (map (ti_id \<circ> type_row sha sb) tables)" and "obj \<in> set tables"
    and "\<forall>c \<in> set (tb_columns t). co_type_id c \<noteq> ti_id (type_row sha sb obj)"
  shows "dom (loaded_columns t' (type_row sha sb obj)) = insert ''object'' (fd_name ` set (ob_fields obj))"
proof -
  let ?tid = "ti_id (type_row sha sb obj)"
  let ?new = "column_rows i (sb_columns sb)"
  have "map (\<lambda>c. (co_type_id c, co_position c, co_name c)) ?new = map column_key (sb_columns sb)"
    using arg_cong [OF column_rows_content [of i "sb_columns sb"], of "map (\<lambda>(a, b, c, d). (a, b, c))"]
    by (simp add: o_def column_key_def)
  then have "set (map (\<lambda>c. (co_type_id c, co_position c, co_name c)) ?new) = set (concat (map (table_keys sha sb) tables))"
    by (simp only: assms(2))
  then have keys: "(\<lambda>c. (co_type_id c, co_position c, co_name c)) ` set ?new = (\<Union>o' \<in> set tables. set (table_keys sha sb o'))"
    by simp
  have own: "o' = obj" if "o' \<in> set tables" "ti_id (type_row sha sb o') = ?tid" for o'
    using assms(3,4) that by (auto simp: distinct_map inj_on_def)
  have "dom (loaded_columns t' (type_row sha sb obj)) = co_name ` {c \<in> set ?new. co_type_id c = ?tid}"
    using assms(1,5) by (auto simp: loaded_columns_def image_image)
  also have "\<dots> = {n. \<exists>p. (?tid, p, n) \<in> (\<lambda>c. (co_type_id c, co_position c, co_name c)) ` set ?new}"
    by force
  also have "\<dots> = {n. \<exists>p. (?tid, p, n) \<in> set (table_keys sha sb obj)}"
  proof -
    have "(?tid, p, n) \<in> (\<Union>o' \<in> set tables. set (table_keys sha sb o')) \<longleftrightarrow> (?tid, p, n) \<in> set (table_keys sha sb obj)"
      for p n
    proof
      assume "(?tid, p, n) \<in> (\<Union>o' \<in> set tables. set (table_keys sha sb o'))"
      then obtain o' where o': "o' \<in> set tables" "(?tid, p, n) \<in> set (table_keys sha sb o')" by blast
      from own [OF o'(1) table_keys_id [OF o'(2), symmetric]] o' show "(?tid, p, n) \<in> set (table_keys sha sb obj)" by simp
    qed (use assms(4) in blast)
    then show ?thesis by (simp only: keys)
  qed
  also have "\<dots> = set (map fd_name (ob_fields obj) @ [''object''])"
    by (rule table_keys_names)
  finally show ?thesis by auto
qed

section \<open>Properties\<close>


lemma thing_builder_fits:
  "\<exists>sb. thing_builder = Inr sb \<and> sb_query sb = ''QueryRoot'' \<and> sb_identifier sb = ''idx'' \<and> sb_version sb = ''v1'' \<and> sb_namespace sb = ''ns''
    \<and> sb_query_fields sb ''QueryRoot'' = Some [(''thing'', ''Thing''), (''user'', ''User'')]
    \<and> sb_type_ids sb \<noteq> [] \<and> list_all type_id_fits (sb_type_ids sb) \<and> distinct (map ti_id (sb_type_ids sb))
    \<and> sb_columns sb \<noteq> [] \<and> list_all (\<lambda>c. fits 32 (nc_name c) \<and> fits 32 (nc_type c)) (sb_columns sb)
    \<and> list_all (\<lambda>c. nc_type_id c \<in> ti_id ` set (sb_type_ids sb)) (sb_columns sb)"
  by (simp add: build_defs type_id_fits_def fits_def)

lemma execute_always: "\<not> db_aborted d \<Longrightarrow> dfor qs (execute_query (\<lambda>_ _. None)) d
   = (Inr (), d\<lparr>db_tables := (db_tables d)\<lparr>tb_executed := tb_executed (db_tables d) @ qs\<rparr>\<rparr>)"
  by (induction qs arbitrary: d) (simp_all add: dbind_def execute_query_def statement_def)

lemma thing_commit:
  "\<exists>sb s d'. thing_builder = Inr sb \<and> sb_query sb = ''QueryRoot''
    \<and> commit_metadata (\<lambda>_ _. None) sb empty_database = (Inr s, d')"
proof -
  obtain sb where sb: "thing_builder = Inr sb" "sb_query sb = ''QueryRoot''" "sb_identifier sb = ''idx''"
    and fits: "sb_query_fields sb ''QueryRoot'' = Some [(''thing'', ''Thing''), (''user'', ''User'')]"
    "sb_type_ids sb \<noteq> []" "list_all type_id_fits (sb_type_ids sb)" "distinct (map ti_id (sb_type_ids sb))"
    "sb_columns sb \<noteq> []" "list_all (\<lambda>c. fits 32 (nc_name c) \<and> fits 32 (nc_type c)) (sb_columns sb)"
    "list_all (\<lambda>c. nc_type_id c \<in> ti_id ` set (sb_type_ids sb)) (sb_columns sb)"
    using thing_builder_fits by (elim exE conjE) (rule that)
  have "\<exists>s d'. commit_metadata (\<lambda>_ _. None) sb empty_database = (Inr s, d')"
    using sb fits by (simp add: commit_metadata_def dbind_def new_graph_root_def statement_def empty_database_def
        empty_tables_def graph_root_latest_def select_one_simp by_id_desc_def dlift_def expect_def new_root_columns_def
        execute_always type_id_insert_def new_column_insert_def fits_def)
  then obtain s d' where "commit_metadata (\<lambda>_ _. None) sb empty_database = (Inr s, d')" by (elim exE)
  then show ?thesis by (intro exI conjI) (rule sb(1), rule sb(2))
qed

lemma empty_roots_ok: "roots_ok empty_database"
  by (simp add: roots_ok_def empty_database_def empty_tables_def)


section \<open>A second version\<close>

lemma commit_type_rows:
  assumes "commit_metadata ddl sb d = (Inr s, d')"
  shows "tb_type_ids (db_tables d') = tb_type_ids (db_tables d) @ sb_type_ids sb
    \<and> distinct (map ti_id (tb_type_ids (db_tables d) @ sb_type_ids sb))"
proof -
  from assms obtain u1 d1 latest d2 fs d3 u4 d4 u5 d5 u6 d6 u7 d7 u8 d8 u9 where
    s1: "new_graph_root (new_root_row sb 0) d = (Inr u1, d1)"
    and s2: "graph_root_latest (sb_namespace sb) (sb_identifier sb) d1 = (Inr latest, d2)"
    and s3: "dlift (expect (sb_query_fields sb (sb_query sb)) ''No query root.'') d2 = (Inr fs, d3)"
    and s4: "new_root_columns (map (\<lambda>(key, val). (gr_id latest, key, val)) fs) d3 = (Inr u4, d4)"
    and s5: "dfor (sb_statements sb) (execute_query ddl) d4 = (Inr u5, d5)"
    and s6: "dfor (map foreign_key_create_statement (sb_foreign_keys sb)) (execute_query ddl) d5 = (Inr u6, d6)"
    and s7: "dfor (map index_create_statement (sb_indices sb)) (execute_query ddl) d6 = (Inr u7, d7)"
    and s8: "type_id_insert (sb_type_ids sb) d7 = (Inr u8, d8)"
    and s9: "new_column_insert (sb_columns sb) d8 = (Inr u9, d')"
    unfolding commit_metadata_def dbind_Inr new_root_row_def by auto
  have "d2 = d1" using s2 by (auto simp: graph_root_latest_def select_one_simp split: if_splits list.splits)
  with s1 [unfolded new_graph_root_Inr] s3 [unfolded dlift_Inr] s4 [unfolded new_root_columns_Inr]
    execute_all_Inr [OF s5] execute_all_Inr [OF s6] execute_all_Inr [OF s7] s8 [unfolded type_id_insert_Inr]
    s9 [unfolded new_column_insert_Inr]
  show ?thesis by simp
qed

lemma new_schema_Inr:
  assumes "new_schema parse sha ddl ns ident schema d = (Inr u, d')"
  shows "(\<exists>r \<in> set (tb_type_ids (db_tables d)). ti_schema_name r = ns \<and> ti_schema_identifier r = ident
        \<and> ti_schema_version r = schema_version sha (inject_native_entities_into_schema schema)) \<and> d' = d
    \<or> (\<exists>sb s. schema_builder_build parse sha (schema_builder_new ns ident (schema_version sha (inject_native_entities_into_schema schema)))
          (inject_native_entities_into_schema schema) = (Inr sb :: (schema_builder, sql_error) result)
        \<and> commit_metadata ddl sb d = (Inr s, d'))"
  using assms
  by (auto simp: new_schema_def Let_def dbind_Inr schema_exists_def select_simp dlift_Inr filter_empty_conv
      split: if_splits)

text \<open>
  C30: a changed schema cannot be registered: the id of a type does not depend on the schema's
  version, so when a table of an indexer's schema is registered, every other version of a schema of
  that indexer that has a table of the same name is refused, whatever else changed. Every schema
  has such a table: \<^verbatim>\<open>IndexMetadataEntity\<close> is added to each.
\<close>

theorem changed_schema_refused:
  assumes "r \<in> set (tb_type_ids (db_tables d))" "ti_id r = type_id sha (ns @ ''_'' @ ident) (ob_name obj)"
    and "parse (inject_native_entities_into_schema schema) = Some doc" "schema_query doc = Some root"
    and "obj \<in> set (tables_in root doc)"
    and "\<forall>r' \<in> set (tb_type_ids (db_tables d)). \<not> (ti_schema_name r' = ns \<and> ti_schema_identifier r' = ident
          \<and> ti_schema_version r' = schema_version sha (inject_native_entities_into_schema schema))"
  shows "new_schema parse sha ddl ns ident schema d \<noteq> (Inr u, d')"
proof
  assume "new_schema parse sha ddl ns ident schema d = (Inr u, d')"
  from new_schema_Inr [OF this] assms(6) obtain sb s where
    build: "schema_builder_build parse sha (schema_builder_new ns ident (schema_version sha (inject_native_entities_into_schema schema)))
          (inject_native_entities_into_schema schema) = (Inr sb :: (schema_builder, sql_error) result)"
    and commit: "commit_metadata ddl sb d = (Inr s, d')" by blast
  from built_schema [OF build assms(3)] have b: "built_from sha (sb_query sb) doc
      (opened_builder ns ident (schema_version sha (inject_native_entities_into_schema schema))) sb"
    and "sb_query sb = root" using assms(4) by auto
  then have "type_row sha (opened_builder ns ident (schema_version sha (inject_native_entities_into_schema schema))) obj
      \<in> set (sb_type_ids sb)" using assms(5) by (simp add: built_from_def)
  then have "ti_id r \<in> ti_id ` set (sb_type_ids sb)"
    by (rule rev_image_eqI) (simp add: assms(2) type_row_def full_namespace_def opened_builder_def schema_builder_new_def)
  with commit_type_rows [OF commit] assms(1) show False by auto
qed

lemma changed_schema_refused_witness:
  "\<exists>sb s d. thing_builder = Inr sb \<and> commit_metadata (\<lambda>_ _. None) sb empty_database = (Inr s, d)
    \<and> new_schema parse_thing last_bytes (\<lambda>_ _. None) ''ns'' ''idx'' ''other'' d \<noteq> (Inr (), d)"
proof -
  obtain sb s d where c: "thing_builder = Inr sb" "sb_query sb = ''QueryRoot''"
    "commit_metadata (\<lambda>_ _. None) sb empty_database = (Inr s, d)"
    using thing_commit by (elim exE conjE) (rule that)
  have p: "parse_thing t = Some thing_schema" for t by (simp add: parse_thing_def)
  have q: "schema_query thing_schema = Some ''QueryRoot''" by (simp add: thing_schema_def)
  note built = built_schema [OF c(1) [unfolded thing_builder_def] p, unfolded c(2), THEN conjunct1]
  have same: "type_row last_bytes sb = type_row last_bytes (opened_builder ''ns'' ''idx'' ''v1'')"
    using built same_target_row by (simp add: built_from_def)
  from commit_type_rows [OF c(3)] built have rows: "tb_type_ids (db_tables d)
      = map (type_row last_bytes (opened_builder ''ns'' ''idx'' ''v1'')) (tables_in ''QueryRoot'' thing_schema)"
    by (simp add: built_from_def opened_builder_def schema_builder_new_def empty_database_def empty_tables_def)
  have "tables_in ''QueryRoot'' thing_schema \<noteq> []"
    by (simp add: thing_schema_def tables_in_def plain_object_def)
  then obtain obj where obj: "obj \<in> set (tables_in ''QueryRoot'' thing_schema)" using last_in_set by metis
  let ?r = "type_row last_bytes (opened_builder ''ns'' ''idx'' ''v1'') obj"
  have r: "?r \<in> set (tb_type_ids (db_tables d))" using rows obj by simp
  have id: "ti_id ?r = type_id last_bytes (''ns'' @ ''_'' @ ''idx'') (ob_name obj)"
    by (simp add: type_row_def full_namespace_def opened_builder_def schema_builder_new_def)
  have "length (schema_version last_bytes (inject_native_entities_into_schema ''other'')) > 2"
    by (simp add: schema_version_def last_bytes_def inject_native_entities_into_schema_def)
  then have fresh: "\<forall>r' \<in> set (tb_type_ids (db_tables d)). \<not> (ti_schema_name r' = ''ns'' \<and> ti_schema_identifier r' = ''idx''
      \<and> ti_schema_version r' = schema_version last_bytes (inject_native_entities_into_schema ''other''))"
    by (auto simp: rows type_row_def opened_builder_def schema_builder_new_def dest!: arg_cong [of _ _ length])
  show ?thesis
    by (intro exI conjI) (rule c(1), rule c(3), rule changed_schema_refused [OF r id p q obj fresh])
qed

end
