(* ===== verification/Manifest.thy ===== *)
theory Manifest
  imports Prelude
begin

text \<open>
  \<^verbatim>\<open>fuel-indexer-lib/src/manifest.rs\<close>: the manifest of an indexer and the text form of its contract
  ids. The YAML library is an argument: the value that the emitter writes for a string and the one
  the reader finds there.
\<close>

section \<open>The manifest\<close>

datatype module = WasmModule string | NativeModule

datatype contract_ids = Single "string option" | Multiple "string list"

record manifest =
  mf_namespace :: string
  mf_abi :: "string option"
  mf_identifier :: string
  mf_fuel_client :: "string option"
  mf_graphql_schema :: string
  mf_module :: module
  mf_metrics :: "bool option"
  mf_contract_id :: contract_ids
  mf_start_block :: "64 word option"
  mf_resumable :: "bool option"

definition uid :: "manifest \<Rightarrow> string" where
  "uid m = mf_namespace m @ ''.'' @ mf_identifier m"

definition is_native :: "manifest \<Rightarrow> bool" where
  "is_native m = (case mf_module m of NativeModule \<Rightarrow> True | WasmModule _ \<Rightarrow> False)"

definition module_to_string :: "module \<Rightarrow> (string, 'e) result" where
  "module_to_string m = (case m of WasmModule p \<Rightarrow> Inr p
     | NativeModule \<Rightarrow> Inl (Panic ''Only wasm execution supports module path access.''))"

text \<open>Reading the module's file is an argument.\<close>

definition module_bytes :: "(string \<Rightarrow> (8 word list, 'e) result) \<Rightarrow> manifest \<Rightarrow> (8 word list, 'e) result" where
  "module_bytes read m = (case mf_module m of WasmModule p \<Rightarrow> read p
     | NativeModule \<Rightarrow> Inl (Panic ''Native execution does not support this method.''))"

section \<open>Contract ids\<close>

text \<open>The values of a YAML document that the deserializer tells apart.\<close>

datatype yaml = YString string | YSequence "yaml list" | YNull | YOther

text \<open>\<^verbatim>\<open>json\<close> is \<^verbatim>\<open>serde_json::to_string\<close> on a list of strings, \<^verbatim>\<open>from_json\<close> its reader.\<close>

definition contract_ids_serialize :: "(string list \<Rightarrow> string) \<Rightarrow> contract_ids \<Rightarrow> yaml" where
  "contract_ids_serialize json ids = (case ids of
     Single (Some i) \<Rightarrow> YString i
   | Multiple is \<Rightarrow> YString (json is)
   | Single None \<Rightarrow> YNull)"

fun strings_of :: "yaml list \<Rightarrow> string list" where
  "strings_of [] = []"
| "strings_of (YString s # ys) = s # strings_of ys"
| "strings_of (_ # ys) = strings_of ys"

definition contract_ids_deserialize :: "yaml \<Rightarrow> contract_ids option" where
  "contract_ids_deserialize y = (case y of
     YString s \<Rightarrow> Some (Single (Some s))
   | YSequence ys \<Rightarrow> Some (Multiple (strings_of ys))
   | YNull \<Rightarrow> Some (Single None)
   | YOther \<Rightarrow> None)"

definition contract_ids_from_str :: "(string \<Rightarrow> string list option) \<Rightarrow> string \<Rightarrow> contract_ids option" where
  "contract_ids_from_str from_json s =
     (if take 1 s = ''['' then map_option Multiple (from_json s) else Some (Single (Some s)))"

lemma strings_of_map [simp]: "strings_of (map YString xs) = xs"
  by (induction xs) auto

text \<open>
  The contract ids of a manifest survive writing it and reading it back exactly when they are
  not a list: a list is written as one string with its JSON text and comes back as a single id
  with that text, which \<^verbatim>\<open>FromStr\<close>, unlike the deserializer, would turn into the list again. A list
  that the user wrote as a YAML sequence is read as it is.
\<close>

theorem contract_ids_roundtrip:
  "(contract_ids_deserialize (contract_ids_serialize json ids) = Some ids) = (\<forall>is. ids \<noteq> Multiple is)
    \<and> contract_ids_deserialize (contract_ids_serialize json (Multiple is)) = Some (Single (Some (json is)))
    \<and> (from_json (json is) = Some is \<and> take 1 (json is) = ''[''
        \<longrightarrow> contract_ids_from_str from_json (json is) = Some (Multiple is))
    \<and> contract_ids_deserialize (YSequence (map YString is)) = Some (Multiple is)"
  by (cases ids) (auto simp: contract_ids_serialize_def contract_ids_deserialize_def contract_ids_from_str_def
      split: option.splits)

lemma contract_ids_roundtrip_witness:
  "contract_ids_from_str (\<lambda>_. Some [''a'', ''b'']) ((\<lambda>_. ''[a,b]'') [''a'', ''b'']) = Some (Multiple [''a'', ''b''])"
proof -
  note r = contract_ids_roundtrip [of "\<lambda>_. ''[a,b]''" "Single None" "[''a'', ''b'']" "\<lambda>_. Some [''a'', ''b'']",
      THEN conjunct2, THEN conjunct2, THEN conjunct1]
  show ?thesis by (rule r [THEN mp]) simp
qed

end
