(* ===== verification/Indexer_Database.thy ===== *)
theory Indexer_Database
  imports Schema_Store Manifest
begin

text \<open>
  \<^verbatim>\<open>fuel-indexer/src/database.rs\<close>: the database of one executor, through which an indexer's handler
  writes and reads the objects of its tables.

  The tables of the indexer are represented by the statements committed to them so far, a
  statement being its text and the bytes bound to \<^verbatim>\<open>$1\<close>. How Postgres answers a statement given the
  statements before it is the argument \<open>server\<close>. A pooled connection carries the transaction that
  \<^verbatim>\<open>BEGIN\<close> opened on it; the pool hands out the connection that has been idle longest, or a new one.
\<close>

section \<open>Connections and the pool\<close>

datatype indexer_error =
    SqlxError sql_error
  | NoTransactionError
  | FFIError string
  | ManifestError
  | RuntimeError
  | JoinError
  | NativeExecutionRuntimeError
  | MissingHandler
  | NativeExecutionInstantiationError

type_synonym pg_statement = "string \<times> bytes"

record server =
  sv_rejects :: "pg_statement list \<Rightarrow> pg_statement \<Rightarrow> bool"
  sv_object :: "pg_statement list \<Rightarrow> string \<Rightarrow> bytes option"

record connection =
  cn_open :: bool
  cn_log :: "pg_statement list"
  cn_aborted :: bool

definition clean :: connection where
  "clean = \<lparr>cn_open = False, cn_log = [], cn_aborted = False\<rparr>"

record indexer_database =
  id_committed :: "pg_statement list"
  id_idle :: "connection list"
  id_stashed :: "connection option"
  id_namespace :: string
  id_identifier :: string
  id_version :: string
  id_schema :: "string \<rightharpoonup> string list"
  id_tables :: "int \<rightharpoonup> string"

definition database_new :: "pg_statement list \<Rightarrow> indexer_database" where
  "database_new committed = \<lparr>id_committed = committed, id_idle = [], id_stashed = None,
     id_namespace = [], id_identifier = [], id_version = [], id_schema = Map.empty, id_tables = Map.empty\<rparr>"

definition acquire :: "indexer_database \<Rightarrow> connection \<times> indexer_database" where
  "acquire db = (case id_idle db of [] \<Rightarrow> (clean, db) | c # cs \<Rightarrow> (c, db\<lparr>id_idle := cs\<rparr>))"

definition release :: "connection \<Rightarrow> indexer_database \<Rightarrow> indexer_database" where
  "release c db = db\<lparr>id_idle := id_idle db @ [c]\<rparr>"

section \<open>Transactions\<close>

text \<open>A connection that was still stashed goes back to the pool as it is.\<close>

definition idb_start_transaction :: "indexer_database \<Rightarrow> (unit, indexer_error) result \<times> indexer_database" where
  "idb_start_transaction db =
     (case acquire db of (c, db1) \<Rightarrow>
        if cn_aborted c then (Inl (Err (SqlxError TransactionAborted)), release c db1)
        else (Inr (), (case id_stashed db1 of None \<Rightarrow> db1 | Some old \<Rightarrow> release old db1)
               \<lparr>id_stashed := Some (c\<lparr>cn_open := True\<rparr>)\<rparr>))"

definition idb_commit_transaction :: "indexer_database \<Rightarrow> (unit, indexer_error) result \<times> indexer_database" where
  "idb_commit_transaction db =
     (case id_stashed db of
        None \<Rightarrow> (Inl (Err NoTransactionError), db)
      | Some c \<Rightarrow> (Inr (), (release clean db)\<lparr>id_stashed := None,
          id_committed := id_committed db @ (if cn_aborted c then [] else cn_log c)\<rparr>))"

definition idb_revert_transaction :: "indexer_database \<Rightarrow> (unit, indexer_error) result \<times> indexer_database" where
  "idb_revert_transaction db =
     (case id_stashed db of
        None \<Rightarrow> (Inl (Err NoTransactionError), db)
      | Some c \<Rightarrow> (Inr (), (release clean db)\<lparr>id_stashed := None\<rparr>))"

section \<open>Objects\<close>

definition upsert_query :: "string \<Rightarrow> string list \<Rightarrow> string list \<Rightarrow> string list \<Rightarrow> string" where
  "upsert_query table columns inserts updates =
     ''INSERT INTO '' @ table @ [newline] @ replicate 16 (CHR '' '') @ ''('' @ join '', '' columns @ '')'' @ [newline]
     @ replicate 13 (CHR '' '') @ ''VALUES'' @ [newline]
     @ replicate 16 (CHR '' '') @ ''('' @ join '', '' inserts @ '', $1)'' @ [newline]
     @ replicate 13 (CHR '' '') @ ''ON CONFLICT(id)'' @ [newline]
     @ replicate 13 (CHR '' '') @ ''DO UPDATE SET '' @ join '', '' updates"

definition idb_namespace :: "indexer_database \<Rightarrow> string" where
  "idb_namespace db = id_namespace db @ ''_'' @ id_identifier db"

definition get_query :: "string \<Rightarrow> 64 word \<Rightarrow> string" where
  "get_query table object_id = ''SELECT object from '' @ table @ '' where id = '' @ show_nat (unat object_id)"

definition id_col :: string where
  "id_col = ''id''"

text \<open>The assignments of an update: one for each column with a value, except the id.\<close>

definition update_pairs :: "string list \<Rightarrow> 'a list \<Rightarrow> (string \<times> 'a) list" where
  "update_pairs colnames vals = filter (\<lambda>(colname, _). colname \<noteq> id_col) (zip colnames vals)"

definition update_text :: "string \<times> string \<Rightarrow> string" where
  "update_text = (\<lambda>(colname, v). colname @ '' = '' @ v)"

text \<open>The text of the statement for an object, which panics where a column cannot be printed.\<close>

definition put_query :: "string \<Rightarrow> string list option \<Rightarrow> ft_column list \<Rightarrow> (string, indexer_error) result" where
  "put_query table schema columns =
     rbind (mapM query_fragment columns) (\<lambda>inserts.
     rbind (expect schema ''no entry found for key'') (\<lambda>colnames.
     Inr (upsert_query table colnames inserts (map update_text (update_pairs colnames inserts)))))"

definition run_statement ::
    "server \<Rightarrow> pg_statement \<Rightarrow> connection \<Rightarrow> indexer_database \<Rightarrow> (unit, indexer_error) result \<times> indexer_database" where
  "run_statement sv st c db =
     (if cn_aborted c then (Inl (Panic ''Failed to put object.''), db)
      else if sv_rejects sv (id_committed db @ cn_log c) st
      then (Inl (Panic ''Failed to put object.''), db\<lparr>id_stashed := Some (c\<lparr>cn_aborted := True\<rparr>)\<rparr>)
      else (Inr (), db\<lparr>id_stashed := Some (c\<lparr>cn_log := cn_log c @ [st]\<rparr>)\<rparr>))"

definition idb_put_object ::
    "server \<Rightarrow> int \<Rightarrow> ft_column list \<Rightarrow> bytes \<Rightarrow> indexer_database \<Rightarrow> (unit, indexer_error) result \<times> indexer_database" where
  "idb_put_object sv tid columns bs db =
     (case id_tables db tid of
        None \<Rightarrow> (Inr (), db)
      | Some table \<Rightarrow>
          (case put_query table (id_schema db table) columns of
             Inl e \<Rightarrow> (Inl e, db)
           | Inr q \<Rightarrow>
               (case id_stashed db of
                  None \<Rightarrow> (Inl (Panic ''No transaction has been opened.''), db)
                | Some c \<Rightarrow> run_statement sv (q, bs) c db)))"

definition idb_get_object ::
    "server \<Rightarrow> int \<Rightarrow> 64 word \<Rightarrow> indexer_database \<Rightarrow> (bytes option, indexer_error) result" where
  "idb_get_object sv tid object_id db =
     rbind (expect (id_tables db tid) ''no entry found for key'') (\<lambda>table.
     rbind (expect (id_stashed db) ''No transaction has been opened.'') (\<lambda>c.
     Inr (if cn_aborted c then None
          else sv_object sv (id_committed db @ cn_log c) (get_query table object_id))))"

section \<open>Loading the schema\<close>

text \<open>What a WASM instance exports: its namespace, identifier and version, each a call that can fail.\<close>

record wasm_exports =
  we_namespace :: "(string, indexer_error) result"
  we_identifier :: "(string, indexer_error) result"
  we_version :: "(string, indexer_error) result"

text \<open>The loop body over the columns of the registry.\<close>

definition add_column :: "indexer_database \<Rightarrow> column_info \<Rightarrow> indexer_database" where
  "add_column db column =
     (let table = idb_namespace db @ ''.'' @ cf_table_name column
      in db\<lparr>id_tables := (case id_tables db (cf_type_id column) of
              None \<Rightarrow> (id_tables db)(cf_type_id column \<mapsto> table) | Some _ \<Rightarrow> id_tables db),
            id_schema := (id_schema db)(table \<mapsto>
              (case id_schema db table of None \<Rightarrow> [] | Some cs \<Rightarrow> cs) @ [cf_name column])\<rparr>)"

definition lift_sql :: "('a, sql_error) result \<Rightarrow> ('a, indexer_error) result" where
  "lift_sql r = (case r of Inr x \<Rightarrow> Inr x | Inl (Err e) \<Rightarrow> Inl (Err (SqlxError e)) | Inl (Panic m) \<Rightarrow> Inl (Panic m))"

definition load_columns ::
    "database \<Rightarrow> indexer_database \<Rightarrow> (unit, indexer_error) result \<times> indexer_database" where
  "load_columns reg db =
     (case lift_sql (fst (columns_get_schema (id_namespace db) (id_identifier db) (id_version db) reg)) of
        Inl e \<Rightarrow> (Inl e, db)
      | Inr results \<Rightarrow> (Inr (), foldl add_column db results))"

definition idb_load_schema ::
    "manifest \<Rightarrow> wasm_exports option \<Rightarrow> database \<Rightarrow> indexer_database \<Rightarrow> (unit, indexer_error) result \<times> indexer_database" where
  "idb_load_schema m inst reg db =
     (if is_native m then
        let db1 = db\<lparr>id_namespace := mf_namespace m, id_identifier := mf_identifier m\<rparr>
        in case lift_sql (fst (type_id_latest (id_namespace db1) (id_identifier db1) reg)) of
             Inl e \<Rightarrow> (Inl e, db1)
           | Inr v \<Rightarrow> load_columns reg (db1\<lparr>id_version := v\<rparr>)
      else case inst of
          None \<Rightarrow> (Inl (Panic ''called `Option::unwrap()` on a `None` value''), db)
        | Some i \<Rightarrow>
            (case we_namespace i of Inl e \<Rightarrow> (Inl e, db) | Inr ns \<Rightarrow>
             let db1 = db\<lparr>id_namespace := ns\<rparr> in
            (case we_identifier i of Inl e \<Rightarrow> (Inl e, db1) | Inr ident \<Rightarrow>
             let db2 = db1\<lparr>id_identifier := ident\<rparr> in
            (case we_version i of Inl e \<Rightarrow> (Inl e, db2) | Inr v \<Rightarrow>
             load_columns reg (db2\<lparr>id_version := v\<rparr>)))))"

section \<open>Laws\<close>

lemma put_object_log:
  assumes "idb_put_object sv tid columns bs db = (Inr u, db')"
  shows "db' = db \<or> (\<exists>c q. id_stashed db = Some c \<and> \<not> cn_aborted c
    \<and> db' = db\<lparr>id_stashed := Some (c\<lparr>cn_log := cn_log c @ [(q, bs)]\<rparr>)\<rparr>)"
  using assms by (auto simp: idb_put_object_def run_statement_def split: option.splits sum.splits if_splits)

text \<open>Column names and values that pair up as the schema says.\<close>

lemma updated_columns:
  "map fst (update_pairs colnames vals) = filter (\<lambda>n. n \<noteq> id_col) (take (length vals) colnames)"
  unfolding update_pairs_def
proof (induction colnames arbitrary: vals)
  case (Cons n names)
  then show ?case by (cases vals) auto
qed simp


definition open_server :: server where
  "open_server = \<lparr>sv_rejects = (\<lambda>_ _. False), sv_object = (\<lambda>_ _. None)\<rparr>"

definition thing_database :: indexer_database where
  "thing_database = (database_new [])\<lparr>id_stashed := Some (clean\<lparr>cn_open := True\<rparr>),
     id_schema := [''ns_idx.thing'' \<mapsto> [''id'', ''name'', ''object'']], id_tables := [7 \<mapsto> ''ns_idx.thing'']\<rparr>"


section \<open>The executor sees the committed schema\<close>

definition table_of :: "indexer_database \<Rightarrow> column_info \<Rightarrow> string" where
  "table_of db c = idb_namespace db @ ''.'' @ cf_table_name c"

lemma add_columns_namespace [simp]: "idb_namespace (foldl add_column db cols) = idb_namespace db"
  by (induction cols arbitrary: db) (auto simp: add_column_def Let_def idb_namespace_def)

lemma add_column_steps:
  "id_schema (add_column db c) t = (if t = table_of db c
     then Some ((case id_schema db t of None \<Rightarrow> [] | Some cs \<Rightarrow> cs) @ [cf_name c]) else id_schema db t)"
  "id_tables (add_column db c) tid = (if tid = cf_type_id c \<and> id_tables db tid = None
     then Some (table_of db c) else id_tables db tid)"
  "table_of (add_column db c) = table_of db"
  by (auto simp: add_column_def Let_def table_of_def idb_namespace_def fun_eq_iff split: option.split)

lemma add_columns_schema:
  "id_schema (foldl add_column db cols) t =
    (case (id_schema db t, map cf_name (filter (\<lambda>c. table_of db c = t) cols)) of
       (None, []) \<Rightarrow> None | (None, ns) \<Rightarrow> Some ns | (Some ms, ns) \<Rightarrow> Some (ms @ ns))"
proof (induction cols arbitrary: db)
  case (Cons c cols)
  then show ?case by (simp add: add_column_steps split: option.splits list.splits)
qed (simp split: option.split)

lemma add_columns_tables:
  "id_tables (foldl add_column db cols) tid =
    (case id_tables db tid of Some t \<Rightarrow> Some t
     | None \<Rightarrow> map_option (table_of db) (find (\<lambda>c. cf_type_id c = tid) cols))"
proof (induction cols arbitrary: db)
  case (Cons c cols)
  then show ?case by (auto simp add: add_column_steps split: option.splits)
qed (simp split: option.split)

lemma sorted_constant: "\<forall>x \<in> set xs. f x = a \<Longrightarrow> sorted (map f xs)"
  by (induction xs) auto

lemma filter_concat_unique:
  assumes "distinct (map g rows)" "r \<in> set rows" "\<And>r x. r \<in> set rows \<Longrightarrow> x \<in> set (h r) \<Longrightarrow> k x = g r"
  shows "filter (\<lambda>x. k x = g r) (concat (map h rows)) = h r"
  using assms
proof (induction rows)
  case (Cons q rows)
  have none: "filter (\<lambda>x. k x = g r) (concat (map h rows)) = []" if "g r \<notin> g ` set rows"
  proof -
    have "k x \<noteq> g r" if "q' \<in> set rows" "x \<in> set (h q')" for q' x
    proof
      assume "k x = g r"
      with Cons.prems(3) [of q' x] that have "g r = g q'" by simp
      with that(1) \<open>g r \<notin> g ` set rows\<close> show False by simp
    qed
    then show ?thesis by (auto simp: filter_empty_conv)
  qed
  have all: "filter (\<lambda>x. k x = g r) (h q) = (if g q = g r then h q else [])"
    using Cons.prems(3) [of q] by (auto simp: filter_empty_conv intro!: filter_True)
  show ?case
  proof (cases "r \<in> set rows")
    case True
    with Cons.prems(1) have "g q \<noteq> g r" by force
    with all Cons.IH [OF _ True] Cons.prems show ?thesis by simp
  next
    case False
    with Cons.prems(2) have "r = q" by simp
    with all none Cons.prems(1) show ?thesis by simp
  qed
qed simp

definition column_info_of :: "type_id_row \<Rightarrow> column_row \<Rightarrow> column_info" where
  "column_info_of r c = \<lparr>cf_type_id = co_type_id c, cf_table_name = ti_table_name r,
     cf_position = co_position c, cf_name = co_name c, cf_type = co_type c\<rparr>"

definition own_columns :: "tables \<Rightarrow> type_id_row \<Rightarrow> column_info list" where
  "own_columns t r = map (column_info_of r) (filter (\<lambda>c. co_type_id c = ti_id r) (tb_columns t))"

text \<open>The rows that the registry returns, when the rows of one type are in order already.\<close>

lemma sorted_own_columns:
  assumes "distinct (map ti_table_name rows)" "r \<in> set rows"
    and "sorted (map cf_position (own_columns t r))"
  shows "filter (\<lambda>c. cf_table_name c = ti_table_name r)
      (sort_key cf_type_id (sort_key cf_position (concat (map (own_columns t) rows)))) = own_columns t r"
proof -
  have "filter (\<lambda>c. cf_table_name c = ti_table_name r) (concat (map (own_columns t) rows)) = own_columns t r"
    by (rule filter_concat_unique [OF assms(1,2)]) (auto simp: own_columns_def column_info_of_def)
  moreover have "sort_key cf_type_id (own_columns t r) = own_columns t r"
    by (rule sort_key_id_if_sorted, rule sorted_constant) (auto simp: own_columns_def column_info_of_def)
  moreover have "sort_key cf_position (own_columns t r) = own_columns t r"
    by (rule sort_key_id_if_sorted [OF assms(3)])
  ultimately show ?thesis by (simp add: filter_sort)
qed

text \<open>The columns of a committed table, as the registry returns them.\<close>

lemma committed_own_columns:
  assumes "tb_columns t' = tb_columns t @ column_rows i (sb_columns sb)"
    and "map column_key (sb_columns sb) = concat (map (table_keys sha sb) tables)"
    and "distinct (map (ti_id \<circ> type_row sha sb) tables)" and "obj \<in> set tables"
    and "\<forall>c \<in> set (tb_columns t). co_type_id c \<noteq> ti_id (type_row sha sb obj)"
  shows "map (\<lambda>c. (cf_type_id c, cf_position c, cf_name c)) (own_columns t' (type_row sha sb obj)) = table_keys sha sb obj"
proof -
  let ?tid = "ti_id (type_row sha sb obj)"
  let ?key = "\<lambda>c. (co_type_id c, co_position c, co_name c)"
  have keys: "map ?key (column_rows i (sb_columns sb)) = concat (map (table_keys sha sb) tables)"
    using arg_cong [OF column_rows_content [of i "sb_columns sb"], of "map (\<lambda>(a, b, c, d). (a, b, c))"] assms(2)
    by (simp add: o_def column_key_def [abs_def])
  have "filter (\<lambda>c. co_type_id c = ?tid) (tb_columns t') = filter (\<lambda>c. co_type_id c = ?tid) (column_rows i (sb_columns sb))"
    using assms(1,5) by (simp add: filter_empty_conv)
  then have "map (\<lambda>c. (cf_type_id c, cf_position c, cf_name c)) (own_columns t' (type_row sha sb obj))
      = map ?key (filter (\<lambda>c. co_type_id c = ?tid) (column_rows i (sb_columns sb)))"
    by (simp add: own_columns_def column_info_of_def)
  also have "\<dots> = filter (\<lambda>k. fst k = ?tid) (map ?key (column_rows i (sb_columns sb)))"
    by (simp add: filter_map o_def)
  also have "\<dots> = table_keys sha sb obj"
    unfolding keys using filter_concat_unique [OF assms(3,4), of "table_keys sha sb" fst] table_keys_id
    by (metis comp_apply prod.collapse)
  finally show ?thesis .
qed

lemma sorted_map_int: "sorted xs \<Longrightarrow> sorted (map int xs)"
  by (induction xs) auto

lemma own_columns_names:
  assumes "map (\<lambda>c. (cf_type_id c, cf_position c, cf_name c)) cs = table_keys sha sb obj"
  shows "map cf_name cs = map fd_name (ob_fields obj) @ [''object'']" and "sorted (map cf_position cs)"
    and "cs \<noteq> []"
proof -
  have "map cf_name cs = map (snd \<circ> snd) (map (\<lambda>c. (cf_type_id c, cf_position c, cf_name c)) cs)" by simp
  also have "\<dots> = map fd_name (ob_fields obj) @ [''object'']"
    unfolding assms table_keys_def expected_keys_def map_map o_def case_prod_beta snd_conv by (rule map_snd_enumerate)
  finally show names: "map cf_name cs = map fd_name (ob_fields obj) @ [''object'']" .
  then show "cs \<noteq> []" by auto
  have "map cf_position cs = map (fst \<circ> snd) (map (\<lambda>c. (cf_type_id c, cf_position c, cf_name c)) cs)" by simp
  also have "\<dots> = map int (map fst (enumerate 0 (map fd_name (ob_fields obj) @ [''object''])))"
    unfolding assms table_keys_def expected_keys_def map_map o_def case_prod_beta snd_conv fst_conv ..
  also have "\<dots> = map int [0..<length (map fd_name (ob_fields obj) @ [''object''])]"
    by (simp only: map_fst_enumerate add_0)
  finally show "sorted (map cf_position cs)"
    by (metis sorted_map_int sorted_upt)
qed

lemma committed_columns_returned:
  assumes "schema_builder_build parse sha (schema_builder_new ns ident v) schema = (Inr sb :: (schema_builder, sql_error) result)"
    and "parse schema = Some doc" and "roots_ok d" and "commit_metadata ddl sb d = (Inr s, d')"
    and "\<forall>r \<in> set (tb_type_ids (db_tables d)). (ti_schema_name r, ti_schema_version r, ti_schema_identifier r) \<noteq> (ns, v, ident)"
    and "distinct (map (\<lambda>obj. to_lowercase (ob_name obj)) (tables_in (sb_query sb) doc))"
    and "obj \<in> set (tables_in (sb_query sb) doc)"
  obtains results where "fst (columns_get_schema ns ident v d') = Inr results"
    and "filter (\<lambda>c. cf_table_name c = ti_table_name (type_row sha sb obj)) results = own_columns (db_tables d') (type_row sha sb obj)"
    and "map cf_name (own_columns (db_tables d') (type_row sha sb obj)) = map fd_name (ob_fields obj) @ [''object'']"
    and "\<forall>c \<in> set results. cf_type_id c = ti_id (type_row sha sb obj) \<longrightarrow> cf_table_name c = ti_table_name (type_row sha sb obj)"
    and "\<exists>c \<in> set results. cf_type_id c = ti_id (type_row sha sb obj)"
proof -
  let ?row = "type_row sha sb obj" and ?t = "db_tables d'" and ?rows = "sb_type_ids sb"
  let ?results = "sort_key cf_type_id (sort_key cf_position (concat (map (own_columns ?t) ?rows)))"
  note rows = built_rows [OF assms(1,2)] and commit = commit_metadata_Inr [OF assms(4,3)]
  from commit have ids: "distinct (map ti_id (tb_type_ids (db_tables d) @ ?rows))" by simp
  from commit have live: "\<not> db_aborted d'" by (simp add: live_def)
  have row: "?row \<in> set ?rows" using assms(7) by (simp add: rows(1))
  have fresh: "\<forall>c \<in> set (tb_columns (db_tables d)). co_type_id c \<noteq> ti_id ?row"
    using assms(3) ids row unfolding roots_ok_def by fastforce
  have key: "map (\<lambda>c. (cf_type_id c, cf_position c, cf_name c)) (own_columns ?t ?row) = table_keys sha sb obj"
    by (rule committed_own_columns [OF _ rows(2) _ assms(7) fresh]) (use commit ids in \<open>simp_all add: rows(1)\<close>)
  have types: "filter (\<lambda>r. ti_schema_name r = ns \<and> ti_schema_identifier r = ident \<and> ti_schema_version r = v) (tb_type_ids ?t) = ?rows"
    using commit assms(5) by (auto simp: rows type_row_def filter_empty_conv intro!: filter_True)
  have 1: "fst (columns_get_schema ns ident v d') = Inr ?results"
    unfolding columns_get_schema_def select_simp types using live
    by (simp add: own_columns_def [abs_def] column_info_of_def [abs_def] o_def)
  have 2: "filter (\<lambda>c. cf_table_name c = ti_table_name ?row) ?results = own_columns ?t ?row"
    by (rule sorted_own_columns [OF _ row own_columns_names(2) [OF key]]) (use assms(6) in \<open>simp add: rows(1) type_row_def o_def\<close>)
  have same: "r = ?row" if "r \<in> set ?rows" "ti_id r = ti_id ?row" for r
    using ids that row by (auto simp: distinct_map inj_on_def)
  have set: "set ?results = (\<Union>r \<in> set ?rows. set (own_columns ?t r))" by simp
  have 3: "\<forall>c \<in> set ?results. cf_type_id c = ti_id ?row \<longrightarrow> cf_table_name c = ti_table_name ?row"
    unfolding set using same by (auto simp: own_columns_def column_info_of_def)
  obtain c where c: "c \<in> set (own_columns ?t ?row)" using own_columns_names(3) [OF key] last_in_set by blast
  then have "cf_type_id c = ti_id ?row" by (auto simp: own_columns_def column_info_of_def)
  with c row have 4: "\<exists>c \<in> set ?results. cf_type_id c = ti_id ?row" unfolding set by blast
  from that [OF 1 2 own_columns_names(1) [OF key] 3 4] show thesis .
qed

text \<open>
  C2: an executor works with the schema that was committed. After \<^verbatim>\<open>commit_metadata\<close>, a WASM module
  of the same indexer and version loads, for each table, the table's name under the id of the type
  and the columns in the order of the schema text, \<^verbatim>\<open>object\<close> last: the order in which \<^verbatim>\<open>put_object\<close>
  pairs them with values. Types whose names differ only in case would share a table, and are excluded.
\<close>

theorem executor_loads_committed_schema:
  assumes "schema_builder_build parse sha (schema_builder_new ns ident v) schema = (Inr sb :: (schema_builder, sql_error) result)"
    and "parse schema = Some doc" and "roots_ok d" and "commit_metadata ddl sb d = (Inr s, d')"
    and "\<forall>r \<in> set (tb_type_ids (db_tables d)). (ti_schema_name r, ti_schema_version r, ti_schema_identifier r) \<noteq> (ns, v, ident)"
    and "distinct (map (\<lambda>obj. to_lowercase (ob_name obj)) (tables_in (sb_query sb) doc))"
    and "\<not> is_native m" and "obj \<in> set (tables_in (sb_query sb) doc)"
  shows "\<exists>db. idb_load_schema m (Some \<lparr>we_namespace = Inr ns, we_identifier = Inr ident, we_version = Inr v\<rparr>) d' (database_new stms) = (Inr (), db)
    \<and> id_tables db (ti_id (type_row sha sb obj)) = Some (ns @ ''_'' @ ident @ ''.'' @ to_lowercase (ob_name obj))
    \<and> id_schema db (ns @ ''_'' @ ident @ ''.'' @ to_lowercase (ob_name obj)) = Some (map fd_name (ob_fields obj) @ [''object''])"
proof -
  let ?row = "type_row sha sb obj" and ?t = "db_tables d'" and ?rows = "sb_type_ids sb"
  let ?start = "(database_new stms)\<lparr>id_namespace := ns, id_identifier := ident, id_version := v\<rparr>"
  note rows = built_rows [OF assms(1,2)] and commit = commit_metadata_Inr [OF assms(4,3)]
  obtain results where results: "fst (columns_get_schema ns ident v d') = Inr results"
    and own: "filter (\<lambda>c. cf_table_name c = ti_table_name ?row) results = own_columns ?t ?row"
    and names: "map cf_name (own_columns ?t ?row) = map fd_name (ob_fields obj) @ [''object'']"
    and tids: "\<forall>c \<in> set results. cf_type_id c = ti_id ?row \<longrightarrow> cf_table_name c = ti_table_name ?row"
    and some: "\<exists>c \<in> set results. cf_type_id c = ti_id ?row"
    using committed_columns_returned [OF assms(1-6,8)] .
  let ?db = "foldl add_column ?start results" and ?table = "ns @ ''_'' @ ident @ ''.'' @ to_lowercase (ob_name obj)"
  have load: "idb_load_schema m (Some \<lparr>we_namespace = Inr ns, we_identifier = Inr ident, we_version = Inr v\<rparr>) d' (database_new stms) = (Inr (), ?db)"
    using assms(7) results by (simp add: idb_load_schema_def load_columns_def lift_sql_def database_new_def)
  have table: "table_of ?start c = ?table \<longleftrightarrow> cf_table_name c = ti_table_name ?row" for c
    by (simp add: table_of_def idb_namespace_def type_row_def)
  have "id_schema ?db ?table = Some (map fd_name (ob_fields obj) @ [''object''])"
    unfolding add_columns_schema table own names by (simp add: database_new_def split: list.split)
  moreover from some obtain c where c: "find (\<lambda>c. cf_type_id c = ti_id ?row) results = Some c"
    by (cases "find (\<lambda>c. cf_type_id c = ti_id ?row) results") (auto simp: find_None_iff)
  then have "c \<in> set results" "cf_type_id c = ti_id ?row" by (auto simp: find_Some_iff)
  with tids have "table_of ?start c = ?table" using table by blast
  with c have "id_tables ?db (ti_id ?row) = Some ?table" by (simp add: add_columns_tables database_new_def)
  ultimately show ?thesis using load by blast
qed

lemma executor_loads_committed_schema_witness:
  "\<exists>sb s d' db. thing_builder = Inr sb \<and> commit_metadata (\<lambda>_ _. None) sb empty_database = (Inr s, d')
    \<and> idb_load_schema \<lparr>mf_namespace = ''ns'', mf_abi = None, mf_identifier = ''idx'', mf_fuel_client = None,
        mf_graphql_schema = ''s'', mf_module = WasmModule ''m'', mf_metrics = None, mf_contract_id = Single None,
        mf_start_block = None, mf_resumable = None\<rparr>
        (Some \<lparr>we_namespace = Inr ''ns'', we_identifier = Inr ''idx'', we_version = Inr ''v1''\<rparr>) d' (database_new []) = (Inr (), db)
    \<and> id_schema db ''ns_idx.thing'' = Some [''id'', ''owner'', ''object'']"
proof -
  obtain sb s d' where c: "thing_builder = Inr sb" "sb_query sb = ''QueryRoot''"
    "commit_metadata (\<lambda>_ _. None) sb empty_database = (Inr s, d')"
    using thing_commit by (elim exE conjE) (rule that)
  have p: "parse_thing ''text'' = Some thing_schema" by (simp add: parse_thing_def)
  have none: "\<forall>r \<in> set (tb_type_ids (db_tables empty_database)).
      (ti_schema_name r, ti_schema_version r, ti_schema_identifier r) \<noteq> (''ns'', ''v1'', ''idx'')"
    by (simp add: empty_database_def empty_tables_def)
  let ?thing = "\<lparr>ob_description = None, ob_name = ''Thing'', ob_implements = [], ob_directives = [],
    ob_fields = [plain_field ''id'' (NonNullType (NamedType ''ID'')), plain_field ''owner'' (NonNullType (NamedType ''User''))]\<rparr>"
  have thing: "?thing \<in> set (tables_in (sb_query sb) thing_schema)"
    by (simp add: c(2) tables_in_def thing_schema_def plain_object_def)
  have "map (\<lambda>obj. to_lowercase (ob_name obj)) (tables_in (sb_query sb) thing_schema)
      = map to_lowercase (map ob_name (tables_in ''QueryRoot'' thing_schema))" by (simp add: c(2) o_def)
  then have lower: "distinct (map (\<lambda>obj. to_lowercase (ob_name obj)) (tables_in (sb_query sb) thing_schema))"
    by (simp add: thing_tables lower_names del: map_map)
  let ?m = "\<lparr>mf_namespace = ''ns'', mf_abi = None, mf_identifier = ''idx'', mf_fuel_client = None,
        mf_graphql_schema = ''s'', mf_module = WasmModule ''m'', mf_metrics = None, mf_contract_id = Single None,
        mf_start_block = None, mf_resumable = None\<rparr>"
  have wasm: "\<not> is_native ?m" by (simp add: is_native_def)
  from executor_loads_committed_schema [OF c(1) [unfolded thing_builder_def] p empty_roots_ok c(3) none lower wasm thing, of "[]"]
  obtain db where "idb_load_schema ?m (Some \<lparr>we_namespace = Inr ''ns'', we_identifier = Inr ''idx'', we_version = Inr ''v1''\<rparr>) d' (database_new []) = (Inr (), db)"
    "id_schema db ''ns_idx.thing'' = Some [''id'', ''owner'', ''object'']"
    by (auto simp: lower_names plain_field_def)
  with c show ?thesis by (intro exI conjI)
qed

end
