(* ===== verification/Executor.thy ===== *)
theory Executor
  imports Indexer_Database
begin

text \<open>
  \<^verbatim>\<open>fuel-indexer/src/executor.rs\<close> and the host functions of \<^verbatim>\<open>ffi.rs\<close>: an executor hands pages of
  blocks to an indexer's handler, each page in one transaction, and \<^verbatim>\<open>run_executor\<close> fetches the
  pages until it is told to stop or gives up.

  The fuel node, the clock and the handler's own code are arguments. A WASM module can only call the
  host functions it imports, so a run of its handler is a tree of such calls; a native
  handler is a function on the database.
\<close>

section \<open>Host functions (ffi.rs)\<close>

text \<open>
  A run of a WASM handler: it ends well or with a trap, or calls \<^verbatim>\<open>ff_put_object\<close>, \<^verbatim>\<open>ff_get_object\<close> or
  \<^verbatim>\<open>ff_log_data\<close> and goes on with the answer. The bytes of \<^verbatim>\<open>put_object\<close> are decoded by the
  argument \<open>decode\<close> (\<^verbatim>\<open>bincode\<close>).
\<close>

datatype wasm_run =
    Finish
  | Trap
  | PutObject int bytes wasm_run
  | GetObject int "64 word" "bytes option \<Rightarrow> wasm_run"
  | LogData nat wasm_run

definition log_levels :: "nat set" where
  "log_levels = {0, 1, 2, 3, 4}"

datatype wasm_end = Finished | Trapped | HostPanic string

text \<open>A panic of a host function unwinds out of the call of the module.\<close>

primrec run_wasm ::
    "(bytes \<Rightarrow> ft_column list option) \<Rightarrow> server \<Rightarrow> wasm_run \<Rightarrow> indexer_database \<Rightarrow> wasm_end \<times> indexer_database" where
  "run_wasm decode sv Finish db = (Finished, db)"
| "run_wasm decode sv Trap db = (Trapped, db)"
| "run_wasm decode sv (PutObject tid bs k) db =
     (case decode bs of
        None \<Rightarrow> (HostPanic ''Serde error.'', db)
      | Some columns \<Rightarrow>
          (case idb_put_object sv tid columns bs db of
             (Inl (Panic m), db') \<Rightarrow> (HostPanic m, db')
           | (_, db') \<Rightarrow> run_wasm decode sv k db'))"
| "run_wasm decode sv (GetObject tid oid k) db =
     (case idb_get_object sv tid oid db of
        Inl _ \<Rightarrow> (HostPanic ''get_object'', db)
      | Inr obj \<Rightarrow> run_wasm decode sv (k obj) db)"
| "run_wasm decode sv (LogData level k) db =
     (if level \<in> log_levels then run_wasm decode sv k db else (HostPanic ''Invalid log level'', db))"

section \<open>Handling a page of blocks\<close>

text \<open>
  The WASM executor: \<open>arg\<close> tells whether the blocks could be copied into the module's memory and
  the entry point be found. A panic in the blocking task surfaces as a join error, which returns
  before the transaction is ended.
\<close>

definition wasm_handle_events ::
    "(bytes \<Rightarrow> ft_column list option) \<Rightarrow> server \<Rightarrow> ('b list \<Rightarrow> (unit, indexer_error) result) \<Rightarrow> ('b list \<Rightarrow> wasm_run)
      \<Rightarrow> 'b list \<Rightarrow> indexer_database \<Rightarrow> (unit, indexer_error) result \<times> indexer_database" where
  "wasm_handle_events decode sv arg module blocks db =
     (case arg blocks of
        Inl e \<Rightarrow> (Inl e, db)
      | Inr _ \<Rightarrow>
          (case idb_start_transaction db of
             (Inl e, db1) \<Rightarrow> (Inl e, db1)
           | (Inr _, db1) \<Rightarrow>
               (case run_wasm decode sv (module blocks) db1 of
                  (HostPanic m, db2) \<Rightarrow> (Inl (Err JoinError), db2)
                | (Trapped, db2) \<Rightarrow>
                    (case idb_revert_transaction db2 of
                       (Inl e, db3) \<Rightarrow> (Inl e, db3)
                     | (Inr _, db3) \<Rightarrow> (Inl (Err RuntimeError), db3))
                | (Finished, db2) \<Rightarrow> idb_commit_transaction db2)))"

text \<open>The native executor: the handler gets the database itself. A panic of the handler goes on upwards.\<close>

definition native_handle_events ::
    "('b list \<Rightarrow> indexer_database \<Rightarrow> (unit, indexer_error) result \<times> indexer_database)
      \<Rightarrow> 'b list \<Rightarrow> indexer_database \<Rightarrow> (unit, indexer_error) result \<times> indexer_database" where
  "native_handle_events handler blocks db =
     (case idb_start_transaction db of
        (Inl e, db1) \<Rightarrow> (Inl e, db1)
      | (Inr _, db1) \<Rightarrow>
          (case handler blocks db1 of
             (Inl (Panic m), db2) \<Rightarrow> (Inl (Panic m), db2)
           | (Inl (Err _), db2) \<Rightarrow>
               (case idb_revert_transaction db2 of
                  (Inl e, db3) \<Rightarrow> (Inl e, db3)
                | (Inr _, db3) \<Rightarrow> (Inl (Err NativeExecutionRuntimeError), db3))
           | (Inr _, db2) \<Rightarrow> idb_commit_transaction db2))"

text \<open>A native handler that reaches its database through the entities' \<^verbatim>\<open>load\<close> and \<^verbatim>\<open>save\<close> only.\<close>

definition native_program ::
    "(bytes \<Rightarrow> ft_column list option) \<Rightarrow> server \<Rightarrow> ('b list \<Rightarrow> wasm_run)
      \<Rightarrow> 'b list \<Rightarrow> indexer_database \<Rightarrow> (unit, indexer_error) result \<times> indexer_database" where
  "native_program decode sv prog blocks db =
     (case run_wasm decode sv (prog blocks) db of
        (Finished, db') \<Rightarrow> (Inr (), db')
      | (Trapped, db') \<Rightarrow> (Inl (Err RuntimeError), db')
      | (HostPanic m, db') \<Rightarrow> (Inl (Panic m), db'))"

section \<open>The loop\<close>

definition index_failed_calls :: nat where
  "index_failed_calls = 10"

definition max_empty_block_requests :: nat where
  "max_empty_block_requests = 10"

definition usize_max :: nat where
  "usize_max = 2 ^ 64 - 1"

definition node_graphql_page_size :: nat where
  "node_graphql_page_size = 10"

record 'e executor_state =
  ex_cursor :: "string option"
  ex_retries :: nat
  ex_empty :: nat
  ex_executor :: 'e

definition start_cursor :: "64 word \<Rightarrow> string option" where
  "start_cursor start = (if 1 < start then Some (show_nat (unat start - 1)) else None)"

definition max_empty_block_reqs :: "bool \<Rightarrow> nat" where
  "max_empty_block_reqs stop_idle_indexers = (if stop_idle_indexers then max_empty_block_requests else usize_max)"

text \<open>What the node answers to one request: an error, or a page with its cursor and its blocks.\<close>

datatype 'b page = FetchError | Page "string option" "'b list"

fun page_cursor :: "'b page \<Rightarrow> string option" where
  "page_cursor FetchError = None"
| "page_cursor (Page c _) = c"

fun page_blocks :: "'b page \<Rightarrow> 'b list" where
  "page_blocks FetchError = []"
| "page_blocks (Page _ bs) = bs"

datatype 'e outcome = Continue "'e executor_state" | GaveUp 'e | Idle 'e | Killed 'e | Panicked 'e

text \<open>
  One round: the page that the node returned for the cursor, and the kill switch as it is read
  at the end of the round.
\<close>

definition executor_round ::
    "nat \<Rightarrow> ('b list \<Rightarrow> 'e \<Rightarrow> (unit, indexer_error) result \<times> 'e) \<Rightarrow> 'b page \<Rightarrow> bool \<Rightarrow> 'e executor_state \<Rightarrow> 'e outcome" where
  "executor_round max_empty handle page kill st =
     (case handle (page_blocks page) (ex_executor st) of
        (Inl (Panic _), e) \<Rightarrow> Panicked e
      | (Inl (Err _), e) \<Rightarrow>
          (if Suc (ex_retries st) < index_failed_calls
           then Continue (st\<lparr>ex_retries := Suc (ex_retries st), ex_executor := e\<rparr>)
           else GaveUp e)
      | (Inr _, e) \<Rightarrow>
          (let st1 = (case page_cursor page of
               None \<Rightarrow> st\<lparr>ex_empty := Suc (ex_empty st), ex_executor := e\<rparr>
             | Some c \<Rightarrow> st\<lparr>ex_cursor := Some c, ex_empty := 0, ex_executor := e\<rparr>)
           in if page_cursor page = None \<and> ex_empty st1 = max_empty then Idle e
              else if kill then Killed e
              else Continue (st1\<lparr>ex_retries := 0\<rparr>)))"

text \<open>
  The loop on the answers of the world, one for each round: the page depends on the cursor that is
  asked for. \<open>None\<close> means that the loop still runs when the answers are used up.
\<close>

fun run_executor ::
    "nat \<Rightarrow> ('b list \<Rightarrow> 'e \<Rightarrow> (unit, indexer_error) result \<times> 'e) \<Rightarrow> ((string option \<Rightarrow> 'b page) \<times> bool) list
      \<Rightarrow> 'e executor_state \<Rightarrow> 'e outcome" where
  "run_executor max_empty handle [] st = Continue st"
| "run_executor max_empty handle ((node, kill) # world) st =
     (case executor_round max_empty handle (node (ex_cursor st)) kill st of
        Continue st' \<Rightarrow> run_executor max_empty handle world st'
      | out \<Rightarrow> out)"

definition executor_start :: "manifest \<Rightarrow> 'e \<Rightarrow> ('e executor_state, indexer_error) result" where
  "executor_start m e =
     rbind (expect (mf_start_block m) ''Failed to detect start_block.'') (\<lambda>start.
     Inr \<lparr>ex_cursor = start_cursor start, ex_retries = 0, ex_empty = 0, ex_executor = e\<rparr>)"

text \<open>The address of the node: of the manifest, when the service allows it, or of the service.\<close>

definition fuel_node_addr :: "bool \<Rightarrow> string \<Rightarrow> manifest \<Rightarrow> string" where
  "fuel_node_addr indexer_net_config fuel_node m =
     (if indexer_net_config then (case mf_fuel_client m of Some c \<Rightarrow> c | None \<Rightarrow> fuel_node) else fuel_node)"

section \<open>The blocks of a page\<close>

text \<open>
  A page's blocks are completed with their transactions, each fetched on its own: the argument
  \<open>client\<close> gives for a transaction's id an error, nothing, or the transaction with its status,
  and for its receipts an error or a list. \<open>utc\<close> is \<^verbatim>\<open>timestamp_opt(..).single()\<close>.
\<close>

datatype 't tx_status =
    SubmittedTx 't
  | SuccessTx string 't
  | SqueezedOutTx string
  | FailureTx string 't string

datatype 'a fetched = Fetched 'a | ClientError

record ('x, 'r) node_client =
  nd_transaction :: "string \<Rightarrow> ('x \<times> int tx_status) option fetched"
  nd_receipts :: "string \<Rightarrow> 'r list fetched"

record node_block =
  nb_height :: int
  nb_id :: string
  nb_producer :: "string option"
  nb_time :: int
  nb_transactions :: "string list"

record ('x, 'r, 'd) transaction_data =
  td_receipts :: "'r list"
  td_status :: "'d tx_status"
  td_transaction :: 'x
  td_id :: string

record ('x, 'r, 'd) block_data =
  bd_height :: int
  bd_id :: string
  bd_producer :: "string option"
  bd_time :: int
  bd_transactions :: "('x, 'r, 'd) transaction_data list"

definition timestamp :: "(int \<Rightarrow> 'd option) \<Rightarrow> int \<Rightarrow> ('d, 'err) result" where
  "timestamp utc t = expect (utc t) ''called `Option::unwrap()` on a `None` value''"

fun convert_status :: "(int \<Rightarrow> 'd option) \<Rightarrow> int tx_status \<Rightarrow> ('d tx_status, 'err) result" where
  "convert_status utc (SuccessTx block t) = rbind (timestamp utc t) (\<lambda>d. Inr (SuccessTx block d))"
| "convert_status utc (FailureTx block t reason) = rbind (timestamp utc t) (\<lambda>d. Inr (FailureTx block d reason))"
| "convert_status utc (SubmittedTx t) = rbind (timestamp utc t) (\<lambda>d. Inr (SubmittedTx d))"
| "convert_status utc (SqueezedOutTx reason) = Inr (SqueezedOutTx reason)"

fun fetch_transactions ::
    "('x, 'r) node_client \<Rightarrow> (int \<Rightarrow> 'd option) \<Rightarrow> string list \<Rightarrow> (('x, 'r, 'd) transaction_data list, 'err) result" where
  "fetch_transactions client utc [] = Inr []"
| "fetch_transactions client utc (i # is) =
     (case nd_transaction client i of
        Fetched (Some (tx, status)) \<Rightarrow>
          rbind (convert_status utc status) (\<lambda>st.
          rbind (fetch_transactions client utc is) (\<lambda>txs.
          Inr (\<lparr>td_receipts = (case nd_receipts client i of Fetched rs \<Rightarrow> rs | ClientError \<Rightarrow> []),
                td_status = st, td_transaction = tx, td_id = i\<rparr> # txs)))
      | _ \<Rightarrow> fetch_transactions client utc is)"

definition fetch_block ::
    "('x, 'r) node_client \<Rightarrow> (int \<Rightarrow> 'd option) \<Rightarrow> node_block \<Rightarrow> (('x, 'r, 'd) block_data, 'err) result" where
  "fetch_block client utc b =
     rbind (fetch_transactions client utc (nb_transactions b)) (\<lambda>txs.
     Inr \<lparr>bd_height = nb_height b, bd_id = nb_id b, bd_producer = nb_producer b, bd_time = nb_time b,
       bd_transactions = txs\<rparr>)"

definition block_info ::
    "('x, 'r) node_client \<Rightarrow> (int \<Rightarrow> 'd option) \<Rightarrow> node_block list \<Rightarrow> (('x, 'r, 'd) block_data list, 'err) result" where
  "block_info client utc bs = mapM (fetch_block client utc) bs"

end
