(* ===== verification/Executor_Laws.thy ===== *)
theory Executor_Laws
  imports Executor
begin

text \<open>
  Correctness of the executors. The interface \<open>page_handler\<close> is the contract of the trait
  \<^verbatim>\<open>Executor\<close>: a page of blocks is handled in one transaction. Both executors provide it; the loop
  relies on it for what is committed over a whole run.
\<close>

section \<open>The contract of the Executor trait\<close>

fun outcome_executor :: "'e outcome \<Rightarrow> 'e" where
  "outcome_executor (Continue st) = ex_executor st"
| "outcome_executor (GaveUp e) = e"
| "outcome_executor (Idle e) = e"
| "outcome_executor (Killed e) = e"
| "outcome_executor (Panicked e) = e"

locale page_handler =
  fixes handle :: "'b list \<Rightarrow> 'e \<Rightarrow> (unit, indexer_error) result \<times> 'e"
    and committed :: "'e \<Rightarrow> 'd list"
    and ready :: "'e \<Rightarrow> bool"
    and leaks :: "indexer_error fault \<Rightarrow> bool"
  assumes page_done: "ready e \<Longrightarrow> handle bs e = (Inr u, e') \<Longrightarrow> ready e' \<and> (\<exists>ds. committed e' = committed e @ ds)"
    and page_failed: "ready e \<Longrightarrow> handle bs e = (Inl x, e') \<Longrightarrow> committed e' = committed e \<and> (ready e' \<or> leaks x)"
begin

text \<open>
  The handler with a history: of each page that succeeded, its blocks and what it committed.
\<close>

definition recording :: "'b list \<Rightarrow> 'e \<times> ('b list \<times> 'd list) list
    \<Rightarrow> (unit, indexer_error) result \<times> ('e \<times> ('b list \<times> 'd list) list)" where
  "recording bs eh = (case handle bs (fst eh) of (r, e') \<Rightarrow>
     (r, (e', case r of Inl _ \<Rightarrow> snd eh | Inr _ \<Rightarrow> snd eh @ [(bs, drop (length (committed (fst eh))) (committed e'))])))"

definition consistent :: "'d list \<Rightarrow> 'e \<times> ('b list \<times> 'd list) list \<Rightarrow> bool" where
  "consistent base eh \<longleftrightarrow> committed (fst eh) = base @ concat (map snd (snd eh))"

lemma recording_step:
  assumes "ready (fst eh)" "consistent base eh" "recording bs eh = (r, eh')"
  shows "consistent base eh' \<and> (ready (fst eh') \<or> (\<exists>x. r = Inl x \<and> leaks x))"
proof (cases r)
  case (Inl x)
  with assms page_failed [OF assms(1), of bs x] show ?thesis
    by (auto simp: recording_def consistent_def split: prod.splits)
next
  case (Inr u)
  with assms page_done [OF assms(1), of bs u] show ?thesis
    by (fastforce simp: recording_def consistent_def split: prod.splits)
qed

text \<open>Over a whole run, what is committed is what the successful pages committed, in order.\<close>

lemma run_committed:
  assumes "\<And>bs e x e'. handle bs e = (Inl x, e') \<Longrightarrow> \<not> leaks x"
    and "ready (fst (ex_executor st))" "consistent base (ex_executor st)"
  shows "consistent base (outcome_executor (run_executor max_empty recording world st))
    \<and> ready (fst (outcome_executor (run_executor max_empty recording world st)))"
  using assms(2,3)
proof (induction world arbitrary: st)
  case (Cons w world)
  obtain node kill where w: "w = (node, kill)" by (cases w)
  obtain r eh where h: "recording (page_blocks (node (ex_cursor st))) (ex_executor st) = (r, eh)"
    by (cases "recording (page_blocks (node (ex_cursor st))) (ex_executor st)")
  from recording_step [OF Cons.prems h] have step: "consistent base eh" "ready (fst eh)"
    using assms(1) h by (auto simp: recording_def split: prod.splits)
  have "outcome_executor (executor_round max_empty recording (node (ex_cursor st)) kill st) = eh"
    using h by (auto simp: executor_round_def Let_def split: sum.splits fault.splits option.splits)
  with step Cons.IH show ?case
    by (cases "executor_round max_empty recording (node (ex_cursor st)) kill st") (auto simp: w)
qed simp

end

section \<open>A run of a WASM module\<close>

text \<open>A run changes nothing but the transaction on the stashed connection.\<close>

definition only_log :: "indexer_database \<Rightarrow> indexer_database \<Rightarrow> bool" where
  "only_log db db' \<longleftrightarrow> id_committed db' = id_committed db \<and> id_idle db' = id_idle db
     \<and> (case id_stashed db of None \<Rightarrow> id_stashed db' = None
        | Some c \<Rightarrow> \<exists>c'. id_stashed db' = Some c' \<and> cn_open c' = cn_open c)"

lemma only_log_refl [simp]: "only_log db db"
  by (simp add: only_log_def split: option.split)

lemma only_log_trans: "only_log db1 db2 \<Longrightarrow> only_log db2 db3 \<Longrightarrow> only_log db1 db3"
  by (auto simp: only_log_def split: option.splits)

lemma put_object_only_log: "idb_put_object sv tid columns bs db = (r, db') \<Longrightarrow> only_log db db'"
  by (auto simp: idb_put_object_def run_statement_def only_log_def split: option.splits sum.splits if_splits)

lemma run_wasm_only_log: "run_wasm decode sv prog db = (out, db') \<Longrightarrow> only_log db db'"
proof (induction prog arbitrary: db)
  case (PutObject tid bs k)
  show ?case
  proof (cases "decode bs")
    case None
    with PutObject.prems show ?thesis by simp
  next
    case (Some columns)
    obtain r db1 where p: "idb_put_object sv tid columns bs db = (r, db1)" by (cases "idb_put_object sv tid columns bs db")
    have "(\<exists>m. out = HostPanic m \<and> db' = db1) \<or> run_wasm decode sv k db1 = (out, db')"
      using PutObject.prems Some p by (auto split: sum.splits fault.splits)
    with PutObject.IH [of db1] put_object_only_log [OF p] only_log_trans show ?thesis by blast
  qed
qed (auto split: sum.splits if_splits)

text \<open>The database of an executor between two pages.\<close>

definition database_ready :: "indexer_database \<Rightarrow> bool" where
  "database_ready db \<longleftrightarrow> id_stashed db = None \<and> list_all (\<lambda>c. c = clean) (id_idle db)"

definition open_log :: "indexer_database \<Rightarrow> pg_statement list" where
  "open_log db = (case id_stashed db of Some c \<Rightarrow> if cn_aborted c then [] else cn_log c | None \<Rightarrow> [])"

lemma start_ready:
  assumes "database_ready db"
  obtains db1 where "idb_start_transaction db = (Inr (), db1)" "id_stashed db1 = Some (clean\<lparr>cn_open := True\<rparr>)"
    "id_committed db1 = id_committed db" "list_all (\<lambda>c. c = clean) (id_idle db1)"
proof -
  have "\<exists>db1. acquire db = (clean, db1) \<and> id_stashed db1 = None \<and> id_committed db1 = id_committed db
      \<and> list_all (\<lambda>c. c = clean) (id_idle db1)"
    using assms by (auto simp: acquire_def database_ready_def split: list.split)
  then obtain db1 where db1: "acquire db = (clean, db1)" "id_stashed db1 = None"
    "id_committed db1 = id_committed db" "list_all (\<lambda>c. c = clean) (id_idle db1)" by blast
  have "\<not> cn_aborted clean" by (simp add: clean_def)
  with db1 show thesis by (intro that [of "db1\<lparr>id_stashed := Some (clean\<lparr>cn_open := True\<rparr>)\<rparr>"])
      (simp_all add: idb_start_transaction_def)
qed

lemma end_transaction:
  assumes "only_log db1 db2" "id_stashed db1 = Some c" "list_all (\<lambda>c. c = clean) (id_idle db1)"
  shows "\<exists>db3. idb_commit_transaction db2 = (Inr (), db3) \<and> database_ready db3
      \<and> id_committed db3 = id_committed db1 @ open_log db2"
    and "\<exists>db3. idb_revert_transaction db2 = (Inr (), db3) \<and> database_ready db3 \<and> id_committed db3 = id_committed db1"
  using assms by (auto simp: only_log_def idb_commit_transaction_def idb_revert_transaction_def database_ready_def
      release_def open_log_def)

text \<open>The statements of the objects that a run puts, as long as it runs undisturbed.\<close>

lemma wasm_page_cases:
  assumes "database_ready db" "arg blocks = Inr u" "wasm_handle_events decode sv arg module blocks db = (r, db')"
  obtains (finished) db1 db2 where "idb_start_transaction db = (Inr (), db1)"
      "run_wasm decode sv (module blocks) db1 = (Finished, db2)" "r = Inr ()" "database_ready db'"
      "id_committed db' = id_committed db @ open_log db2"
  | (trapped) "r = Inl (Err RuntimeError)" "database_ready db'" "id_committed db' = id_committed db"
  | (panicked) "r = Inl (Err JoinError)" "id_stashed db' \<noteq> None" "id_committed db' = id_committed db"
proof -
  obtain db1 where s: "idb_start_transaction db = (Inr (), db1)" "id_stashed db1 = Some (clean\<lparr>cn_open := True\<rparr>)"
    "id_committed db1 = id_committed db" "list_all (\<lambda>c. c = clean) (id_idle db1)"
    by (rule start_ready [OF assms(1)])
  obtain out db2 where run: "run_wasm decode sv (module blocks) db1 = (out, db2)"
    by (cases "run_wasm decode sv (module blocks) db1")
  note log = run_wasm_only_log [OF run]
  note ends = end_transaction [OF log s(2,4)]
  show thesis
  proof (cases out)
    case Finished
    with ends(1) assms(2,3) s run show ?thesis by (auto simp: wasm_handle_events_def intro: finished)
  next
    case Trapped
    with ends(2) assms(2,3) s run show ?thesis by (auto simp: wasm_handle_events_def intro: trapped)
  next
    case (HostPanic m)
    with assms(2,3) s run have "r = Inl (Err JoinError)" "db' = db2" by (auto simp: wasm_handle_events_def)
    with log s panicked show ?thesis by (auto simp: only_log_def)
  qed
qed

section \<open>Both executors keep the contract\<close>

interpretation wasm: page_handler "wasm_handle_events decode sv arg module" id_committed database_ready
  "\<lambda>x. x = Err JoinError"
proof
  fix e bs u e'
  assume e: "database_ready e" and h: "wasm_handle_events decode sv arg module bs e = (Inr u, e')"
  then obtain v where "arg bs = Inr v" by (cases "arg bs") (auto simp: wasm_handle_events_def)
  from wasm_page_cases [OF e this h] show "database_ready e' \<and> (\<exists>ds. id_committed e' = id_committed e @ ds)"
    by cases auto
next
  fix e bs x e'
  assume e: "database_ready e" and h: "wasm_handle_events decode sv arg module bs e = (Inl x, e')"
  show "id_committed e' = id_committed e \<and> (database_ready e' \<or> x = Err JoinError)"
  proof (cases "arg bs")
    case (Inl y)
    with e h show ?thesis by (simp add: wasm_handle_events_def)
  next
    case (Inr v)
    from wasm_page_cases [OF e this h] show ?thesis by cases auto
  qed
qed

lemma native_page_cases:
  assumes "database_ready db" "native_handle_events (native_program decode sv prog) blocks db = (r, db')"
  shows "(r = Inr () \<and> database_ready db' \<and> (\<exists>ds. id_committed db' = id_committed db @ ds))
    \<or> (r = Inl (Err NativeExecutionRuntimeError) \<and> database_ready db' \<and> id_committed db' = id_committed db)
    \<or> (\<exists>m. r = Inl (Panic m) \<and> id_committed db' = id_committed db)"
proof -
  obtain db1 where s: "idb_start_transaction db = (Inr (), db1)" "id_stashed db1 = Some (clean\<lparr>cn_open := True\<rparr>)"
    "id_committed db1 = id_committed db" "list_all (\<lambda>c. c = clean) (id_idle db1)"
    by (rule start_ready [OF assms(1)])
  obtain out db2 where p: "run_wasm decode sv (prog blocks) db1 = (out, db2)"
    by (cases "run_wasm decode sv (prog blocks) db1")
  note log = run_wasm_only_log [OF p]
  note ends = end_transaction [OF log s(2,4)]
  from assms(2) s p log ends show ?thesis
    by (cases out) (auto simp: native_handle_events_def native_program_def only_log_def)
qed

interpretation native: page_handler "native_handle_events (native_program decode sv prog)" id_committed database_ready
  "\<lambda>x. \<exists>m. x = Panic m"
  by unfold_locales (use native_page_cases in \<open>fastforce+\<close>)

section \<open>The pages that a run delivers\<close>

text \<open>The cursors that the pages of a node lead through, and the blocks up to the \<open>n\<close>th of them.\<close>

fun cursor_at :: "(string option \<Rightarrow> 'b page) \<Rightarrow> string option \<Rightarrow> nat \<Rightarrow> string option" where
  "cursor_at pages c 0 = c"
| "cursor_at pages c (Suc n) = page_cursor (pages (cursor_at pages c n))"

definition blocks_before :: "(string option \<Rightarrow> 'b page) \<Rightarrow> string option \<Rightarrow> nat \<Rightarrow> 'b list" where
  "blocks_before pages c n = concat (map (\<lambda>k. page_blocks (pages (cursor_at pages c k))) [0..<n])"

text \<open>Any handler, with the blocks of the pages that succeeded.\<close>

definition observed :: "('b list \<Rightarrow> 'e \<Rightarrow> (unit, indexer_error) result \<times> 'e) \<Rightarrow> 'b list \<Rightarrow> 'e \<times> 'b list
    \<Rightarrow> (unit, indexer_error) result \<times> ('e \<times> 'b list)" where
  "observed handle bs eh = (case handle bs (fst eh) of (r, e') \<Rightarrow>
     (r, (e', case r of Inl _ \<Rightarrow> snd eh | Inr _ \<Rightarrow> snd eh @ bs)))"

definition delivered :: "(string option \<Rightarrow> 'b page) \<Rightarrow> string option \<Rightarrow> nat \<Rightarrow> string option \<Rightarrow> 'b list \<Rightarrow> bool" where
  "delivered pages start n c bs \<longleftrightarrow> c = cursor_at pages start n \<and> bs = blocks_before pages start n"

text \<open>
  A node that answers every request with the same pages, or not at all; the page at the end of the
  chain has no blocks and no cursor.
\<close>

definition steady_node :: "(string option \<Rightarrow> 'b page) \<Rightarrow> (string option \<Rightarrow> 'b page) \<Rightarrow> bool" where
  "steady_node pages node \<longleftrightarrow> (\<forall>c. node c = FetchError \<or> node c = pages c)"

definition ends_empty :: "(string option \<Rightarrow> 'b page) \<Rightarrow> bool" where
  "ends_empty pages \<longleftrightarrow> (\<forall>c. page_cursor (pages c) = None \<longrightarrow> page_blocks (pages c) = [])"

lemma round_delivers:
  assumes "steady_node pages node" "ends_empty pages"
    and "delivered pages start n (ex_cursor st) (snd (ex_executor st))"
    and "executor_round max_empty (observed handle) (node (ex_cursor st)) kill st = out"
  shows "\<exists>n'. snd (outcome_executor out) = blocks_before pages start n'
    \<and> (\<forall>st'. out = Continue st' \<longrightarrow> ex_cursor st' = cursor_at pages start n')"
proof -
  let ?page = "node (ex_cursor st)"
  obtain r e h where o: "observed handle (page_blocks ?page) (ex_executor st) = (r, (e, h))"
    by (metis prod.exhaust)
  have h: "h = (case r of Inl _ \<Rightarrow> snd (ex_executor st) | Inr _ \<Rightarrow> snd (ex_executor st) @ page_blocks ?page)"
    using o by (auto simp: observed_def split: prod.splits)
  have page: "?page = FetchError \<or> ?page = pages (cursor_at pages start n)"
    using assms(1,3) by (auto simp: steady_node_def delivered_def)
  show ?thesis
  proof (cases r)
    case (Inl x)
    with assms(3,4) o h show ?thesis
      by (intro exI [of _ n]) (auto simp: executor_round_def delivered_def split: fault.splits if_splits)
  next
    case (Inr u)
    show ?thesis
    proof (cases "page_cursor ?page")
      case None
      with page assms(2) have "page_blocks ?page = []" by (auto simp: ends_empty_def)
      with None Inr assms(3,4) o h show ?thesis
        by (intro exI [of _ n]) (auto simp: executor_round_def delivered_def Let_def split: if_splits)
    next
      case (Some c)
      with page have p: "?page = pages (cursor_at pages start n)" by auto
      with Some have "cursor_at pages start (Suc n) = Some c"
        "blocks_before pages start (Suc n) = blocks_before pages start n @ page_blocks ?page"
        by (simp_all add: blocks_before_def)
      with Some Inr assms(3,4) o h show ?thesis
        by (intro exI [of _ "Suc n"]) (auto simp: executor_round_def delivered_def Let_def split: if_splits)
    qed
  qed
qed

lemma run_delivers:
  "list_all (\<lambda>w. steady_node pages (fst w)) world \<Longrightarrow> ends_empty pages
    \<Longrightarrow> delivered pages start n (ex_cursor st) (snd (ex_executor st))
    \<Longrightarrow> \<exists>n'. snd (outcome_executor (run_executor max_empty (observed handle) world st)) = blocks_before pages start n'"
proof (induction world arbitrary: st n)
  case Nil
  then show ?case by (auto simp: delivered_def)
next
  case (Cons w world)
  obtain node kill where w: "w = (node, kill)" by (cases w)
  let ?out = "executor_round max_empty (observed handle) (node (ex_cursor st)) kill st"
  from Cons.prems(1) w have steady: "steady_node pages node" "list_all (\<lambda>w. steady_node pages (fst w)) world" by auto
  from round_delivers [OF steady(1) Cons.prems(2,3) refl] obtain n' where
    n': "snd (outcome_executor ?out) = blocks_before pages start n'"
    "\<forall>st'. ?out = Continue st' \<longrightarrow> ex_cursor st' = cursor_at pages start n'" by blast
  show ?case
  proof (cases ?out)
    case (Continue st')
    have "ex_cursor st' = cursor_at pages start n'" using n'(2) Continue by blast
    moreover have "snd (ex_executor st') = blocks_before pages start n'" using n'(1) Continue by simp
    ultimately have "delivered pages start n' (ex_cursor st') (snd (ex_executor st'))" by (simp only: delivered_def)
    from Cons.IH [OF steady(2) Cons.prems(2) this] Continue w show ?thesis by simp
  qed (use n' w in auto)
qed


definition two_pages :: "string option \<Rightarrow> nat page" where
  "two_pages c = (if c = None then Page (Some ''1'') [10, 11] else Page None [])"

definition demo_manifest :: manifest where
  "demo_manifest = \<lparr>mf_namespace = ''ns'', mf_abi = None, mf_identifier = ''idx'', mf_fuel_client = None,
     mf_graphql_schema = ''s'', mf_module = WasmModule ''m'', mf_metrics = None, mf_contract_id = Single None,
     mf_start_block = Some 1, mf_resumable = None\<rparr>"

lemma demo_start: "executor_start demo_manifest e = Inr \<lparr>ex_cursor = None, ex_retries = 0, ex_empty = 0, ex_executor = e\<rparr>"
  by (simp add: executor_start_def demo_manifest_def expect_def start_cursor_def)


section \<open>Ends of a run\<close>

lemma killed_rounds:
  "list_all snd world \<Longrightarrow> run_executor max_empty handle world st = Continue st'
    \<Longrightarrow> world = [] \<or> ex_retries st + length world < index_failed_calls"
proof (induction world arbitrary: st)
  case (Cons w world)
  obtain node kill where w: "w = (node, kill)" by (cases w)
  from Cons.prems w obtain st1 where r: "executor_round max_empty handle (node (ex_cursor st)) True st = Continue st1"
    and rest: "run_executor max_empty handle world st1 = Continue st'"
    by (auto split: outcome.splits)
  from r have "ex_retries st1 = Suc (ex_retries st) \<and> Suc (ex_retries st) < index_failed_calls"
    by (auto simp: executor_round_def Let_def split: prod.splits sum.splits fault.splits if_splits)
  with Cons.IH [OF _ rest] Cons.prems(1) w show ?case by auto
qed simp



lemma idle_rounds:
  assumes "\<forall>bs e. \<exists>e'. handle bs e = (Inr (), e')"
  shows "list_all (\<lambda>w. (\<forall>c. page_cursor (fst w c) = None) \<and> \<not> snd w) world \<Longrightarrow> ex_empty st < max_empty
    \<Longrightarrow> if ex_empty st + length world < max_empty
      then \<exists>st'. run_executor max_empty handle world st = Continue st'
      else \<exists>e. run_executor max_empty handle world st = Idle e"
proof (induction world arbitrary: st)
  case (Cons w world)
  obtain node kill where w: "w = (node, kill)" by (cases w)
  obtain e' where e': "handle (page_blocks (node (ex_cursor st))) (ex_executor st) = (Inr (), e')" using assms by blast
  have page: "page_cursor (node (ex_cursor st)) = None" "\<not> kill" using Cons.prems(1) w by auto
  show ?case
  proof (cases "Suc (ex_empty st) = max_empty")
    case True
    with e' page w show ?thesis by (simp add: executor_round_def)
  next
    case False
    then have "executor_round max_empty handle (node (ex_cursor st)) kill st
        = Continue (st\<lparr>ex_empty := Suc (ex_empty st), ex_executor := e', ex_retries := 0\<rparr>)"
      using e' page by (simp add: executor_round_def)
    with Cons.IH [of "st\<lparr>ex_empty := Suc (ex_empty st), ex_executor := e', ex_retries := 0\<rparr>"] Cons.prems False w
    show ?thesis by simp
  qed
qed simp

text \<open>
  An executor without new blocks stops after ten empty pages when the service stops idle
  indexers, and otherwise goes on for as long as its counter can count.
\<close>

theorem idle_executor:
  assumes "\<forall>bs e. \<exists>e'. handle bs e = (Inr (), e')" "executor_start m e = Inr st"
    and "list_all (\<lambda>w. (\<forall>c. page_cursor (fst w c) = None) \<and> \<not> snd w) world"
  shows "(\<exists>e'. run_executor (max_empty_block_reqs True) handle world st = Idle e') = (10 \<le> length world)
    \<and> (\<exists>e'. run_executor (max_empty_block_reqs False) handle world st = Idle e') = (2 ^ 64 - 1 \<le> length world)"
proof -
  from assms(2) have "ex_empty st = 0" by (auto simp: executor_start_def)
  with idle_rounds [OF assms(1,3), of st "max_empty_block_reqs True"] idle_rounds [OF assms(1,3), of st "max_empty_block_reqs False"]
  show ?thesis
    by (auto simp: max_empty_block_reqs_def max_empty_block_requests_def usize_max_def split: if_splits)
qed

lemma idle_executor_witness:
  "\<exists>e'. run_executor (max_empty_block_reqs True) (\<lambda>(bs :: nat list) e. (Inr (), e)) (replicate 12 (\<lambda>_. FetchError :: nat page, False))
    \<lparr>ex_cursor = None, ex_retries = 0, ex_empty = 0, ex_executor = ()\<rparr> = Idle e'"
proof -
  have "list_all (\<lambda>w. (\<forall>c. page_cursor (fst w c) = None) \<and> \<not> snd w) (replicate 12 (\<lambda>_. FetchError :: nat page, False))"
    by (simp add: list_all_iff)
  from idle_executor [OF _ demo_start [of "()"] this, of "\<lambda>(bs :: nat list) e. (Inr (), e)"] show ?thesis by simp
qed

section \<open>The counters of a run\<close>

text \<open>The states between the rounds of a run.\<close>

inductive executor_reaches ::
    "nat \<Rightarrow> ('b list \<Rightarrow> 'e \<Rightarrow> (unit, indexer_error) result \<times> 'e) \<Rightarrow> 'e executor_state \<Rightarrow> 'e executor_state \<Rightarrow> bool"
  for max_empty handle st where
  start: "executor_reaches max_empty handle st st"
| round: "executor_reaches max_empty handle st st1 \<Longrightarrow> executor_round max_empty handle page kill st1 = Continue st2
    \<Longrightarrow> executor_reaches max_empty handle st st2"

lemma round_counters:
  assumes "executor_round max_empty handle page kill st = Continue st'"
    and "ex_retries st < index_failed_calls" "ex_empty st < max_empty"
  shows "ex_retries st' < index_failed_calls \<and> ex_empty st' < max_empty"
  using assms by (auto simp: executor_round_def Let_def index_failed_calls_def split: prod.splits sum.splits fault.splits if_splits option.splits)

text \<open>
  The counters of the loop stay in their bounds in every state that a run reaches: fewer than
  ten failures in a row, fewer empty pages than the limit. So neither counter overflows, not
  even in a service that never stops idle indexers, whose limit is the largest \<^verbatim>\<open>usize\<close>.
\<close>

theorem executor_counters_bounded:
  assumes "executor_reaches (max_empty_block_reqs stop) handle st st'" "executor_start m e = Inr st"
  shows "ex_retries st' < index_failed_calls \<and> ex_empty st' < max_empty_block_reqs stop
    \<and> Suc (ex_empty st') < 2 ^ 64"
proof -
  have "ex_retries st < index_failed_calls \<and> ex_empty st < max_empty_block_reqs stop"
    using assms(2) by (auto simp: executor_start_def index_failed_calls_def max_empty_block_reqs_def
        max_empty_block_requests_def usize_max_def)
  with assms(1) have "ex_retries st' < index_failed_calls \<and> ex_empty st' < max_empty_block_reqs stop"
    by (induction rule: executor_reaches.induct) (auto dest: round_counters)
  then show ?thesis
    by (auto simp: max_empty_block_reqs_def max_empty_block_requests_def usize_max_def split: if_splits)
qed

lemma executor_counters_bounded_witness:
  "\<exists>st. executor_reaches (max_empty_block_reqs False) (\<lambda>bs e. (Inl (Err RuntimeError), e))
      \<lparr>ex_cursor = None, ex_retries = 0, ex_empty = 0, ex_executor = ()\<rparr> st
    \<and> ex_retries st = 1 \<and> Suc (ex_empty st) < 2 ^ 64"
proof -
  let ?st = "\<lparr>ex_cursor = None, ex_retries = 1, ex_empty = 0, ex_executor = ()\<rparr>"
  have "executor_round (max_empty_block_reqs False) (\<lambda>bs e. (Inl (Err RuntimeError), e)) FetchError False
      \<lparr>ex_cursor = None, ex_retries = 0, ex_empty = 0, ex_executor = ()\<rparr> = Continue ?st"
    by (simp add: executor_round_def index_failed_calls_def)
  from executor_reaches.round [OF executor_reaches.start this]
  have "executor_reaches (max_empty_block_reqs False) (\<lambda>bs e. (Inl (Err RuntimeError), e))
      \<lparr>ex_cursor = None, ex_retries = 0, ex_empty = 0, ex_executor = ()\<rparr> ?st" .
  with executor_counters_bounded [OF this demo_start] show ?thesis by (intro exI [of _ ?st]) simp
qed

section \<open>What is committed\<close>


definition put_nothing :: "bytes \<Rightarrow> ft_column list option" where
  "put_nothing bs = None"

definition put_thing :: "bytes \<Rightarrow> ft_column list option" where
  "put_thing bs = Some [FtID (Some 1), FtCharfield (Some ''x'')]"

definition idle_thing_database :: indexer_database where
  "idle_thing_database = thing_database\<lparr>id_stashed := None\<rparr>"

lemma idle_thing_ready: "database_ready idle_thing_database"
  by (simp add: database_ready_def idle_thing_database_def thing_database_def database_new_def)




section \<open>Transactions of a block\<close>

lemma fetched_ids:
  "fetch_transactions client utc is = (Inr txs :: (('x, 'r, 'd) transaction_data list, 'err) result)
    \<Longrightarrow> map td_id txs = filter (\<lambda>i. \<exists>x. nd_transaction client i = Fetched (Some x)) is
      \<and> list_all (\<lambda>td. td_receipts td = (case nd_receipts client (td_id td) of Fetched rs \<Rightarrow> rs | ClientError \<Rightarrow> [])) txs"
proof (induction "is" arbitrary: txs)
  case (Cons i "is")
  show ?case
  proof (cases "\<exists>tx status. nd_transaction client i = Fetched (Some (tx, status))")
    case True
    then obtain tx status where "nd_transaction client i = Fetched (Some (tx, status))" by blast
    with Cons show ?thesis by auto
  next
    case False
    then have "fetch_transactions client utc (i # is)
        = (fetch_transactions client utc is :: (('x, 'r, 'd) transaction_data list, 'err) result)"
      by (auto split: fetched.splits option.splits)
    with False Cons show ?thesis by auto
  qed
qed simp

text \<open>
  A block reaches the handler with exactly those of its transactions that the node returned,
  in order. A transaction whose request failed is left out, and receipts whose request failed are
  replaced by none: the block counts as handled all the same, and is not fetched again.
\<close>

theorem block_keeps_fetched_transactions:
  assumes "fetch_block client utc b = (Inr data :: (('x, 'r, 'd) block_data, 'err) result)"
  shows "bd_height data = nb_height b \<and> bd_id data = nb_id b
    \<and> map td_id (bd_transactions data) = filter (\<lambda>i. \<exists>x. nd_transaction client i = Fetched (Some x)) (nb_transactions b)
    \<and> list_all (\<lambda>td. td_receipts td = (case nd_receipts client (td_id td) of Fetched rs \<Rightarrow> rs | ClientError \<Rightarrow> []))
        (bd_transactions data)"
proof -
  from assms obtain txs where txs: "fetch_transactions client utc (nb_transactions b)
      = (Inr txs :: (('x, 'r, 'd) transaction_data list, 'err) result)"
    and data: "data = \<lparr>bd_height = nb_height b, bd_id = nb_id b, bd_producer = nb_producer b, bd_time = nb_time b,
       bd_transactions = txs\<rparr>"
    by (auto simp: fetch_block_def)
  from fetched_ids [OF txs] data show ?thesis by simp
qed

definition flaky_client :: "(nat, nat) node_client" where
  "flaky_client = \<lparr>nd_transaction = (\<lambda>i. if i = ''a'' then Fetched (Some (1, SuccessTx ''b1'' 5)) else ClientError),
     nd_receipts = (\<lambda>_. ClientError)\<rparr>"

lemma block_keeps_fetched_transactions_witness:
  "\<exists>data. fetch_block flaky_client Some \<lparr>nb_height = 3, nb_id = ''b1'', nb_producer = None, nb_time = 5, nb_transactions = [''a'', ''b'']\<rparr>
      = (Inr data :: (_, indexer_error) result)
    \<and> map td_id (bd_transactions data) = [''a'']"
proof -
  let ?b = "\<lparr>nb_height = 3, nb_id = ''b1'', nb_producer = None, nb_time = 5, nb_transactions = [''a'', ''b'']\<rparr>"
  let ?data = "\<lparr>bd_height = 3, bd_id = ''b1'', bd_producer = None, bd_time = 5, bd_transactions =
     [\<lparr>td_receipts = [], td_status = SuccessTx ''b1'' 5, td_transaction = 1, td_id = ''a''\<rparr>]\<rparr>"
  have data: "fetch_block flaky_client Some ?b = (Inr ?data :: (_, indexer_error) result)"
    by (simp add: fetch_block_def flaky_client_def timestamp_def expect_def)
  from block_keeps_fetched_transactions [OF data] have "map td_id (bd_transactions ?data) = [''a'']"
    by (simp add: flaky_client_def)
  with data show ?thesis by (intro exI conjI)
qed

end
