(* ===== verification/Service.thy ===== *)
theory Service
  imports Executor_Laws
begin

text \<open>
  \<^verbatim>\<open>fuel-indexer/src/service.rs\<close>: the service starts executors and answers requests to reload, stop
  or revert an indexer. Executors run on their own once they are spawned; the service knows them by
  their kill switches. Reading files and YAML, instantiating a module and reading the height that an
  indexer recorded are arguments, collected in \<open>environment\<close>.
\<close>

section \<open>The state of the service\<close>

record environment =
  en_read_module :: "string \<Rightarrow> (bytes, indexer_error) result"
  en_read_schema :: "string \<Rightarrow> (string, indexer_error) result"
  en_instantiate :: "manifest \<Rightarrow> bytes \<Rightarrow> (unit, indexer_error) result"
  en_manifest_bytes :: "manifest \<Rightarrow> (bytes, indexer_error) result"
  en_manifest_of :: "bytes \<Rightarrow> (manifest, indexer_error) result"
  en_max_height :: "string \<Rightarrow> (int option, indexer_error) result"
  en_string_bytes :: "string \<Rightarrow> bytes"
  en_digest :: "bytes \<Rightarrow> string"
  en_parse :: "string \<Rightarrow> schema_document option"
  en_sha :: "string \<Rightarrow> bytes"
  en_ddl :: "string list \<Rightarrow> string \<Rightarrow> sql_error option"

text \<open>A spawned executor: the number of its kill switch, its manifest and the bytes of its module.\<close>

record spawned =
  sp_switch :: nat
  sp_manifest :: manifest
  sp_module :: bytes

record service =
  ss_db :: database
  ss_spawned :: "spawned list"
  ss_killed :: "nat set"
  ss_killers :: "string \<rightharpoonup> nat"
  ss_handles :: "string \<rightharpoonup> nat"

text \<open>Operations on a state that may fail; the operations of the service are those on its state.\<close>

type_synonym ('a, 's, 'e) op = "'s \<Rightarrow> ('a, 'e) result \<times> 's"

type_synonym 'a serv = "('a, service, indexer_error) op"

definition sret :: "'a \<Rightarrow> ('a, 's, 'e) op" where
  "sret x st = (Inr x, st)"

definition sbind :: "('a, 's, 'e) op \<Rightarrow> ('a \<Rightarrow> ('b, 's, 'e) op) \<Rightarrow> ('b, 's, 'e) op" where
  "sbind m f st = (case m st of (Inl e, st') \<Rightarrow> (Inl e, st') | (Inr x, st') \<Rightarrow> f x st')"

text \<open>A computation without effect, and a query on the database.\<close>

definition slift :: "('a, 'e) result \<Rightarrow> ('a, 's, 'e) op" where
  "slift r st = (r, st)"

definition squery :: "'a db \<Rightarrow> 'a serv" where
  "squery m st = (case m (ss_db st) of (r, d) \<Rightarrow> (lift_sql r, st\<lparr>ss_db := d\<rparr>))"

section \<open>Starting executors\<close>

definition last_block_height_for_indexer ::
    "environment \<Rightarrow> string \<Rightarrow> string \<Rightarrow> (64 word, indexer_error) result" where
  "last_block_height_for_indexer en ns ident =
     rbind (en_max_height en (ns @ ''_'' @ ident)) (\<lambda>height.
     Inr (case height of Some h \<Rightarrow> word_of_int h | None \<Rightarrow> 1))"

definition get_start_block :: "environment \<Rightarrow> manifest \<Rightarrow> (64 word, indexer_error) result" where
  "get_start_block en m =
     (case mf_resumable m of
        Some _ \<Rightarrow> last_block_height_for_indexer en (mf_namespace m) (mf_identifier m)
      | None \<Rightarrow> Inr (case mf_start_block m of Some b \<Rightarrow> b | None \<Rightarrow> 1))"

definition spawn :: "manifest \<Rightarrow> bytes \<Rightarrow> nat serv" where
  "spawn m bs st =
     (Inr (length (ss_spawned st)), st\<lparr>ss_spawned := ss_spawned st
        @ [\<lparr>sp_switch = length (ss_spawned st), sp_manifest = m, sp_module = bs\<rparr>]\<rparr>)"

datatype executor_source = FromManifest | FromRegistry bytes

text \<open>\<^verbatim>\<open>WasmIndexExecutor::create\<close>: the kill switch and the bytes of the module.\<close>

definition wasm_create :: "environment \<Rightarrow> manifest \<Rightarrow> executor_source \<Rightarrow> (nat \<times> bytes) serv" where
  "wasm_create en m source =
     (case source of
        FromManifest \<Rightarrow>
          (case mf_module m of
             WasmModule p \<Rightarrow>
               sbind (slift (en_read_module en p)) (\<lambda>bs.
               sbind (slift (en_instantiate en m bs)) (\<lambda>_.
               sbind (spawn m bs) (\<lambda>i. sret (i, bs))))
           | NativeModule \<Rightarrow> slift (Inl (Err NativeExecutionInstantiationError)))
      | FromRegistry bs \<Rightarrow>
          sbind (slift (en_instantiate en m bs)) (\<lambda>_.
          sbind (spawn m bs) (\<lambda>i. sret (i, bs))))"

definition remember :: "string \<Rightarrow> nat \<Rightarrow> unit serv" where
  "remember u i st = (Inr (), st\<lparr>ss_handles := (ss_handles st)(u \<mapsto> i), ss_killers := (ss_killers st)(u \<mapsto> i)\<rparr>)"

fun register_assets :: "environment \<Rightarrow> manifest \<Rightarrow> (asset_type \<times> bytes) list \<Rightarrow> unit serv" where
  "register_assets en m [] = sret ()"
| "register_assets en m ((ty, bs) # items) =
     sbind (squery (register_index_asset (en_digest en) (mf_namespace m) (mf_identifier m) bs ty None))
       (\<lambda>_. register_assets en m items)"

text \<open>The items are popped from the end of the vector: schema, manifest, module.\<close>

definition register_index_from_manifest :: "environment \<Rightarrow> manifest \<Rightarrow> unit serv" where
  "register_index_from_manifest en m =
     sbind (squery (register_index (mf_namespace m) (mf_identifier m) None)) (\<lambda>_.
     sbind (slift (en_read_schema en (mf_graphql_schema m))) (\<lambda>schema.
     sbind (squery (new_schema (en_parse en) (en_sha en) (en_ddl en) (mf_namespace m) (mf_identifier m) schema)) (\<lambda>_.
     sbind (slift (get_start_block en m)) (\<lambda>start.
     let m' = m\<lparr>mf_start_block := Some start\<rparr> in
     sbind (wasm_create en m' FromManifest) (\<lambda>(i, bs).
     sbind (slift (en_manifest_bytes en m')) (\<lambda>mb.
     sbind (register_assets en m' [(Schema, en_string_bytes en schema), (Manifest, mb), (Wasm, bs)]) (\<lambda>_.
     remember (uid m') i)))))))"

definition start_block_or_1 :: "environment \<Rightarrow> manifest \<Rightarrow> (64 word, indexer_error) result" where
  "start_block_or_1 en m = (case get_start_block en m of Inl (Err _) \<Rightarrow> Inr 1 | r \<Rightarrow> r)"

definition register_one_from_registry :: "environment \<Rightarrow> registered_index \<Rightarrow> unit serv" where
  "register_one_from_registry en index =
     sbind (squery (latest_assets_for_index (ri_id index))) (\<lambda>assets.
     sbind (slift (en_manifest_of en (as_bytes (ab_manifest assets)))) (\<lambda>m.
     sbind (slift (start_block_or_1 en m)) (\<lambda>start.
     let m' = m\<lparr>mf_start_block := Some start\<rparr> in
     sbind (wasm_create en m' (FromRegistry (as_bytes (ab_wasm assets)))) (\<lambda>(i, _).
     remember (uid m') i))))"

fun register_each :: "environment \<Rightarrow> registered_index list \<Rightarrow> unit serv" where
  "register_each en [] = sret ()"
| "register_each en (index # indices) = sbind (register_one_from_registry en index) (\<lambda>_. register_each en indices)"

definition register_indices_from_registry :: "environment \<Rightarrow> unit serv" where
  "register_indices_from_registry en = sbind (squery registered_indices) (register_each en)"

text \<open>A native executor loads the schema when it is created, which is the check of \<open>en_instantiate\<close> here.\<close>

definition register_native_index :: "environment \<Rightarrow> manifest \<Rightarrow> unit serv" where
  "register_native_index en m =
     sbind (squery (register_index (mf_namespace m) (mf_identifier m) None)) (\<lambda>_.
     sbind (slift (en_read_schema en (mf_graphql_schema m))) (\<lambda>schema.
     sbind (squery (new_schema (en_parse en) (en_sha en) (en_ddl en) (mf_namespace m) (mf_identifier m) schema)) (\<lambda>_.
     sbind (slift (start_block_or_1 en m)) (\<lambda>start.
     let m' = m\<lparr>mf_start_block := Some start\<rparr> in
     sbind (slift (en_instantiate en m' [])) (\<lambda>_.
     sbind (spawn m' []) (\<lambda>i.
     remember (uid m') i))))))"

section \<open>Requests\<close>

datatype service_request =
    AssetReload string string
  | IndexStop string string
  | IndexRevert int bytes string string

definition request_uid :: "string \<Rightarrow> string \<Rightarrow> string" where
  "request_uid ns ident = ns @ ''.'' @ ident"

text \<open>Setting a kill switch, and the switch of an indexer when there is one.\<close>

definition kill_switch :: "nat option \<Rightarrow> service \<Rightarrow> service" where
  "kill_switch k st = (case k of None \<Rightarrow> st | Some i \<Rightarrow> st\<lparr>ss_killed := insert i (ss_killed st)\<rparr>)"

definition kill_indexer :: "string \<Rightarrow> unit serv" where
  "kill_indexer u st = (Inr (), kill_switch (ss_killers st u) st)"

definition insert_killer :: "string \<Rightarrow> nat \<Rightarrow> unit serv" where
  "insert_killer u i st = (Inr (), st\<lparr>ss_killers := (ss_killers st)(u \<mapsto> i)\<rparr>)"

text \<open>A reload looks the indexer up first; when that fails it is logged and the loop goes on.\<close>

definition reload_indexer :: "environment \<Rightarrow> int \<Rightarrow> unit serv" where
  "reload_indexer en index_id =
     sbind (squery (latest_assets_for_index index_id)) (\<lambda>assets.
     sbind (slift (en_manifest_of en (as_bytes (ab_manifest assets)))) (\<lambda>m.
     sbind (slift (get_start_block en m)) (\<lambda>start.
     let m' = m\<lparr>mf_start_block := Some start\<rparr> in
     sbind (wasm_create en m' (FromRegistry (as_bytes (ab_wasm assets)))) (\<lambda>(i, _).
     sbind (kill_indexer (uid m')) (\<lambda>_.
     insert_killer (uid m') i)))))"

definition asset_reload :: "environment \<Rightarrow> string \<Rightarrow> string \<Rightarrow> unit serv" where
  "asset_reload en ns ident st =
     (case squery (index_id_for ns ident) st of
        (Inr index_id, st1) \<Rightarrow> reload_indexer en index_id st1
      | (Inl (Err _), st1) \<Rightarrow> (Inr (), st1)
      | (Inl (Panic p), st1) \<Rightarrow> (Inl (Panic p), st1))"

definition index_stop :: "string \<Rightarrow> string \<Rightarrow> unit serv" where
  "index_stop ns ident st =
     (let u = request_uid ns ident
      in (Inr (), kill_switch (ss_killers st u) (st\<lparr>ss_killers := (ss_killers st)(u := None)\<rparr>)))"

text \<open>Removing the latest module, in the transaction that was begun.\<close>

definition remove_latest_module :: "asset_bundle \<Rightarrow> unit serv" where
  "remove_latest_module assets st =
     (case squery (remove_asset_by_version (as_id (ab_manifest assets)) (as_version (ab_wasm assets)) Wasm) st of
        (Inl (Err _), st1) \<Rightarrow> squery revert_transaction st1
      | (Inl (Panic p), st1) \<Rightarrow> (Inl (Panic p), st1)
      | (Inr _, st1) \<Rightarrow> squery commit_transaction st1)"

definition index_revert :: "environment \<Rightarrow> int \<Rightarrow> bytes \<Rightarrow> string \<Rightarrow> string \<Rightarrow> unit serv" where
  "index_revert en penultimate_id penultimate_bytes ns ident =
     sbind (kill_indexer (request_uid ns ident)) (\<lambda>_.
     sbind (squery start_transaction) (\<lambda>_.
     sbind (squery (latest_assets_for_index penultimate_id)) (\<lambda>assets.
     sbind (remove_latest_module assets) (\<lambda>_.
     sbind (slift (en_manifest_of en (as_bytes (ab_manifest assets)))) (\<lambda>m.
     sbind (slift (get_start_block en m)) (\<lambda>start.
     let m' = m\<lparr>mf_start_block := Some start\<rparr> in
     sbind (wasm_create en m' (FromRegistry penultimate_bytes)) (\<lambda>(i, _).
     insert_killer (uid m') i)))))))"

fun handle_request :: "environment \<Rightarrow> service_request \<Rightarrow> unit serv" where
  "handle_request en (AssetReload ns ident) = asset_reload en ns ident"
| "handle_request en (IndexStop ns ident) = index_stop ns ident"
| "handle_request en (IndexRevert i bs ns ident) = index_revert en i bs ns ident"

text \<open>The loop of the service task over the requests it receives: the first error ends the task.\<close>

fun create_service_task :: "environment \<Rightarrow> service_request list \<Rightarrow> unit serv" where
  "create_service_task en [] = sret ()"
| "create_service_task en (r # rs) = sbind (handle_request en r) (\<lambda>_. create_service_task en rs)"

text \<open>An executor that was spawned and whose kill switch is not set.\<close>

definition live_executors :: "service \<Rightarrow> spawned list" where
  "live_executors st = filter (\<lambda>e. sp_switch e \<notin> ss_killed st) (ss_spawned st)"

definition service_new :: "database \<Rightarrow> service" where
  "service_new d = \<lparr>ss_db = d, ss_spawned = [], ss_killed = {}, ss_killers = Map.empty, ss_handles = Map.empty\<rparr>"

text \<open>\<^verbatim>\<open>commands/run.rs\<close>: the indexers are registered before the service task runs.\<close>

definition service_startup :: "environment \<Rightarrow> manifest option \<Rightarrow> unit serv" where
  "service_startup en m =
     (case m of Some m' \<Rightarrow> register_index_from_manifest en m' | None \<Rightarrow> register_indices_from_registry en)"

definition service_run :: "environment \<Rightarrow> manifest option \<Rightarrow> service_request list \<Rightarrow> unit serv" where
  "service_run en m rs = sbind (service_startup en m) (\<lambda>_. create_service_task en rs)"

end
