(* ===== verification/Service_Laws.thy ===== *)
theory Service_Laws
  imports Service
begin

text \<open>
  Correctness of the service: which executors are live, and what the service knows of them. The
  interface \<open>effects\<close> is that of a predicate on a state which operations keep; \<open>blind\<close> adds that the
  predicate does not depend on the database, which makes every query keep it.
\<close>

section \<open>Predicates that operations keep\<close>

lemma sret_simp [simp]: "sret x st = (Inr x, st)" by (simp add: sret_def)

lemma slift_simp [simp]: "slift r st = (r, st)" by (simp add: slift_def)

lemma sbind_Inr: "sbind m f st = (Inr y, st') \<longleftrightarrow> (\<exists>x st1. m st = (Inr x, st1) \<and> f x st1 = (Inr y, st'))"
  by (auto simp: sbind_def split: prod.splits sum.splits)

lemma sbind_cases:
  assumes "sbind m f st = (r, st')"
  obtains (stop) e where "m st = (Inl e, st')" "r = Inl e"
  | (go) x st1 where "m st = (Inr x, st1)" "f x st1 = (r, st')"
  using assms by (auto simp: sbind_def split: prod.splits sum.splits)

named_theorems serv_keeps \<open>operations that keep a predicate on the state\<close>

locale effects =
  fixes holds :: "'s \<Rightarrow> bool"
begin

definition kept :: "('a, 's, 'e) op \<Rightarrow> bool" where
  "kept m \<longleftrightarrow> (\<forall>st. holds st \<longrightarrow> holds (snd (m st)))"

lemma keptI: "(\<And>st. holds st \<Longrightarrow> holds (snd (m st))) \<Longrightarrow> kept m"
  by (simp add: kept_def)

lemma keptD: "kept m \<Longrightarrow> holds st \<Longrightarrow> m st = (r, st') \<Longrightarrow> holds st'"
  unfolding kept_def by (metis snd_conv)

lemma kept_sret [serv_keeps]: "kept (sret x)"
  by (simp add: kept_def)

lemma kept_slift [serv_keeps]: "kept (slift r)"
  by (simp add: kept_def)

lemma kept_sbind [serv_keeps]:
  assumes "kept m" "\<And>x. kept (f x)" shows "kept (sbind m f)"
proof (rule keptI)
  fix st assume "holds st"
  obtain r st' where run: "sbind m f st = (r, st')" by (cases "sbind m f st")
  then have "holds st'"
    by (cases rule: sbind_cases) (use assms \<open>holds st\<close> in \<open>auto dest: keptD\<close>)
  with run show "holds (snd (sbind m f st))" by simp
qed

end

locale blind = effects holds for holds :: "service \<Rightarrow> bool" +
  assumes other_database: "holds (st\<lparr>ss_db := d\<rparr>) = holds st"
begin

lemma kept_squery [serv_keeps]: "kept (squery q)"
  by (simp add: kept_def squery_def other_database split: prod.splits)

lemma kept_assets [serv_keeps]: "kept (register_assets en m items)"
proof (induction items)
  case (Cons item items)
  then show ?case by (cases item) (auto intro!: serv_keeps)
qed (simp add: kept_def)

lemma kept_task:
  assumes "\<And>q. q \<in> set rs \<Longrightarrow> kept (handle_request en q)"
  shows "kept (create_service_task en rs)"
  using assms by (induction rs) (auto intro!: serv_keeps)

end

section \<open>Executors and kill switches\<close>

text \<open>
  The switches number the spawned executors, and the service's table of switches names executors of
  the indexer they stand for.
\<close>

definition service_ok :: "service \<Rightarrow> bool" where
  "service_ok st \<longleftrightarrow> map sp_switch (ss_spawned st) = [0..<length (ss_spawned st)]
     \<and> ss_killed st \<subseteq> {..<length (ss_spawned st)}
     \<and> (\<forall>u i. ss_killers st u = Some i \<longrightarrow>
          i < length (ss_spawned st) \<and> uid (sp_manifest (ss_spawned st ! i)) = u)"

text \<open>Every live executor is the one that the table has for its indexer.\<close>

definition governed :: "service \<Rightarrow> bool" where
  "governed st \<longleftrightarrow> (\<forall>e \<in> set (live_executors st). ss_killers st (uid (sp_manifest e)) = Some (sp_switch e))"

interpretation ok: blind service_ok
  by unfold_locales (simp add: service_ok_def)

interpretation gov: blind governed
  by unfold_locales (simp add: governed_def live_executors_def)

lemma switch_nth:
  assumes "service_ok st" "i < length (ss_spawned st)"
  shows "sp_switch (ss_spawned st ! i) = i"
proof -
  from assms have "map sp_switch (ss_spawned st) ! i = [0..<length (ss_spawned st)] ! i"
    by (simp add: service_ok_def)
  with assms(2) show ?thesis by simp
qed

lemma switch_bound:
  assumes "service_ok st" "e \<in> set (ss_spawned st)"
  shows "sp_switch e < length (ss_spawned st)"
  using assms switch_nth [OF assms(1)] by (auto simp: in_set_conv_nth)

lemma distinct_switches: "service_ok st \<Longrightarrow> distinct (map sp_switch (ss_spawned st))"
  by (simp add: service_ok_def)

lemma live_uids_distinct:
  assumes "service_ok st" "governed st"
  shows "distinct (map (\<lambda>e. uid (sp_manifest e)) (live_executors st))"
proof -
  have "distinct (map sp_switch (live_executors st))"
    unfolding live_executors_def using distinct_switches [OF assms(1)] by (rule distinct_map_filter)
  moreover have "inj_on (\<lambda>e. uid (sp_manifest e)) (set (live_executors st))"
  proof (rule inj_onI)
    fix e f assume e: "e \<in> set (live_executors st)" and f: "f \<in> set (live_executors st)"
      and same: "uid (sp_manifest e) = uid (sp_manifest f)"
    from assms(2) e f have "ss_killers st (uid (sp_manifest e)) = Some (sp_switch e)"
      "ss_killers st (uid (sp_manifest f)) = Some (sp_switch f)" by (auto simp: governed_def)
    with same have "sp_switch e = sp_switch f" by simp
    with e f distinct_switches [OF assms(1)] show "e = f"
      by (auto simp: live_executors_def distinct_map dest: inj_onD)
  qed
  ultimately show ?thesis by (simp add: distinct_map)
qed

section \<open>What the operations do\<close>

text \<open>The executor that takes the place of the one that the table has for its indexer.\<close>

definition replaced :: "manifest \<Rightarrow> bytes \<Rightarrow> service \<Rightarrow> service" where
  "replaced m bs st =
     (let i = length (ss_spawned st)
      in (kill_switch (ss_killers st (uid m)) st)\<lparr>
           ss_spawned := ss_spawned st @ [\<lparr>sp_switch = i, sp_manifest = m, sp_module = bs\<rparr>],
           ss_killers := (ss_killers st)(uid m \<mapsto> i)\<rparr>)"

lemma kill_switch_frame [simp]:
  "ss_spawned (kill_switch k st) = ss_spawned st" "ss_killers (kill_switch k st) = ss_killers st"
  "ss_db (kill_switch k st) = ss_db st" "ss_handles (kill_switch k st) = ss_handles st"
  "ss_killed (kill_switch k st) = ss_killed st \<union> set_option k"
  by (auto simp: kill_switch_def split: option.splits)

lemma replaced_frame:
  "ss_killers (replaced m bs st) = (ss_killers st)(uid m \<mapsto> length (ss_spawned st))"
  "ss_db (replaced m bs st) = ss_db st"
  by (simp_all add: replaced_def Let_def)

lemma replaced_ok: "service_ok st \<Longrightarrow> service_ok (replaced m bs st)"
  by (auto simp: service_ok_def replaced_def Let_def nth_append split: if_splits; fastforce)

lemma replaced_live:
  assumes "service_ok st"
  shows "live_executors (replaced m bs st)
    = filter (\<lambda>e. ss_killers st (uid m) \<noteq> Some (sp_switch e)) (live_executors st)
      @ [\<lparr>sp_switch = length (ss_spawned st), sp_manifest = m, sp_module = bs\<rparr>]"
proof -
  have "length (ss_spawned st) \<notin> ss_killed st \<union> set_option (ss_killers st (uid m))"
    using assms by (auto simp: service_ok_def)
  then show ?thesis
    by (auto simp: live_executors_def replaced_def Let_def intro!: filter_cong)
qed

lemma wasm_create_registry:
  "wasm_create en m (FromRegistry bs) st =
     (case en_instantiate en m bs of
        Inl e \<Rightarrow> (Inl e, st)
      | Inr _ \<Rightarrow> (Inr (length (ss_spawned st), bs), st\<lparr>ss_spawned := ss_spawned st
          @ [\<lparr>sp_switch = length (ss_spawned st), sp_manifest = m, sp_module = bs\<rparr>]\<rparr>))"
  by (simp add: wasm_create_def sbind_def spawn_def split: sum.splits)

lemma spawned_then_replaced:
  "insert_killer (uid m) (length (ss_spawned st)) (kill_switch (ss_killers st (uid m))
     (st\<lparr>ss_spawned := ss_spawned st @ [\<lparr>sp_switch = length (ss_spawned st), sp_manifest = m, sp_module = bs\<rparr>]\<rparr>))
   = (Inr (), replaced m bs st)"
  by (cases "ss_killers st (uid m)") (simp_all add: insert_killer_def replaced_def kill_switch_def Let_def)

text \<open>Reads of the registry leave the service as it is.\<close>

lemma latest_assets_reads: "snd (latest_assets_for_index i d) = d"
  by (simp add: latest_assets_for_index_def latest_asset_for_index_def dbind_def select_one_simp
      split: prod.splits sum.splits list.splits)

lemma index_id_reads: "snd (index_id_for ns ident d) = d"
  by (simp add: index_id_for_def select_one_simp split: list.splits)

lemma squery_read:
  assumes "snd (q (ss_db st)) = ss_db st"
  shows "squery q st = (lift_sql (fst (q (ss_db st))), st)"
  using assms by (cases "q (ss_db st)") (simp add: squery_def)

lemma uid_start_block [simp]: "uid (m\<lparr>mf_start_block := b\<rparr>) = uid m"
  by (simp add: uid_def)

lemma kill_indexer_eq: "kill_indexer u st = (Inr (), kill_switch (ss_killers st u) st)"
  by (simp add: kill_indexer_def)

lemma reload_cases:
  assumes "reload_indexer en index_id st = (r, st')"
  obtains (failed) e where "r = Inl e" "st' = st"
  | (reloaded) assets m start where
      "latest_assets_for_index index_id (ss_db st) = (Inr assets, ss_db st)"
      "en_manifest_of en (as_bytes (ab_manifest assets)) = Inr m" "get_start_block en m = Inr start"
      "r = Inr ()" "st' = replaced (m\<lparr>mf_start_block := Some start\<rparr>) (as_bytes (ab_wasm assets)) st"
proof -
  obtain ra where q: "latest_assets_for_index index_id (ss_db st) = (ra, ss_db st)"
    using latest_assets_reads [of index_id "ss_db st"] by (cases "latest_assets_for_index index_id (ss_db st)") simp
  have run: "squery (latest_assets_for_index index_id) st = (lift_sql ra, st)"
    by (simp add: squery_read q)
  show ?thesis
  proof (cases ra)
    case (Inl e)
    with assms run failed show ?thesis by (auto simp: reload_indexer_def sbind_def lift_sql_def split: fault.splits)
  next
    case (Inr assets)
    let ?bs = "as_bytes (ab_wasm assets)"
    have "reload_indexer en index_id st =
       (case en_manifest_of en (as_bytes (ab_manifest assets)) of Inl e \<Rightarrow> (Inl e, st) | Inr m \<Rightarrow>
        case get_start_block en m of Inl e \<Rightarrow> (Inl e, st) | Inr start \<Rightarrow>
        case en_instantiate en (m\<lparr>mf_start_block := Some start\<rparr>) ?bs of Inl e \<Rightarrow> (Inl e, st)
        | Inr _ \<Rightarrow> (Inr (), replaced (m\<lparr>mf_start_block := Some start\<rparr>) ?bs st))"
      using run Inr
      by (auto simp: reload_indexer_def sbind_def lift_sql_def Let_def wasm_create_registry kill_indexer_eq
          spawned_then_replaced [where m = "m\<lparr>mf_start_block := b\<rparr>" for m b, simplified]
          split: sum.splits)
    with assms q Inr failed reloaded show ?thesis by (auto split: sum.splits; metis)
  qed
qed

lemma replaced_governed:
  assumes "service_ok st" "governed st"
  shows "governed (replaced m bs st)"
  unfolding governed_def replaced_live [OF assms(1)]
  using assms(2) by (auto simp: governed_def replaced_def Let_def)

lemma asset_reload_cases:
  assumes "asset_reload en ns ident st = (r, st')"
  obtains (same) "st' = st"
  | (reloaded) index_id assets m start where
      "index_id_for ns ident (ss_db st) = (Inr index_id, ss_db st)"
      "latest_assets_for_index index_id (ss_db st) = (Inr assets, ss_db st)"
      "en_manifest_of en (as_bytes (ab_manifest assets)) = Inr m" "get_start_block en m = Inr start"
      "r = Inr ()" "st' = replaced (m\<lparr>mf_start_block := Some start\<rparr>) (as_bytes (ab_wasm assets)) st"
proof -
  obtain ri where q: "index_id_for ns ident (ss_db st) = (ri, ss_db st)"
    using index_id_reads [of ns ident "ss_db st"] by (cases "index_id_for ns ident (ss_db st)") simp
  have run: "squery (index_id_for ns ident) st = (lift_sql ri, st)"
    by (simp add: squery_read q)
  show ?thesis
  proof (cases ri)
    case (Inl e)
    with assms run same show ?thesis by (auto simp: asset_reload_def lift_sql_def split: fault.splits)
  next
    case (Inr index_id)
    with assms run have "reload_indexer en index_id st = (r, st')" by (simp add: asset_reload_def lift_sql_def)
    then show ?thesis
      by (cases rule: reload_cases) (use same reloaded Inr q in auto)
  qed
qed

lemma stop_ok: "service_ok st \<Longrightarrow> service_ok (snd (index_stop ns ident st))"
  by (auto simp: service_ok_def index_stop_def Let_def split: if_splits; blast)

lemma stop_live:
  "live_executors (snd (index_stop ns ident st))
    = filter (\<lambda>e. ss_killers st (request_uid ns ident) \<noteq> Some (sp_switch e)) (live_executors st)"
  by (auto simp: live_executors_def index_stop_def Let_def intro!: filter_cong)

lemma stop_governed: "governed st \<Longrightarrow> governed (snd (index_stop ns ident st))"
  unfolding governed_def stop_live by (auto simp: index_stop_def Let_def)

lemma request_keeps:
  assumes "\<And>i bs ns ident. q \<noteq> IndexRevert i bs ns ident"
    and "service_ok st" "governed st" "handle_request en q st = (r, st')"
  shows "service_ok st' \<and> governed st'"
proof (cases q)
  case (AssetReload ns ident)
  with assms(4) have "asset_reload en ns ident st = (r, st')" by simp
  then show ?thesis
    by (cases rule: asset_reload_cases) (use assms in \<open>auto intro: replaced_ok replaced_governed\<close>)
next
  case (IndexStop ns ident)
  with assms(4) have "st' = snd (index_stop ns ident st)" by (metis handle_request.simps(2) snd_conv)
  with assms show ?thesis by (simp add: stop_ok stop_governed)
qed (use assms in blast)

section \<open>The start of the service\<close>

text \<open>Only the database differs.\<close>

definition same_but_db :: "service \<Rightarrow> service \<Rightarrow> bool" where
  "same_but_db st st' \<longleftrightarrow> (\<exists>d. st' = st\<lparr>ss_db := d\<rparr>)"

lemma squery_same: "squery q st = (r, st') \<Longrightarrow> same_but_db st st'"
  by (auto simp: squery_def same_but_db_def split: prod.splits)

lemma same_but_db_trans: "same_but_db a b \<Longrightarrow> same_but_db b c \<Longrightarrow> same_but_db a c"
  by (auto simp: same_but_db_def)

lemma same_but_db_refl: "same_but_db st st"
  unfolding same_but_db_def by (rule exI [of _ "ss_db st"]) simp

lemma register_assets_same: "register_assets en m items st = (r, st') \<Longrightarrow> same_but_db st st'"
proof (induction items arbitrary: st)
  case (Cons item items)
  obtain ty bs where item: "item = (ty, bs)" by (cases item)
  from Cons.prems show ?case unfolding item register_assets.simps
    by (cases rule: sbind_cases) (auto dest: squery_same Cons.IH intro: same_but_db_trans)
qed (simp add: same_but_db_refl)

lemma wasm_create_manifest:
  assumes "wasm_create en m FromManifest st = (Inr (i, bs), st')"
  shows "i = length (ss_spawned st) \<and> st' = st\<lparr>ss_spawned := ss_spawned st
    @ [\<lparr>sp_switch = length (ss_spawned st), sp_manifest = m, sp_module = bs\<rparr>]\<rparr>"
  using assms by (auto simp: wasm_create_def sbind_Inr spawn_def split: module.splits)

lemma registered_state:
  assumes "register_index_from_manifest en m st = (Inr (), st')"
  shows "\<exists>m' bs d. uid m' = uid m \<and> st' = st\<lparr>ss_db := d,
    ss_spawned := ss_spawned st @ [\<lparr>sp_switch = length (ss_spawned st), sp_manifest = m', sp_module = bs\<rparr>],
    ss_killers := (ss_killers st)(uid m \<mapsto> length (ss_spawned st)),
    ss_handles := (ss_handles st)(uid m \<mapsto> length (ss_spawned st))\<rparr>"
proof -
  from assms obtain start i bs st1 st2 st3 where
    same1: "same_but_db st st1"
    and c: "wasm_create en (m\<lparr>mf_start_block := Some start\<rparr>) FromManifest st1 = (Inr (i, bs), st2)"
    and same2: "same_but_db st2 st3"
    and st': "remember (uid m) i st3 = (Inr (), st')"
    unfolding register_index_from_manifest_def Let_def
    by (auto simp: sbind_Inr simp del: register_assets.simps dest!: squery_same register_assets_same)
       (meson same_but_db_trans)
  from wasm_create_manifest [OF c] same1 same2 st' show ?thesis
    by (intro exI [of _ "m\<lparr>mf_start_block := Some start\<rparr>"] exI [of _ bs] exI [of _ "ss_db st3"])
       (auto simp: same_but_db_def remember_def)
qed

lemma started_service:
  assumes "service_startup en (Some m) (service_new d) = (Inr (), st)"
  shows "service_ok st \<and> governed st"
proof -
  from assms have "register_index_from_manifest en m (service_new d) = (Inr (), st)"
    by (simp add: service_startup_def)
  from registered_state [OF this] show ?thesis
    by (auto simp: service_new_def service_ok_def governed_def live_executors_def split: if_splits)
qed

lemma task_keeps:
  assumes "create_service_task en rs st = (r, st')" "service_ok st" "governed st"
    and "\<forall>q \<in> set rs. \<forall>i bs ns ident. q \<noteq> IndexRevert i bs ns ident"
  shows "service_ok st' \<and> governed st'"
  using assms
proof (induction rs arbitrary: st)
  case (Cons q rs)
  from Cons.prems(1) have "sbind (handle_request en q) (\<lambda>_. create_service_task en rs) st = (r, st')" by simp
  then show ?case
  proof (cases rule: sbind_cases)
    case (stop e)
    with request_keeps [of q st en "Inl e" st'] Cons.prems show ?thesis by simp
  next
    case (go x st1)
    with request_keeps [of q st en "Inr x" st1] Cons.prems have "service_ok st1" "governed st1" by simp_all
    with Cons.IH [OF go(2)] Cons.prems(4) show ?thesis by simp
  qed
qed simp

lemma killer_iff:
  assumes "service_ok st" "governed st" "e \<in> set (live_executors st)"
  shows "ss_killers st u = Some (sp_switch e) \<longleftrightarrow> uid (sp_manifest e) = u"
proof
  assume k: "ss_killers st u = Some (sp_switch e)"
  from assms(3) obtain i where i: "i < length (ss_spawned st)" "e = ss_spawned st ! i"
    by (auto simp: live_executors_def in_set_conv_nth)
  with switch_nth [OF assms(1)] have "sp_switch e = i" by simp
  with k i assms(1) show "uid (sp_manifest e) = u" by (auto simp: service_ok_def)
qed (use assms in \<open>auto simp: governed_def\<close>)

lemma live_without_killed:
  assumes "service_ok st" "governed st"
  shows "filter (\<lambda>e. ss_killers st u \<noteq> Some (sp_switch e)) (live_executors st)
    = filter (\<lambda>e. uid (sp_manifest e) \<noteq> u) (live_executors st)"
  by (rule filter_cong) (use killer_iff [OF assms] in auto)

lemma latest_assets_missing:
  assumes "\<not> db_aborted d" and "\<forall>a \<in> set (tb_assets (db_tables d) ty). as_index_id a \<noteq> index_id"
  shows "latest_assets_for_index index_id d = (Inl (Err RowNotFound), d)"
proof -
  from assms(2) have "assets_of (db_tables d) ty index_id = []"
    by (simp add: assets_of_def by_id_desc_def filter_empty_conv)
  with assms(1) show ?thesis
    by (cases ty) (auto simp: latest_assets_for_index_def latest_asset_for_index_def dbind_def select_one_simp
        split: list.splits)
qed

lemma reload_of_registered:
  assumes "index_id_for ns ident (ss_db st) = (Inr index_id, ss_db st)"
    and "handle_request en (AssetReload ns ident) st = (Inr (), st')"
  shows "\<exists>assets m start. latest_assets_for_index index_id (ss_db st) = (Inr assets, ss_db st)
    \<and> en_manifest_of en (as_bytes (ab_manifest assets)) = Inr m \<and> get_start_block en m = Inr start
    \<and> st' = replaced (m\<lparr>mf_start_block := Some start\<rparr>) (as_bytes (ab_wasm assets)) st"
proof -
  from assms have "reload_indexer en index_id st = (Inr (), st')"
    by (simp add: asset_reload_def squery_def lift_sql_def)
  then show ?thesis by (cases rule: reload_cases) auto
qed

section \<open>A service to run the properties on\<close>

definition asset_row :: "int \<Rightarrow> nat \<Rightarrow> index_asset" where
  "asset_row i v = \<lparr>as_id = i, as_index_id = 1, as_version = int v, as_digest = show_nat v, as_bytes = [of_nat v]\<rparr>"

definition served_database :: database where
  "served_database = empty_database\<lparr>db_tables := empty_tables\<lparr>
     tb_indexes := [\<lparr>ri_id = 1, ri_namespace = ''ns'', ri_identifier = ''idx'', ri_pubkey = None\<rparr>],
     tb_assets := (\<lambda>ty. if ty = Wasm then [asset_row 3 1, asset_row 4 2] else [asset_row 1 1])\<rparr>,
     db_seq := (\<lambda>_. 5)\<rparr>"

definition served_manifest :: manifest where
  "served_manifest = demo_manifest\<lparr>mf_namespace := ''ns'', mf_identifier := ''idx'', mf_start_block := Some 1, mf_resumable := None\<rparr>"

definition demo_environment :: environment where
  "demo_environment = \<lparr>en_read_module = (\<lambda>_. Inr [7]), en_read_schema = (\<lambda>_. Inr ''s''),
     en_instantiate = (\<lambda>_ _. Inr ()), en_manifest_bytes = (\<lambda>_. Inr [8]), en_manifest_of = (\<lambda>_. Inr served_manifest),
     en_max_height = (\<lambda>_. Inr (Some 12)), en_string_bytes = (\<lambda>_. [9]), en_digest = (\<lambda>_. ''d''),
     en_parse = (\<lambda>_. Some []), en_sha = (\<lambda>_. []), en_ddl = (\<lambda>_ _. None)\<rparr>"

definition demo_service :: service where
  "demo_service = \<lparr>ss_db = served_database,
     ss_spawned = [\<lparr>sp_switch = 0, sp_manifest = served_manifest, sp_module = [1]\<rparr>],
     ss_killed = {}, ss_killers = [''ns.idx'' \<mapsto> 0], ss_handles = [''ns.idx'' \<mapsto> 0]\<rparr>"

lemma served_uid: "uid served_manifest = ''ns.idx''"
  by (simp add: served_manifest_def uid_def)

lemma demo_service_ok: "service_ok demo_service" "governed demo_service"
  by (auto simp: service_ok_def governed_def demo_service_def served_uid live_executors_def split: if_splits)

lemma demo_service_db: "ss_db demo_service = served_database"
  by (simp add: demo_service_def)

lemma demo_live: "live_executors demo_service = [\<lparr>sp_switch = 0, sp_manifest = served_manifest, sp_module = [1]\<rparr>]"
  by (simp add: live_executors_def demo_service_def)

lemma served_reads:
  "index_id_for ''ns'' ''idx'' served_database = (Inr 1, served_database)"
  "latest_assets_for_index 1 served_database
    = (Inr \<lparr>ab_schema = asset_row 1 1, ab_manifest = asset_row 1 1, ab_wasm = asset_row 4 2\<rparr>, served_database)"
  by (simp_all add: served_database_def empty_database_def empty_tables_def index_id_for_def select_one_simp
      latest_assets_for_index_def latest_asset_for_index_def dbind_def assets_of_def by_id_desc_def asset_row_def)

lemma served_ok: "db_ok served_database"
  by (simp add: db_ok_def served_database_def empty_database_def empty_tables_def tables_ok_def assets_ok_def asset_row_def)

text \<open>The same database with the schema of the indexer registered.\<close>

definition schema_database :: database where
  "schema_database = served_database\<lparr>db_tables := (db_tables served_database)\<lparr>tb_type_ids :=
     [\<lparr>ti_id = 5, ti_schema_version = [], ti_schema_name = ''ns'', ti_schema_identifier = ''idx'',
       ti_graphql_name = ''T'', ti_table_name = ''t''\<rparr>]\<rparr>\<rparr>"

section \<open>Properties\<close>

text \<open>
  C6: a service that was started with a manifest, whatever reloads and stops it then handled and
  however its task ended, has at most one live executor for each indexer, and it holds the kill
  switch of every live executor under the indexer's name.
\<close>

theorem service_governs_executors:
  assumes "service_startup en (Some m) (service_new d) = (Inr (), st0)"
    and "create_service_task en rs st0 = (r, st)"
    and "\<forall>q \<in> set rs. \<forall>i bs ns ident. q \<noteq> IndexRevert i bs ns ident"
  shows "distinct (map (\<lambda>e. uid (sp_manifest e)) (live_executors st))
    \<and> (\<forall>e \<in> set (live_executors st). ss_killers st (uid (sp_manifest e)) = Some (sp_switch e))"
proof -
  from started_service [OF assms(1)] have "service_ok st \<and> governed st"
    using task_keeps [OF assms(2) _ _ assms(3)] by blast
  then show ?thesis by (simp add: live_uids_distinct governed_def)
qed

lemma demo_startup:
  "\<exists>st. service_startup demo_environment (Some served_manifest) (service_new schema_database) = (Inr (), st)
    \<and> index_id_for ''ns'' ''idx'' (ss_db st) = (Inr 1, ss_db st)"
  by (simp add: service_startup_def register_index_from_manifest_def service_new_def schema_database_def
      sbind_def squery_def lift_sql_def register_index_cases new_schema_def schema_exists_def schema_version_def
      hex_encode_def dbind_def select_simp demo_environment_def served_manifest_def demo_manifest_def
      get_start_block_def wasm_create_def spawn_def register_index_asset_def index_is_registered_def store_asset_def
      asset_already_exists_def index_asset_version_def insert_asset_def statement_def select_one_simp
      served_database_def empty_database_def empty_tables_def find_index_def asset_row_def Let_def fits_def
      remember_def index_id_for_def)

lemma service_governs_executors_witness:
  "\<exists>st0 r st. service_startup demo_environment (Some served_manifest) (service_new schema_database) = (Inr (), st0)
    \<and> create_service_task demo_environment [AssetReload ''ns'' ''idx'', IndexStop ''ns'' ''other''] st0 = (r, st)
    \<and> distinct (map (\<lambda>e. uid (sp_manifest e)) (live_executors st))"
proof -
  obtain st0 where st0: "service_startup demo_environment (Some served_manifest) (service_new schema_database) = (Inr (), st0)"
    using demo_startup by blast
  obtain r st where st: "create_service_task demo_environment [AssetReload ''ns'' ''idx'', IndexStop ''ns'' ''other''] st0 = (r, st)"
    by (cases "create_service_task demo_environment [AssetReload ''ns'' ''idx'', IndexStop ''ns'' ''other''] st0")
  from service_governs_executors [OF st0 st] st0 st show ?thesis by auto
qed

text \<open>
  Stopping an indexer kills its executors and no other, and forgets its kill switch; it never
  fails and leaves the database alone.
\<close>

theorem stopped_indexer_has_no_executor:
  assumes "service_ok st" "governed st"
  shows "\<exists>st'. handle_request en (IndexStop ns ident) st = (Inr (), st')
    \<and> live_executors st' = filter (\<lambda>e. uid (sp_manifest e) \<noteq> request_uid ns ident) (live_executors st)
    \<and> ss_killers st' (request_uid ns ident) = None \<and> ss_db st' = ss_db st"
  using stop_live [of ns ident st, unfolded live_without_killed [OF assms]]
  by (intro exI [of _ "snd (index_stop ns ident st)"]) (simp add: index_stop_def Let_def)

lemma stopped_indexer_has_no_executor_witness:
  "\<exists>st'. handle_request demo_environment (IndexStop ''ns'' ''idx'') demo_service = (Inr (), st')
    \<and> live_executors st' = []"
  using stopped_indexer_has_no_executor [OF demo_service_ok, of demo_environment "''ns''" "''idx''"]
  by (auto simp: request_uid_def demo_service_def live_executors_def served_uid)

text \<open>
  Reloading a registered indexer starts an executor on its latest module and manifest and kills
  the executor that ran under the manifest's name; all others go on. The name is the one of the
  manifest that was uploaded, not the one of the request: with a manifest that names another
  indexer, the reload replaces that indexer's executor and leaves the requested one running.
\<close>

theorem reload_replaces_executor:
  assumes "service_ok st" "governed st"
    and "index_id_for ns ident (ss_db st) = (Inr index_id, ss_db st)"
    and "handle_request en (AssetReload ns ident) st = (Inr (), st')"
  shows "\<exists>assets m start. latest_assets_for_index index_id (ss_db st) = (Inr assets, ss_db st)
    \<and> en_manifest_of en (as_bytes (ab_manifest assets)) = Inr m \<and> get_start_block en m = Inr start
    \<and> live_executors st' = filter (\<lambda>e. uid (sp_manifest e) \<noteq> uid m) (live_executors st)
        @ [\<lparr>sp_switch = length (ss_spawned st), sp_manifest = m\<lparr>mf_start_block := Some start\<rparr>,
            sp_module = as_bytes (ab_wasm assets)\<rparr>]
    \<and> ss_killers st' = (ss_killers st)(uid m \<mapsto> length (ss_spawned st)) \<and> ss_db st' = ss_db st"
  using reload_of_registered [OF assms(3,4)]
  by (auto simp: replaced_live [OF assms(1)] live_without_killed [OF assms(1,2)] replaced_frame)

lemma reload_replaces_executor_witness:
  "\<exists>st'. handle_request demo_environment (AssetReload ''ns'' ''idx'') demo_service = (Inr (), st')
    \<and> map sp_module (live_executors st') = [[2]]"
proof -
  have id: "index_id_for ''ns'' ''idx'' (ss_db demo_service) = (Inr 1, ss_db demo_service)"
    by (simp add: served_reads demo_service_db)
  have "\<exists>st'. handle_request demo_environment (AssetReload ''ns'' ''idx'') demo_service = (Inr (), st')"
    by (simp add: asset_reload_def squery_def lift_sql_def demo_service_db served_reads reload_indexer_def sbind_def
        wasm_create_def spawn_def kill_indexer_eq insert_killer_def Let_def demo_environment_def
        get_start_block_def served_manifest_def)
  then obtain st' where st': "handle_request demo_environment (AssetReload ''ns'' ''idx'') demo_service = (Inr (), st')" ..
  from reload_replaces_executor [OF demo_service_ok id st'] st' show ?thesis
    by (auto simp: demo_service_db served_reads demo_environment_def live_executors_def)
       (auto simp: demo_service_def asset_row_def)
qed

text \<open>
  A reload that cannot be carried out ends the service: when a registered indexer lacks one of
  its three assets, its reload returns an error out of the request loop, and no request that
  comes later is handled.
\<close>

theorem failing_reload_ends_service:
  assumes "index_id_for ns ident (ss_db st) = (Inr index_id, ss_db st)"
    and "\<forall>a \<in> set (tb_assets (db_tables (ss_db st)) ty). as_index_id a \<noteq> index_id"
  shows "create_service_task en (AssetReload ns ident # rs) st = (Inl (Err (SqlxError RowNotFound)), st)"
proof -
  from assms(1) have "\<not> db_aborted (ss_db st)" by (auto simp: index_id_for_def select_one_simp split: if_splits)
  with latest_assets_missing assms show ?thesis
    by (simp add: asset_reload_def reload_indexer_def squery_def lift_sql_def sbind_def)
qed

definition bare_service :: service where
  "bare_service = service_new (served_database\<lparr>db_tables := (db_tables served_database)\<lparr>tb_assets := (\<lambda>_. [])\<rparr>\<rparr>)"

lemma failing_reload_ends_service_witness:
  "create_service_task demo_environment [AssetReload ''ns'' ''idx'', IndexStop ''ns'' ''idx''] bare_service
    = (Inl (Err (SqlxError RowNotFound)), bare_service)"
proof (rule failing_reload_ends_service [where ty = Wasm])
  show "index_id_for ''ns'' ''idx'' (ss_db bare_service) = (Inr 1, ss_db bare_service)"
    by (simp add: bare_service_def service_new_def served_database_def empty_database_def empty_tables_def
        index_id_for_def select_one_simp)
qed (simp add: bare_service_def service_new_def)

text \<open>
  A revert takes the id of the earlier module for the id of an indexer. When no indexer has that
  id, the revert has killed the executor, left its transaction open, and its error ends the service.
\<close>

theorem revert_ends_service:
  assumes "service_ok st" "governed st" "db_ok (ss_db st)" "\<not> db_aborted (ss_db st)"
    and "penultimate_id \<notin> ri_id ` set (tb_indexes (db_tables (ss_db st)))"
  shows "\<exists>st'. create_service_task en (IndexRevert penultimate_id bs ns ident # rs) st = (Inl (Err (SqlxError RowNotFound)), st')
    \<and> live_executors st' = filter (\<lambda>e. uid (sp_manifest e) \<noteq> request_uid ns ident) (live_executors st)
    \<and> db_saved (ss_db st') \<noteq> None"
proof -
  let ?k = "kill_switch (ss_killers st (request_uid ns ident)) st"
  obtain d where d: "start_transaction (ss_db st) = (Inr (), d)" "db_saved d \<noteq> None" "\<not> db_aborted d"
      "db_tables d = db_tables (ss_db st)"
    using assms(4) by (auto simp: start_transaction_def)
  have "\<forall>a \<in> set (tb_assets (db_tables d) Wasm). as_index_id a \<noteq> penultimate_id"
    using assms(3,5) d(4) by (auto simp: db_ok_def tables_ok_def assets_ok_def)
  with d have missing: "latest_assets_for_index penultimate_id d = (Inl (Err RowNotFound), d)"
    by (intro latest_assets_missing [where ty = Wasm])
  have "live_executors (?k\<lparr>ss_db := d\<rparr>) = filter (\<lambda>e. uid (sp_manifest e) \<noteq> request_uid ns ident) (live_executors st)"
    unfolding live_without_killed [OF assms(1,2), symmetric]
    by (auto simp: live_executors_def intro!: filter_cong)
  with d missing show ?thesis
    by (intro exI [of _ "?k\<lparr>ss_db := d\<rparr>"])
       (simp add: index_revert_def sbind_def kill_indexer_eq squery_def lift_sql_def)
qed

lemma revert_ends_service_witness:
  "\<exists>st'. create_service_task demo_environment [IndexRevert 3 [1] ''ns'' ''idx''] demo_service
      = (Inl (Err (SqlxError RowNotFound)), st') \<and> live_executors st' = []"
proof -
  have "3 \<notin> ri_id ` set (tb_indexes (db_tables (ss_db demo_service)))" "\<not> db_aborted (ss_db demo_service)"
    by (simp_all add: demo_service_db served_database_def empty_database_def)
  from revert_ends_service [OF demo_service_ok _ this(2,1), of demo_environment "[1]" "''ns''" "''idx''" "[]"]
  show ?thesis by (auto simp: demo_service_db served_ok)
     (auto simp: demo_service_def live_executors_def request_uid_def served_uid)
qed

lemma remove_module_eq:
  assumes "\<not> db_aborted (ss_db st)"
  shows "remove_latest_module assets st = (Inr (), st\<lparr>ss_db := (ss_db st)\<lparr>db_tables := (db_tables (ss_db st))
     \<lparr>tb_assets := (tb_assets (db_tables (ss_db st)))(Wasm := filter (\<lambda>a. \<not> (as_index_id a = as_id (ab_manifest assets)
        \<and> as_version a = as_version (ab_wasm assets))) (tb_assets (db_tables (ss_db st)) Wasm))\<rparr>,
      db_saved := None\<rparr>\<rparr>)"
  using assms by (simp add: remove_latest_module_def squery_def lift_sql_def remove_asset_by_version_def update_simp
      commit_transaction_def)

lemma latest_assets_other_tables:
  assumes "db_tables d' = db_tables d" "\<not> db_aborted d" "\<not> db_aborted d'"
  shows "fst (latest_assets_for_index i d') = fst (latest_assets_for_index i d)"
  using assms by (simp add: latest_assets_for_index_def latest_asset_for_index_def dbind_def select_one_simp
      split: list.splits)

text \<open>
  A revert that succeeds kills the indexer's executor and runs the earlier module with the
  manifest of the indexer whose id is the id of the module; it removes a module of the
  indexer whose id is the one of that manifest. The switch is kept under the manifest's name,
  whose previous executor is not killed.
\<close>

theorem revert_takes_asset_for_index:
  assumes "service_ok st" "governed st" "\<not> db_aborted (ss_db st)"
    and "handle_request en (IndexRevert penultimate_id bs ns ident) st = (Inr (), st')"
  shows "\<exists>assets m start. fst (latest_assets_for_index penultimate_id (ss_db st)) = Inr assets
    \<and> en_manifest_of en (as_bytes (ab_manifest assets)) = Inr m
    \<and> live_executors st' = filter (\<lambda>e. uid (sp_manifest e) \<noteq> request_uid ns ident) (live_executors st)
        @ [\<lparr>sp_switch = length (ss_spawned st), sp_manifest = m\<lparr>mf_start_block := Some start\<rparr>, sp_module = bs\<rparr>]
    \<and> ss_killers st' = (ss_killers st)(uid m \<mapsto> length (ss_spawned st))
    \<and> tb_assets (db_tables (ss_db st')) Wasm = filter (\<lambda>a. \<not> (as_index_id a = as_id (ab_manifest assets)
        \<and> as_version a = as_version (ab_wasm assets))) (tb_assets (db_tables (ss_db st)) Wasm)"
proof -
  let ?k = "kill_switch (ss_killers st (request_uid ns ident)) st"
  obtain d where d: "start_transaction (ss_db st) = (Inr (), d)" "\<not> db_aborted d" "db_tables d = db_tables (ss_db st)"
    using assms(3) by (auto simp: start_transaction_def)
  obtain ra where ra: "latest_assets_for_index penultimate_id d = (ra, d)"
    using latest_assets_reads [of penultimate_id d] by (cases "latest_assets_for_index penultimate_id d") simp
  have same: "fst (latest_assets_for_index penultimate_id (ss_db st)) = ra"
    using latest_assets_other_tables [OF d(3) assms(3) d(2)] ra by (metis fst_conv)
  from assms(4) d ra obtain assets where assets: "ra = Inr assets"
    by (auto simp: index_revert_def sbind_def kill_indexer_eq squery_def lift_sql_def split: sum.splits fault.splits)
  let ?d = "d\<lparr>db_tables := (db_tables d)\<lparr>tb_assets := (tb_assets (db_tables d))(Wasm := filter (\<lambda>a. \<not> (as_index_id a
      = as_id (ab_manifest assets) \<and> as_version a = as_version (ab_wasm assets))) (tb_assets (db_tables d) Wasm))\<rparr>, db_saved := None\<rparr>"
  from assms(4) d ra obtain m start where m: "en_manifest_of en (as_bytes (ab_manifest assets)) = Inr m"
    and st': "st' = ?k\<lparr>ss_db := ?d, ss_spawned := ss_spawned st @ [\<lparr>sp_switch = length (ss_spawned st),
        sp_manifest = m\<lparr>mf_start_block := Some start\<rparr>, sp_module = bs\<rparr>],
      ss_killers := (ss_killers st)(uid m \<mapsto> length (ss_spawned st))\<rparr>"
    unfolding assets
    by (auto simp: index_revert_def sbind_def kill_indexer_eq squery_def [of start_transaction]
        squery_def [of "latest_assets_for_index penultimate_id"] lift_sql_def
        remove_module_eq wasm_create_registry insert_killer_def Let_def split: sum.splits fault.splits)
  have fresh: "length (ss_spawned st) \<notin> ss_killed st \<union> set_option (ss_killers st (request_uid ns ident))"
    using assms(1) by (auto simp: service_ok_def)
  have "live_executors st' = filter (\<lambda>e. uid (sp_manifest e) \<noteq> request_uid ns ident) (live_executors st)
        @ [\<lparr>sp_switch = length (ss_spawned st), sp_manifest = m\<lparr>mf_start_block := Some start\<rparr>, sp_module = bs\<rparr>]"
    unfolding live_without_killed [OF assms(1,2), symmetric] using fresh
    by (auto simp: live_executors_def st' intro!: filter_cong)
  with m same assets st' d(3) show ?thesis
    by (intro exI [of _ assets] exI [of _ m] exI [of _ start]) simp
qed

lemma revert_takes_asset_for_index_witness:
  "\<exists>st'. handle_request demo_environment (IndexRevert 1 [5] ''ns'' ''idx'') demo_service = (Inr (), st')
    \<and> map sp_module (live_executors st') = [[5]]"
proof -
  have live: "\<not> db_aborted (ss_db demo_service)"
    by (simp add: demo_service_db served_database_def empty_database_def)
  have saved: "db_saved served_database = None"
    by (simp add: served_database_def empty_database_def)
  let ?d = "served_database\<lparr>db_saved := Some (db_tables served_database)\<rparr>"
  have reads: "latest_assets_for_index 1 ?d
    = (Inr \<lparr>ab_schema = asset_row 1 1, ab_manifest = asset_row 1 1, ab_wasm = asset_row 4 2\<rparr>, ?d)"
    by (simp add: served_database_def empty_database_def empty_tables_def select_one_simp
      latest_assets_for_index_def latest_asset_for_index_def dbind_def assets_of_def by_id_desc_def asset_row_def)
  have "\<exists>st'. handle_request demo_environment (IndexRevert 1 [5] ''ns'' ''idx'') demo_service = (Inr (), st')"
    using live saved reads
    by (simp add: index_revert_def squery_def [of start_transaction] squery_def [of "latest_assets_for_index 1"]
        lift_sql_def demo_service_db sbind_def start_transaction_def remove_module_eq
        wasm_create_registry kill_indexer_eq insert_killer_def Let_def demo_environment_def get_start_block_def
        served_manifest_def)
  then obtain st' where st': "handle_request demo_environment (IndexRevert 1 [5] ''ns'' ''idx'') demo_service = (Inr (), st')" ..
  from revert_takes_asset_for_index [OF demo_service_ok live st'] obtain m start where
    "live_executors st' = filter (\<lambda>e. uid (sp_manifest e) \<noteq> request_uid ''ns'' ''idx'') (live_executors demo_service)
        @ [\<lparr>sp_switch = length (ss_spawned demo_service), sp_manifest = m\<lparr>mf_start_block := Some start\<rparr>, sp_module = [5]\<rparr>]"
    by (elim exE conjE) (rule that)
  then have "map sp_module (live_executors st') = [[5]]"
    by (simp add: demo_live served_uid request_uid_def)
  with st' show ?thesis by (intro exI conjI)
qed

text \<open>
  An indexer with a \<^verbatim>\<open>resumable\<close> entry, \<^verbatim>\<open>false\<close> included, resumes: its executor asks the node
  for the blocks after one less than the last height it recorded, so the last block is handled again.
\<close>

theorem resumed_executor_repeats_last_block:
  assumes "mf_resumable m = Some flag"
    and "en_max_height en (mf_namespace m @ ''_'' @ mf_identifier m) = Inr (Some h)" and "1 < h" "h < 2 ^ 63"
  shows "\<exists>start st. get_start_block en m = Inr start
    \<and> executor_start (m\<lparr>mf_start_block := Some start\<rparr>) e = Inr st
    \<and> ex_cursor st = Some (show_nat (nat (h - 1)))"
proof -
  have u: "uint (word_of_int h :: 64 word) = h"
    using assms(3,4) by (simp add: uint_word_of_int)
  then have "unat (word_of_int h :: 64 word) = nat h" by (metis nat_uint_eq)
  moreover have "(1 :: 64 word) < word_of_int h" using assms(3) u by (simp add: word_less_def)
  moreover have "nat h - 1 = nat (h - 1)" using assms(3) by simp
  ultimately show ?thesis
    using assms(1,2) by (simp add: get_start_block_def last_block_height_for_indexer_def executor_start_def start_cursor_def
        expect_def)
qed

lemma resumed_executor_repeats_last_block_witness:
  "\<exists>start st. get_start_block demo_environment (served_manifest\<lparr>mf_resumable := Some False\<rparr>) = Inr start
    \<and> executor_start (served_manifest\<lparr>mf_resumable := Some False, mf_start_block := Some start\<rparr>) () = Inr st
    \<and> ex_cursor st = Some ''11''"
proof -
  have "mf_resumable (served_manifest\<lparr>mf_resumable := Some False\<rparr>) = Some False" by simp
  moreover have "show_nat (nat (12 - 1)) = ''11''" by code_simp
  ultimately show ?thesis
    using resumed_executor_repeats_last_block [of "served_manifest\<lparr>mf_resumable := Some False\<rparr>" False demo_environment 12 "()"]
    by (simp add: demo_environment_def)
qed

end
