(* ===== verification/Arguments.thy ===== *)
theory Arguments
  imports Graphql_Types "HOL-Library.Char_ord" "HOL-Library.List_Lexorder"
begin

text \<open>
  \<^verbatim>\<open>fuel-indexer-graphql/src/arguments.rs\<close>: the arguments of a GraphQL field are parsed into
  filters, orders, an offset and a limit; filters are inverted for \<^verbatim>\<open>not\<close> and printed as SQL.
  The second half gives filters their meaning on a row, in SQL's three-valued logic, and relates
  inversion to negation.
\<close>

section \<open>Query parameters\<close>

fun add_param :: "string \<Rightarrow> query_params \<Rightarrow> param_type \<Rightarrow> query_params" where
  "add_param tbl q (Filter f) = q\<lparr>qp_filters := qp_filters q @ [\<lparr>fl_table = tbl, fl_type = f\<rparr>]\<rparr>"
| "add_param tbl q (Sort fld ord) =
     q\<lparr>qp_sorts := qp_sorts q @ [\<lparr>so_table = tbl @ ''.'' @ fld, so_order = ord\<rparr>]\<rparr>"
| "add_param tbl q (Offset n) = q\<lparr>qp_offset := Some n\<rparr>"
| "add_param tbl q (Limit n) = q\<lparr>qp_limit := Some n\<rparr>"

definition add_params :: "query_params \<Rightarrow> param_type list \<Rightarrow> string \<Rightarrow> query_params" where
  "add_params q ps tbl = foldl (add_param tbl) q ps"

fun sort_order_to_string :: "sort_order \<Rightarrow> string" where
  "sort_order_to_string Asc = ''ASC''"
| "sort_order_to_string Desc = ''DESC''"

fun parsed_value_to_string :: "parsed_value \<Rightarrow> string" where
  "parsed_value_to_string (PBigNumber n) = show_nat (unat n)"
| "parsed_value_to_string (PBoolean b) = show_bool b"
| "parsed_value_to_string (PNumber n) = show_nat (unat n)"
| "parsed_value_to_string (PString s) = [CHR 0x27] @ s @ [CHR 0x27]"

fun comparison_to_sql :: "comparison \<Rightarrow> string \<Rightarrow> string" where
  "comparison_to_sql (Between c lo hi) t = t @ ''.'' @ c @ '' BETWEEN ''
     @ parsed_value_to_string lo @ '' AND '' @ parsed_value_to_string hi"
| "comparison_to_sql (Equals c v) t = t @ ''.'' @ c @ '' = '' @ parsed_value_to_string v"
| "comparison_to_sql (NotEquals c v) t = t @ ''.'' @ c @ '' <> '' @ parsed_value_to_string v"
| "comparison_to_sql (Greater c v) t = t @ ''.'' @ c @ '' > '' @ parsed_value_to_string v"
| "comparison_to_sql (GreaterEqual c v) t = t @ ''.'' @ c @ '' >= '' @ parsed_value_to_string v"
| "comparison_to_sql (Less c v) t = t @ ''.'' @ c @ '' < '' @ parsed_value_to_string v"
| "comparison_to_sql (LessEqual c v) t = t @ ''.'' @ c @ '' <= '' @ parsed_value_to_string v"

fun filter_to_sql :: "filter_type \<Rightarrow> string \<Rightarrow> string" where
  "filter_to_sql (Comparison c) t = comparison_to_sql c t"
| "filter_to_sql (IdSelection v) t = t @ ''.id = '' @ parsed_value_to_string v"
| "filter_to_sql (And a b) t = ''('' @ filter_to_sql a t @ '' AND '' @ filter_to_sql b t @ '')''"
| "filter_to_sql (Or a b) t = ''('' @ filter_to_sql a t @ '' OR '' @ filter_to_sql b t @ '')''"
| "filter_to_sql (Not a) t = []"
| "filter_to_sql (Membership (In c vs)) t =
     t @ ''.'' @ c @ '' IN ('' @ join '', '' (map parsed_value_to_string vs) @ '')''"
| "filter_to_sql (Membership (NotIn c vs)) t =
     t @ ''.'' @ c @ '' NOT IN ('' @ join '', '' (map parsed_value_to_string vs) @ '')''"
| "filter_to_sql (NullValueCheck (NoNulls cs)) t =
     join '' AND '' (map (\<lambda>c. t @ ''.'' @ c @ '' IS NOT NULL'') cs)"
| "filter_to_sql (NullValueCheck (OnlyNulls cs)) t =
     join '' AND '' (map (\<lambda>c. t @ ''.'' @ c @ '' IS NULL'') cs)"

definition filter_entry_to_sql :: "filter_entry \<Rightarrow> string" where
  "filter_entry_to_sql f = filter_to_sql (fl_type f) (fl_table f)"

definition get_filtering_expression :: "query_params \<Rightarrow> string" where
  "get_filtering_expression q =
     (if qp_filters q \<noteq> []
      then join '' '' [''WHERE'', [], join '' AND '' (map filter_entry_to_sql (qp_filters q))]
      else [])"

definition get_ordering_modififer :: "query_params \<Rightarrow> string" where
  "get_ordering_modififer q =
     (if qp_sorts q \<noteq> []
      then join '' '' [[], ''ORDER BY'',
        join '', '' (map (\<lambda>s. so_table s @ '' '' @ sort_order_to_string (so_order s)) (qp_sorts q))]
      else [])"

section \<open>Inverting a filter\<close>

fun invert_comparison :: "comparison \<Rightarrow> filter_type" where
  "invert_comparison (Between c lo hi) = And (Comparison (Less c lo)) (Comparison (Greater c hi))"
| "invert_comparison (Greater c v) = Comparison (LessEqual c v)"
| "invert_comparison (GreaterEqual c v) = Comparison (Less c v)"
| "invert_comparison (Less c v) = Comparison (GreaterEqual c v)"
| "invert_comparison (LessEqual c v) = Comparison (Greater c v)"
| "invert_comparison (Equals c v) = Comparison (NotEquals c v)"
| "invert_comparison (NotEquals c v) = Comparison (Equals c v)"

fun invert :: "filter_type \<Rightarrow> filter_type gresult" where
  "invert (IdSelection v) = Inl (Err (UnsupportedNegation ''ID selection''))"
| "invert (Comparison c) = Inr (invert_comparison c)"
| "invert (Membership (In c vs)) = Inr (Membership (NotIn c vs))"
| "invert (Membership (NotIn c vs)) = Inr (Membership (In c vs))"
| "invert (NullValueCheck (NoNulls cs)) = Inr (NullValueCheck (OnlyNulls cs))"
| "invert (NullValueCheck (OnlyNulls cs)) = Inr (NullValueCheck (NoNulls cs))"
| "invert (And a b) = rbind (invert a) (\<lambda>a'. rbind (invert b) (\<lambda>b'. Inr (And a' b')))"
| "invert (Or a b) = rbind (invert a) (\<lambda>a'. rbind (invert b) (\<lambda>b'. Inr (Or a' b')))"
| "invert (Not a) = Inr a"

section \<open>Parsing arguments\<close>

fun parse_value :: "gql_value \<Rightarrow> parsed_value gresult" where
  "parse_value (BigInt n) = Inr (PBigNumber (big_as_u128 n))"
| "parse_value (Boolean b) = Inr (PBoolean b)"
| "parse_value (IntVal n) = Inr (PNumber (number_as_u64 n))"
| "parse_value (String s) = Inr (PString s)"
| "parse_value v = Inl (Err (UnsupportedValueType (value_to_string v)))"

text \<open>The \<^verbatim>\<open>has\<close> filter: a list of columns of the entity.\<close>

definition parse_has :: "schema \<Rightarrow> string \<Rightarrow> gql_value \<Rightarrow> filter_type gresult" where
  "parse_has s entity pred =
     (case pred of
        List elements \<Rightarrow>
          rbind (mapM (\<lambda>e. case e of
              Enum column \<Rightarrow>
                (if field_type s entity column \<noteq> None then Inr column
                 else Inl (Err (UnrecognizedField entity column)))
            | _ \<Rightarrow> Inl (Err (UnsupportedValueType (value_to_string e)))) elements)
            (\<lambda>cs. Inr (NullValueCheck (NoNulls cs)))
      | _ \<Rightarrow> Inl (Err (UnsupportedValueType (value_to_string pred))))"

text \<open>
  The loop over the operations given for one field: the first one that parses is returned; a
  \<^verbatim>\<open>between\<close> or \<^verbatim>\<open>in\<close> of the wrong shape is passed over. \<open>parse_field_op\<close> is the loop
  body, \<open>None\<close> where it falls through to the next entry.
\<close>

definition parse_compare ::
    "(parsed_value \<Rightarrow> comparison) \<Rightarrow> gql_value \<Rightarrow> filter_type gresult option" where
  "parse_compare mk pred = Some (rbind (parse_value pred) (\<lambda>v. Inr (Comparison (mk v))))"

definition parse_between :: "string \<Rightarrow> gql_value \<Rightarrow> filter_type gresult option" where
  "parse_between fld pred =
     (case pred of
        Object obj \<Rightarrow>
          (case map_of obj ''min'' of
             None \<Rightarrow> None
           | Some lo \<Rightarrow>
               (case map_of obj ''max'' of
                  None \<Rightarrow> None
                | Some hi \<Rightarrow> Some (rbind (parse_value lo) (\<lambda>lo'. rbind (parse_value hi)
                    (\<lambda>hi'. Inr (Comparison (Between fld lo' hi')))))))
      | _ \<Rightarrow> None)"

definition parse_in :: "string \<Rightarrow> gql_value \<Rightarrow> filter_type gresult option" where
  "parse_in fld pred =
     (case pred of
        List elements \<Rightarrow>
          Some (case mapM parse_value elements of
             Inr vs \<Rightarrow> Inr (Membership (In fld vs))
           | Inl _ \<Rightarrow> Inl (Err (UnableToParseValue (value_to_string pred))))
      | _ \<Rightarrow> None)"

definition parse_field_op :: "string \<Rightarrow> string \<Rightarrow> gql_value \<Rightarrow> filter_type gresult option" where
  "parse_field_op fld key pred =
     (if key = ''between'' then parse_between fld pred
      else if key = ''equals'' then parse_compare (Equals fld) pred
      else if key = ''gt'' then parse_compare (Greater fld) pred
      else if key = ''gte'' then parse_compare (GreaterEqual fld) pred
      else if key = ''lt'' then parse_compare (Less fld) pred
      else if key = ''lte'' then parse_compare (LessEqual fld) pred
      else if key = ''in'' then parse_in fld pred
      else Some (Inl (Err (UnsupportedFilterOperation key))))"

fun parse_field_ops :: "string \<Rightarrow> (string \<times> gql_value) list \<Rightarrow> filter_type gresult" where
  "parse_field_ops fld [] = Inl (Err NoPredicatesInFilter)"
| "parse_field_ops fld ((key, pred) # rest) =
     (case parse_field_op fld key pred of
        Some r \<Rightarrow> r
      | None \<Rightarrow> parse_field_ops fld rest)"

definition parse_field_filter :: "schema \<Rightarrow> string \<Rightarrow> string \<Rightarrow> gql_value \<Rightarrow> filter_type gresult" where
  "parse_field_filter s entity key pred =
     (if field_type s entity key \<noteq> None then
        (case pred of
           Object obj \<Rightarrow> parse_field_ops key obj
         | _ \<Rightarrow> Inl (Err (UnsupportedValueType (value_to_string pred))))
      else Inl (Err (UnrecognizedField entity key)))"

text \<open>
  The mutually recursive filter parser. \<open>prior\<close> is the filter parsed before a logical operator
  (the \<^verbatim>\<open>&mut Option\<close> is never assigned), \<open>rest\<close> what the iterator over the enclosing object
  still holds.
\<close>

function (sequential) parse_filter_object ::
    "schema \<Rightarrow> string \<Rightarrow> filter_type option \<Rightarrow> (string \<times> gql_value) list \<Rightarrow> filter_type gresult"
  and parse_arg_pred_pair ::
    "schema \<Rightarrow> string \<Rightarrow> filter_type option \<Rightarrow> (string \<times> gql_value) list \<Rightarrow> string \<Rightarrow> gql_value
      \<Rightarrow> filter_type gresult"
  and parse_binary_logical_operator ::
    "schema \<Rightarrow> string \<Rightarrow> filter_type option \<Rightarrow> (string \<times> gql_value) list \<Rightarrow> string \<Rightarrow> gql_value
      \<Rightarrow> filter_type gresult"
where
  "parse_filter_object s entity prior [] = Inl (Err NoPredicatesInFilter)"
| "parse_filter_object s entity prior ((key, pred) # rest) =
     parse_arg_pred_pair s entity prior rest key pred"
| "parse_arg_pred_pair s entity prior rest key pred =
     (if key = ''has'' then parse_has s entity pred
      else if key = ''and'' \<or> key = ''or'' then
        parse_binary_logical_operator s entity prior rest key pred
      else if key = ''not'' then
        (case pred of
           Object inner \<Rightarrow> rbind (parse_filter_object s entity prior inner) invert
         | _ \<Rightarrow> Inl (Err (UnsupportedValueType (value_to_string pred))))
      else parse_field_filter s entity key pred)"
| "parse_binary_logical_operator s entity prior rest key pred =
     (case pred of
        Object inner \<Rightarrow>
          rbind (parse_filter_object s entity prior inner) (\<lambda>flt.
            case prior of
              Some p \<Rightarrow>
                (if key = ''and'' then Inr (And p flt)
                 else if key = ''or'' then Inr (Or p flt)
                 else Inl (Panic ''unreachable''))
            | None \<Rightarrow>
                (case rest of
                   [] \<Rightarrow> Inl (Err MissingPartnerForBinaryLogicalOperator)
                 | (next_key, next_pred) # rest' \<Rightarrow>
                     if next_key = ''and'' \<or> next_key = ''or'' then
                       parse_binary_logical_operator s entity (Some flt) rest' next_key next_pred
                     else
                       rbind (parse_arg_pred_pair s entity prior rest' next_key next_pred) (\<lambda>nf.
                         if key = ''and'' then Inr (And flt nf)
                         else if key = ''or'' then Inr (Or flt nf)
                         else Inl (Panic ''unreachable''))))
      | _ \<Rightarrow> Inl (Err (UnsupportedValueType (value_to_string pred))))"
  by pat_completeness auto
termination
  by (relation "measure (\<lambda>x. case x of
        Inl (_, _, _, obj) \<Rightarrow> 2 * size_list (size_prod (\<lambda>_. 0) size) obj
      | Inr (Inl (_, _, _, rest, _, v)) \<Rightarrow> 2 * (size_list (size_prod (\<lambda>_. 0) size) rest + size v) + 1
      | Inr (Inr (_, _, _, rest, _, v)) \<Rightarrow> 2 * (size_list (size_prod (\<lambda>_. 0) size) rest + size v))") auto

declare parse_arg_pred_pair.simps [simp del] parse_binary_logical_operator.simps [simp del]

definition parse_order :: "schema \<Rightarrow> string \<Rightarrow> gql_value \<Rightarrow> param_type gresult" where
  "parse_order s entity v =
     (case v of
        Object [] \<Rightarrow> Inl (Err NoPredicatesInFilter)
      | Object ((order, pred) # _) \<Rightarrow>
          (case pred of
             Enum fld \<Rightarrow>
               (if field_type s entity fld \<noteq> None then
                  (if order = ''asc'' then Inr (Sort fld Asc)
                   else if order = ''desc'' then Inr (Sort fld Desc)
                   else Inl (Err (UnableToParseValue order)))
                else Inl (Err (UnrecognizedField entity fld)))
           | _ \<Rightarrow> Inl (Err (UnsupportedValueType (value_to_string pred))))
      | _ \<Rightarrow> Inl (Err (UnsupportedValueType (value_to_string v))))"

definition parse_argument_into_param ::
    "string \<Rightarrow> string \<Rightarrow> gql_value \<Rightarrow> schema \<Rightarrow> param_type gresult" where
  "parse_argument_into_param entity arg v s =
     (if arg = ''filter'' then
        (case v of
           Object obj \<Rightarrow> rbind (parse_filter_object s entity None obj) (\<lambda>f. Inr (Filter f))
         | _ \<Rightarrow> Inl (Err (UnsupportedValueType (value_to_string v))))
      else if arg = ''id'' then rbind (parse_value v) (\<lambda>w. Inr (Filter (IdSelection w)))
      else if arg = ''order'' then parse_order s entity v
      else if arg = ''offset'' then
        (case v of
           IntVal n \<Rightarrow> Inr (Offset (number_as_u64 n))
         | _ \<Rightarrow> Inl (Err (UnsupportedValueType (value_to_string v))))
      else if arg = ''first'' then
        (case v of
           IntVal n \<Rightarrow> Inr (Limit (number_as_u64 n))
         | _ \<Rightarrow> Inl (Err (UnsupportedValueType (value_to_string v))))
      else Inl (Err (UnrecognizedArgument entity arg)))"


section \<open>What the parser guarantees\<close>

text \<open>The columns a filter names, and the filters without \<^verbatim>\<open>Not\<close> nodes.\<close>

fun comparison_column :: "comparison \<Rightarrow> string" where
  "comparison_column (Between c _ _) = c"
| "comparison_column (Greater c _) = c"
| "comparison_column (GreaterEqual c _) = c"
| "comparison_column (Less c _) = c"
| "comparison_column (LessEqual c _) = c"
| "comparison_column (Equals c _) = c"
| "comparison_column (NotEquals c _) = c"

fun filter_columns :: "filter_type \<Rightarrow> string set" where
  "filter_columns (IdSelection _) = {}"
| "filter_columns (Comparison c) = {comparison_column c}"
| "filter_columns (Membership (In c _)) = {c}"
| "filter_columns (Membership (NotIn c _)) = {c}"
| "filter_columns (NullValueCheck (NoNulls cs)) = set cs"
| "filter_columns (NullValueCheck (OnlyNulls cs)) = set cs"
| "filter_columns (And a b) = filter_columns a \<union> filter_columns b"
| "filter_columns (Or a b) = filter_columns a \<union> filter_columns b"
| "filter_columns (Not a) = filter_columns a"

fun no_not :: "filter_type \<Rightarrow> bool" where
  "no_not (And a b) \<longleftrightarrow> no_not a \<and> no_not b"
| "no_not (Or a b) \<longleftrightarrow> no_not a \<and> no_not b"
| "no_not (Not a) \<longleftrightarrow> False"
| "no_not _ \<longleftrightarrow> True"

lemma columns_invert_comparison [simp]: "filter_columns (invert_comparison c) = {comparison_column c}"
  by (cases c) auto

lemma no_not_invert_comparison [simp]: "no_not (invert_comparison c)"
  by (cases c) auto

lemma invert_columns: "invert f = Inr g \<Longrightarrow> filter_columns g = filter_columns f"
  by (induction f arbitrary: g rule: invert.induct) auto

lemma invert_no_not: "invert f = Inr g \<Longrightarrow> no_not f \<Longrightarrow> no_not g"
  by (induction f arbitrary: g rule: invert.induct) auto

lemma parse_field_op_columns:
  "parse_field_op fld key pred = Some (Inr f) \<Longrightarrow> filter_columns f = {fld} \<and> no_not f"
proof -
  have cmp: "filter_columns f = {fld} \<and> no_not f"
    if "parse_compare mk pred = Some (Inr f)" "\<And>v. comparison_column (mk v) = fld" for mk
    using that by (auto simp: parse_compare_def)
  have between: "filter_columns f = {fld} \<and> no_not f" if "parse_between fld pred = Some (Inr f)"
    using that by (auto simp: parse_between_def split: gql_value.splits option.splits)
  have mem: "filter_columns f = {fld} \<and> no_not f" if "parse_in fld pred = Some (Inr f)"
    using that by (auto simp: parse_in_def split: gql_value.splits sum.splits)
  assume "parse_field_op fld key pred = Some (Inr f)"
  then show ?thesis
    unfolding parse_field_op_def by (auto split: if_split_asm intro: cmp between mem dest: cmp between mem)
qed

lemma parse_field_ops_columns:
  "parse_field_ops fld ops = Inr f \<Longrightarrow> filter_columns f = {fld} \<and> no_not f"
  by (induction fld ops rule: parse_field_ops.induct)
     (auto split: option.splits dest: parse_field_op_columns)

lemma parse_has_columns:
  assumes "parse_has s entity v = Inr f"
  shows "(\<forall>c \<in> filter_columns f. field_type s entity c \<noteq> None) \<and> no_not f"
proof -
  from assms obtain elements cs where "f = NullValueCheck (NoNulls cs)"
    and "mapM (\<lambda>e. case e of
              Enum column \<Rightarrow>
                (if field_type s entity column \<noteq> None then Inr column
                 else Inl (Err (UnrecognizedField entity column)))
            | _ \<Rightarrow> Inl (Err (UnsupportedValueType (value_to_string e)))) elements = Inr cs"
    by (auto simp: parse_has_def split: gql_value.splits)
  moreover from this(2) have "\<forall>c \<in> set cs. field_type s entity c \<noteq> None"
    by (rule mapM_Inr_all) (auto split: gql_value.splits if_splits)
  ultimately show ?thesis by simp
qed

text \<open>The filters the parser may build: schema columns only, and no \<^verbatim>\<open>Not\<close> node.\<close>

definition filter_ok :: "schema \<Rightarrow> string \<Rightarrow> filter_type \<Rightarrow> bool" where
  "filter_ok s entity f \<longleftrightarrow> (\<forall>c \<in> filter_columns f. field_type s entity c \<noteq> None) \<and> no_not f"

lemma filter_ok_simps [simp]:
  "filter_ok s e (And a b) \<longleftrightarrow> filter_ok s e a \<and> filter_ok s e b"
  "filter_ok s e (Or a b) \<longleftrightarrow> filter_ok s e a \<and> filter_ok s e b"
  "filter_ok s e (IdSelection v)"
  by (auto simp: filter_ok_def)

lemma filter_ok_invert: "invert f = Inr g \<Longrightarrow> filter_ok s e f \<Longrightarrow> filter_ok s e g"
  by (simp add: filter_ok_def invert_columns invert_no_not)

lemma filter_ok_field: "parse_field_filter s e k v = Inr f \<Longrightarrow> filter_ok s e f"
  by (auto simp: parse_field_filter_def filter_ok_def dest!: parse_field_ops_columns
      split: if_splits gql_value.splits)

lemma filter_ok_has: "parse_has s e v = Inr f \<Longrightarrow> filter_ok s e f"
  unfolding filter_ok_def by (rule parse_has_columns)

lemma parse_filters_ok:
  "parse_filter_object s e prior obj = Inr f \<Longrightarrow> (\<And>p. prior = Some p \<Longrightarrow> filter_ok s e p)
    \<Longrightarrow> filter_ok s e f"
  "parse_arg_pred_pair s e prior rest k v = Inr f \<Longrightarrow> (\<And>p. prior = Some p \<Longrightarrow> filter_ok s e p)
    \<Longrightarrow> filter_ok s e f"
  "parse_binary_logical_operator s e prior rest k v = Inr f
    \<Longrightarrow> (\<And>p. prior = Some p \<Longrightarrow> filter_ok s e p) \<Longrightarrow> filter_ok s e f"
proof (induction s e prior obj and s e prior rest k v and s e prior rest k v arbitrary: f and f and f
    rule: parse_filter_object_parse_arg_pred_pair_parse_binary_logical_operator.induct)
  case (3 s e prior rest k v)
  then show ?case
    by (auto simp: parse_arg_pred_pair.simps split: if_splits gql_value.splits
        dest: filter_ok_has filter_ok_field filter_ok_invert)
next
  case (4 s e prior rest k v)
  note unfolded = "4.prems"(1) [unfolded parse_binary_logical_operator.simps [of s e prior rest k v]]
  then obtain inner flt where v: "v = Object inner"
    and flt: "parse_filter_object s e prior inner = Inr flt"
    by (auto split: gql_value.splits)
  from "4.IH"(1) [OF v flt "4.prems"(2)] have ok: "filter_ok s e flt" .
  show ?case
  proof (cases prior)
    case (Some p)
    with unfolded "4.prems"(2) v flt ok show ?thesis by (auto split: if_splits)
  next
    case None
    with unfolded v flt obtain nk nv rest' where rest: "rest = (nk, nv) # rest'"
      by (auto split: list.splits)
    show ?thesis
    proof (cases "nk = ''and'' \<or> nk = ''or''")
      case True
      with unfolded v flt None rest
      have "parse_binary_logical_operator s e (Some flt) rest' nk nv = Inr f" by auto
      with "4.IH"(2) [OF v flt None rest] True ok show ?thesis by auto
    next
      case False
      with unfolded v flt None rest obtain nf
        where nf: "parse_arg_pred_pair s e prior rest' nk nv = Inr nf"
          and f: "f = And flt nf \<or> f = Or flt nf"
        by (auto split: if_splits)
      from "4.IH"(3) [OF v flt None rest _ False nf "4.prems"(2)] f ok show ?thesis by auto
    qed
  qed
qed auto

section \<open>Parsing never panics\<close>

lemma no_panic_parse_value [simp]: "no_panic (parse_value v)"
  by (cases v) auto

lemma no_panic_invert [simp]: "no_panic (invert f)"
  by (induction f rule: invert.induct) (auto intro!: no_panic_rbind)

lemma no_panic_parse_has [simp]: "no_panic (parse_has s e v)"
  by (auto simp: parse_has_def split: gql_value.split intro!: no_panic_rbind no_panic_mapM)

lemma no_panic_parse_field_op: "parse_field_op fld k v = Some r \<Longrightarrow> no_panic r"
proof -
  have cmp: "parse_compare mk v = Some r \<Longrightarrow> no_panic r" for mk
    by (auto simp: parse_compare_def intro!: no_panic_rbind)
  have between: "parse_between fld v = Some r \<Longrightarrow> no_panic r"
    by (auto simp: parse_between_def split: gql_value.splits option.splits intro!: no_panic_rbind)
  have mem: "parse_in fld v = Some r \<Longrightarrow> no_panic r"
    by (auto simp: parse_in_def split: gql_value.splits sum.splits)
  assume "parse_field_op fld k v = Some r"
  then show ?thesis
    unfolding parse_field_op_def by (auto split: if_split_asm dest: cmp between mem)
qed

lemma no_panic_parse_field_filter [simp]: "no_panic (parse_field_filter s e k v)"
proof -
  have "no_panic (parse_field_ops fld ops)" for fld ops
    by (induction fld ops rule: parse_field_ops.induct)
       (auto split: option.split dest: no_panic_parse_field_op)
  then show ?thesis by (auto simp: parse_field_filter_def split: gql_value.split)
qed

lemma no_panic_parse_filters:
  "no_panic (parse_filter_object s e prior obj)"
  "no_panic (parse_arg_pred_pair s e prior rest k v)"
  "k = ''and'' \<or> k = ''or'' \<Longrightarrow> no_panic (parse_binary_logical_operator s e prior rest k v)"
proof (induction s e prior obj and s e prior rest k v and s e prior rest k v
    rule: parse_filter_object_parse_arg_pred_pair_parse_binary_logical_operator.induct)
  case (3 s e prior rest k v)
  then show ?case
    by (auto simp: parse_arg_pred_pair.simps split: gql_value.split intro!: no_panic_rbind)
next
  case (4 s e prior rest k v)
  then show ?case
    by (subst parse_binary_logical_operator.simps)
       (auto split: gql_value.split option.split list.split intro!: no_panic_rbind)
qed auto

lemma no_panic_parse_order [simp]: "no_panic (parse_order s e v)"
  by (auto simp: parse_order_def split: gql_value.split list.split)

lemma no_panic_parse_argument [simp]: "no_panic (parse_argument_into_param entity arg v s)"
proof -
  have flt: "no_panic (case v of
         Object obj \<Rightarrow> rbind (parse_filter_object s entity None obj) (\<lambda>f. Inr (Filter f))
       | _ \<Rightarrow> Inl (Err (UnsupportedValueType (value_to_string v))))"
    by (cases v) (auto intro!: no_panic_rbind simp: no_panic_parse_filters(1))
  have num: "no_panic (case v of
         IntVal n \<Rightarrow> Inr (mk n)
       | _ \<Rightarrow> Inl (Err (UnsupportedValueType (value_to_string v))))" for mk :: "number \<Rightarrow> param_type"
    by (cases v) auto
  have ident: "no_panic (rbind (parse_value v) (\<lambda>w. Inr (Filter (IdSelection w))))"
    by (intro no_panic_rbind) auto
  show ?thesis
    using flt num [of "\<lambda>n. Offset (number_as_u64 n)"] num [of "\<lambda>n. Limit (number_as_u64 n)"] ident
    by (simp add: parse_argument_into_param_def)
qed

lemma filter_ok_parse_argument:
  "parse_argument_into_param entity arg v s = Inr (Filter f) \<Longrightarrow> filter_ok s entity f"
  by (auto simp: parse_argument_into_param_def parse_order_def intro: parse_filters_ok(1)
      split: if_splits gql_value.splits list.splits)

text \<open>
  Parsing an argument of a GraphQL field never panics, whatever the argument, its value and
  the entity: in particular the \<^verbatim>\<open>unreachable!()\<close> branches of the logical operators are not
  reached.
\<close>

theorem parse_argument_never_panics: "no_panic (parse_argument_into_param entity arg v s)"
  by (rule no_panic_parse_argument)

text \<open>
  Every column that a parsed argument puts into a filter is a field of the entity in the
  schema, also below logical operators and negations, and the filter holds no \<^verbatim>\<open>Not\<close> node, so
  that the empty-text branch of its SQL is never used.
\<close>

theorem parsed_filter_columns_in_schema:
  assumes "parse_argument_into_param entity arg v s = Inr (Filter f)"
  shows "(\<forall>c \<in> filter_columns f. field_type s entity c \<noteq> None) \<and> no_not f"
  using filter_ok_parse_argument [OF assms] by (simp add: filter_ok_def)

text \<open>A schema with one entity, for the concrete instances.\<close>

definition demo_schema :: schema where
  "demo_schema = \<lparr>s_version = ''v1'', s_namespace = ''ns'', s_identifier = ''idx'',
     s_query = ''QueryRoot'', s_types = {''QueryRoot'', ''Tx'', ''Block''},
     s_fields =
       [''QueryRoot'' \<mapsto> [''tx'' \<mapsto> ''Tx'', ''block'' \<mapsto> ''Block''],
        ''Tx'' \<mapsto> [''id'' \<mapsto> ''ID!'', ''block'' \<mapsto> ''Block!'', ''amount'' \<mapsto> ''UInt8!''],
        ''Block'' \<mapsto> [''id'' \<mapsto> ''ID!'', ''height'' \<mapsto> ''UInt8!'', ''account'' \<mapsto> ''Address!'',
           ''parent'' \<mapsto> ''Block'']],
     s_foreign_keys =
       [''tx'' \<mapsto> [''block'' \<mapsto> (''block'', ''id'')], ''block'' \<mapsto> [''parent'' \<mapsto> (''block'', ''id'')]]\<rparr>"

theorem parsed_filter_columns_in_schema_witness:
  "parse_argument_into_param ''Block'' ''filter''
      (Object [(''not'', Object [(''height'', Object [(''gt'', IntVal 5)])])]) demo_schema
    = Inr (Filter (Comparison (LessEqual ''height'' (PNumber 5))))
   \<and> ''height'' \<in> filter_columns (Comparison (LessEqual ''height'' (PNumber 5)))
   \<and> field_type demo_schema ''Block'' ''height'' \<noteq> None"
proof -
  have parse: "parse_argument_into_param ''Block'' ''filter''
      (Object [(''not'', Object [(''height'', Object [(''gt'', IntVal 5)])])]) demo_schema
    = Inr (Filter (Comparison (LessEqual ''height'' (PNumber 5))))"
    by (simp add: parse_argument_into_param_def parse_arg_pred_pair.simps parse_field_filter_def
        parse_field_op_def parse_compare_def field_type_def demo_schema_def number_as_u64_def)
  have col: "''height'' \<in> filter_columns (Comparison (LessEqual ''height'' (PNumber 5)))" by simp
  with parsed_filter_columns_in_schema [OF parse] have "field_type demo_schema ''Block'' ''height'' \<noteq> None" by blast
  with parse col show ?thesis by blast
qed

text \<open>
  The first entry of a filter object decides alone unless it is a logical operator: the
  entries after a field, \<^verbatim>\<open>has\<close> or \<^verbatim>\<open>not\<close> entry do not reach the filter.
\<close>

theorem leading_entry_decides:
  assumes "key \<noteq> ''and''" "key \<noteq> ''or''"
  shows "parse_filter_object s entity prior ((key, v) # rest)
    = parse_filter_object s entity prior [(key, v)]"
  using assms by (simp add: parse_arg_pred_pair.simps)

text \<open>The instance: \<^verbatim>\<open>account\<close> sorts before \<^verbatim>\<open>and\<close>, so the conjunction on \<^verbatim>\<open>height\<close> is dropped.\<close>

theorem leading_entry_decides_witness:
  "parse_filter_object demo_schema ''Block'' None
     [(''account'', Object [(''equals'', String ''a1'')]),
      (''and'', Object [(''height'', Object [(''gt'', IntVal 5)])])]
   = Inr (Comparison (Equals ''account'' (PString ''a1'')))"
proof -
  have "parse_filter_object demo_schema ''Block'' None [(''account'', Object [(''equals'', String ''a1'')])]
    = Inr (Comparison (Equals ''account'' (PString ''a1'')))"
    by (simp add: parse_arg_pred_pair.simps parse_field_filter_def parse_field_op_def
        parse_compare_def field_type_def demo_schema_def)
  then show ?thesis by (subst leading_entry_decides) auto
qed

end
