(* ===== verification/Filter_Semantics.thy ===== *)
theory Filter_Semantics
  imports Arguments
begin

text \<open>
  What a filter means on a row, in SQL's three-valued logic, as the specification that
  \<^verbatim>\<open>FilterType::invert\<close> (\<^verbatim>\<open>arguments.rs\<close>) is measured against: on which filters inverting is
  negating, where inverting twice gives the filter back, and what the inversion of a range and of
  a conjunction selects.
\<close>

section \<open>Column values and their order\<close>

datatype sql_value = SNum nat | SStr string | SBool bool

text \<open>Values of one type compare as SQL compares them; the order between types is never used by a
  well-typed query.\<close>

fun sql_le :: "sql_value \<Rightarrow> sql_value \<Rightarrow> bool" where
  "sql_le (SNum a) (SNum b) \<longleftrightarrow> a \<le> b"
| "sql_le (SNum _) _ \<longleftrightarrow> True"
| "sql_le (SStr _) (SNum _) \<longleftrightarrow> False"
| "sql_le (SStr a) (SStr b) \<longleftrightarrow> a \<le> b"
| "sql_le (SStr _) (SBool _) \<longleftrightarrow> True"
| "sql_le (SBool a) (SBool b) \<longleftrightarrow> a \<le> b"
| "sql_le (SBool _) _ \<longleftrightarrow> False"

instantiation sql_value :: linorder
begin

definition less_eq_sql_value :: "sql_value \<Rightarrow> sql_value \<Rightarrow> bool" where
  "less_eq_sql_value = sql_le"

definition less_sql_value :: "sql_value \<Rightarrow> sql_value \<Rightarrow> bool" where
  "less_sql_value a b \<longleftrightarrow> sql_le a b \<and> \<not> sql_le b a"

instance
proof
  fix a b c :: sql_value
  show "a < b \<longleftrightarrow> a \<le> b \<and> \<not> b \<le> a" by (simp add: less_sql_value_def less_eq_sql_value_def)
  show "a \<le> a" by (cases a) (auto simp: less_eq_sql_value_def)
  show "a \<le> b \<Longrightarrow> b \<le> c \<Longrightarrow> a \<le> c"
    by (cases a; cases b; cases c) (auto simp: less_eq_sql_value_def)
  show "a \<le> b \<Longrightarrow> b \<le> a \<Longrightarrow> a = b"
    by (cases a; cases b) (auto simp: less_eq_sql_value_def)
  show "a \<le> b \<or> b \<le> a"
    by (cases a; cases b) (auto simp: less_eq_sql_value_def)
qed

end

lemma sql_order_simps [simp]:
  "SNum a \<le> SNum b \<longleftrightarrow> a \<le> b" "SNum a < SNum b \<longleftrightarrow> a < b"
  "SStr s \<le> SStr t \<longleftrightarrow> s \<le> t" "SBool p \<le> SBool q \<longleftrightarrow> p \<le> q"
  by (auto simp: less_eq_sql_value_def less_sql_value_def)

fun sql_value_of :: "parsed_value \<Rightarrow> sql_value" where
  "sql_value_of (PBigNumber n) = SNum (unat n)"
| "sql_value_of (PNumber n) = SNum (unat n)"
| "sql_value_of (PString s) = SStr s"
| "sql_value_of (PBoolean b) = SBool b"

section \<open>Three-valued logic\<close>

text \<open>\<open>None\<close> is SQL's unknown.\<close>

type_synonym truth = "bool option"

fun neg3 :: "truth \<Rightarrow> truth" where
  "neg3 None = None"
| "neg3 (Some b) = Some (\<not> b)"

fun and3 :: "truth \<Rightarrow> truth \<Rightarrow> truth" where
  "and3 (Some False) _ = Some False"
| "and3 _ (Some False) = Some False"
| "and3 (Some True) (Some True) = Some True"
| "and3 _ _ = None"

definition or3 :: "truth \<Rightarrow> truth \<Rightarrow> truth" where
  "or3 a b = neg3 (and3 (neg3 a) (neg3 b))"

lemma neg3_neg3 [simp]: "neg3 (neg3 a) = a"
  by (cases a) auto

lemma neg3_Some_iff [simp]: "neg3 a = Some b \<longleftrightarrow> a = Some (\<not> b)"
  by (cases a) auto

section \<open>The meaning of a filter\<close>

type_synonym row = "string \<Rightarrow> sql_value option"

definition lift :: "row \<Rightarrow> string \<Rightarrow> (sql_value \<Rightarrow> bool) \<Rightarrow> truth" where
  "lift r c p = map_option p (r c)"

lemma neg3_lift [simp]: "neg3 (lift r c p) = lift r c (\<lambda>x. \<not> p x)"
  by (cases "r c") (auto simp: lift_def)

fun eval_comparison :: "comparison \<Rightarrow> row \<Rightarrow> truth" where
  "eval_comparison (Between c lo hi) r = lift r c (\<lambda>x. sql_value_of lo \<le> x \<and> x \<le> sql_value_of hi)"
| "eval_comparison (Greater c v) r = lift r c (\<lambda>x. x > sql_value_of v)"
| "eval_comparison (GreaterEqual c v) r = lift r c (\<lambda>x. x \<ge> sql_value_of v)"
| "eval_comparison (Less c v) r = lift r c (\<lambda>x. x < sql_value_of v)"
| "eval_comparison (LessEqual c v) r = lift r c (\<lambda>x. x \<le> sql_value_of v)"
| "eval_comparison (Equals c v) r = lift r c (\<lambda>x. x = sql_value_of v)"
| "eval_comparison (NotEquals c v) r = lift r c (\<lambda>x. x \<noteq> sql_value_of v)"

fun eval_filter :: "filter_type \<Rightarrow> row \<Rightarrow> truth" where
  "eval_filter (IdSelection v) r = lift r ''id'' (\<lambda>x. x = sql_value_of v)"
| "eval_filter (Comparison c) r = eval_comparison c r"
| "eval_filter (Membership (In c vs)) r = lift r c (\<lambda>x. x \<in> sql_value_of ` set vs)"
| "eval_filter (Membership (NotIn c vs)) r = lift r c (\<lambda>x. x \<notin> sql_value_of ` set vs)"
| "eval_filter (NullValueCheck (NoNulls cs)) r = Some (\<forall>c \<in> set cs. r c \<noteq> None)"
| "eval_filter (NullValueCheck (OnlyNulls cs)) r = Some (\<forall>c \<in> set cs. r c = None)"
| "eval_filter (And a b) r = and3 (eval_filter a r) (eval_filter b r)"
| "eval_filter (Or a b) r = or3 (eval_filter a r) (eval_filter b r)"
| "eval_filter (Not a) r = neg3 (eval_filter a r)"

section \<open>Where inverting is negating\<close>

text \<open>
  The filters on which \<open>invert\<close> is the SQL negation: no range, no conjunction or disjunction, and
  null checks of a single column.
\<close>

fun is_range :: "comparison \<Rightarrow> bool" where
  "is_range (Between _ _ _) \<longleftrightarrow> True"
| "is_range _ \<longleftrightarrow> False"

fun negatable :: "filter_type \<Rightarrow> bool" where
  "negatable (Comparison c) \<longleftrightarrow> \<not> is_range c"
| "negatable (Membership _) \<longleftrightarrow> True"
| "negatable (NullValueCheck (NoNulls cs)) \<longleftrightarrow> length cs = 1"
| "negatable (NullValueCheck (OnlyNulls cs)) \<longleftrightarrow> length cs = 1"
| "negatable (Not _) \<longleftrightarrow> True"
| "negatable _ \<longleftrightarrow> False"

lemma eval_invert_comparison:
  "\<not> is_range c \<Longrightarrow> eval_filter (invert_comparison c) r = neg3 (eval_comparison c r)"
  by (cases c) (auto simp: not_less not_le)

lemma negatable_invert:
  assumes "negatable f"
  shows "\<exists>g. invert f = Inr g \<and> (\<forall>r. eval_filter g r = neg3 (eval_filter f r))"
proof (cases f)
  case (Comparison c)
  with assms show ?thesis by (simp add: eval_invert_comparison)
next
  case (Membership m)
  then show ?thesis by (cases m) auto
next
  case (NullValueCheck n)
  with assms show ?thesis by (cases n) (auto simp: length_Suc_conv)
qed (use assms in auto)

text \<open>
  C21: on a comparison other than a range, a membership test, a null check of one column and a
  \<^verbatim>\<open>Not\<close>, inverting succeeds and the inverted filter holds on a row exactly where the filter is
  false and is unknown exactly where the filter is.
\<close>

theorem invert_is_negation:
  assumes "negatable f"
  shows "\<exists>g. invert f = Inr g \<and> (\<forall>r. eval_filter g r = neg3 (eval_filter f r))"
  using assms by (rule negatable_invert)

theorem invert_is_negation_witness:
  "negatable (Membership (In ''height'' [PNumber 1, PNumber 2]))
   \<and> (\<exists>g. invert (Membership (In ''height'' [PNumber 1, PNumber 2])) = Inr g
        \<and> (\<forall>r. eval_filter g r = neg3 (eval_filter (Membership (In ''height'' [PNumber 1, PNumber 2])) r)))"
  using invert_is_negation [of "Membership (In ''height'' [PNumber 1, PNumber 2])"] by simp

text \<open>The filters with an \<open>IdSelection\<close> that is not below a \<open>Not\<close>.\<close>

fun selects_id :: "filter_type \<Rightarrow> bool" where
  "selects_id (IdSelection _) \<longleftrightarrow> True"
| "selects_id (And a b) \<longleftrightarrow> selects_id a \<or> selects_id b"
| "selects_id (Or a b) \<longleftrightarrow> selects_id a \<or> selects_id b"
| "selects_id _ \<longleftrightarrow> False"

text \<open>
  Inverting fails exactly on the filters that select by identifier, and then with the
  unsupported-negation error.
\<close>

theorem invert_fails_iff:
  "(if selects_id f then invert f = Inl (Err (UnsupportedNegation ''ID selection''))
    else \<exists>g. invert f = Inr g)"
  by (induction f rule: invert.induct) (auto split: if_splits)

fun no_range :: "filter_type \<Rightarrow> bool" where
  "no_range (Comparison c) \<longleftrightarrow> \<not> is_range c"
| "no_range (And a b) \<longleftrightarrow> no_range a \<and> no_range b"
| "no_range (Or a b) \<longleftrightarrow> no_range a \<and> no_range b"
| "no_range _ \<longleftrightarrow> True"

lemma invert_invert_comparison:
  "\<not> is_range c \<Longrightarrow> invert (invert_comparison c) = Inr (Comparison c)"
  by (cases c) auto

text \<open>
  Inverting twice gives the filter back, unless the filter holds a range or a \<^verbatim>\<open>Not\<close> node.
\<close>

theorem invert_involutive:
  assumes "invert f = Inr g" "no_range f" "no_not f"
  shows "invert g = Inr f"
  using assms
proof (induction f arbitrary: g rule: invert.induct)
  case (2 c)
  then have "g = invert_comparison c" "\<not> is_range c" by simp_all
  then show ?case by (simp add: invert_invert_comparison)
next
  case (7 a b)
  from "7.prems"(1) obtain a' b' where "invert a = Inr a'" "invert b = Inr b'" "g = And a' b'"
    by auto
  with "7.IH" "7.prems" show ?case by simp
next
  case (8 a b)
  from "8.prems"(1) obtain a' b' where "invert a = Inr a'" "invert b = Inr b'" "g = Or a' b'"
    by auto
  with "8.IH" "8.prems" show ?case by simp
qed simp_all

theorem invert_involutive_witness:
  "invert (Or (Comparison (LessEqual ''a'' (PNumber 1))) (Membership (NotIn ''b'' [])))
   = Inr (Or (Comparison (Greater ''a'' (PNumber 1))) (Membership (In ''b'' [])))"
  by (rule invert_involutive) simp_all

text \<open>
  The inversion of a range selects no row at all when the range is not empty: it asks for a
  value below the lower and above the upper bound.
\<close>

theorem inverted_range_selects_nothing:
  assumes "sql_value_of lo \<le> sql_value_of hi"
    and "invert (Comparison (Between c lo hi)) = Inr g"
  shows "eval_filter g r \<noteq> Some True"
proof -
  from assms(2) have g: "g = And (Comparison (Less c lo)) (Comparison (Greater c hi))" by simp
  show ?thesis
  proof (cases "r c")
    case None
    then show ?thesis by (simp add: g lift_def)
  next
    case (Some x)
    with assms(1) have "\<not> (x < sql_value_of lo \<and> x > sql_value_of hi)" by auto
    with Some show ?thesis
      by (cases "x < sql_value_of lo"; cases "x > sql_value_of hi") (auto simp: g lift_def)
  qed
qed

text \<open>Outside the range, neither the range nor its inversion selects the row.\<close>

theorem inverted_range_selects_nothing_witness:
  "eval_filter (And (Comparison (Less ''h'' (PNumber 3))) (Comparison (Greater ''h'' (PNumber 5))))
     [''h'' \<mapsto> SNum 9] \<noteq> Some True
   \<and> eval_filter (Comparison (Between ''h'' (PNumber 3) (PNumber 5))) [''h'' \<mapsto> SNum 9] = Some False"
proof -
  have "eval_filter (And (Comparison (Less ''h'' (PNumber 3))) (Comparison (Greater ''h'' (PNumber 5))))
     [''h'' \<mapsto> SNum 9] \<noteq> Some True"
    by (rule inverted_range_selects_nothing [of "PNumber 3" "PNumber 5" "''h''"])
       (simp_all add: less_eq_sql_value_def)
  then show ?thesis by (simp add: lift_def less_eq_sql_value_def)
qed

text \<open>
  The inversion of a conjunction is the conjunction of the inversions, so a row that
  satisfies one conjunct and falsifies the other is selected neither by the filter nor by its
  inversion.
\<close>

theorem inverted_conjunction_gap:
  assumes "negatable a" "negatable b"
    and "eval_filter a r = Some True" "eval_filter b r = Some False"
  shows "\<exists>g. invert (And a b) = Inr g \<and> eval_filter g r = Some False
    \<and> eval_filter (And a b) r = Some False"
proof -
  obtain a' where "invert a = Inr a'" "eval_filter a' r = neg3 (eval_filter a r)"
    using negatable_invert [OF assms(1)] by auto
  moreover obtain b' where "invert b = Inr b'" "eval_filter b' r = neg3 (eval_filter b r)"
    using negatable_invert [OF assms(2)] by auto
  ultimately show ?thesis using assms(3,4) by simp
qed

theorem inverted_conjunction_gap_witness:
  "\<exists>g. invert (And (Comparison (Greater ''h'' (PNumber 3))) (Comparison (Equals ''p'' (PString ''x'')))) = Inr g
     \<and> eval_filter g [''h'' \<mapsto> SNum 9, ''p'' \<mapsto> SStr ''y''] = Some False
     \<and> eval_filter (And (Comparison (Greater ''h'' (PNumber 3))) (Comparison (Equals ''p'' (PString ''x''))))
         [''h'' \<mapsto> SNum 9, ''p'' \<mapsto> SStr ''y''] = Some False"
proof -
  let ?r = "[''h'' \<mapsto> SNum 9, ''p'' \<mapsto> SStr ''y'']"
  have "eval_filter (Comparison (Greater ''h'' (PNumber 3))) ?r = Some True"
    and "eval_filter (Comparison (Equals ''p'' (PString ''x''))) ?r = Some False"
    by (simp_all add: lift_def)
  then show ?thesis by (intro inverted_conjunction_gap) simp_all
qed

end
