(* ===== verification/Queries.thy ===== *)
theory Queries
  imports Filter_Semantics "HOL-Library.AList"
begin

text \<open>
  \<^verbatim>\<open>fuel-indexer-graphql/src/queries.rs\<close>: a user query (its elements, its join graph and its
  parameters) is turned into one SQL statement. A \<^verbatim>\<open>HashMap\<close> that the code iterates is an
  association list whose order is the iteration order; the properties hold for every order.
\<close>

section \<open>The data of a user query\<close>

datatype query_element =
    QField string string
  | ObjectOpeningBoundary string
  | ObjectClosingBoundary

record join_condition =
  referencing_key_table :: string
  referencing_key_col :: string
  primary_key_table :: string
  primary_key_col :: string

definition join_condition_to_string :: "join_condition \<Rightarrow> string" where
  "join_condition_to_string j = referencing_key_table j @ ''.'' @ referencing_key_col j @ '' = ''
     @ primary_key_table j @ ''.'' @ primary_key_col j"

record query_join_node =
  dependencies :: "(string \<times> join_condition) list"
  dependents :: "(string \<times> join_condition) list"

type_synonym join_map = "(string \<times> query_join_node) list"

record user_query =
  uq_elements :: "query_element list"
  uq_joins :: join_map
  uq_namespace_identifier :: string
  uq_entity_name :: string
  uq_params :: query_params
  uq_alias :: "string option"

section \<open>Selections\<close>

text \<open>The next element is a field or an opening boundary, so a comma goes before it.\<close>

fun comma_before :: "query_element list \<Rightarrow> string list" where
  "comma_before (QField _ _ # _) = ['', '']"
| "comma_before (ObjectOpeningBoundary _ # _) = ['', '']"
| "comma_before _ = []"

definition quoted :: "string \<Rightarrow> string" where
  "quoted s = [CHR 0x27] @ s @ [CHR 0x27]"

fun parse_query_elements_into_selections :: "query_element list \<Rightarrow> string list" where
  "parse_query_elements_into_selections [] = []"
| "parse_query_elements_into_selections (QField key value # rest) =
     [quoted key @ '', '' @ value] @ comma_before rest @ parse_query_elements_into_selections rest"
| "parse_query_elements_into_selections (ObjectOpeningBoundary key # rest) =
     [quoted key @ '', json_build_object(''] @ parse_query_elements_into_selections rest"
| "parse_query_elements_into_selections (ObjectClosingBoundary # rest) =
     ['')''] @ comma_before rest @ parse_query_elements_into_selections rest"

text \<open>The inner loop that skips the rest of an object, from nesting level \<open>n\<close>.\<close>

fun skip_object :: "nat \<Rightarrow> query_element list \<Rightarrow> query_element list" where
  "skip_object n [] = []"
| "skip_object n (ObjectOpeningBoundary _ # rest) = skip_object (Suc n) rest"
| "skip_object n (ObjectClosingBoundary # rest) = (if n \<le> 1 then rest else skip_object (n - 1) rest)"
| "skip_object n (QField _ _ # rest) = skip_object n rest"

lemma length_skip_object: "length (skip_object n es) \<le> length es"
  by (induction n es rule: skip_object.induct) auto

function get_json_selections_from_cte :: "string \<Rightarrow> query_element list \<Rightarrow> string list" where
  "get_json_selections_from_cte e [] = []"
| "get_json_selections_from_cte e (QField key value # rest) =
     (e @ ''->'' @ quoted key @ '' AS '' @ key) # get_json_selections_from_cte e rest"
| "get_json_selections_from_cte e (ObjectOpeningBoundary key # rest) =
     (e @ ''->'' @ quoted key @ '' AS '' @ key) # get_json_selections_from_cte e (skip_object 1 rest)"
| "get_json_selections_from_cte e (ObjectClosingBoundary # rest) = get_json_selections_from_cte e rest"
  by pat_completeness auto
termination
  by (relation "measure (\<lambda>(e, es). length es)") (auto simp: le_imp_less_Suc length_skip_object)

section \<open>Topological order of the joins\<close>

text \<open>
  The work list loop. \<open>joins\<close> is the map being consumed, \<open>stack\<close> the vector
  \<^verbatim>\<open>start_nodes\<close> with its last element first, \<open>out\<close> the conditions pushed so far.
\<close>

fun visit_dependent ::
    "string \<Rightarrow> join_map \<times> string list \<times> join_condition list \<Rightarrow> string
      \<Rightarrow> join_map \<times> string list \<times> join_condition list" where
  "visit_dependent cur (joins, stack, out) dep =
     (case map_of joins dep of
        None \<Rightarrow> (joins, stack, out)
      | Some node \<Rightarrow>
          (case map_of (dependencies node) cur of
             None \<Rightarrow> (joins, stack, out)
           | Some dependency \<Rightarrow>
               (let node' = node\<lparr>dependencies := AList.delete cur (dependencies node)\<rparr>
                in (AList.update dep node' joins,
                    (if dependencies node' = [] then dep # stack else stack),
                    out @ [dependency]))))"

definition visit_dependents ::
    "string \<Rightarrow> string list \<Rightarrow> join_map \<times> string list \<times> join_condition list
      \<Rightarrow> join_map \<times> string list \<times> join_condition list" where
  "visit_dependents cur deps st = foldl (visit_dependent cur) st deps"

definition total_dependencies :: "join_map \<Rightarrow> nat" where
  "total_dependencies joins = sum_list (map (\<lambda>(_, n). length (dependencies n)) joins)"

lemma length_AList_delete_less: "map_of xs k = Some v \<Longrightarrow> length (AList.delete k xs) < length xs"
proof -
  assume "map_of xs k = Some v"
  then have "(k, v) \<in> set xs" by (rule map_of_SomeD)
  then have "length (filter (\<lambda>(k', _). k \<noteq> k') xs) < length xs"
    by (intro length_filter_less) auto
  then show ?thesis by (simp add: AList.delete_eq)
qed

lemma total_dependencies_update:
  "map_of joins d = Some n \<Longrightarrow> length (dependencies n') < length (dependencies n)
    \<Longrightarrow> total_dependencies (AList.update d n' joins) < total_dependencies joins"
  by (induction joins) (auto simp: total_dependencies_def split: if_splits)

lemma visit_dependent_measure:
  assumes "visit_dependent cur (joins, stack, out) dep = (joins', stack', out')"
  shows "total_dependencies joins' < total_dependencies joins
    \<or> (total_dependencies joins' = total_dependencies joins \<and> stack' = stack)"
proof (cases "map_of joins dep")
  case None
  with assms show ?thesis by simp
next
  case (Some n)
  show ?thesis
  proof (cases "map_of (dependencies n) cur")
    case None
    with Some assms show ?thesis by simp
  next
    case (Some d)
    let ?n = "n\<lparr>dependencies := AList.delete cur (dependencies n)\<rparr>"
    from Some have "length (dependencies ?n) < length (dependencies n)"
      by (simp add: length_AList_delete_less)
    with \<open>map_of joins dep = Some n\<close>
    have "total_dependencies (AList.update dep ?n joins) < total_dependencies joins"
      by (rule total_dependencies_update)
    with assms Some \<open>map_of joins dep = Some n\<close> show ?thesis by (auto simp: Let_def)
  qed
qed

lemma visit_dependents_measure:
  "visit_dependents cur deps (joins, stack, out) = (joins', stack', out') \<Longrightarrow>
    total_dependencies joins' < total_dependencies joins
    \<or> (total_dependencies joins' = total_dependencies joins \<and> stack' = stack)"
proof (induction deps arbitrary: joins stack out)
  case Nil
  then show ?case by (simp add: visit_dependents_def)
next
  case (Cons d deps)
  obtain j s ou where step: "visit_dependent cur (joins, stack, out) d = (j, s, ou)"
    by (cases "visit_dependent cur (joins, stack, out) d")
  with Cons.prems have "visit_dependents cur deps (j, s, ou) = (joins', stack', out')"
    by (simp add: visit_dependents_def)
  from Cons.IH [OF this] visit_dependent_measure [OF step] show ?case by auto
qed

function sort_joins ::
    "join_map \<times> string list \<times> join_condition list \<Rightarrow> join_condition list" where
  "sort_joins (joins, [], out) = out"
| "sort_joins (joins, cur # stack, out) =
     (case map_of joins cur of
        None \<Rightarrow> sort_joins (joins, stack, out)
      | Some node \<Rightarrow> sort_joins (visit_dependents cur (map fst (dependents node)) (joins, stack, out)))"
  by pat_completeness auto
termination
proof (relation "measures [\<lambda>(joins, _, _). total_dependencies joins, \<lambda>(_, stack, _). length stack]",
    goal_cases)
  case (3 joins cur stack out node)
  show ?case
    using visit_dependents_measure [of cur "map fst (dependents node)" joins stack out]
    by (cases "visit_dependents cur (map fst (dependents node)) (joins, stack, out)") auto
qed auto

definition start_nodes :: "join_map \<Rightarrow> string list" where
  "start_nodes joins = map fst (filter (\<lambda>(_, n). dependencies n = []) joins)"

definition get_topologically_sorted_joins :: "join_map \<Rightarrow> join_condition list" where
  "get_topologically_sorted_joins joins = rev (sort_joins (joins, rev (start_nodes joins), []))"

section \<open>The SQL statement\<close>

text \<open>The loop over the sorted joins: \<open>last\<close> is the last primary key table seen.\<close>

fun join_clauses :: "string \<Rightarrow> string list \<Rightarrow> join_condition list \<Rightarrow> string list" where
  "join_clauses last_table joins [] = joins"
| "join_clauses last_table joins (sj # rest) =
     (if primary_key_table sj = last_table
      then join_clauses last_table
        (if joins = [] then []
         else butlast joins @ [last joins @ '' AND '' @ join_condition_to_string sj]) rest
      else join_clauses (primary_key_table sj)
        (joins @ [''INNER JOIN '' @ primary_key_table sj @ '' ON '' @ join_condition_to_string sj]) rest)"

definition joins_text :: "join_map \<Rightarrow> string" where
  "joins_text joins =
     (let clauses = join_clauses [] [] (get_topologically_sorted_joins joins)
      in if clauses \<noteq> [] then join '' '' clauses else [])"

text \<open>A line break and \<open>n\<close> blanks, as in the source's raw string literals.\<close>

definition nl :: "nat \<Rightarrow> string" where
  "nl n = CHR 0x0A # replicate n (CHR '' '')"

definition create_query_with_pageinfo :: "user_query \<Rightarrow> string \<Rightarrow> string \<Rightarrow> 64 word \<Rightarrow> string" where
  "create_query_with_pageinfo q selections joins limit =
     (let json_selections = join '','' (get_json_selections_from_cte (uq_entity_name q) (uq_elements q));
          lim = show_nat (unat limit);
          off = show_nat (unat (case qp_offset (uq_params q) of None \<Rightarrow> 0 | Some n \<Rightarrow> n));
          alias = (case uq_alias q of None \<Rightarrow> uq_entity_name q | Some a \<Rightarrow> a);
          selection_cte =
            ''WITH selection_cte AS ('' @ nl 24
            @ ''SELECT json_build_object('' @ selections @ '') AS '' @ uq_entity_name q @ nl 24
            @ ''FROM '' @ uq_namespace_identifier q @ ''.'' @ uq_entity_name q @ nl 24
            @ joins @ nl 24
            @ get_filtering_expression (uq_params q) @ nl 24
            @ get_ordering_modififer (uq_params q) @ ''),'';
          total_count_cte = ''total_count_cte AS (SELECT COUNT(*) as count FROM selection_cte)'';
          selection_query =
            ''SELECT json_build_object('' @ nl 24
            @ quoted ''page_info'' @ '', json_build_object('' @ nl 28
            @ quoted ''has_next_page'' @ '', (('' @ lim @ '' + '' @ off
              @ '') < (SELECT count from total_count_cte)),'' @ nl 28
            @ quoted ''limit'' @ '', '' @ lim @ '','' @ nl 28
            @ quoted ''offset'' @ '', '' @ off @ '','' @ nl 28
            @ quoted ''pages'' @ '', ceil((SELECT count from total_count_cte)::float / '' @ lim
              @ ''::float),'' @ nl 28
            @ quoted ''total_count'' @ '', (SELECT count from total_count_cte)'' @ nl 24
            @ ''),'' @ nl 24
            @ quoted alias @ '', ('' @ nl 28
            @ ''SELECT json_agg(item)'' @ nl 28
            @ ''FROM ('' @ nl 32
            @ ''SELECT '' @ json_selections @ '' FROM selection_cte'' @ nl 32
            @ ''LIMIT '' @ lim @ '' OFFSET '' @ off @ nl 28
            @ '') item'' @ nl 24
            @ '')'' @ nl 20
            @ '');''
      in join [CHR 0x0A] [selection_cte, total_count_cte, selection_query])"

definition to_sql :: "user_query \<Rightarrow> string gresult" where
  "to_sql q =
     (let selections = concat (parse_query_elements_into_selections (uq_elements q));
          joins = joins_text (uq_joins q)
      in case qp_limit (uq_params q) of
           Some limit \<Rightarrow>
             (if qp_sorts (uq_params q) \<noteq> []
              then Inr (create_query_with_pageinfo q selections joins limit)
              else Inl (Err UnorderedPaginatedQuery))
         | None \<Rightarrow>
             Inr (''SELECT json_build_object('' @ selections @ '') FROM '' @ uq_namespace_identifier q
               @ ''.'' @ uq_entity_name q @ '' '' @ joins @ '' ''
               @ get_filtering_expression (uq_params q) @ '' ''
               @ get_ordering_modififer (uq_params q)))"

end
