(* ===== verification/Join_Order.thy ===== *)
theory Join_Order
  imports Queries
begin

text \<open>
  Correctness of \<^verbatim>\<open>get_topologically_sorted_joins\<close> (\<^verbatim>\<open>queries.rs\<close>): on a join graph whose
  dependency and dependent entries agree, every join is emitted at most once, a table is
  introduced before the joins that refer to it, the joins on one primary key table stand
  together, and on an acyclic graph no join is lost.
\<close>

section \<open>Well-formed join graphs\<close>

text \<open>The dependencies of a node as a function of the current map.\<close>

definition deps :: "join_map \<Rightarrow> string \<Rightarrow> string \<Rightarrow> join_condition option" where
  "deps joins a b = (case map_of joins a of None \<Rightarrow> None | Some n \<Rightarrow> map_of (dependencies n) b)"

definition dpts :: "join_map \<Rightarrow> string \<Rightarrow> string \<Rightarrow> join_condition option" where
  "dpts joins b a = (case map_of joins b of None \<Rightarrow> None | Some n \<Rightarrow> map_of (dependents n) a)"

text \<open>
  Distinct keys, dependency and dependent entries mirror each other, and a condition filed under
  tables \<open>a\<close> and \<open>b\<close> refers from \<open>a\<close> to \<open>b\<close>.
\<close>

definition wf_joins :: "join_map \<Rightarrow> bool" where
  "wf_joins joins \<longleftrightarrow>
     distinct (map fst joins)
   \<and> (\<forall>(a, n) \<in> set joins. distinct (map fst (dependents n)))
   \<and> (\<forall>a b. deps joins a b = dpts joins b a)
   \<and> (\<forall>a b c. deps joins a b = Some c \<longrightarrow> referencing_key_table c = a \<and> primary_key_table c = b)"

lemma deps_key: "deps joins a b = Some c \<Longrightarrow> a \<in> fst ` set joins"
  by (auto simp: deps_def split: option.splits dest: map_of_SomeD intro: rev_image_eqI)

lemma deps_empty_iff: "map_of joins a = Some n \<Longrightarrow> dependencies n = [] \<longleftrightarrow> deps joins a = Map.empty"
  by (auto simp: deps_def fun_eq_iff) (metis map_of_eq_empty_iff ext)

text \<open>What the sort never changes: the nodes and their dependents.\<close>

definition skeleton :: "join_map \<Rightarrow> (string \<times> (string \<times> join_condition) list) list" where
  "skeleton joins = map (\<lambda>(k, n). (k, dependents n)) joins"

lemma skeleton_keys: "map fst joins = map fst (skeleton joins)"
  by (induction joins) (auto simp: skeleton_def)

lemma map_of_skeleton: "map_of (skeleton joins) k = map_option dependents (map_of joins k)"
  by (induction joins) (auto simp: skeleton_def)

lemma dpts_skeleton: "dpts joins b = (case map_of (skeleton joins) b of None \<Rightarrow> Map.empty | Some ds \<Rightarrow> map_of ds)"
  by (auto simp: dpts_def map_of_skeleton fun_eq_iff split: option.splits)

lemma skeleton_update:
  "map_of joins d = Some n \<Longrightarrow> dependents n' = dependents n \<Longrightarrow> skeleton (AList.update d n' joins) = skeleton joins"
  by (induction joins) (auto simp: skeleton_def split: if_splits)

section \<open>Visiting a node\<close>

lemma visit_dependent_hit:
  assumes "map_of joins d = Some n" "map_of (dependencies n) cur = Some c"
    and "visit_dependent cur (joins, stack, out) d = (joins', stack', out')"
  shows "deps joins' = (deps joins)(d := (deps joins d)(cur := None))"
    and "skeleton joins' = skeleton joins"
    and "stack' = (if deps joins' d = Map.empty then d # stack else stack)"
    and "out' = out @ [c]"
proof -
  let ?n = "n\<lparr>dependencies := AList.delete cur (dependencies n)\<rparr>"
  have j: "joins' = AList.update d ?n joins" and o: "out' = out @ [c]"
    and s: "stack' = (if dependencies ?n = [] then d # stack else stack)"
    using assms by (auto simp: Let_def)
  have m: "map_of joins' = (map_of joins)(d \<mapsto> ?n)" by (simp add: j update_conv')
  show "out' = out @ [c]" by (rule o)
  show d: "deps joins' = (deps joins)(d := (deps joins d)(cur := None))"
    using assms(1) by (auto simp: deps_def m fun_eq_iff delete_conv' split: option.splits)
  show "skeleton joins' = skeleton joins" using assms(1) by (simp add: j skeleton_update)
  have "dependencies ?n = [] \<longleftrightarrow> deps joins' d = Map.empty"
    by (rule deps_empty_iff) (simp add: m)
  then show "stack' = (if deps joins' d = Map.empty then d # stack else stack)" using s by simp
qed

text \<open>All dependents of \<open>cur\<close> hold the dependency on it.\<close>

lemma visit_dependents_hit:
  assumes "distinct ds" "\<And>d. d \<in> set ds \<Longrightarrow> deps joins d cur \<noteq> None"
    and "visit_dependents cur ds (joins, stack, out) = (joins', stack', out')"
  shows "deps joins' = (\<lambda>a. if a \<in> set ds then (deps joins a)(cur := None) else deps joins a)
    \<and> skeleton joins' = skeleton joins
    \<and> stack' = rev (filter (\<lambda>d. (deps joins d)(cur := None) = Map.empty) ds) @ stack
    \<and> out' = out @ map (\<lambda>d. the (deps joins d cur)) ds"
  using assms
proof (induction ds arbitrary: joins stack out)
  case Nil
  then show ?case by (simp add: visit_dependents_def)
next
  case (Cons d ds)
  from Cons.prems(2) obtain c where c: "deps joins d cur = Some c" by fastforce
  then obtain n where n: "map_of joins d = Some n" "map_of (dependencies n) cur = Some c"
    by (auto simp: deps_def split: option.splits)
  obtain j s u where step: "visit_dependent cur (joins, stack, out) d = (j, s, u)"
    by (cases "visit_dependent cur (joins, stack, out) d")
  note hit = visit_dependent_hit [OF n step]
  have rest: "visit_dependents cur ds (j, s, u) = (joins', stack', out')"
    using Cons.prems(3) step by (simp add: visit_dependents_def)
  have eq: "deps j a = deps joins a" if "a \<in> set ds" for a
    using that Cons.prems(1) by (auto simp: hit(1))
  have IH: "deps joins' = (\<lambda>a. if a \<in> set ds then (deps j a)(cur := None) else deps j a)
    \<and> skeleton joins' = skeleton j
    \<and> stack' = rev (filter (\<lambda>d. (deps j d)(cur := None) = Map.empty) ds) @ s
    \<and> out' = u @ map (\<lambda>d. the (deps j d cur)) ds"
  proof (rule Cons.IH [OF _ _ rest])
    show "distinct ds" using Cons.prems(1) by simp
    show "deps j d cur \<noteq> None" if "d \<in> set ds" for d
      using that Cons.prems(2) [of d] eq by simp
  qed
  have f: "filter (\<lambda>d. (deps j d)(cur := None) = Map.empty) ds
      = filter (\<lambda>d. (deps joins d)(cur := None) = Map.empty) ds"
    and m: "map (\<lambda>d. the (deps j d cur)) ds = map (\<lambda>d. the (deps joins d cur)) ds"
    using eq by (auto intro!: filter_cong)
  from IH f m hit c Cons.prems(1) show ?case by (auto simp: fun_eq_iff)
qed


section \<open>The work list invariant\<close>

text \<open>
  \<open>P\<close> is the set of nodes already taken from the stack. What is left of the dependencies of a
  node are those on nodes outside \<open>P\<close>; the free nodes are those on the stack or in \<open>P\<close>; the
  output holds the joins on the nodes of \<open>P\<close>, in the right order.
\<close>

definition introduced_once :: "join_condition list \<Rightarrow> bool" where
  "introduced_once cs \<longleftrightarrow> distinct (remdups_adj (map primary_key_table cs))"

definition not_used_before :: "join_condition \<Rightarrow> join_condition \<Rightarrow> bool" where
  "not_used_before c' c \<longleftrightarrow> primary_key_table c' \<noteq> referencing_key_table c"

definition emitted :: "join_map \<Rightarrow> string set \<Rightarrow> join_condition set" where
  "emitted J0 P = {c. \<exists>a b. b \<in> P \<and> deps J0 a b = Some c}"

definition topo_inv ::
    "join_map \<Rightarrow> string set \<Rightarrow> join_map \<Rightarrow> string list \<Rightarrow> join_condition list \<Rightarrow> bool" where
  "topo_inv J0 P J S out \<longleftrightarrow>
     skeleton J = skeleton J0
   \<and> (\<forall>a b. deps J a b = (if b \<in> P then None else deps J0 a b))
   \<and> distinct S \<and> set S \<inter> P = {} \<and> set S \<subseteq> fst ` set J0
   \<and> (\<forall>a \<in> fst ` set J0. deps J a = Map.empty \<longleftrightarrow> a \<in> set S \<union> P)
   \<and> set out = emitted J0 P \<and> distinct out
   \<and> sorted_wrt not_used_before out \<and> introduced_once out
   \<and> (\<forall>c \<in> set out. not_used_before c c)"

text \<open>Appending a block of joins on a new table.\<close>

lemma introduced_once_append:
  assumes "introduced_once xs" "\<And>c. c \<in> set ys \<Longrightarrow> primary_key_table c = b"
    and "b \<notin> primary_key_table ` set xs"
  shows "introduced_once (xs @ ys)"
proof (cases ys)
  case Nil
  with assms(1) show ?thesis by simp
next
  case (Cons y ys')
  let ?p = "map primary_key_table"
  have "?p ys = replicate (length ys) b"
    by (rule replicate_eqI [symmetric, THEN sym]) (auto simp: assms(2))
  moreover have "remdups_adj (replicate (length ys) b) = [b]"
    using Cons by (subst remdups_adj_replicate) simp
  ultimately have ys: "remdups_adj (?p ys) = [b]" by (simp only:)
  show ?thesis
  proof (cases xs rule: rev_cases)
    case Nil
    with ys show ?thesis by (simp add: introduced_once_def)
  next
    case (snoc xs' x)
    have "primary_key_table x \<noteq> b" using assms(3) snoc by auto
    then have "remdups_adj (?p xs @ ?p ys) = remdups_adj (?p xs) @ remdups_adj (?p ys)"
      using Cons assms(2) snoc by (subst remdups_adj_append'') auto
    with ys assms(1,3) show ?thesis by (simp add: introduced_once_def)
  qed
qed


lemma wf_joins_deps:
  assumes "wf_joins J0" "deps J0 a b = Some c"
  shows "referencing_key_table c = a" "primary_key_table c = b" "dpts J0 b a = Some c"
  using assms by (auto simp: wf_joins_def)

lemma wf_joins_key:
  assumes "wf_joins J0" "deps J0 a b = Some c" shows "b \<in> fst ` set J0"
proof -
  from wf_joins_deps(3) [OF assms] have "map_of J0 b \<noteq> None"
    by (auto simp: dpts_def split: option.splits)
  then show ?thesis by (simp add: map_of_eq_None_iff)
qed

text \<open>The dependents of a node, read off the current map.\<close>

lemma dependents_of_node:
  assumes wf: "wf_joins J0" and inv: "topo_inv J0 P J S out" and node: "map_of J cur = Some node"
  shows "distinct (map fst (dependents node))"
    and "d \<in> set (map fst (dependents node)) \<longleftrightarrow> deps J0 d cur \<noteq> None"
proof -
  from inv have sk: "skeleton J = skeleton J0" by (simp add: topo_inv_def)
  then obtain node0 where n0: "map_of J0 cur = Some node0" "dependents node0 = dependents node"
    using node map_of_skeleton [of J cur] map_of_skeleton [of J0 cur] by auto
  with wf show "distinct (map fst (dependents node))"
    by (auto simp: wf_joins_def dest!: map_of_SomeD)
  have "deps J0 d cur = map_of (dependents node) d"
    using wf n0 by (simp add: wf_joins_def dpts_def)
  then show "d \<in> set (map fst (dependents node)) \<longleftrightarrow> deps J0 d cur \<noteq> None"
    by (simp add: map_of_eq_None_iff)
qed

lemma topo_inv_step:
  assumes wf: "wf_joins J0" and inv: "topo_inv J0 P J (cur # S) out"
    and node: "map_of J cur = Some node"
    and visit: "visit_dependents cur (map fst (dependents node)) (J, S, out) = (J', S', out')"
  shows "topo_inv J0 (insert cur P) J' S' out'"
proof -
  let ?ds = "map fst (dependents node)"
  let ?new = "map (\<lambda>d. the (deps J d cur)) ?ds"
  note ds = dependents_of_node [OF wf inv node]
  have curP: "cur \<notin> P" and curS: "cur \<notin> set S" and dS: "distinct S" "set S \<inter> P = {}"
    and keyS: "set (cur # S) \<subseteq> fst ` set J0"
    and D: "\<And>a b. deps J a b = (if b \<in> P then None else deps J0 a b)"
    and E: "\<And>a. a \<in> fst ` set J0 \<Longrightarrow> deps J a = Map.empty \<longleftrightarrow> a \<in> set (cur # S) \<union> P"
    and out: "set out = emitted J0 P" "distinct out" "sorted_wrt not_used_before out" "introduced_once out"
      "\<forall>c \<in> set out. not_used_before c c"
    and sk: "skeleton J = skeleton J0"
    using inv by (auto simp: topo_inv_def)
  have hits: "deps J d cur \<noteq> None" if "d \<in> set ?ds" for d
    using that ds(2) [of d] D curP by simp
  from visit_dependents_hit [OF ds(1) hits visit]
  have J': "deps J' = (\<lambda>a. if a \<in> set ?ds then (deps J a)(cur := None) else deps J a)"
    and sk': "skeleton J' = skeleton J"
    and S': "S' = rev (filter (\<lambda>d. (deps J d)(cur := None) = Map.empty) ?ds) @ S"
    and out': "out' = out @ ?new" by auto
  have busy: "d \<in> fst ` set J0 \<and> d \<notin> set (cur # S) \<union> P" if "d \<in> set ?ds" for d
  proof -
    from that ds(2) have k: "d \<in> fst ` set J0" using deps_key by blast
    from hits [OF that] have "deps J d \<noteq> Map.empty" by auto
    with E [OF k] k show ?thesis by blast
  qed
  have D': "deps J' a b = (if b \<in> insert cur P then None else deps J0 a b)" for a b
    using ds(2) [of a] by (auto simp: J' D)
  have E': "deps J' a = Map.empty \<longleftrightarrow> a \<in> set S' \<union> insert cur P" if "a \<in> fst ` set J0" for a
    using E [OF that] busy [of a] by (auto simp: J' S')
  have new: "\<exists>d. d \<in> set ?ds \<and> deps J0 d cur = Some c \<and> referencing_key_table c = d
      \<and> primary_key_table c = cur" if c: "c \<in> set ?new" for c
  proof -
    from c obtain d where d: "d \<in> set ?ds" "c = the (deps J d cur)" by auto
    from hits [OF d(1)] d(2) D [of d cur] curP have "deps J0 d cur = Some c" by auto
    with d(1) wf_joins_deps [OF wf this] show ?thesis by blast
  qed
  have old: "primary_key_table c \<in> P" if "c \<in> set out" for c
    using that wf_joins_deps [OF wf] by (auto simp: out(1) emitted_def)
  have em: "set out' = emitted J0 (insert cur P)"
  proof -
    have "set ?new = {c. \<exists>a. deps J0 a cur = Some c}"
    proof
      show "set ?new \<subseteq> {c. \<exists>a. deps J0 a cur = Some c}" using new by blast
      show "{c. \<exists>a. deps J0 a cur = Some c} \<subseteq> set ?new"
      proof
        fix c assume "c \<in> {c. \<exists>a. deps J0 a cur = Some c}"
        then obtain a where a: "deps J0 a cur = Some c" by blast
        with ds(2) [of a] D [of a cur] curP show "c \<in> set ?new" by force
      qed
    qed
    then show ?thesis by (auto simp: out' out(1) emitted_def)
  qed
  have block: "not_used_before c' c" if "c' \<in> set ?new" "c \<in> set ?new" for c' c
  proof -
    from new [OF that(2)] obtain d where "d \<in> set ?ds" "referencing_key_table c = d" by blast
    with busy [of d] new [OF that(1)] show ?thesis by (auto simp: not_used_before_def)
  qed
  have self: "\<forall>c \<in> set out'. not_used_before c c"
    unfolding out' set_append using block out(5) by blast
  have sorted: "sorted_wrt not_used_before out'"
    unfolding out' sorted_wrt_append
  proof (intro conjI ballI out(3))
    from block show "sorted_wrt not_used_before ?new" by (simp add: sorted_wrt_iff_nth_less)
    fix c' c assume "c' \<in> set out" "c \<in> set ?new"
    from new [OF \<open>c \<in> set ?new\<close>] obtain d where "d \<in> set ?ds" "referencing_key_table c = d"
      by blast
    with busy [of d] old [OF \<open>c' \<in> set out\<close>] show "not_used_before c' c"
      by (auto simp: not_used_before_def)
  qed
  have dist: "distinct out'"
  proof -
    have "inj_on (\<lambda>d. the (deps J d cur)) (set ?ds)"
    proof (rule inj_onI)
      fix d e assume de: "d \<in> set ?ds" "e \<in> set ?ds" "the (deps J d cur) = the (deps J e cur)"
      then obtain c where "deps J0 d cur = Some c" "deps J0 e cur = Some c"
        using hits D curP by (metis option.exhaust_sel)
      with wf_joins_deps(1) [OF wf] show "d = e" by metis
    qed
    with ds(1) have "distinct ?new" using distinct_map [of "\<lambda>d. the (deps J d cur)" ?ds] by (rule_tac iffD2) blast+
    moreover have "set out \<inter> set ?new = {}" using old new curP by (metis disjoint_iff)
    ultimately show ?thesis using out(2) by (simp add: out')
  qed
  have once: "introduced_once out'"
    unfolding out' by (rule introduced_once_append [OF out(4)]) (use new old curP in blast)+
  have "distinct S'" "set S' \<inter> insert cur P = {}" "set S' \<subseteq> fst ` set J0"
    using ds(1) busy dS curS keyS by (auto simp: S')
  with sk sk' D' E' em dist sorted once self show ?thesis by (simp add: topo_inv_def)
qed

lemma topo_inv_init:
  assumes "wf_joins J0" shows "topo_inv J0 {} J0 (rev (start_nodes J0)) []"
proof -
  have d: "distinct (map fst J0)" using assms by (simp add: wf_joins_def)
  have "distinct (start_nodes J0)"
    using d unfolding start_nodes_def by (rule distinct_map_filter)
  moreover have "deps J0 a = Map.empty \<longleftrightarrow> a \<in> set (start_nodes J0)" if "a \<in> fst ` set J0" for a
  proof -
    from that obtain n where n: "(a, n) \<in> set J0" by auto
    with d have m: "map_of J0 a = Some n" by (rule map_of_is_SomeI)
    have "a \<in> set (start_nodes J0) \<longleftrightarrow> dependencies n = []"
    proof
      assume "a \<in> set (start_nodes J0)"
      then obtain n' where "(a, n') \<in> set J0" "dependencies n' = []" by (auto simp: start_nodes_def)
      with n d show "dependencies n = []" by (metis eq_key_imp_eq_value)
    next
      assume "dependencies n = []"
      with n have "(a, n) \<in> set (filter (\<lambda>(_, n). dependencies n = []) J0)" by simp
      then show "a \<in> set (start_nodes J0)" unfolding start_nodes_def by force
    qed
    with deps_empty_iff [OF m] show ?thesis by simp
  qed
  ultimately show ?thesis
    by (auto simp: topo_inv_def emitted_def introduced_once_def start_nodes_def)
qed

lemma topo_inv_run:
  assumes "wf_joins J0" "topo_inv J0 P J S out"
  shows "\<exists>P' J'. topo_inv J0 P' J' [] (sort_joins (J, S, out))"
  using assms(2)
proof (induction "(J, S, out)" arbitrary: J S out P rule: sort_joins.induct)
  case (1 joins out)
  then show ?case by auto
next
  case (2 joins cur stack out)
  have "map fst joins = map fst J0"
    using "2.prems" skeleton_keys by (metis topo_inv_def)
  then have "cur \<in> fst ` set joins"
    using "2.prems" by (auto simp: topo_inv_def simp flip: set_map)
  then obtain node where node: "map_of joins cur = Some node"
    by (metis map_of_eq_None_iff not_None_eq)
  obtain J' S' out' where v: "visit_dependents cur (map fst (dependents node)) (joins, stack, out) = (J', S', out')"
    by (cases "visit_dependents cur (map fst (dependents node)) (joins, stack, out)")
  from topo_inv_step [OF assms(1) "2.prems" node v]
  have "topo_inv J0 (insert cur P) J' S' out'" .
  from "2.hyps"(2) [OF node v this] node v show ?case by simp
qed


section \<open>The sorted joins\<close>

text \<open>Every join of the graph.\<close>

definition all_joins :: "join_map \<Rightarrow> join_condition set" where
  "all_joins J = {c. \<exists>a b. deps J a b = Some c}"

lemma sorted_joins_result:
  assumes "wf_joins J"
  obtains P J' where "topo_inv J P J' [] (rev (get_topologically_sorted_joins J))"
proof -
  from topo_inv_run [OF assms topo_inv_init [OF assms]] obtain P J'
    where "topo_inv J P J' [] (sort_joins (J, rev (start_nodes J), []))" by blast
  then have "topo_inv J P J' [] (rev (get_topologically_sorted_joins J))"
    by (simp add: get_topologically_sorted_joins_def)
  then show ?thesis by (rule that)
qed

text \<open>The graph has no cycle: the relation from a table to the tables it depends on.\<close>

definition dependency_rel :: "join_map \<Rightarrow> (string \<times> string) set" where
  "dependency_rel J = {(b, a). deps J a b \<noteq> None}"

lemma acyclic_all_taken:
  assumes wf: "wf_joins J" and rel: "wf (dependency_rel J)" and inv: "topo_inv J P J' [] out"
    and a: "a \<in> fst ` set J"
  shows "a \<in> P"
  using rel a
proof (induction a rule: wf_induct_rule)
  case (less a)
  have "deps J' a b = None" for b
  proof (cases "deps J a b")
    case (Some c)
    then have "(b, a) \<in> dependency_rel J" "b \<in> fst ` set J"
      using wf_joins_key [OF wf] by (auto simp: dependency_rel_def)
    with less.IH have "b \<in> P" by blast
    with inv show ?thesis by (simp add: topo_inv_def)
  next
    case None
    with inv show ?thesis by (simp add: topo_inv_def)
  qed
  then have "deps J' a = Map.empty" by auto
  with inv less.prems show ?case by (auto simp: topo_inv_def)
qed

lemma sorted_joins_taken:
  assumes "topo_inv J P J' [] (rev (get_topologically_sorted_joins J))"
  shows "set (get_topologically_sorted_joins J) = emitted J P"
    and "distinct (get_topologically_sorted_joins J)"
    and "distinct (remdups_adj (map primary_key_table (get_topologically_sorted_joins J)))"
proof -
  have "rev (map primary_key_table (get_topologically_sorted_joins J))
      = map primary_key_table (rev (get_topologically_sorted_joins J))" by (rule rev_map)
  with assms have "distinct (remdups_adj (rev (map primary_key_table (get_topologically_sorted_joins J))))"
    by (simp add: topo_inv_def introduced_once_def)
  then show "distinct (remdups_adj (map primary_key_table (get_topologically_sorted_joins J)))"
    by (simp only: remdups_adj_rev distinct_rev)
qed (use assms in \<open>simp_all add: topo_inv_def\<close>)

lemma emitted_all:
  assumes "wf_joins J" "wf (dependency_rel J)" "topo_inv J P J' [] out"
  shows "emitted J P = all_joins J"
proof (intro set_eqI iffI)
  fix c assume "c \<in> all_joins J"
  then obtain a b where c: "deps J a b = Some c" by (auto simp: all_joins_def)
  from acyclic_all_taken [OF assms wf_joins_key [OF assms(1) c]] c
  show "c \<in> emitted J P" by (auto simp: emitted_def)
qed (auto simp: emitted_def all_joins_def)

section \<open>The join clauses\<close>

text \<open>Maximal runs of joins on one primary key table, and the clause of a run.\<close>

fun join_groups :: "join_condition list \<Rightarrow> join_condition list list" where
  "join_groups [] = []"
| "join_groups (c # cs) =
     (case join_groups cs of
        [] \<Rightarrow> [[c]]
      | g # gs \<Rightarrow> if primary_key_table (hd g) = primary_key_table c then (c # g) # gs else [c] # g # gs)"

definition group_table :: "join_condition list \<Rightarrow> string" where
  "group_table g = primary_key_table (hd g)"

definition clause_text :: "join_condition list \<Rightarrow> string" where
  "clause_text g = ''INNER JOIN '' @ group_table g @ '' ON ''
     @ join '' AND '' (map join_condition_to_string g)"

definition and_conditions :: "join_condition list \<Rightarrow> string" where
  "and_conditions g = concat (map (\<lambda>c. '' AND '' @ join_condition_to_string c) g)"

lemma concat_join_groups: "concat (join_groups cs) = cs"
  by (induction cs) (auto split: list.splits)

lemma join_groups_uniform:
  "g \<in> set (join_groups cs) \<Longrightarrow> g \<noteq> [] \<and> (\<forall>c \<in> set g. primary_key_table c = group_table g)"
proof (induction cs arbitrary: g)
  case (Cons c cs)
  show ?case
  proof (cases "join_groups cs")
    case Nil
    with Cons.prems show ?thesis by (simp add: group_table_def)
  next
    case (Cons h hs)
    with Cons.IH [of h] have "\<forall>c \<in> set h. primary_key_table c = group_table h" by simp
    with Cons Cons.prems Cons.IH [of g] show ?thesis
      by (auto simp: group_table_def split: if_splits)
  qed
qed simp

lemma group_tables: "map group_table (join_groups cs) = remdups_adj (map primary_key_table cs)"
proof (induction cs)
  case (Cons c cs)
  show ?case
  proof (cases cs)
    case (Cons c' cs')
    then have "join_groups cs \<noteq> []" using concat_join_groups [of cs] by auto
    then obtain g gs where g: "join_groups cs = g # gs" by (cases "join_groups cs") auto
    with concat_join_groups [of cs] join_groups_uniform [of g cs] \<open>cs = c' # cs'\<close>
    have "group_table g = primary_key_table c'" by (cases g) (auto simp: group_table_def)
    with g Cons.IH \<open>cs = c' # cs'\<close> show ?thesis by (auto simp: group_table_def)
  qed (simp add: group_table_def)
qed simp

lemma clause_text_Cons:
  "clause_text (c # g) = ''INNER JOIN '' @ primary_key_table c @ '' ON ''
     @ join_condition_to_string c @ and_conditions g"
  by (simp add: clause_text_def group_table_def and_conditions_def join_eq_concat o_def)

lemma join_clauses_groups:
  "join_clauses last_table (pre @ [p]) cs = pre @ (case join_groups cs of
       [] \<Rightarrow> [p]
     | g # gs \<Rightarrow> if group_table g = last_table then (p @ and_conditions g) # map clause_text gs
                else p # map clause_text (g # gs))"
proof (induction cs arbitrary: last_table pre p)
  case Nil
  then show ?case by simp
next
  case (Cons c cs)
  note same = Cons.IH [of last_table pre "p @ '' AND '' @ join_condition_to_string c"]
  note fresh = Cons.IH [of "primary_key_table c" "pre @ [p]"
      "''INNER JOIN '' @ primary_key_table c @ '' ON '' @ join_condition_to_string c"]
  show ?case
  proof (cases "join_groups cs")
    case Nil
    with same fresh show ?thesis
      by (simp add: clause_text_Cons group_table_def and_conditions_def)
  next
    case (Cons g gs)
    with same fresh show ?thesis
      by (simp add: clause_text_Cons group_table_def and_conditions_def)
  qed
qed

lemma join_clauses_eq:
  assumes "[] \<notin> primary_key_table ` set cs"
  shows "join_clauses [] [] cs = map clause_text (join_groups cs)"
proof (cases cs)
  case (Cons c cs')
  with assms have "primary_key_table c \<noteq> []" by auto
  with Cons show ?thesis
    using join_clauses_groups [of "primary_key_table c" "[]"
        "''INNER JOIN '' @ primary_key_table c @ '' ON '' @ join_condition_to_string c" cs']
    by (auto simp: clause_text_Cons group_table_def and_conditions_def split: list.splits)
qed simp

section \<open>Properties\<close>

text \<open>Tables \<open>tx\<close>, \<open>block\<close> and \<open>account\<close>: a transaction refers to both others, a block to an account.\<close>

definition demo_join :: "string \<Rightarrow> string \<Rightarrow> join_condition" where
  "demo_join a b = \<lparr>referencing_key_table = a, referencing_key_col = b,
     primary_key_table = b, primary_key_col = ''id''\<rparr>"

definition demo_joins :: join_map where
  "demo_joins =
     [(''account'', \<lparr>dependencies = [], dependents =
         [(''tx'', demo_join ''tx'' ''account''), (''block'', demo_join ''block'' ''account'')]\<rparr>),
      (''tx'', \<lparr>dependencies =
         [(''block'', demo_join ''tx'' ''block''), (''account'', demo_join ''tx'' ''account'')],
         dependents = []\<rparr>),
      (''block'', \<lparr>dependencies = [(''account'', demo_join ''block'' ''account'')],
         dependents = [(''tx'', demo_join ''tx'' ''block'')]\<rparr>)]"

lemma demo_deps: "deps demo_joins a b =
    (if a = ''tx'' \<and> b \<in> {''block'', ''account''} \<or> a = ''block'' \<and> b = ''account''
     then Some (demo_join a b) else None)"
  by (auto simp: deps_def demo_joins_def)

lemma demo_dpts: "dpts demo_joins b a = deps demo_joins a b"
  by (auto simp: deps_def dpts_def demo_joins_def)

lemma demo_wf: "wf_joins demo_joins"
  unfolding wf_joins_def demo_dpts
  by (intro conjI) (auto simp: demo_deps demo_join_def, auto simp: demo_joins_def)

lemma demo_acyclic: "wf (dependency_rel demo_joins)"
proof (rule wf_subset [OF wf_measure])
  show "dependency_rel demo_joins \<subseteq> measure (\<lambda>t. if t = ''tx'' then 2 else if t = ''block'' then 1 else 0)"
    by (auto simp: dependency_rel_def demo_deps split: if_splits)
qed

lemma demo_sorted: "get_topologically_sorted_joins demo_joins =
    [demo_join ''tx'' ''block'', demo_join ''block'' ''account'', demo_join ''tx'' ''account'']"
  by code_simp

text \<open>
  The sort of the joins introduces a table before the joins that use it: no join, and none
  after it, has as its primary key table the table that the join refers from. (Postgres rejects an
  \<^verbatim>\<open>ON\<close> that names a table joined later.)
\<close>

theorem joins_introduce_tables_first:
  assumes "wf_joins J"
    and "get_topologically_sorted_joins J = xs @ c # ys" and "c' \<in> set (c # ys)"
  shows "primary_key_table c' \<noteq> referencing_key_table c"
proof -
  from sorted_joins_result [OF assms(1)] obtain P J'
    where "topo_inv J P J' [] (rev (get_topologically_sorted_joins J))" .
  with assms(2,3) show ?thesis
    by (auto simp: topo_inv_def sorted_wrt_append not_used_before_def)
qed

lemma joins_introduce_tables_first_witness:
  "wf_joins demo_joins
   \<and> get_topologically_sorted_joins demo_joins = [demo_join ''tx'' ''block'']
       @ demo_join ''block'' ''account'' # [demo_join ''tx'' ''account'']
   \<and> primary_key_table (demo_join ''tx'' ''account'') \<noteq> referencing_key_table (demo_join ''block'' ''account'')"
proof (intro conjI)
  show split: "get_topologically_sorted_joins demo_joins = [demo_join ''tx'' ''block'']
       @ demo_join ''block'' ''account'' # [demo_join ''tx'' ''account'']" by (simp add: demo_sorted)
  show "primary_key_table (demo_join ''tx'' ''account'') \<noteq> referencing_key_table (demo_join ''block'' ''account'')"
    by (rule joins_introduce_tables_first [OF demo_wf split]) simp
qed (rule demo_wf)

text \<open>
  When the join graph has no cycle, the sort loses no join and repeats none.
\<close>

theorem acyclic_joins_complete:
  assumes "wf_joins J" and "wf (dependency_rel J)"
  shows "set (get_topologically_sorted_joins J) = all_joins J \<and> distinct (get_topologically_sorted_joins J)"
proof -
  from sorted_joins_result [OF assms(1)] obtain P J'
    where inv: "topo_inv J P J' [] (rev (get_topologically_sorted_joins J))" .
  from sorted_joins_taken [OF inv] emitted_all [OF assms inv] show ?thesis by simp
qed

lemma acyclic_joins_complete_witness:
  "wf_joins demo_joins \<and> wf (dependency_rel demo_joins)
   \<and> all_joins demo_joins = {demo_join ''tx'' ''block'', demo_join ''block'' ''account'', demo_join ''tx'' ''account''}"
  using acyclic_joins_complete [OF demo_wf demo_acyclic] demo_wf demo_acyclic by (simp add: demo_sorted)

text \<open>
  The join text names each primary key table once: the clauses are those of the groups of
  sorted joins with a common primary key table, which partition the sorted joins in order and
  belong to distinct tables, and the conditions of a group are joined by \<^verbatim>\<open>AND\<close>.
\<close>

theorem join_clauses_once_per_table:
  assumes "wf_joins J" and "[] \<notin> fst ` set J"
  shows "joins_text J = join '' '' (map clause_text (join_groups (get_topologically_sorted_joins J)))
    \<and> concat (join_groups (get_topologically_sorted_joins J)) = get_topologically_sorted_joins J
    \<and> distinct (map group_table (join_groups (get_topologically_sorted_joins J)))"
proof -
  from sorted_joins_result [OF assms(1)] obtain P J'
    where inv: "topo_inv J P J' [] (rev (get_topologically_sorted_joins J))" .
  note taken = sorted_joins_taken [OF inv]
  have "[] \<notin> primary_key_table ` set (get_topologically_sorted_joins J)"
  proof
    assume "[] \<in> primary_key_table ` set (get_topologically_sorted_joins J)"
    then obtain a b c where c: "deps J a b = Some c" "primary_key_table c = []"
      by (auto simp: taken(1) emitted_def)
    with wf_joins_deps(2) [OF assms(1) c(1)] wf_joins_key [OF assms(1) c(1)] assms(2) show False by simp
  qed
  then show ?thesis
    using taken(3) by (simp add: joins_text_def Let_def join_clauses_eq concat_join_groups group_tables)
qed

lemma join_clauses_once_per_table_witness:
  "wf_joins demo_joins \<and> [] \<notin> fst ` set demo_joins
   \<and> joins_text demo_joins = join '' '' (map clause_text
       [[demo_join ''tx'' ''block''], [demo_join ''block'' ''account'', demo_join ''tx'' ''account'']])"
proof -
  have n: "[] \<notin> fst ` set demo_joins" by (simp add: demo_joins_def)
  have g: "join_groups (get_topologically_sorted_joins demo_joins)
      = [[demo_join ''tx'' ''block''], [demo_join ''block'' ''account'', demo_join ''tx'' ''account'']]"
    by (simp add: demo_sorted demo_join_def)
  show ?thesis using join_clauses_once_per_table [OF demo_wf n] demo_wf n by (simp only: g simp_thms)
qed

end
