(* ===== verification/Fragments.thy ===== *)
theory Fragments
  imports Join_Order
begin

text \<open>
  \<^verbatim>\<open>fuel-indexer-graphql/src/graphql.rs\<close>, first half: a parsed document is checked against the
  schema (\<^verbatim>\<open>Selections::new\<close>), its fragments are resolved until none is open
  (\<^verbatim>\<open>process_fragments\<close>) and its operations are built (\<^verbatim>\<open>GraphqlQueryBuilder::build\<close>).
  The resolution loop has no bound in the code: it is an option-valued partial function, and
  that it returns is a theorem.
\<close>

section \<open>Selections\<close>

fun is_spread :: "selection \<Rightarrow> bool" where
  "is_spread (FragmentSpread _ _) = True"
| "is_spread _ = False"

text \<open>One iteration of the loop of \<^verbatim>\<open>Selections::new\<close>, and the whole of it.\<close>

fun selection_new :: "schema \<Rightarrow> string \<Rightarrow> selection \<Rightarrow> gselection gresult" where
  "selection_new s ft (Field alias name arguments _ items) =
     rbind (ok_or (field_type s ft name) (UnrecognizedField ft name)) (\<lambda>subfield_type.
     rbind (mapM (\<lambda>(arg, v). parse_argument_into_param subfield_type arg v s) arguments) (\<lambda>params.
     rbind (mapM (selection_new s subfield_type) items) (\<lambda>subs.
     Inr (GField name params (Selections subfield_type (list_ex is_spread items) subs) alias))))"
| "selection_new s ft (FragmentSpread name _) = Inr (GFragment name)"
| "selection_new s ft (InlineFragment _ _ _) = Inl (Err SelectionNotSupported)"

definition selections_new :: "schema \<Rightarrow> string \<Rightarrow> selection_set \<Rightarrow> gselections gresult" where
  "selections_new s ft items =
     rbind (mapM (selection_new s ft) items) (\<lambda>sels. Inr (Selections ft (list_ex is_spread items) sels))"

section \<open>Fragments\<close>

definition fragment_new :: "schema \<Rightarrow> string \<Rightarrow> selection_set \<Rightarrow> fragment gresult" where
  "fragment_new s cond items =
     rbind (selections_new s cond items) (\<lambda>sels. Inr \<lparr>fr_cond = cond, fr_selections = sels\<rparr>)"

definition check_cond :: "fragment \<Rightarrow> string \<Rightarrow> bool" where
  "check_cond f cond \<longleftrightarrow> fr_cond f = cond"

definition has_fragments :: "fragment \<Rightarrow> bool" where
  "has_fragments f = gs_has_fragments (fr_selections f)"

text \<open>
  \<^verbatim>\<open>resolve_fragments\<close>: of a selection, the selections that replace it, the number of spreads
  resolved and whether a spread stays open; of a selection set, the new set and that number.
\<close>

fun resolve_selection ::
      "schema \<Rightarrow> string \<Rightarrow> (string \<rightharpoonup> fragment) \<Rightarrow> gselection \<Rightarrow> (gselection list \<times> nat \<times> bool) gresult"
  and resolve_fragments ::
      "schema \<Rightarrow> string \<Rightarrow> (string \<rightharpoonup> fragment) \<Rightarrow> gselections \<Rightarrow> (gselections \<times> nat) gresult" where
  "resolve_selection s cond frs (GFragment name) =
     (case frs name of
        Some frag \<Rightarrow>
          if \<not> check_cond frag cond then Inl (Err (InvalidFragmentSelection frag cond))
          else Inr (gs_selections (fr_selections frag), 1, False)
      | None \<Rightarrow> Inr ([GFragment name], 0, True))"
| "resolve_selection s cond frs (GField name params sub alias) =
     rbind (expect (field_type s cond name) ''Unable to retrieve field type'') (\<lambda>ft.
     rbind (resolve_fragments s ft frs sub) (\<lambda>(sub', _).
     Inr ([GField name params sub' alias], 0, False)))"
| "resolve_fragments s cond frs (Selections t hf sels) =
     rbind (mapM (resolve_selection s cond frs) sels) (\<lambda>rs.
     Inr (Selections t (list_ex (\<lambda>(_, _, open_spread). open_spread) rs) (concat (map fst rs)),
          sum_list (map (\<lambda>(_, n, _). n) rs)))"

definition fragment_resolve ::
    "schema \<Rightarrow> (string \<rightharpoonup> fragment) \<Rightarrow> fragment \<Rightarrow> (fragment \<times> nat) gresult" where
  "fragment_resolve s frs f =
     rbind (resolve_fragments s (fr_cond f) frs (fr_selections f)) (\<lambda>(sels, n).
     Inr (f\<lparr>fr_selections := sels\<rparr>, n))"

section \<open>The query builder\<close>

type_synonym fragment_map = "string \<rightharpoonup> fragment"

text \<open>The first loop of \<^verbatim>\<open>process_fragments\<close>: closed fragments are stored, open ones queued.\<close>

definition register_fragment ::
    "schema \<Rightarrow> fragment_map \<times> (string \<times> fragment) list \<Rightarrow> query_definition
      \<Rightarrow> (fragment_map \<times> (string \<times> fragment) list) gresult" where
  "register_fragment s st def =
     (case def of
        Operation _ \<Rightarrow> Inr st
      | Fragment frag \<Rightarrow>
          if \<not> check_type s (frag_type_condition frag)
          then Inl (Err (UnrecognizedType (frag_type_condition frag)))
          else rbind (fragment_new s (frag_type_condition frag) (frag_selection_set frag)) (\<lambda>f.
            Inr (if has_fragments f then (fst st, snd st @ [(frag_name frag, f)])
                 else ((fst st)(frag_name frag \<mapsto> f), snd st))))"

text \<open>One queued fragment, and one pass of the resolution loop.\<close>

definition resolve_one ::
    "schema \<Rightarrow> fragment_map \<times> nat \<times> (string \<times> fragment) list \<Rightarrow> string \<times> fragment
      \<Rightarrow> (fragment_map \<times> nat \<times> (string \<times> fragment) list) gresult" where
  "resolve_one s st nf =
     (case (st, nf) of ((frs, resolved, remaining), (name, frag)) \<Rightarrow>
        rbind (fragment_resolve s frs frag) (\<lambda>(frag', n).
        Inr (if has_fragments frag' then (frs, resolved + n, remaining @ [(name, frag')])
             else (frs(name \<mapsto> frag'), resolved + n, remaining))))"

definition resolve_pass ::
    "schema \<Rightarrow> fragment_map \<Rightarrow> (string \<times> fragment) list
      \<Rightarrow> (fragment_map \<times> nat \<times> (string \<times> fragment) list) gresult" where
  "resolve_pass s frs todo = foldM (resolve_one s) (frs, 0, []) todo"

partial_function (option) resolve_loop ::
    "schema \<Rightarrow> fragment_map \<Rightarrow> (string \<times> fragment) list \<Rightarrow> fragment_map gresult option" where
  "resolve_loop s frs todo =
     (case resolve_pass s frs todo of
        Inl e \<Rightarrow> Some (Inl e)
      | Inr (frs', resolved, remaining) \<Rightarrow>
          if remaining \<noteq> [] \<and> resolved = 0 then Some (Inl (Err FragmentResolverFailed))
          else if remaining = [] then Some (Inr frs')
          else resolve_loop s frs' remaining)"

definition process_fragments :: "schema \<Rightarrow> query_document \<Rightarrow> fragment_map gresult option" where
  "process_fragments s doc =
     (case foldM (register_fragment s) (Map.empty, []) doc of
        Inl e \<Rightarrow> Some (Inl e)
      | Inr (frs, todo) \<Rightarrow> resolve_loop s frs todo)"

text \<open>An operation of the compiled query (the unused \<^verbatim>\<open>_name\<close> is kept).\<close>

record operation =
  o_namespace :: string
  o_identifier :: string
  o_name :: string
  o_selections :: gselections

definition operation_new :: "schema \<Rightarrow> string \<Rightarrow> gselections \<Rightarrow> operation" where
  "operation_new s name sels = \<lparr>o_namespace = s_namespace s, o_identifier = s_identifier s,
     o_name = name, o_selections = sels\<rparr>"

definition process_operation ::
    "schema \<Rightarrow> fragment_map \<Rightarrow> operation_definition \<Rightarrow> operation gresult" where
  "process_operation s frs op =
     (case op of
        SelectionSet items \<Rightarrow>
          rbind (selections_new s (s_query s) items) (\<lambda>sels. Inr (operation_new s ''Unnamed'' sels))
      | Query q \<Rightarrow>
          rbind (selections_new s (s_query s) (op_selection_set q)) (\<lambda>sels.
          rbind (resolve_fragments s (s_query s) frs sels) (\<lambda>(sels', _).
          Inr (operation_new s (case op_name q of None \<Rightarrow> ''Unnamed'' | Some n \<Rightarrow> n) sels')))
      | Mutation _ \<Rightarrow> Inl (Err (OperationNotSupported ''Mutation''))
      | Subscription _ \<Rightarrow> Inl (Err (OperationNotSupported ''Subscription'')))"

fun operations_of :: "query_document \<Rightarrow> operation_definition list" where
  "operations_of [] = []"
| "operations_of (Operation op # doc) = op # operations_of doc"
| "operations_of (Fragment _ # doc) = operations_of doc"

definition process_operations ::
    "schema \<Rightarrow> query_document \<Rightarrow> fragment_map \<Rightarrow> operation list gresult" where
  "process_operations s doc frs = mapM (process_operation s frs) (operations_of doc)"

definition build :: "schema \<Rightarrow> query_document \<Rightarrow> operation list gresult option" where
  "build s doc = map_option (\<lambda>r. rbind r (process_operations s doc)) (process_fragments s doc)"

section \<open>What the builder guarantees\<close>

text \<open>
  A selection that fits type \<open>cond\<close>: each field exists in the schema, its sub-selections fit the
  field's type, and its filters name columns of that type.
\<close>

fun param_ok :: "schema \<Rightarrow> string \<Rightarrow> param_type \<Rightarrow> bool" where
  "param_ok s ft (Filter f) = filter_ok s ft f"
| "param_ok s ft _ = True"

fun well_typed :: "schema \<Rightarrow> string \<Rightarrow> gselection \<Rightarrow> bool"
  and well_typeds :: "schema \<Rightarrow> string \<Rightarrow> gselections \<Rightarrow> bool" where
  "well_typed s cond (GFragment _) \<longleftrightarrow> True"
| "well_typed s cond (GField name params sub _) \<longleftrightarrow>
     (case field_type s cond name of
        None \<Rightarrow> False
      | Some ft \<Rightarrow> list_all (param_ok s ft) params \<and> well_typeds s ft sub)"
| "well_typeds s cond (Selections _ _ sels) \<longleftrightarrow> (\<forall>x \<in> set sels. well_typed s cond x)"

fun is_open :: "gselection \<Rightarrow> bool" where
  "is_open (GFragment _) = True"
| "is_open (GField _ _ _ _) = False"

definition open_spreads :: "gselection list \<Rightarrow> nat" where
  "open_spreads sels = length (filter is_open sels)"

lemma open_spreads_simps [simp]:
  "open_spreads [] = 0"
  "open_spreads (x # xs) = (if is_open x then 1 else 0) + open_spreads xs"
  "open_spreads (xs @ ys) = open_spreads xs + open_spreads ys"
  by (simp_all add: open_spreads_def)

text \<open>The \<^verbatim>\<open>has_fragments\<close> flag of a selection set tells whether a spread is open in it.\<close>

fun flag_ok :: "gselections \<Rightarrow> bool" where
  "flag_ok (Selections _ hf sels) \<longleftrightarrow> hf = (open_spreads sels \<noteq> 0)"

definition fragment_ok :: "schema \<Rightarrow> fragment \<Rightarrow> bool" where
  "fragment_ok s f \<longleftrightarrow> well_typeds s (fr_cond f) (fr_selections f) \<and> flag_ok (fr_selections f)"

definition closed :: "fragment \<Rightarrow> bool" where
  "closed f \<longleftrightarrow> open_spreads (gs_selections (fr_selections f)) = 0"

definition fragments_ok :: "schema \<Rightarrow> fragment_map \<Rightarrow> bool" where
  "fragments_ok s frs \<longleftrightarrow> (\<forall>f \<in> ran frs. fragment_ok s f \<and> closed f)"

lemma has_fragments_iff: "fragment_ok s f \<Longrightarrow> has_fragments f \<longleftrightarrow> \<not> closed f"
  by (cases "fr_selections f") (auto simp: fragment_ok_def has_fragments_def closed_def)

lemma fragments_ok_update:
  "fragments_ok s frs \<Longrightarrow> fragment_ok s f \<Longrightarrow> closed f \<Longrightarrow> fragments_ok s (frs(n \<mapsto> f))"
  by (auto simp: fragments_ok_def ran_def)

subsection \<open>Checking a selection set\<close>

lemma params_ok:
  assumes "mapM (\<lambda>(arg, v). parse_argument_into_param ft arg v s) arguments = Inr params"
  shows "list_all (param_ok s ft) params"
proof -
  have "\<forall>p \<in> set params. param_ok s ft p"
  proof (rule mapM_Inr_all [OF assms])
    fix x p assume "(case x of (arg, v) \<Rightarrow> parse_argument_into_param ft arg v s) = Inr p"
    then show "param_ok s ft p"
      by (cases x; cases p) (auto dest: filter_ok_parse_argument)
  qed
  then show ?thesis by (simp add: list_all_iff)
qed

lemma selection_new_ok:
  "selection_new s ft it = Inr g \<Longrightarrow> well_typed s ft g \<and> is_open g = is_spread it"
proof (induction s ft it arbitrary: g rule: selection_new.induct)
  case (1 s ft al name arguments ds items)
  from "1.prems" obtain t params subs where
    t: "field_type s ft name = Some t"
    and p: "mapM (\<lambda>(arg, v). parse_argument_into_param t arg v s) arguments = Inr params"
    and subs: "mapM (selection_new s t) items = Inr subs"
    and g: "g = GField name params (Selections t (list_ex is_spread items) subs) al" by auto
  from mapM_Inr_all [OF subs, of "well_typed s t"] "1.IH" [of t params] t p
  have "\<forall>x \<in> set subs. well_typed s t x" by auto
  with t params_ok [OF p] show ?case by (simp add: g)
qed auto

lemma open_spreads_new:
  "mapM (selection_new s ft) items = Inr sels \<Longrightarrow> list_ex is_spread items \<longleftrightarrow> open_spreads sels \<noteq> 0"
proof (induction items arbitrary: sels)
  case (Cons it items)
  then obtain g gs where "selection_new s ft it = Inr g" "mapM (selection_new s ft) items = Inr gs"
    "sels = g # gs" by auto
  with Cons.IH [of gs] selection_new_ok [of s ft it g] show ?case by auto
qed simp

lemma selections_new_ok:
  assumes "selections_new s ft items = Inr sels"
  shows "well_typeds s ft sels \<and> flag_ok sels"
proof -
  from assms obtain gs where gs: "mapM (selection_new s ft) items = Inr gs"
    "sels = Selections ft (list_ex is_spread items) gs" by (auto simp: selections_new_def)
  from mapM_Inr_all [OF gs(1), of "well_typed s ft"] selection_new_ok
  have "\<forall>x \<in> set gs. well_typed s ft x" by blast
  with open_spreads_new [OF gs(1)] show ?thesis by (simp add: gs(2))
qed

lemma no_panic_selection_new: "no_panic (selection_new s ft it)"
proof (induction s ft it rule: selection_new.induct)
  case (1 s ft al name arguments ds items)
  then show ?case
    by (auto intro!: no_panic_rbind no_panic_mapM)
qed auto

lemma no_panic_selections_new [simp]: "no_panic (selections_new s ft items)"
  unfolding selections_new_def by (intro no_panic_rbind no_panic_mapM no_panic_selection_new) simp

lemma fragment_new_ok: "fragment_new s cond items = Inr f \<Longrightarrow> fragment_ok s f"
  by (auto simp: fragment_new_def fragment_ok_def dest: selections_new_ok)

lemma no_panic_fragment_new [simp]: "no_panic (fragment_new s cond items)"
  unfolding fragment_new_def by (intro no_panic_rbind) simp_all

subsection \<open>Resolving spreads\<close>

lemma list_ex_open:
  assumes "list_all2 (\<lambda>x (gs, n, b). open_spreads gs + n = (if is_open x then 1 else 0)
      \<and> b = (open_spreads gs \<noteq> 0)) sels rs"
  shows "open_spreads (concat (map fst rs)) + sum_list (map (\<lambda>(_, n, _). n) rs) = open_spreads sels
    \<and> list_ex (\<lambda>(_, _, b). b) rs = (open_spreads (concat (map fst rs)) \<noteq> 0)"
  using assms by (induction rule: list_all2_induct) auto

lemma resolve_ok:
  "fragments_ok s frs \<Longrightarrow> well_typed s cond g \<Longrightarrow> resolve_selection s cond frs g = Inr (gs, n, b)
    \<Longrightarrow> (\<forall>x \<in> set gs. well_typed s cond x)
      \<and> open_spreads gs + n = (if is_open g then 1 else 0) \<and> b = (open_spreads gs \<noteq> 0)"
  "fragments_ok s frs \<Longrightarrow> well_typeds s cond sels \<Longrightarrow> resolve_fragments s cond frs sels = Inr (sels', m)
    \<Longrightarrow> well_typeds s cond sels' \<and> flag_ok sels'
      \<and> open_spreads (gs_selections sels') + m = open_spreads (gs_selections sels)"
proof (induction s cond frs g and s cond frs sels arbitrary: gs n b and sels' m
    rule: resolve_selection_resolve_fragments.induct)
  case (1 s cond frs name)
  show ?case
  proof (cases "frs name")
    case (Some f)
    with "1.prems" have "fragment_ok s f" "closed f"
      by (auto simp: fragments_ok_def ran_def)
    with Some "1.prems" show ?thesis
      by (cases "fr_selections f")
        (auto simp: fragment_ok_def closed_def check_cond_def split: if_splits)
  qed (use "1.prems" in auto)
next
  case (2 s cond frs name params sub al)
  from "2.prems"(3) obtain ft sub' k where ft: "field_type s cond name = Some ft"
    and sub: "resolve_fragments s ft frs sub = Inr (sub', k)"
    and gs: "gs = [GField name params sub' al]" "n = 0" "\<not> b" by auto
  from "2.IH" [OF _ "2.prems"(1) _ sub] ft "2.prems"(2) have "well_typeds s ft sub'" by auto
  with ft gs "2.prems"(2) show ?case by simp
next
  case (3 s cond frs t hf sels)
  from "3.prems"(3) obtain rs where rs: "mapM (resolve_selection s cond frs) sels = Inr rs"
    and sels': "sels' = Selections t (list_ex (\<lambda>(_, _, b). b) rs) (concat (map fst rs))"
    and m: "m = sum_list (map (\<lambda>(_, n, _). n) rs)" by auto
  have each: "(\<forall>x \<in> set gs. well_typed s cond x)
      \<and> open_spreads gs + n = (if is_open g then 1 else 0) \<and> b = (open_spreads gs \<noteq> 0)"
    if "g \<in> set sels" "resolve_selection s cond frs g = Inr (gs, n, b)" for g gs n b
    using "3.IH" [OF that(1) "3.prems"(1) _ that(2)] "3.prems"(2) that(1) by simp
  have "list_all2 (\<lambda>x (gs, n, b). open_spreads gs + n = (if is_open x then 1 else 0)
      \<and> b = (open_spreads gs \<noteq> 0)) sels rs"
    using rs unfolding mapM_Inr_iff
    by (rule list.rel_mono_strong) (clarify, use each in blast)
  note counts = list_ex_open [OF this]
  have "\<forall>r \<in> set rs. \<forall>x \<in> set (fst r). well_typed s cond x"
    by (rule mapM_Inr_all [OF rs]) (use each in auto)
  with counts show ?case by (auto simp: sels' m)
qed

lemma no_panic_resolve:
  "fragments_ok s frs \<Longrightarrow> well_typed s cond g \<Longrightarrow> no_panic (resolve_selection s cond frs g)"
  "fragments_ok s frs \<Longrightarrow> well_typeds s cond sels \<Longrightarrow> no_panic (resolve_fragments s cond frs sels)"
proof (induction s cond frs g and s cond frs sels rule: resolve_selection_resolve_fragments.induct)
  case (2 s cond frs name params sub al)
  then obtain ft where "field_type s cond name = Some ft" "well_typeds s ft sub"
    by (auto split: option.splits)
  with 2 show ?case by (auto simp: expect_def intro!: no_panic_rbind)
qed (auto intro!: no_panic_rbind no_panic_mapM split: option.splits)

subsection \<open>The resolution loop\<close>

definition todo_ok :: "schema \<Rightarrow> (string \<times> fragment) list \<Rightarrow> bool" where
  "todo_ok s todo \<longleftrightarrow> (\<forall>(n, f) \<in> set todo. fragment_ok s f)"

definition todo_spreads :: "(string \<times> fragment) list \<Rightarrow> nat" where
  "todo_spreads todo = sum_list (map (\<lambda>(_, f). open_spreads (gs_selections (fr_selections f))) todo)"

lemma todo_simps [simp]:
  "todo_ok s []" "todo_ok s ((n, f) # todo) \<longleftrightarrow> fragment_ok s f \<and> todo_ok s todo"
  "todo_ok s (xs @ ys) \<longleftrightarrow> todo_ok s xs \<and> todo_ok s ys"
  "todo_spreads [] = 0"
  "todo_spreads ((n, f) # todo) = open_spreads (gs_selections (fr_selections f)) + todo_spreads todo"
  "todo_spreads (xs @ ys) = todo_spreads xs + todo_spreads ys"
  by (auto simp: todo_ok_def todo_spreads_def)

lemma fragments_ok_empty [simp]: "fragments_ok s Map.empty"
  by (simp add: fragments_ok_def)

lemma fragment_resolve_ok:
  assumes "fragments_ok s frs" "fragment_ok s f" "fragment_resolve s frs f = Inr (f', n)"
  shows "fragment_ok s f' \<and> open_spreads (gs_selections (fr_selections f')) + n
      = open_spreads (gs_selections (fr_selections f))"
  using assms resolve_ok(2) [OF assms(1), of "fr_cond f" "fr_selections f"]
  by (auto simp: fragment_resolve_def fragment_ok_def)

lemma resolve_one_ok:
  assumes "resolve_one s (frs, k, rest) (name, f) = Inr (frs', k', rest')"
    and "fragments_ok s frs" "todo_ok s rest" "fragment_ok s f"
  shows "fragments_ok s frs' \<and> todo_ok s rest'
    \<and> todo_spreads rest' + k' = todo_spreads rest + k + open_spreads (gs_selections (fr_selections f))"
proof -
  from assms(1) obtain f' n where r: "fragment_resolve s frs f = Inr (f', n)"
    and st: "(frs', k', rest') = (if has_fragments f' then (frs, k + n, rest @ [(name, f')])
             else (frs(name \<mapsto> f'), k + n, rest))" by (auto simp: resolve_one_def)
  note ok = fragment_resolve_ok [OF assms(2,4) r]
  with has_fragments_iff [of s f'] st assms(2,3) show ?thesis
    by (auto simp: closed_def intro: fragments_ok_update split: if_splits)
qed

lemma resolve_fold_ok:
  "foldM (resolve_one s) (frs, k, rest) todo = Inr (frs', k', rest') \<Longrightarrow> fragments_ok s frs
    \<Longrightarrow> todo_ok s rest \<Longrightarrow> todo_ok s todo
    \<Longrightarrow> fragments_ok s frs' \<and> todo_ok s rest'
      \<and> todo_spreads rest' + k' = todo_spreads rest + k + todo_spreads todo"
proof (induction todo arbitrary: frs k rest)
  case (Cons nf todo)
  obtain name f where nf: "nf = (name, f)" by (cases nf)
  from Cons.prems(1) obtain a b c where step: "resolve_one s (frs, k, rest) (name, f) = Inr (a, b, c)"
    and fold: "foldM (resolve_one s) (a, b, c) todo = Inr (frs', k', rest')"
    by (auto simp: nf)
  from resolve_one_ok [OF step] Cons.prems nf Cons.IH [OF fold] show ?case by simp
qed simp

lemma resolve_pass_ok:
  "resolve_pass s frs todo = Inr (frs', k, rest) \<Longrightarrow> fragments_ok s frs \<Longrightarrow> todo_ok s todo
    \<Longrightarrow> fragments_ok s frs' \<and> todo_ok s rest \<and> todo_spreads rest + k = todo_spreads todo"
  unfolding resolve_pass_def by (drule resolve_fold_ok) simp_all

lemma no_panic_resolve_fold:
  "fragments_ok s frs \<Longrightarrow> todo_ok s rest \<Longrightarrow> todo_ok s todo
    \<Longrightarrow> no_panic (foldM (resolve_one s) (frs, k, rest) todo)"
proof (induction todo arbitrary: frs k rest)
  case (Cons nf todo)
  obtain name f where nf: "nf = (name, f)" by (cases nf)
  have f: "fragment_ok s f" using Cons.prems(3) by (simp add: nf)
  show ?case
    unfolding foldM.simps nf
  proof (rule no_panic_rbind)
    have "no_panic (fragment_resolve s frs f)"
      unfolding fragment_resolve_def using Cons.prems(1) f
      by (intro no_panic_rbind no_panic_resolve(2)) (auto simp: fragment_ok_def)
    then show "no_panic (resolve_one s (frs, k, rest) (name, f))"
      by (auto simp: resolve_one_def intro!: no_panic_rbind)
    fix st assume step: "resolve_one s (frs, k, rest) (name, f) = Inr st"
    obtain a b c where "st = (a, b, c)" by (cases st)
    with resolve_one_ok [of s frs k rest name f a b c] step Cons.prems f Cons.IH [of a c b] nf
    show "no_panic (foldM (resolve_one s) st todo)" by simp
  qed
qed simp

text \<open>The loop returns, does not panic, and leaves only closed, well-typed fragments.\<close>

lemma resolve_loop_ok:
  "fragments_ok s frs \<Longrightarrow> todo_ok s todo
    \<Longrightarrow> \<exists>r. resolve_loop s frs todo = Some r \<and> no_panic r \<and> (\<forall>frs'. r = Inr frs' \<longrightarrow> fragments_ok s frs')"
proof (induction "todo_spreads todo" arbitrary: frs todo rule: less_induct)
  case less
  note unfold = resolve_loop.simps [of s frs todo]
  have np: "no_panic (resolve_pass s frs todo)"
    unfolding resolve_pass_def by (rule no_panic_resolve_fold) (use less.prems in auto)
  show ?case
  proof (cases "resolve_pass s frs todo")
    case (Inl e)
    with np unfold show ?thesis by (auto simp: no_panic_def)
  next
    case (Inr st)
    obtain frs' k rest where st: "st = (frs', k, rest)" by (cases st)
    from resolve_pass_ok [of s frs todo frs' k rest] Inr st less.prems
    have ok: "fragments_ok s frs'" "todo_ok s rest" "todo_spreads rest + k = todo_spreads todo" by auto
    show ?thesis
    proof (cases "rest = [] \<or> k = 0")
      case True
      with Inr st unfold ok(1) show ?thesis by auto
    next
      case False
      with ok(3) have "todo_spreads rest < todo_spreads todo" by simp
      from less.hyps [OF this ok(1,2)] False Inr st unfold show ?thesis by simp
    qed
  qed
qed

definition registered_ok :: "schema \<Rightarrow> fragment_map \<times> (string \<times> fragment) list \<Rightarrow> bool" where
  "registered_ok s st \<longleftrightarrow> fragments_ok s (fst st) \<and> todo_ok s (snd st)"

lemma register_fragment_ok:
  "register_fragment s st def = Inr st' \<Longrightarrow> registered_ok s st \<Longrightarrow> registered_ok s st'"
  by (auto simp: register_fragment_def registered_ok_def has_fragments_iff
      intro!: fragments_ok_update dest!: fragment_new_ok split: query_definition.splits if_splits)

lemma no_panic_register_fragment: "no_panic (register_fragment s st def)"
  by (auto simp: register_fragment_def intro!: no_panic_rbind split: query_definition.splits)

lemma process_fragments_ok:
  "\<exists>r. process_fragments s doc = Some r \<and> no_panic r \<and> (\<forall>frs. r = Inr frs \<longrightarrow> fragments_ok s frs)"
proof -
  let ?r = "foldM (register_fragment s) (Map.empty, []) doc"
  have np: "no_panic ?r"
    by (rule no_panic_foldM [of "\<lambda>_. True"]) (simp_all add: no_panic_register_fragment)
  show ?thesis
  proof (cases ?r)
    case (Inl e)
    with np show ?thesis by (auto simp: process_fragments_def no_panic_def)
  next
    case (Inr st)
    then have "registered_ok s st"
      by (rule foldM_invariant) (simp add: registered_ok_def, blast intro: register_fragment_ok)
    with resolve_loop_ok [of s "fst st" "snd st"] Inr show ?thesis
      by (auto simp: process_fragments_def registered_ok_def split: prod.splits)
  qed
qed

subsection \<open>The built operations\<close>

lemma process_operation_ok:
  assumes "fragments_ok s frs"
  shows "no_panic (process_operation s frs op)"
    and "process_operation s frs op = Inr o' \<Longrightarrow> well_typeds s (s_query s) (o_selections o')"
proof -
  have "no_panic (rbind (selections_new s (s_query s) items) (\<lambda>sels.
      rbind (resolve_fragments s (s_query s) frs sels) (\<lambda>(sels', _). Inr (f sels'))))" for items f
    by (intro no_panic_rbind no_panic_resolve(2) assms) (auto dest: selections_new_ok)
  from this [of "op_selection_set q" for q]
  show "no_panic (process_operation s frs op)"
    by (cases op) (simp_all add: process_operation_def no_panic_rbind)
  show "process_operation s frs op = Inr o' \<Longrightarrow> well_typeds s (s_query s) (o_selections o')"
    using resolve_ok(2) [OF assms, of "s_query s"]
    by (auto simp: process_operation_def operation_new_def dest!: selections_new_ok
        split: operation_definition.splits)
qed

lemma build_ok:
  "\<exists>r. build s doc = Some r \<and> no_panic r
    \<and> (\<forall>ops. r = Inr ops \<longrightarrow> (\<forall>o' \<in> set ops. well_typeds s (s_query s) (o_selections o')))"
proof -
  from process_fragments_ok obtain r where r: "process_fragments s doc = Some r" "no_panic r"
    "\<forall>frs. r = Inr frs \<longrightarrow> fragments_ok s frs" by blast
  let ?b = "rbind r (process_operations s doc)"
  have "no_panic ?b"
  proof (rule no_panic_rbind [OF r(2)])
    fix frs assume "r = Inr frs"
    with r(3) process_operation_ok(1) show "no_panic (process_operations s doc frs)"
      unfolding process_operations_def by (intro no_panic_mapM) blast
  qed
  moreover have "\<forall>o' \<in> set ops. well_typeds s (s_query s) (o_selections o')" if b: "?b = Inr ops" for ops
  proof -
    from b obtain frs where frs: "r = Inr frs"
      and m: "mapM (process_operation s frs) (operations_of doc) = Inr ops"
      by (auto simp: process_operations_def)
    from process_operation_ok(2) r(3) frs show ?thesis by (intro mapM_Inr_all [OF m]) blast
  qed
  ultimately show ?thesis using r(1) by (simp add: build_def)
qed

text \<open>The spreads that stay open in a resolved selection set.\<close>

lemma resolve_fragments_open:
  assumes "fragments_ok s frs" "resolve_fragments s cond frs sels = Inr (sels', m)"
  shows "GFragment n \<in> set (gs_selections sels') \<longleftrightarrow>
    GFragment n \<in> set (gs_selections sels) \<and> frs n = None"
proof -
  obtain t hf gs where sels: "sels = Selections t hf gs" by (cases sels)
  with assms(2) obtain rs where rs: "list_all2 (\<lambda>x y. resolve_selection s cond frs x = Inr y) gs rs"
    and sels': "gs_selections sels' = concat (map fst rs)" by (auto simp: mapM_Inr_iff)
  have no: "GFragment n \<notin> set (gs_selections (fr_selections f))" if "frs k = Some f" for k f
  proof
    assume n: "GFragment n \<in> set (gs_selections (fr_selections f))"
    from that assms(1) have "closed f" by (auto simp: fragments_ok_def ran_def)
    then have "filter is_open (gs_selections (fr_selections f)) = []"
      by (simp add: closed_def open_spreads_def)
    with n show False by (simp add: filter_empty_conv) (metis is_open.simps(1))
  qed
  have "GFragment n \<in> set (concat (map fst rs)) \<longleftrightarrow> GFragment n \<in> set gs \<and> frs n = None"
    using rs
  proof (induction rule: list_all2_induct)
    case (Cons x xs y ys)
    have "GFragment n \<in> set (fst y) \<longleftrightarrow> x = GFragment n \<and> frs n = None"
      using Cons(1) no by (cases x) (auto split: option.splits if_splits)
    with Cons.IH show ?case by auto
  qed simp
  then show ?thesis by (simp add: sels sels')
qed

lemma selections_new_open:
  assumes "selections_new s ft items = Inr sels"
  shows "GFragment n \<in> set (gs_selections sels) \<longleftrightarrow> (\<exists>ds. FragmentSpread n ds \<in> set items)"
proof -
  from assms obtain gs where gs: "list_all2 (\<lambda>x y. selection_new s ft x = Inr y) items gs"
    and sels: "gs_selections sels = gs" by (auto simp: selections_new_def mapM_Inr_iff)
  from gs have "GFragment n \<in> set gs \<longleftrightarrow> (\<exists>ds. FragmentSpread n ds \<in> set items)"
  proof (induction rule: list_all2_induct)
    case (Cons x xs y ys)
    have "y = GFragment n \<longleftrightarrow> (\<exists>ds. x = FragmentSpread n ds)" using Cons(1) by (cases x) auto
    with Cons.IH show ?case by auto
  qed simp
  with sels show ?thesis by simp
qed

section \<open>Properties\<close>

text \<open>
  C20: compiling a document returns and never panics: the loop that resolves fragments ends on
  cyclic and on undefined fragments too, and the field types it expects to find in the schema
  are there.
\<close>

theorem build_returns: "\<exists>r. build s doc = Some r \<and> no_panic r"
  using build_ok [of s doc] by blast

text \<open>
  C19: the operations of a compiled document fit the schema: every selected field, at any depth
  and also those that come from fragments, is a field of the type it is selected on, and every
  filter names columns of the type it is applied to.
\<close>

theorem built_operations_well_typed:
  assumes "build s doc = Some (Inr ops)" and "o' \<in> set ops"
  shows "well_typeds s (s_query s) (o_selections o')"
  using build_ok [of s doc] assms by auto

text \<open>The document \<^verbatim>\<open>query { tx { ...F } } fragment F on Tx { id }\<close>.\<close>

definition demo_document :: query_document where
  "demo_document =
     [Operation (Query \<lparr>op_name = None, op_variables = [], op_directives = [],
        op_selection_set = [Field None ''tx'' [] [] [FragmentSpread ''F'' []]]\<rparr>),
      Fragment \<lparr>frag_name = ''F'', frag_type_condition = ''Tx'', frag_directives = [],
        frag_selection_set = [Field None ''id'' [] [] []]\<rparr>]"

lemma demo_build: "build demo_schema demo_document = Some (Inr
    [operation_new demo_schema ''Unnamed'' (Selections ''QueryRoot'' False
       [GField ''tx'' [] (Selections ''Tx'' False [GField ''id'' [] (Selections ''ID!'' False []) None]) None])])"
  by (simp add: build_def process_fragments_def demo_document_def register_fragment_def check_type_def
      demo_schema_def fragment_new_def selections_new_def field_type_def ok_or_def has_fragments_def
      resolve_loop.simps resolve_pass_def process_operations_def process_operation_def expect_def
      check_cond_def)

lemma built_operations_well_typed_witness:
  "list_all (\<lambda>o'. well_typeds demo_schema ''QueryRoot'' (o_selections o'))
     [operation_new demo_schema ''Unnamed'' (Selections ''QueryRoot'' False
       [GField ''tx'' [] (Selections ''Tx'' False [GField ''id'' [] (Selections ''ID!'' False []) None]) None])]"
proof -
  have "s_query demo_schema = ''QueryRoot''" by (simp add: demo_schema_def)
  with built_operations_well_typed [OF demo_build] show ?thesis by (simp del: well_typeds.simps)
qed

text \<open>
  A \<^verbatim>\<open>query\<close> operation keeps exactly the top-level spreads that name no resolved fragment,
  while the shorthand form, a bare selection set, keeps all of them: there fragments are never
  looked up.
\<close>

theorem spreads_of_an_operation:
  assumes "process_fragments s doc = Some (Inr frs)"
    and "process_operation s frs (Query q) = Inr o1"
    and "process_operation s frs (SelectionSet items) = Inr o2"
  shows "(GFragment n \<in> set (gs_selections (o_selections o1)) \<longleftrightarrow>
        (\<exists>ds. FragmentSpread n ds \<in> set (op_selection_set q)) \<and> frs n = None)
    \<and> (GFragment n \<in> set (gs_selections (o_selections o2)) \<longleftrightarrow>
        (\<exists>ds. FragmentSpread n ds \<in> set items))"
proof -
  from process_fragments_ok [of s doc] assms(1) have frs: "fragments_ok s frs" by auto
  have "GFragment n \<in> set (gs_selections (o_selections o1)) \<longleftrightarrow>
        (\<exists>ds. FragmentSpread n ds \<in> set (op_selection_set q)) \<and> frs n = None"
    using assms(2) resolve_fragments_open [OF frs] selections_new_open
    by (auto simp: process_operation_def operation_new_def)
  moreover have "GFragment n \<in> set (gs_selections (o_selections o2)) \<longleftrightarrow>
        (\<exists>ds. FragmentSpread n ds \<in> set items)"
    using assms(3) selections_new_open by (auto simp: process_operation_def operation_new_def)
  ultimately show ?thesis by blast
qed

text \<open>The instance: a fragment on the query root, spread in both forms.\<close>

definition root_document :: query_document where
  "root_document = [Fragment \<lparr>frag_name = ''R'', frag_type_condition = ''QueryRoot'', frag_directives = [],
     frag_selection_set = [Field None ''tx'' [] [] []]\<rparr>]"

definition root_fragment :: fragment where
  "root_fragment = \<lparr>fr_cond = ''QueryRoot'', fr_selections =
     Selections ''QueryRoot'' False [GField ''tx'' [] (Selections ''Tx'' False []) None]\<rparr>"

lemma spreads_of_an_operation_witness:
  "GFragment ''R'' \<notin> set (gs_selections (o_selections (operation_new demo_schema ''Unnamed''
      (Selections ''QueryRoot'' False (gs_selections (fr_selections root_fragment))))))
   \<and> GFragment ''R'' \<in> set (gs_selections (o_selections (operation_new demo_schema ''Unnamed''
      (Selections ''QueryRoot'' True [GFragment ''R'']))))"
proof -
  note defs = root_document_def root_fragment_def demo_schema_def process_fragments_def
    register_fragment_def check_type_def fragment_new_def selections_new_def field_type_def ok_or_def
    has_fragments_def resolve_loop.simps resolve_pass_def process_operation_def check_cond_def
  let ?frs = "[''R'' \<mapsto> root_fragment]"
  let ?q = "\<lparr>op_name = None, op_variables = [], op_directives = [],
        op_selection_set = [FragmentSpread ''R'' []]\<rparr>"
  have p: "process_fragments demo_schema root_document = Some (Inr ?frs)" by (simp add: defs)
  have q: "process_operation demo_schema ?frs (Query ?q) = Inr (operation_new demo_schema ''Unnamed''
      (Selections ''QueryRoot'' False (gs_selections (fr_selections root_fragment))))"
    by (simp add: defs)
  have b: "process_operation demo_schema ?frs (SelectionSet [FragmentSpread ''R'' []])
      = Inr (operation_new demo_schema ''Unnamed'' (Selections ''QueryRoot'' True [GFragment ''R'']))"
    by (simp add: defs)
  from spreads_of_an_operation [OF p q b, of "''R''"] show ?thesis by simp
qed

end
