(* ===== verification/Selection_Trees.thy ===== *)
theory Selection_Trees
  imports Queries
begin

text \<open>
  What the element list of a user query means: the flattening of a list of selection trees. The
  two printers of \<^verbatim>\<open>queries.rs\<close>, which walk the flat list, are related to the trees.
\<close>

section \<open>Trees and their flattening\<close>

datatype selection_tree =
    Leaf string string
  | Node string "selection_tree list"

fun flatten :: "selection_tree \<Rightarrow> query_element list" where
  "flatten (Leaf key value) = [QField key value]"
| "flatten (Node key ts) = ObjectOpeningBoundary key # concat (map flatten ts) @ [ObjectClosingBoundary]"

definition flattens :: "selection_tree list \<Rightarrow> query_element list" where
  "flattens ts = concat (map flatten ts)"

lemma flattens_simps [simp]:
  "flattens [] = []"
  "flattens (t # ts) = flatten t @ flattens ts"
  "flattens (ts @ us) = flattens ts @ flattens us"
  by (simp_all add: flattens_def)

lemma flatten_Node [simp]:
  "flatten (Node key ts) = ObjectOpeningBoundary key # flattens ts @ [ObjectClosingBoundary]"
  by (simp add: flattens_def)

declare flatten.simps(2) [simp del]

text \<open>The key and the SQL text of a tree.\<close>

fun tree_key :: "selection_tree \<Rightarrow> string" where
  "tree_key (Leaf key _) = key"
| "tree_key (Node key _) = key"

fun render :: "selection_tree \<Rightarrow> string" where
  "render (Leaf key value) = quoted key @ '', '' @ value"
| "render (Node key ts) = quoted key @ '', json_build_object('' @ join '', '' (map render ts) @ '')''"

section \<open>Balanced lists are flattenings\<close>

text \<open>The nesting depth after reading the elements from depth \<open>n\<close>; \<open>None\<close> if an object is
  closed that was not opened.\<close>

fun depth_after :: "nat \<Rightarrow> query_element list \<Rightarrow> nat option" where
  "depth_after n [] = Some n"
| "depth_after n (QField _ _ # es) = depth_after n es"
| "depth_after n (ObjectOpeningBoundary _ # es) = depth_after (Suc n) es"
| "depth_after n (ObjectClosingBoundary # es) = (case n of 0 \<Rightarrow> None | Suc m \<Rightarrow> depth_after m es)"

definition balanced :: "query_element list \<Rightarrow> bool" where
  "balanced es \<longleftrightarrow> depth_after 0 es = Some 0"

lemma depth_after_append:
  "depth_after n (xs @ ys) = (case depth_after n xs of None \<Rightarrow> None | Some m \<Rightarrow> depth_after m ys)"
  by (induction n xs rule: depth_after.induct) (auto split: nat.split)

lemma depth_after_closings: "depth_after n (replicate n ObjectClosingBoundary) = Some 0"
  by (induction n) auto

lemma depth_after_trees:
  "depth_after n es = Some 0 \<Longrightarrow>
    \<exists>ts tss. length tss = n \<and> es = flattens ts @ concat (map (\<lambda>us. ObjectClosingBoundary # flattens us) tss)"
proof (induction n es rule: depth_after.induct)
  case (1 n)
  then show ?case by (intro exI [of _ "[]"]) simp
next
  case (2 n k v es)
  then obtain ts tss where "length tss = n"
    "es = flattens ts @ concat (map (\<lambda>us. ObjectClosingBoundary # flattens us) tss)" by auto
  then show ?case by (intro exI [of _ "Leaf k v # ts"] exI [of _ tss]) simp
next
  case (3 n k es)
  then obtain ts us tss where "length tss = n"
    "es = flattens ts @ ObjectClosingBoundary # flattens us
      @ concat (map (\<lambda>us. ObjectClosingBoundary # flattens us) tss)"
    by (auto simp: length_Suc_conv)
  then show ?case by (intro exI [of _ "Node k ts # us"] exI [of _ tss]) simp
next
  case (4 n es)
  then obtain m where n: "n = Suc m" by (cases n) auto
  with 4 obtain ts tss where "length tss = m"
    "es = flattens ts @ concat (map (\<lambda>us. ObjectClosingBoundary # flattens us) tss)" by auto
  with n show ?case by (intro exI [of _ "[]"] exI [of _ "ts # tss"]) simp
qed

lemma balanced_flattens: assumes "balanced es" obtains ts where "es = flattens ts"
  using depth_after_trees [of 0 es] assms by (auto simp: balanced_def)

section \<open>The printers on flattened trees\<close>

lemma comma_before_flatten: "comma_before (flatten t @ rest) = ['', '']"
  by (cases t) auto

definition comma_text :: "query_element list \<Rightarrow> string" where
  "comma_text es = concat (comma_before es)"

lemma comma_text_simps [simp]:
  "comma_text (flatten t @ rest) = '', ''" "comma_text [] = []"
  "comma_text (ObjectClosingBoundary # rest) = []"
  by (simp_all add: comma_text_def comma_before_flatten)

definition selection_text :: "query_element list \<Rightarrow> string" where
  "selection_text es = concat (parse_query_elements_into_selections es)"

lemma selection_text_simps:
  "selection_text [] = []"
  "selection_text (QField k v # es) = quoted k @ '', '' @ v @ comma_text es @ selection_text es"
  "selection_text (ObjectOpeningBoundary k # es) = quoted k @ '', json_build_object('' @ selection_text es"
  "selection_text (ObjectClosingBoundary # es) = '')'' @ comma_text es @ selection_text es"
  by (simp_all add: selection_text_def comma_text_def)

lemma selection_text_trees:
  assumes "\<And>t rest. t \<in> set ts \<Longrightarrow>
      selection_text (flatten t @ rest) = render t @ comma_text rest @ selection_text rest"
    and "comma_text rest = []"
  shows "selection_text (flattens ts @ rest) = join '', '' (map render ts) @ selection_text rest"
  using assms(1)
proof (induction ts)
  case (Cons t ts)
  then show ?case by (cases ts) (simp_all add: assms(2))
qed simp

lemma selection_text_flatten:
  "selection_text (flatten t @ rest) = render t @ comma_text rest @ selection_text rest"
proof (induction t arbitrary: rest)
  case (Leaf k v)
  then show ?case by (simp add: selection_text_simps)
next
  case (Node k ts)
  then show ?case by (simp add: selection_text_simps selection_text_trees)
qed

lemma skip_trees:
  assumes "\<And>t n rest. t \<in> set ts \<Longrightarrow> skip_object (Suc n) (flatten t @ rest) = skip_object (Suc n) rest"
  shows "skip_object (Suc n) (flattens ts @ rest) = skip_object (Suc n) rest"
  using assms by (induction ts) auto

lemma skip_flatten: "skip_object (Suc n) (flatten t @ rest) = skip_object (Suc n) rest"
  by (induction t arbitrary: n rest) (simp_all add: skip_trees)

text \<open>
  C22: the selection text is that of the selection trees: on the element list of any trees the
  printer yields their texts separated by commas, objects nested as the trees are.
\<close>

theorem selections_render_trees:
  "concat (parse_query_elements_into_selections (flattens ts)) = join '', '' (map render ts)"
  using selection_text_trees [of ts "[]"] selection_text_flatten
  by (simp add: selection_text_simps(1) flip: selection_text_def)

text \<open>
  The outer query of a paginated statement selects exactly the top-level keys of the trees,
  one column each and in order.
\<close>

theorem cte_selects_top_level:
  "get_json_selections_from_cte e (flattens ts)
    = map (\<lambda>t. e @ ''->'' @ quoted (tree_key t) @ '' AS '' @ tree_key t) ts"
proof (induction ts)
  case (Cons t ts)
  then show ?case
    using skip_trees [of _ 0 "ObjectClosingBoundary # flattens ts"] skip_flatten
    by (cases t) simp_all
qed simp

end
