(* ===== verification/Query_Elements.thy ===== *)
theory Query_Elements
  imports Fragments Selection_Trees
begin

text \<open>
  \<^verbatim>\<open>fuel-indexer-graphql/src/graphql.rs\<close>, second half: \<^verbatim>\<open>Operation::parse\<close> walks the
  selections of an operation with two parallel work lists and turns each top-level selection into
  a \<^verbatim>\<open>UserQuery\<close>; \<^verbatim>\<open>GraphqlQuery::as_sql\<close> prints them. A vector that is only popped at
  its end is a list with the end first.
\<close>

section \<open>The walk\<close>

record walk =
  w_queue :: "gselection list"
  w_entities :: "string list"
  w_nested :: "string list"
  w_last_seen :: nat
  w_elements :: "query_element list"
  w_joins :: join_map
  w_params :: query_params

definition namespace_identifier :: "operation \<Rightarrow> string" where
  "namespace_identifier op = o_namespace op @ ''_'' @ o_identifier op"

definition full_table :: "operation \<Rightarrow> string \<Rightarrow> string" where
  "full_table op tbl = namespace_identifier op @ ''.'' @ tbl"

text \<open>A join is entered at both of its tables.\<close>

definition add_dependency :: "join_condition \<Rightarrow> join_map \<Rightarrow> join_map" where
  "add_dependency c joins =
     (let a = referencing_key_table c; b = primary_key_table c
      in case map_of joins a of
           Some node \<Rightarrow> AList.update a (node\<lparr>dependencies := AList.update b c (dependencies node)\<rparr>) joins
         | None \<Rightarrow> AList.update a \<lparr>dependencies = [(b, c)], dependents = []\<rparr> joins)"

definition add_dependent :: "join_condition \<Rightarrow> join_map \<Rightarrow> join_map" where
  "add_dependent c joins =
     (let a = referencing_key_table c; b = primary_key_table c
      in case map_of joins b of
           Some node \<Rightarrow> AList.update b (node\<lparr>dependents := AList.update a c (dependents node)\<rparr>) joins
         | None \<Rightarrow> AList.update b \<lparr>dependencies = [], dependents = [(a, c)]\<rparr> joins)"

definition add_join :: "join_condition \<Rightarrow> join_map \<Rightarrow> join_map" where
  "add_join c joins = add_dependent c (add_dependency c joins)"

definition foreign_key :: "schema \<Rightarrow> string \<Rightarrow> string \<Rightarrow> (string \<times> string) option" where
  "foreign_key s entity fld =
     (case s_foreign_keys s (to_lowercase entity) of
        None \<Rightarrow> None
      | Some fks \<Rightarrow> fks (to_lowercase fld))"

definition join_on :: "operation \<Rightarrow> string \<Rightarrow> string \<Rightarrow> string \<times> string \<Rightarrow> join_condition" where
  "join_on op entity fld fk =
     \<lparr>referencing_key_table = full_table op entity, referencing_key_col = fld,
      primary_key_table = full_table op (fst fk), primary_key_col = snd fk\<rparr>"

definition add_filters :: "operation \<Rightarrow> string \<Rightarrow> param_type list \<Rightarrow> query_params \<Rightarrow> query_params" where
  "add_filters op tbl filters q = (if filters \<noteq> [] then add_params q filters (full_table op tbl) else q)"

text \<open>Leaving a child entity: at most one object is closed.\<close>

definition close_level :: "string \<Rightarrow> walk \<Rightarrow> walk" where
  "close_level entity w =
     (case w_nested w of
        [] \<Rightarrow> w
      | level # outer \<Rightarrow>
          if length (w_entities w) < w_last_seen w \<and> level \<noteq> entity
          then w\<lparr>w_nested := outer, w_elements := w_elements w @ [ObjectClosingBoundary]\<rparr>
          else w)"

definition see_entities :: "walk \<Rightarrow> walk" where
  "see_entities w = w\<lparr>w_last_seen := length (w_entities w)\<rparr>"

definition key_of :: "string option \<Rightarrow> string \<Rightarrow> string" where
  "key_of al name = (case al of None \<Rightarrow> name | Some a \<Rightarrow> a)"

definition visit_leaf ::
    "operation \<Rightarrow> string \<Rightarrow> string \<Rightarrow> param_type list \<Rightarrow> string option \<Rightarrow> walk \<Rightarrow> walk" where
  "visit_leaf op entity name filters al w =
     w\<lparr>w_elements := w_elements w @ [QField (key_of al name) (full_table op entity @ ''.'' @ name)],
       w_params := add_filters op entity filters (w_params w)\<rparr>"

text \<open>Following a foreign key; on any other object the joins and the filters are left alone.\<close>

definition follow_key ::
    "schema \<Rightarrow> operation \<Rightarrow> string \<Rightarrow> string \<Rightarrow> param_type list \<Rightarrow> walk \<Rightarrow> walk" where
  "follow_key s op entity name filters w =
     (case foreign_key s entity name of
        None \<Rightarrow> w
      | Some fk \<Rightarrow> w\<lparr>w_joins := add_join (join_on op entity name fk) (w_joins w),
                     w_params := add_filters op (fst fk) filters (w_params w)\<rparr>)"

definition object_entity :: "schema \<Rightarrow> string \<Rightarrow> string \<Rightarrow> string" where
  "object_entity s entity name =
     (case foreign_key s entity name of
        None \<Rightarrow> name
      | Some fk \<Rightarrow> if fst fk \<noteq> name then fst fk else name)"

definition enter_object ::
    "string \<Rightarrow> string \<Rightarrow> gselection list \<Rightarrow> walk \<Rightarrow> walk" where
  "enter_object new_entity key subs w =
     w\<lparr>w_entities := replicate (length subs) new_entity @ w_entities w,
       w_nested := new_entity # w_nested w,
       w_elements := w_elements w @ [ObjectOpeningBoundary key],
       w_queue := rev subs @ w_queue w\<rparr>"

fun visit_selection :: "schema \<Rightarrow> operation \<Rightarrow> string \<Rightarrow> gselection \<Rightarrow> walk \<Rightarrow> walk" where
  "visit_selection s op entity (GFragment _) w = w"
| "visit_selection s op entity (GField name filters sub al) w =
     (if gs_selections sub = [] then visit_leaf op entity name filters al w
      else enter_object (object_entity s entity name) (key_of al name) (gs_selections sub)
             (follow_key s op entity name filters w))"

text \<open>The loop: one selection and its entity are popped on each round.\<close>

definition walk_step :: "schema \<Rightarrow> operation \<Rightarrow> gselection \<Rightarrow> string \<Rightarrow> walk \<Rightarrow> walk" where
  "walk_step s op cur entity w = visit_selection s op entity cur (see_entities (close_level entity w))"

lemma queue_close_level [simp]: "w_queue (close_level e w) = w_queue w"
  by (simp add: close_level_def split: list.splits)

lemma queue_follow_key [simp]: "w_queue (follow_key s op e n fs w) = w_queue w"
  by (simp add: follow_key_def split: option.splits)

lemma queue_step:
  "w_queue (walk_step s op cur entity w) =
     (case cur of GFragment _ \<Rightarrow> [] | GField _ _ sub _ \<Rightarrow> rev (gs_selections sub)) @ w_queue w"
  by (cases cur) (auto simp: walk_step_def see_entities_def visit_leaf_def enter_object_def)

lemma size_list_rev: "size_list f (rev xs) = size_list f xs"
  by (induction xs) (simp_all add: size_list_append)

lemma size_subs: "size_list size (gs_selections sub) < Suc (Suc (size sub))"
  by (cases sub) simp

function parse_walk :: "schema \<Rightarrow> operation \<Rightarrow> walk \<Rightarrow> walk gresult" where
  "parse_walk s op w =
     (case w_queue w of
        [] \<Rightarrow> Inr w
      | cur # queue \<Rightarrow>
          (case w_entities w of
             [] \<Rightarrow> Inl (Panic ''called `Option::unwrap()` on a `None` value'')
           | entity # entities \<Rightarrow>
               parse_walk s op (walk_step s op cur entity
                 (w\<lparr>w_queue := queue, w_entities := entities\<rparr>))))"
  by pat_completeness auto
termination
proof (relation "measure (\<lambda>(_, _, w). size_list size (w_queue w))", goal_cases)
  case (2 s op w cur queue entity entities)
  then show ?case
    using size_subs by (cases cur) (auto simp: queue_step size_list_rev size_list_append)
qed simp

declare parse_walk.simps [simp del]

definition walk_start :: "operation \<Rightarrow> string \<Rightarrow> param_type list \<Rightarrow> gselections \<Rightarrow> walk" where
  "walk_start op entity filters sels =
     \<lparr>w_queue = gs_selections sels,
      w_entities = replicate (length (gs_selections sels)) entity,
      w_nested = [],
      w_last_seen = length (gs_selections sels),
      w_elements = [],
      w_joins = [],
      w_params = add_filters op entity filters default_params\<rparr>"

definition walk_query :: "operation \<Rightarrow> string \<Rightarrow> string option \<Rightarrow> walk \<Rightarrow> user_query" where
  "walk_query op entity al w =
     \<lparr>uq_elements = w_elements w @ replicate (length (w_nested w)) ObjectClosingBoundary,
      uq_joins = w_joins w,
      uq_namespace_identifier = namespace_identifier op,
      uq_entity_name = entity,
      uq_params = w_params w,
      uq_alias = al\<rparr>"

fun parse_selection :: "schema \<Rightarrow> operation \<Rightarrow> gselection \<Rightarrow> user_query list gresult" where
  "parse_selection s op (GFragment _) = Inr []"
| "parse_selection s op (GField entity filters sels al) =
     rbind (parse_walk s op (walk_start op entity filters sels)) (\<lambda>w.
     Inr [walk_query op entity al w])"

definition operation_parse :: "schema \<Rightarrow> operation \<Rightarrow> user_query list gresult" where
  "operation_parse s op =
     rbind (mapM (parse_selection s op) (gs_selections (o_selections op))) (\<lambda>qs. Inr (concat qs))"

definition query_parse :: "schema \<Rightarrow> operation list \<Rightarrow> user_query list gresult" where
  "query_parse s ops = rbind (mapM (operation_parse s) ops) (\<lambda>qs. Inr (concat qs))"

definition as_sql :: "schema \<Rightarrow> operation list \<Rightarrow> string list gresult" where
  "as_sql s ops = rbind (query_parse s ops) (mapM to_sql)"

section \<open>Invariants of the walk\<close>

lemma parse_walk_Cons:
  assumes "w_queue w = cur # queue" "w_entities w = entity # entities"
  shows "parse_walk s op w = parse_walk s op (walk_step s op cur entity
           (w\<lparr>w_queue := queue, w_entities := entities\<rparr>))"
  using assms by (subst parse_walk.simps) simp

lemma parse_walk_Nil: "w_queue w = [] \<Longrightarrow> parse_walk s op w = Inr w"
  by (subst parse_walk.simps) simp

text \<open>What every round keeps holds at the end; the two work lists have one length, so the walk ends.\<close>

lemma parse_walk_invariant:
  assumes "P w" "length (w_entities w) = length (w_queue w)"
    and "\<And>w cur queue entity entities. P w \<Longrightarrow> w_queue w = cur # queue
      \<Longrightarrow> w_entities w = entity # entities
      \<Longrightarrow> P (walk_step s op cur entity (w\<lparr>w_queue := queue, w_entities := entities\<rparr>))"
  shows "\<exists>w'. parse_walk s op w = Inr w' \<and> P w' \<and> w_queue w' = []"
  using assms(1,2)
proof (induction "size_list size (w_queue w)" arbitrary: w rule: less_induct)
  case less
  show ?case
  proof (cases "w_queue w")
    case Nil
    with less.prems show ?thesis by (simp add: parse_walk_Nil)
  next
    case (Cons cur queue)
    with less.prems(2) obtain entity entities where e: "w_entities w = entity # entities"
      by (cases "w_entities w") auto
    let ?w = "walk_step s op cur entity (w\<lparr>w_queue := queue, w_entities := entities\<rparr>)"
    have "size_list size (w_queue ?w) < size_list size (w_queue w)"
      using size_subs Cons by (cases cur) (auto simp: queue_step size_list_rev size_list_append)
    moreover have "P ?w" by (rule assms(3) [OF less.prems(1) Cons e])
    moreover have "length (w_entities ?w) = length (w_queue ?w)"
      using less.prems(2) Cons e
      by (cases cur) (auto simp: walk_step_def see_entities_def visit_leaf_def enter_object_def
          close_level_def follow_key_def split: list.splits option.splits)
    ultimately show ?thesis
      using less.hyps [of ?w] by (simp add: parse_walk_Cons [OF Cons e])
  qed
qed

lemma parse_selection_invariant:
  assumes "P (walk_start op entity filters sels)"
    and "\<And>w cur queue entity entities. P w \<Longrightarrow> w_queue w = cur # queue
      \<Longrightarrow> w_entities w = entity # entities
      \<Longrightarrow> P (walk_step s op cur entity (w\<lparr>w_queue := queue, w_entities := entities\<rparr>))"
  obtains w where "parse_selection s op (GField entity filters sels al) = Inr [walk_query op entity al w]"
    and "P w"
proof -
  have "length (w_entities (walk_start op entity filters sels))
      = length (w_queue (walk_start op entity filters sels))" by (simp add: walk_start_def)
  from parse_walk_invariant [of P, OF assms(1) this, where s = s and op = op] assms(2) that
  show ?thesis by auto
qed

subsection \<open>Every query has a result\<close>

lemma parse_selection_total: "\<exists>qs. parse_selection s op sel = Inr qs"
proof (cases sel)
  case (GField entity filters sels al)
  show ?thesis
    by (rule parse_selection_invariant [of "\<lambda>_. True" op entity filters sels s al])
      (simp_all only: GField sum.inject exI)
qed simp

lemma mapM_total: "(\<And>x. x \<in> set xs \<Longrightarrow> \<exists>y. f x = Inr y) \<Longrightarrow> \<exists>ys. mapM f xs = Inr ys"
proof (induction xs)
  case (Cons x xs)
  from Cons.prems [of x] obtain y where "f x = Inr y" by auto
  moreover from Cons.IH Cons.prems obtain ys where "mapM f xs = Inr ys" by (meson list.set_intros(2))
  ultimately show ?case by simp
qed simp

lemma operation_parse_total: "\<exists>qs. operation_parse s op = Inr qs"
proof -
  from mapM_total [of "gs_selections (o_selections op)" "parse_selection s op"] parse_selection_total
  obtain ys
    where "mapM (parse_selection s op) (gs_selections (o_selections op)) = Inr ys" by blast
  then show ?thesis by (simp add: operation_parse_def)
qed

lemma query_parse_total: "\<exists>qs. query_parse s ops = Inr qs"
proof -
  from mapM_total [of ops "operation_parse s"] operation_parse_total obtain ys where "mapM (operation_parse s) ops = Inr ys"
    by blast
  then show ?thesis by (simp add: query_parse_def)
qed

text \<open>A property of the query of every selection is one of all the queries.\<close>

lemma query_parse_all:
  assumes "query_parse s ops = Inr qs"
    and "\<And>op entity filters sels al q. parse_selection s op (GField entity filters sels al) = Inr [q] \<Longrightarrow> P q"
  shows "\<forall>q \<in> set qs. P q"
proof -
  have one: "\<forall>q \<in> set qs. P q" if "parse_selection s op sel = Inr qs" for op sel qs
  proof (cases sel)
    case (GField entity filters sels al)
    with that obtain w where "qs = [walk_query op entity al w]"
      "parse_selection s op (GField entity filters sels al) = Inr [walk_query op entity al w]" by auto
    with assms(2) show ?thesis by simp
  qed (use that in simp)
  have op: "\<forall>q \<in> set qs. P q" if "operation_parse s op = Inr qs" for op qs
  proof -
    from that obtain xs where xs: "mapM (parse_selection s op) (gs_selections (o_selections op)) = Inr xs"
      "qs = concat xs" by (auto simp: operation_parse_def)
    with mapM_Inr_all [OF xs(1), of "\<lambda>qs. \<forall>q \<in> set qs. P q"] one show ?thesis by auto
  qed
  from assms(1) obtain xs where xs: "mapM (operation_parse s) ops = Inr xs" "qs = concat xs"
    by (auto simp: query_parse_def)
  with mapM_Inr_all [OF xs(1), of "\<lambda>qs. \<forall>q \<in> set qs. P q"] op show ?thesis by auto
qed

subsection \<open>Balanced elements\<close>

definition depth_inv :: "walk \<Rightarrow> bool" where
  "depth_inv w \<longleftrightarrow> depth_after 0 (w_elements w) = Some (length (w_nested w))"

lemma depth_inv_close: "depth_inv w \<Longrightarrow> depth_inv (close_level e w)"
  by (auto simp: depth_inv_def close_level_def depth_after_append split: list.splits)

lemma depth_inv_visit: "depth_inv w \<Longrightarrow> depth_inv (visit_selection s op e cur w)"
  by (cases cur) (auto simp: depth_inv_def visit_leaf_def enter_object_def follow_key_def
      depth_after_append split: option.splits)

lemma depth_inv_step: "depth_inv w \<Longrightarrow> depth_inv (walk_step s op cur e (w\<lparr>w_queue := q, w_entities := es\<rparr>))"
  unfolding walk_step_def
  by (intro depth_inv_visit) (use depth_inv_close [of "w\<lparr>w_queue := q, w_entities := es\<rparr>" e]
    in \<open>simp add: depth_inv_def see_entities_def\<close>)

lemma parse_selection_balanced:
  assumes "parse_selection s op (GField entity filters sels al) = Inr [q]"
  shows "balanced (uq_elements q)"
proof -
  obtain w where "parse_selection s op (GField entity filters sels al) = Inr [walk_query op entity al w]"
    and "depth_inv w"
    by (rule parse_selection_invariant [of depth_inv op entity filters sels s])
      (simp_all add: depth_inv_def walk_start_def depth_inv_step [unfolded depth_inv_def])
  with assms show ?thesis
    by (auto simp: balanced_def walk_query_def depth_inv_def depth_after_append depth_after_closings)
qed

subsection \<open>Join graphs\<close>

lemma deps_add_dependency:
  "deps (add_dependency c J) a b
    = (if a = referencing_key_table c \<and> b = primary_key_table c then Some c else deps J a b)"
  by (auto simp: add_dependency_def Let_def deps_def update_conv' split: option.splits)

lemma deps_add_dependent: "deps (add_dependent c J) = deps J"
  by (auto simp: add_dependent_def Let_def deps_def update_conv' fun_eq_iff split: option.splits)

lemma dpts_add_dependent:
  "dpts (add_dependent c J) b a
    = (if a = referencing_key_table c \<and> b = primary_key_table c then Some c else dpts J b a)"
  by (auto simp: add_dependent_def Let_def dpts_def update_conv' split: option.splits)

lemma dpts_add_dependency: "dpts (add_dependency c J) = dpts J"
  by (auto simp: add_dependency_def Let_def dpts_def update_conv' fun_eq_iff split: option.splits)

lemma set_AList_update: "set (AList.update k v xs) \<subseteq> insert (k, v) (set xs)"
  by (induction xs) auto

definition node_ok :: "query_join_node \<Rightarrow> bool" where
  "node_ok n \<longleftrightarrow> distinct (map fst (dependents n))"

lemma nodes_update:
  assumes "\<forall>(k, n) \<in> set J. node_ok n" "node_ok n'"
  shows "\<forall>(k, n) \<in> set (AList.update k' n' J). node_ok n"
  using assms set_AList_update [of k' n' J] by auto

lemma nodes_add_dependency:
  assumes "\<forall>(k, n) \<in> set J. node_ok n"
  shows "\<forall>(k, n) \<in> set (add_dependency c J). node_ok n"
proof (cases "map_of J (referencing_key_table c)")
  case None
  show ?thesis
    unfolding add_dependency_def Let_def None option.case
    by (rule nodes_update [OF assms]) (simp add: node_ok_def)
next
  case (Some node)
  with assms have "node_ok node" by (auto dest: map_of_SomeD)
  then show ?thesis
    unfolding add_dependency_def Let_def Some option.case
    by (intro nodes_update [OF assms]) (simp add: node_ok_def)
qed

lemma nodes_add_dependent:
  assumes "\<forall>(k, n) \<in> set J. node_ok n"
  shows "\<forall>(k, n) \<in> set (add_dependent c J). node_ok n"
proof (cases "map_of J (primary_key_table c)")
  case None
  show ?thesis
    unfolding add_dependent_def Let_def None option.case
    by (rule nodes_update [OF assms]) (simp add: node_ok_def)
next
  case (Some node)
  with assms have "node_ok node" by (auto dest: map_of_SomeD)
  then show ?thesis
    unfolding add_dependent_def Let_def Some option.case
    by (intro nodes_update [OF assms]) (simp add: node_ok_def distinct_update)
qed

lemma nodes_add_join:
  "\<forall>(k, n) \<in> set J. node_ok n \<Longrightarrow> \<forall>(k, n) \<in> set (add_join c J). node_ok n"
  unfolding add_join_def by (intro nodes_add_dependent nodes_add_dependency)

lemma distinct_keys_add_join: "distinct (map fst J) \<Longrightarrow> distinct (map fst (add_join c J))"
  by (auto simp: add_join_def add_dependent_def add_dependency_def Let_def distinct_update
      split: option.splits)

lemma deps_add_join:
  "deps (add_join c J) a b
    = (if a = referencing_key_table c \<and> b = primary_key_table c then Some c else deps J a b)"
  by (simp add: add_join_def deps_add_dependent deps_add_dependency)

lemma dpts_add_join:
  "dpts (add_join c J) b a
    = (if a = referencing_key_table c \<and> b = primary_key_table c then Some c else dpts J b a)"
  by (simp add: add_join_def dpts_add_dependent dpts_add_dependency)

lemma wf_joins_add_join:
  assumes "wf_joins J" shows "wf_joins (add_join c J)"
  using assms nodes_add_join [of J c] distinct_keys_add_join [of J c]
  by (auto simp: wf_joins_def node_ok_def deps_add_join dpts_add_join)

definition joins_inv :: "walk \<Rightarrow> bool" where
  "joins_inv w \<longleftrightarrow> wf_joins (w_joins w)"

lemma joins_inv_step:
  "joins_inv w \<Longrightarrow> joins_inv (walk_step s op cur e (w\<lparr>w_queue := q, w_entities := es\<rparr>))"
  by (cases cur) (auto simp: joins_inv_def walk_step_def see_entities_def close_level_def visit_leaf_def
      enter_object_def follow_key_def intro: wf_joins_add_join split: list.splits option.splits)

lemma wf_joins_empty: "wf_joins []"
  by (simp add: wf_joins_def deps_def dpts_def)

lemma parse_selection_joins:
  assumes "parse_selection s op (GField entity filters sels al) = Inr [q]"
  shows "wf_joins (uq_joins q)"
proof -
  obtain w where "parse_selection s op (GField entity filters sels al) = Inr [walk_query op entity al w]"
    and "joins_inv w"
    by (rule parse_selection_invariant [of joins_inv op entity filters sels s])
      (simp_all add: joins_inv_def walk_start_def wf_joins_empty joins_inv_step [unfolded joins_inv_def])
  with assms show ?thesis by (simp add: walk_query_def joins_inv_def)
qed

section \<open>A query with one level of nesting\<close>

text \<open>The objects of the selections hold plain fields only, and none is of the selecting entity.\<close>

fun is_leaf :: "gselection \<Rightarrow> bool" where
  "is_leaf (GField _ _ sub _) \<longleftrightarrow> gs_selections sub = []"
| "is_leaf (GFragment _) \<longleftrightarrow> False"

fun shallow :: "schema \<Rightarrow> string \<Rightarrow> gselection \<Rightarrow> bool" where
  "shallow s entity (GField name _ sub _) \<longleftrightarrow>
     gs_selections sub = [] \<or> list_all is_leaf (gs_selections sub) \<and> object_entity s entity name \<noteq> entity"
| "shallow s entity (GFragment _) \<longleftrightarrow> False"

fun leaf_tree :: "operation \<Rightarrow> string \<Rightarrow> gselection \<Rightarrow> selection_tree" where
  "leaf_tree op entity (GField name _ _ al) = Leaf (key_of al name) (full_table op entity @ ''.'' @ name)"
| "leaf_tree op entity (GFragment name) = Leaf name []"

text \<open>The fields of an object come in reverse order.\<close>

fun tree_of_selection :: "schema \<Rightarrow> operation \<Rightarrow> string \<Rightarrow> gselection \<Rightarrow> selection_tree" where
  "tree_of_selection s op entity (GField name ps sub al) =
     (if gs_selections sub = [] then leaf_tree op entity (GField name ps sub al)
      else Node (key_of al name) (map (leaf_tree op (object_entity s entity name)) (rev (gs_selections sub))))"
| "tree_of_selection s op entity (GFragment name) = Leaf name []"

fun selection_join :: "schema \<Rightarrow> operation \<Rightarrow> string \<Rightarrow> gselection \<Rightarrow> join_map \<Rightarrow> join_map" where
  "selection_join s op entity (GField name _ sub _) J =
     (if gs_selections sub = [] then J
      else case foreign_key s entity name of None \<Rightarrow> J | Some fk \<Rightarrow> add_join (join_on op entity name fk) J)"
| "selection_join s op entity (GFragment _) J = J"

lemma flattens_leaves:
  "list_all is_leaf ls \<Longrightarrow> flattens (map (leaf_tree op e) ls)
    = map (\<lambda>l. QField (key_of (g_alias l) (g_name l)) (full_table op e @ ''.'' @ g_name l)) ls"
proof (induction ls)
  case (Cons l ls)
  then show ?case by (cases l) auto
qed simp

text \<open>The fields of an object are walked without leaving it.\<close>

lemma walk_leaves:
  assumes "list_all is_leaf ls" "w_queue w = ls @ queue" "w_entities w = replicate (length ls) e @ es"
    and "w_nested w = e # nst"
  shows "\<exists>w'. parse_walk s op w = parse_walk s op w' \<and> w_queue w' = queue \<and> w_entities w' = es
    \<and> w_nested w' = w_nested w \<and> w_joins w' = w_joins w
    \<and> (ls \<noteq> [] \<longrightarrow> w_last_seen w' = length es)
    \<and> w_elements w' = w_elements w @ flattens (map (leaf_tree op e) ls)"
  using assms
proof (induction ls arbitrary: w)
  case Nil
  then show ?case by (intro exI [of _ w]) simp
next
  case (Cons l ls)
  from Cons.prems(1) obtain name ps sub al where l: "l = GField name ps sub al" "gs_selections sub = []"
    by (cases l) auto
  let ?w0 = "w\<lparr>w_queue := ls @ queue, w_entities := replicate (length ls) e @ es\<rparr>"
  let ?w = "walk_step s op l e ?w0"
  have step: "parse_walk s op w = parse_walk s op ?w"
    by (rule parse_walk_Cons) (use Cons.prems in auto)
  have w: "w_queue ?w = ls @ queue" "w_entities ?w = replicate (length ls) e @ es"
    "w_nested ?w = e # nst" "w_joins ?w = w_joins w" "w_last_seen ?w = length ls + length es"
    "w_elements ?w = w_elements w @ flatten (leaf_tree op e l)"
    using Cons.prems(4) by (simp_all add: walk_step_def l visit_leaf_def see_entities_def close_level_def)
  have "list_all is_leaf ls" using Cons.prems(1) by simp
  from Cons.IH [OF this w(1,2,3)] obtain w' where w': "parse_walk s op ?w = parse_walk s op w'"
    "w_queue w' = queue" "w_entities w' = es" "w_nested w' = w_nested ?w" "w_joins w' = w_joins ?w"
    "ls \<noteq> [] \<longrightarrow> w_last_seen w' = length es"
    "w_elements w' = w_elements ?w @ flattens (map (leaf_tree op e) ls)" by blast
  show ?case
  proof (cases "ls = []")
    case True
    with step w Cons.prems(4) show ?thesis by (intro exI [of _ ?w]) simp
  next
    case False
    with step w w' Cons.prems(4) show ?thesis by (intro exI [of _ w']) simp
  qed
qed

definition closed_elements :: "walk \<Rightarrow> query_element list" where
  "closed_elements w = w_elements w @ replicate (length (w_nested w)) ObjectClosingBoundary"

definition outer_inv :: "string \<Rightarrow> walk \<Rightarrow> bool" where
  "outer_inv entity w \<longleftrightarrow> w_last_seen w = length (w_entities w)
     \<and> (w_nested w = [] \<or> (\<exists>e. w_nested w = [e] \<and> e \<noteq> entity))"

lemma close_outer:
  assumes "outer_inv entity w" "w_entities w = entity # es"
  shows "w_nested (close_level entity (w\<lparr>w_queue := q, w_entities := es\<rparr>)) = []"
    and "w_elements (close_level entity (w\<lparr>w_queue := q, w_entities := es\<rparr>)) = closed_elements w"
  using assms by (auto simp: outer_inv_def close_level_def closed_elements_def)

lemma close_level_keeps [simp]:
  "w_entities (close_level e w) = w_entities w" "w_joins (close_level e w) = w_joins w"
  "w_params (close_level e w) = w_params w"
  by (simp_all add: close_level_def split: list.splits)

lemma walk_shallow:
  assumes "list_all (shallow s entity) sels" "outer_inv entity w"
    and "w_queue w = sels" "w_entities w = replicate (length sels) entity"
  shows "\<exists>w'. parse_walk s op w = Inr w'
    \<and> closed_elements w' = closed_elements w @ flattens (map (tree_of_selection s op entity) sels)
    \<and> w_joins w' = foldl (\<lambda>J sel. selection_join s op entity sel J) (w_joins w) sels"
  using assms
proof (induction sels arbitrary: w)
  case Nil
  then show ?case by (intro exI [of _ w]) (simp add: parse_walk_Nil)
next
  case (Cons x sels)
  from Cons.prems(1) obtain name ps sub al where x: "x = GField name ps sub al" by (cases x) auto
  let ?es = "replicate (length sels) entity"
  let ?w0 = "w\<lparr>w_queue := sels, w_entities := ?es\<rparr>"
  let ?w = "walk_step s op x entity ?w0"
  have ent: "w_entities w = entity # ?es" using Cons.prems(4) by simp
  have step: "parse_walk s op w = parse_walk s op ?w"
    by (rule parse_walk_Cons) (use Cons.prems(3) ent in auto)
  note close = close_outer [OF Cons.prems(2) ent, of sels]
  have "\<exists>w1. parse_walk s op ?w = parse_walk s op w1 \<and> w_queue w1 = sels \<and> w_entities w1 = ?es
      \<and> outer_inv entity w1 \<and> w_joins w1 = selection_join s op entity x (w_joins w)
      \<and> closed_elements w1 = closed_elements w @ flatten (tree_of_selection s op entity x)"
  proof (cases "gs_selections sub = []")
    case True
    with close show ?thesis
      by (intro exI [of _ ?w])
        (simp add: walk_step_def x visit_leaf_def see_entities_def outer_inv_def closed_elements_def)
  next
    case False
    let ?e = "object_entity s entity name"
    have ls: "list_all is_leaf (rev (gs_selections sub))" and e: "?e \<noteq> entity"
      using False Cons.prems(1) by (auto simp: x list_all_iff)
    have w: "w_queue ?w = rev (gs_selections sub) @ sels"
      "w_entities ?w = replicate (length (rev (gs_selections sub))) ?e @ ?es"
      "w_nested ?w = [?e]" "w_joins ?w = selection_join s op entity x (w_joins w)"
      "w_elements ?w = closed_elements w @ [ObjectOpeningBoundary (key_of al name)]"
      using False close
      by (simp_all add: walk_step_def x enter_object_def see_entities_def follow_key_def split: option.splits)
    from walk_leaves [OF ls w(1,2,3), of s op] obtain w1 where
      "parse_walk s op ?w = parse_walk s op w1" "w_queue w1 = sels" "w_entities w1 = ?es"
      "w_nested w1 = [?e]" "w_joins w1 = w_joins ?w" "w_last_seen w1 = length ?es"
      "w_elements w1 = w_elements ?w @ flattens (map (leaf_tree op ?e) (rev (gs_selections sub)))"
      using w(3) False by auto
    with w e False show ?thesis
      by (intro exI [of _ w1]) (simp add: outer_inv_def closed_elements_def x)
  qed
  then obtain w1 where w1: "parse_walk s op ?w = parse_walk s op w1" "w_queue w1 = sels"
    "w_entities w1 = ?es" "outer_inv entity w1" "w_joins w1 = selection_join s op entity x (w_joins w)"
    "closed_elements w1 = closed_elements w @ flatten (tree_of_selection s op entity x)" by blast
  have "list_all (shallow s entity) sels" using Cons.prems(1) by simp
  from Cons.IH [OF this w1(4,2,3)] step w1 show ?case by simp
qed

lemma parse_selection_shallow:
  assumes "list_all (shallow s entity) (gs_selections sels)"
  shows "\<exists>q. parse_selection s op (GField entity filters sels al) = Inr [q]
    \<and> uq_elements q = flattens (map (tree_of_selection s op entity) (gs_selections sels))
    \<and> uq_joins q = foldl (\<lambda>J sel. selection_join s op entity sel J) [] (gs_selections sels)"
proof -
  let ?w = "walk_start op entity filters sels"
  have "outer_inv entity ?w" "w_queue ?w = gs_selections sels"
    "w_entities ?w = replicate (length (gs_selections sels)) entity"
    by (simp_all add: walk_start_def outer_inv_def)
  from walk_shallow [OF assms this, of op] show ?thesis
    by (auto simp: walk_query_def closed_elements_def walk_start_def)
qed

section \<open>Properties\<close>

text \<open>
  Parsing the operations into user queries always succeeds (the unguarded
  \<^verbatim>\<open>entities.pop().unwrap()\<close> never fails), and the elements of every query are properly
  nested: they flatten some selection trees, whose texts are the SQL selection.
\<close>

theorem parsed_queries_nested:
  "\<exists>qs. query_parse s ops = Inr qs \<and> list_all (\<lambda>q. \<exists>ts. uq_elements q = flattens ts
    \<and> concat (parse_query_elements_into_selections (uq_elements q)) = join '', '' (map render ts)) qs"
proof -
  from query_parse_total obtain qs where qs: "query_parse s ops = Inr qs" by blast
  have "\<forall>q \<in> set qs. balanced (uq_elements q)"
    by (rule query_parse_all [OF qs]) (rule parse_selection_balanced)
  moreover have "concat (parse_query_elements_into_selections (flattens ts)) = join '', '' (map render ts)" for ts
    using selection_text_trees [of ts "[]"] selection_text_flatten
    by (simp add: selection_text_simps(1) flip: selection_text_def)
  ultimately have "list_all (\<lambda>q. \<exists>ts. uq_elements q = flattens ts
    \<and> concat (parse_query_elements_into_selections (uq_elements q)) = join '', '' (map render ts)) qs"
    unfolding list_all_iff by (metis balanced_flattens)
  with qs show ?thesis by blast
qed


text \<open>The query of the code's own unit test: \<^verbatim>\<open>{ tx { block { id height } id timestamp } }\<close>.\<close>

definition plain :: "string \<Rightarrow> gselection" where
  "plain name = GField name [] (Selections ''ID!'' False []) None"

definition test_selections :: gselections where
  "test_selections = Selections ''Tx'' False
     [GField ''block'' [] (Selections ''Block'' False [plain ''id'', plain ''height'']) None,
      plain ''id'', plain ''timestamp'']"

definition test_operation :: operation where
  "test_operation = \<lparr>o_namespace = ''fuel_indexer_test'', o_identifier = ''test_index'', o_name = [],
     o_selections = Selections ''QueryRoot'' False [GField ''tx'' [] test_selections None]\<rparr>"

lemma test_shallow: "list_all (shallow demo_schema ''tx'') (gs_selections test_selections)"
  by (simp add: test_selections_def plain_def object_entity_def foreign_key_def demo_schema_def
      to_lowercase_def lower_char_def)

lemma test_joins: "foldl (\<lambda>J sel. selection_join demo_schema test_operation ''tx'' sel J) []
    (gs_selections test_selections)
  = add_join (join_on test_operation ''tx'' ''block'' (''block'', ''id'')) []"
  by (simp add: test_selections_def plain_def foreign_key_def demo_schema_def to_lowercase_def lower_char_def)

lemma test_sorted: "get_topologically_sorted_joins (add_join (join_on test_operation ''tx'' ''block'' (''block'', ''id'')) [])
    = [] @ join_on test_operation ''tx'' ''block'' (''block'', ''id'') # []"
  by code_simp

lemma test_parse: obtains q where "query_parse demo_schema [test_operation] = Inr [q]"
  "uq_joins q = add_join (join_on test_operation ''tx'' ''block'' (''block'', ''id'')) []"
proof -
  from parse_selection_shallow [OF test_shallow, of test_operation "[]" None] test_joins obtain q where
    "parse_selection demo_schema test_operation (GField ''tx'' [] test_selections None) = Inr [q]"
    "uq_joins q = add_join (join_on test_operation ''tx'' ''block'' (''block'', ''id'')) []" by auto
  moreover have "gs_selections (o_selections test_operation) = [GField ''tx'' [] test_selections None]"
    by (simp add: test_operation_def)
  ultimately show ?thesis using that by (simp add: query_parse_def operation_parse_def)
qed


text \<open>
  C23: for a selection whose objects hold plain fields only and are of other entities, the user
  query selects the trees of the selections, each field from the table of its entity, objects in
  place (their fields in reverse order), and joins the table of every object that is behind a
  foreign key.
\<close>

theorem shallow_query_correct:
  assumes "list_all (shallow s entity) (gs_selections sels)"
  shows "\<exists>q. parse_selection s op (GField entity filters sels al) = Inr [q]
    \<and> uq_elements q = flattens (map (tree_of_selection s op entity) (gs_selections sels))
    \<and> uq_joins q = foldl (\<lambda>J sel. selection_join s op entity sel J) [] (gs_selections sels)"
  using assms by (rule parse_selection_shallow)

lemma shallow_query_correct_witness:
  "\<exists>q. parse_selection demo_schema test_operation (GField ''tx'' [] test_selections None) = Inr [q]
    \<and> uq_elements q =
       [ObjectOpeningBoundary ''block'',
        QField ''height'' ''fuel_indexer_test_test_index.block.height'',
        QField ''id'' ''fuel_indexer_test_test_index.block.id'',
        ObjectClosingBoundary,
        QField ''id'' ''fuel_indexer_test_test_index.tx.id'',
        QField ''timestamp'' ''fuel_indexer_test_test_index.tx.timestamp'']"
proof -
  have "flattens (map (tree_of_selection demo_schema test_operation ''tx'') (gs_selections test_selections)) =
       [ObjectOpeningBoundary ''block'',
        QField ''height'' ''fuel_indexer_test_test_index.block.height'',
        QField ''id'' ''fuel_indexer_test_test_index.block.id'',
        ObjectClosingBoundary,
        QField ''id'' ''fuel_indexer_test_test_index.tx.id'',
        QField ''timestamp'' ''fuel_indexer_test_test_index.tx.timestamp'']"
    by (simp add: test_selections_def plain_def key_of_def full_table_def namespace_identifier_def
        test_operation_def object_entity_def foreign_key_def demo_schema_def to_lowercase_def lower_char_def)
  with shallow_query_correct [OF test_shallow, of test_operation "[]" None] show ?thesis by auto
qed

text \<open>
  Leaving two levels at once closes one object only: in \<open>entity { a { b { c } } d }\<close> the
  field \<open>d\<close> of the outer entity is selected inside the object \<open>a\<close>.
\<close>

theorem two_levels_close_one:
  assumes "object_entity s entity a = A" "object_entity s A b = B" "A \<noteq> entity" "B \<noteq> entity"
  shows "\<exists>q. parse_selection s op (GField entity []
        (Selections t False [GField a [] (Selections t1 False [GField b [] (Selections t2 False [plain c]) None]) None,
           plain d]) None) = Inr [q]
    \<and> uq_elements q = flattens
       [Node a [Node b [Leaf c (full_table op B @ ''.'' @ c)], Leaf d (full_table op entity @ ''.'' @ d)]]"
  using assms
  by (simp add: parse_walk.simps walk_start_def walk_step_def see_entities_def close_level_def
      enter_object_def follow_key_def visit_leaf_def walk_query_def plain_def key_of_def
      split: option.split)

lemma two_levels_close_one_witness:
  "\<exists>q. parse_selection demo_schema test_operation (GField ''tx'' []
        (Selections ''Tx'' False [GField ''block'' [] (Selections ''Block'' False
           [GField ''owner'' [] (Selections ''Account'' False [plain ''id'']) None]) None, plain ''id'']) None) = Inr [q]
    \<and> uq_elements q = flattens
       [Node ''block'' [Node ''owner'' [Leaf ''id'' (full_table test_operation ''owner'' @ ''.id'')],
          Leaf ''id'' (full_table test_operation ''tx'' @ ''.id'')]]"
proof -
  have e: "object_entity demo_schema ''tx'' ''block'' = ''block''"
    "object_entity demo_schema ''block'' ''owner'' = ''owner''"
    by (simp_all add: object_entity_def foreign_key_def demo_schema_def to_lowercase_def lower_char_def)
  show ?thesis
    using two_levels_close_one [OF e, of test_operation "''Tx''" "''Block''" "''Account''" "''id''" "''id''"] by simp
qed

text \<open>
  Two foreign keys of one entity to the same table share one entry of the join graph: of two
  such objects only the join of the second is left, and the table is joined on it alone.
\<close>

theorem parallel_foreign_keys_lose_a_join:
  assumes "foreign_key s entity f = Some (tbl, col)" "foreign_key s entity g = Some (tbl, col')"
    and "tbl \<noteq> entity" "list_all is_leaf subs" "subs \<noteq> []"
  shows "\<exists>q. parse_selection s op (GField entity [] (Selections t False
        [GField f [] (Selections t1 False subs) None, GField g [] (Selections t2 False subs) None]) None) = Inr [q]
    \<and> all_joins (uq_joins q) = {join_on op entity g (tbl, col')}"
proof -
  let ?sels = "[GField f [] (Selections t1 False subs) None, GField g [] (Selections t2 False subs) None]"
  have e: "object_entity s entity f = tbl" "object_entity s entity g = tbl"
    using assms(1,2) by (auto simp: object_entity_def)
  then have "list_all (shallow s entity) (gs_selections (Selections t False ?sels))"
    using assms(3,4) by simp
  from parse_selection_shallow [OF this, of op "[]" None] obtain q where
    q: "parse_selection s op (GField entity [] (Selections t False ?sels) None) = Inr [q]"
    and j: "uq_joins q = foldl (\<lambda>J sel. selection_join s op entity sel J) [] ?sels" by auto
  have "uq_joins q = add_join (join_on op entity g (tbl, col')) (add_join (join_on op entity f (tbl, col)) [])"
    using assms by (simp add: j)
  then have "all_joins (uq_joins q) = {join_on op entity g (tbl, col')}"
    by (auto simp: all_joins_def deps_add_join join_on_def) (simp_all add: deps_def)
  with q show ?thesis by blast
qed

text \<open>The instance: a transfer with a sender and a receiver account.\<close>

definition transfer_schema :: schema where
  "transfer_schema = demo_schema\<lparr>s_foreign_keys :=
     [''transfer'' \<mapsto> [''sender'' \<mapsto> (''account'', ''id''), ''receiver'' \<mapsto> (''account'', ''id'')]]\<rparr>"

lemma parallel_foreign_keys_lose_a_join_witness:
  "\<exists>q. parse_selection transfer_schema test_operation (GField ''transfer'' [] (Selections ''Transfer'' False
        [GField ''sender'' [] (Selections ''Account'' False [plain ''id'']) None,
         GField ''receiver'' [] (Selections ''Account'' False [plain ''id'']) None]) None) = Inr [q]
    \<and> all_joins (uq_joins q) = {join_on test_operation ''transfer'' ''receiver'' (''account'', ''id'')}"
proof -
  have fk: "foreign_key transfer_schema ''transfer'' ''sender'' = Some (''account'', ''id'')"
    "foreign_key transfer_schema ''transfer'' ''receiver'' = Some (''account'', ''id'')"
    by (simp_all add: foreign_key_def transfer_schema_def to_lowercase_def lower_char_def)
  show ?thesis by (rule parallel_foreign_keys_lose_a_join [OF fk]) (simp_all add: plain_def)
qed

end
