(* ===== verification/Api_Server.thy ===== *)
theory Api_Server
  imports Service_Laws Query_Elements
begin

text \<open>
  \<^verbatim>\<open>fuel-indexer-api-server/src\<close>: the handlers of the web API (\<^verbatim>\<open>uses.rs\<close>), the authentication
  middleware (\<^verbatim>\<open>middleware/auth.rs\<close>) and the status codes of errors (\<^verbatim>\<open>api.rs\<close>). The handlers act on
  the database that the service uses and send it requests through a channel. The clock, random
  numbers, the JWT library, the cryptography and the execution of a user query are arguments.
\<close>

section \<open>Errors\<close>

datatype http_error = BadRequest | Unauthorized | NotFound string | InternalServer | HttpLibrary

datatype api_error =
    Graphql graphql_error
  | Serde
  | Database
  | Sqlx sql_error
  | Http http_error
  | SchemaError sql_error
  | ChannelSend service_request
  | Axum
  | HyperError
  | FuelCrypto
  | JsonWebToken
  | HexError

text \<open>\<^verbatim>\<open>into_response\<close>: the status code of an error.\<close>

definition error_status :: "api_error \<Rightarrow> nat" where
  "error_status e =
     (case e of
        JsonWebToken \<Rightarrow> 400
      | Http Unauthorized \<Rightarrow> 401
      | Http (NotFound _) \<Rightarrow> 404
      | FuelCrypto \<Rightarrow> 400
      | Graphql _ \<Rightarrow> 400
      | _ \<Rightarrow> 500)"

section \<open>The system behind the handlers\<close>

text \<open>
  The service's data with the database, the requests that were sent and not yet received, and
  whether the service task still holds the receiving end. A full channel only delays a sender.
\<close>

record system =
  sy_service :: service
  sy_queue :: "service_request list"
  sy_receiving :: bool

type_synonym 'a api = "('a, system, api_error) op"

definition map_fault :: "('e \<Rightarrow> 'f) \<Rightarrow> ('a, 'e) result \<Rightarrow> ('a, 'f) result" where
  "map_fault f r = (case r of Inr x \<Rightarrow> Inr x | Inl (Err e) \<Rightarrow> Inl (Err (f e)) | Inl (Panic m) \<Rightarrow> Inl (Panic m))"

definition system_db :: "system \<Rightarrow> database" where
  "system_db s = ss_db (sy_service s)"

definition with_db :: "database \<Rightarrow> system \<Rightarrow> system" where
  "with_db d s = s\<lparr>sy_service := (sy_service s)\<lparr>ss_db := d\<rparr>\<rparr>"

definition aquery :: "(sql_error \<Rightarrow> api_error) \<Rightarrow> 'a db \<Rightarrow> 'a api" where
  "aquery f q s = (case q (system_db s) of (r, d) \<Rightarrow> (map_fault f r, with_db d s))"

definition send :: "service_request \<Rightarrow> unit api" where
  "send q s = (if sy_receiving s then (Inr (), s\<lparr>sy_queue := sy_queue s @ [q]\<rparr>) else (Inl (Err (ChannelSend q)), s))"

section \<open>Authentication\<close>

text \<open>\<^verbatim>\<open>fuel-indexer-lib/src/config/auth.rs\<close>.\<close>

datatype authentication_strategy = JWT

record authentication_config =
  au_enabled :: bool
  au_strategy :: "authentication_strategy option"
  au_jwt_secret :: "string option"
  au_jwt_issuer :: "string option"
  au_jwt_expiry :: "64 word option"

record claims =
  cl_sub :: string
  cl_iss :: string
  cl_iat :: "64 word"
  cl_exp :: "64 word"

definition claims_default :: claims where
  "claims_default = \<lparr>cl_sub = [], cl_iss = [], cl_iat = 0, cl_exp = 0\<rparr>"

definition claims_unauthenticated :: claims where
  "claims_unauthenticated = \<lparr>cl_sub = [], cl_iss = [], cl_iat = 1, cl_exp = 1\<rparr>"

definition is_unauthenticated :: "claims \<Rightarrow> bool" where
  "is_unauthenticated c \<longleftrightarrow> cl_exp c = 1 \<and> cl_iat c = 1"

definition jwt_expiry_secs :: "64 word" where
  "jwt_expiry_secs = 2592000"

text \<open>
  The world of the handlers: the service's environment and the functions of the libraries. A key is
  recovered from a signature of 64 bytes and a message; \<open>ap_pg\<close> answers the text of a user query.
\<close>

datatype json = JNull | JArray "json list" | JObject "(string \<times> json) list" | JScalar string

record api_env =
  ap_env :: environment
  ap_auth :: authentication_config
  ap_utf8 :: "bytes \<Rightarrow> string"
  ap_jwt_decode :: "string \<Rightarrow> string \<Rightarrow> claims option"
  ap_jwt_encode :: "string \<Rightarrow> claims \<Rightarrow> string option"
  ap_unhex :: "string \<Rightarrow> bytes option"
  ap_recover :: "bytes \<Rightarrow> string \<Rightarrow> string option"
  ap_verify :: "bytes \<Rightarrow> string \<Rightarrow> string \<Rightarrow> bool"
  ap_parse_query :: "string \<Rightarrow> query_document option"
  ap_pg :: "string \<Rightarrow> sql_error + json list"

text \<open>The middleware: the claims of the request's token.\<close>

definition middleware :: "api_env \<Rightarrow> string option \<Rightarrow> (claims, api_error) result" where
  "middleware ap header =
     (if au_enabled (ap_auth ap)
      then case au_strategy (ap_auth ap) of
          Some JWT \<Rightarrow>
            (let secret = (case au_jwt_secret (ap_auth ap) of None \<Rightarrow> [] | Some k \<Rightarrow> k);
                 token = (case header of None \<Rightarrow> [] | Some h \<Rightarrow> h)
             in case ap_jwt_decode ap secret token of
                  Some c \<Rightarrow> Inr c
                | None \<Rightarrow> Inr claims_unauthenticated)
        | None \<Rightarrow> Inl (Panic ''not implemented'')
      else Inr claims_default)"

section \<open>Handlers (uses.rs)\<close>

definition stop_indexer :: "claims \<Rightarrow> string \<Rightarrow> string \<Rightarrow> unit api" where
  "stop_indexer c ns ident =
     (if is_unauthenticated c then slift (Inl (Err (Http Unauthorized)))
      else sbind (aquery Sqlx start_transaction) (\<lambda>_ s.
        case aquery Sqlx (remove_indexer ns ident) s of
          (Inl (Err _), s1) \<Rightarrow>
            sbind (aquery Sqlx revert_transaction) (\<lambda>_. slift (Inl (Err (Sqlx RowNotFound)))) s1
        | (Inl (Panic m), s1) \<Rightarrow> (Inl (Panic m), s1)
        | (Inr _, s1) \<Rightarrow>
            sbind (aquery Sqlx commit_transaction) (\<lambda>_. send (IndexStop ns ident)) s1))"

definition revert_indexer :: "claims \<Rightarrow> string \<Rightarrow> string \<Rightarrow> unit api" where
  "revert_indexer c ns ident =
     (if is_unauthenticated c then slift (Inl (Err (Http Unauthorized)))
      else sbind (aquery Sqlx (penultimate_asset_for_index ns ident Wasm)) (\<lambda>asset.
        send (IndexRevert (as_id asset) (as_bytes asset) ns ident)))"

definition asset_type_of_name :: "string \<Rightarrow> asset_type option" where
  "asset_type_of_name name =
     (if name = ''wasm'' then Some Wasm else if name = ''manifest'' then Some Manifest
      else if name = ''schema'' then Some Schema else None)"

text \<open>The fields of the multipart body: the name and the data of each.\<close>

fun register_uploads :: "api_env \<Rightarrow> string \<Rightarrow> string \<Rightarrow> string \<Rightarrow> (string \<times> bytes) list \<Rightarrow> index_asset list api" where
  "register_uploads ap sub ns ident [] = sret []"
| "register_uploads ap sub ns ident ((name, data) # parts) =
     sbind (slift (expect (asset_type_of_name name) ''Invalid asset type.'')) (\<lambda>ty.
     sbind (aquery Sqlx (register_index_asset (en_digest (ap_env ap)) ns ident data ty (Some sub))) (\<lambda>asset.
     sbind (if ty = Schema
            then aquery SchemaError (new_schema (en_parse (ap_env ap)) (en_sha (ap_env ap)) (en_ddl (ap_env ap))
                   ns ident (ap_utf8 ap data))
            else sret ()) (\<lambda>_.
     sbind (register_uploads ap sub ns ident parts) (\<lambda>assets.
     sret (asset # assets)))))"

definition register_indexer_assets ::
    "api_env \<Rightarrow> claims \<Rightarrow> string \<Rightarrow> string \<Rightarrow> (string \<times> bytes) list option \<Rightarrow> index_asset list api" where
  "register_indexer_assets ap c ns ident multipart =
     (if is_unauthenticated c then slift (Inl (Err (Http Unauthorized)))
      else case multipart of
          None \<Rightarrow> slift (Inl (Err (Http InternalServer)))
        | Some parts \<Rightarrow>
            sbind (aquery Sqlx start_transaction) (\<lambda>_.
            sbind (register_uploads ap (cl_sub c) ns ident parts) (\<lambda>assets.
            sbind (aquery Sqlx commit_transaction) (\<lambda>_.
            sbind (send (AssetReload ns ident)) (\<lambda>_. sret assets)))))"

definition api_get_nonce :: "string \<Rightarrow> int \<Rightarrow> nonce api" where
  "api_get_nonce fresh now = aquery Sqlx (create_nonce fresh now)"

text \<open>The clock is read twice, for the expiry of the nonce and for the token: \<open>now\<close> and \<open>issued\<close>.\<close>

definition issue_token :: "api_env \<Rightarrow> 64 word \<Rightarrow> string \<Rightarrow> nonce \<Rightarrow> bytes \<Rightarrow> string api" where
  "issue_token ap issued message n sig =
     sbind (slift (ok_or (ap_recover ap sig message) FuelCrypto)) (\<lambda>pk.
       let c = \<lparr>cl_sub = pk, cl_iss = (case au_jwt_issuer (ap_auth ap) of None \<Rightarrow> [] | Some i \<Rightarrow> i), cl_iat = issued,
             cl_exp = issued + (case au_jwt_expiry (ap_auth ap) of None \<Rightarrow> jwt_expiry_secs | Some e \<Rightarrow> e)\<rparr>;
           secret = (case au_jwt_secret (ap_auth ap) of None \<Rightarrow> [] | Some k \<Rightarrow> k)
       in if \<not> ap_verify ap sig pk message then slift (Inl (Err FuelCrypto))
          else sbind (slift (ok_or (ap_jwt_encode ap secret c) JsonWebToken)) (\<lambda>token.
               sbind (aquery Sqlx (delete_nonce n)) (\<lambda>_. sret token)))"

definition verify_signature :: "api_env \<Rightarrow> int \<Rightarrow> 64 word \<Rightarrow> string \<Rightarrow> string \<Rightarrow> string api" where
  "verify_signature ap now issued signature message =
     (if \<not> au_enabled (ap_auth ap) then slift (Inl (Panic ''internal error: entered unreachable code''))
      else case au_strategy (ap_auth ap) of
          None \<Rightarrow> slift (Inl (Panic ''not implemented''))
        | Some JWT \<Rightarrow>
            sbind (aquery Sqlx (get_nonce message)) (\<lambda>n.
            if nonce_is_expired now n then slift (Inl (Err (Http Unauthorized)))
            else
            sbind (slift (ok_or (ap_unhex ap signature) HexError)) (\<lambda>bs.
            issue_token ap issued message n (if length bs = 64 then bs else replicate 64 0))))"

text \<open>
  A user query. The builder is total (\<^verbatim>\<open>build\<close> returns for every document), so \<open>None\<close> does not occur.
\<close>

definition json_field :: "string \<Rightarrow> json \<Rightarrow> json option" where
  "json_field k j = (case j of JObject fs \<Rightarrow> map_of fs k | _ \<Rightarrow> None)"

definition unwrap_page :: "json list \<Rightarrow> json" where
  "unwrap_page rows = (case rows of
     row # _ \<Rightarrow> (if json_field ''page_info'' row \<noteq> None then row else JArray rows)
   | [] \<Rightarrow> JArray [])"

definition query_statements :: "api_env \<Rightarrow> schema \<Rightarrow> string \<Rightarrow> (string, api_error) result option" where
  "query_statements ap schema query =
     (case ap_parse_query ap query of
        None \<Rightarrow> Some (Inl (Err (Graphql (ParseError query))))
      | Some doc \<Rightarrow>
          map_option (\<lambda>ops. map_fault Graphql (rbind ops (\<lambda>ops. rbind (as_sql schema ops) (\<lambda>qs. Inr (join ('';'' @ [newline]) qs)))))
            (build schema doc))"

definition run_query :: "api_env \<Rightarrow> schema \<Rightarrow> string \<Rightarrow> (json, api_error) result option" where
  "run_query ap schema query =
     map_option (\<lambda>r. rbind r (\<lambda>text.
        case ap_pg ap text of Inl e \<Rightarrow> Inl (Err (Sqlx e)) | Inr rows \<Rightarrow> Inr (unwrap_page rows)))
       (query_statements ap schema query)"

definition query_graph :: "api_env \<Rightarrow> string \<Rightarrow> string \<Rightarrow> string \<Rightarrow> system \<Rightarrow> (json, api_error) result option \<times> system" where
  "query_graph ap ns ident query s =
     (case load_schema (en_parse (ap_env ap)) ns ident (system_db s) of
        (Inr schema, d) \<Rightarrow> (run_query ap schema query, with_db d s)
      | (Inl (Err _), d) \<Rightarrow> (Some (Inl (Err (Http (NotFound (''The graph '' @ [CHR 0x27] @ ns @ ''.'' @ ident @ [CHR 0x27] @ '' was not found.''))))), with_db d s)
      | (Inl (Panic m), d) \<Rightarrow> (Some (Inl (Panic m)), with_db d s))"

section \<open>Requests and the system's steps\<close>

text \<open>The routes below \<^verbatim>\<open>/index\<close> pass the middleware.\<close>

datatype api_request =
    Stop "string option" string string
  | Revert "string option" string string
  | Upload "string option" string string "(string \<times> bytes) list option"
  | GetNonce string int
  | VerifySignature int "64 word" string string
  | QueryGraph string string string

datatype answer = Success | Assets "index_asset list" | NonceOf nonce | Token string | Data "json option"

definition as_answer :: "('a \<Rightarrow> answer) \<Rightarrow> 'a api \<Rightarrow> answer api" where
  "as_answer f m = sbind m (\<lambda>x. sret (f x))"

fun handle_api :: "api_env \<Rightarrow> api_request \<Rightarrow> answer api" where
  "handle_api ap (Stop header ns ident) =
     sbind (slift (middleware ap header)) (\<lambda>c. as_answer (\<lambda>_. Success) (stop_indexer c ns ident))"
| "handle_api ap (Revert header ns ident) =
     sbind (slift (middleware ap header)) (\<lambda>c. as_answer (\<lambda>_. Success) (revert_indexer c ns ident))"
| "handle_api ap (Upload header ns ident multipart) =
     sbind (slift (middleware ap header)) (\<lambda>c. as_answer Assets (register_indexer_assets ap c ns ident multipart))"
| "handle_api ap (GetNonce fresh now) = as_answer NonceOf (api_get_nonce fresh now)"
| "handle_api ap (VerifySignature now issued signature message) =
     as_answer Token (verify_signature ap now issued signature message)"
| "handle_api ap (QueryGraph ns ident query) =
     (\<lambda>s. case query_graph ap ns ident query s of
        (None, s') \<Rightarrow> (Inr (Data None), s')
      | (Some (Inl e), s') \<Rightarrow> (Inl e, s')
      | (Some (Inr j), s') \<Rightarrow> (Inr (Data (Some j)), s'))"

text \<open>
  The steps of the system: a web request is handled, the service task takes the next request from
  the channel, or its handling fails, which ends the task and closes the channel.
\<close>

inductive system_step :: "api_env \<Rightarrow> system \<Rightarrow> system \<Rightarrow> bool" for ap where
  web: "handle_api ap q s = (r, s') \<Longrightarrow> system_step ap s s'"
| served: "sy_receiving s \<Longrightarrow> sy_queue s = q # qs \<Longrightarrow> handle_request (ap_env ap) q (sy_service s) = (Inr (), sv)
    \<Longrightarrow> system_step ap s (s\<lparr>sy_service := sv, sy_queue := qs\<rparr>)"
| ended: "sy_receiving s \<Longrightarrow> sy_queue s = q # qs \<Longrightarrow> handle_request (ap_env ap) q (sy_service s) = (Inl e, sv)
    \<Longrightarrow> system_step ap s (s\<lparr>sy_service := sv, sy_queue := [], sy_receiving := False\<rparr>)"

inductive_cases system_stepE: "system_step ap s s'"

end
