(* ===== verification/Api_Laws.thy ===== *)
theory Api_Laws
  imports Api_Server
begin

text \<open>
  Correctness of the web API and of the system it forms with the service: who may do what, tokens
  and their nonces, removal and deployment of indexers, and what every run of the system keeps.
\<close>

section \<open>Queries of the handlers\<close>

lemma map_fault_simps [simp]:
  "map_fault f (Inr x) = Inr x" "map_fault f (Inl (Err e)) = Inl (Err (f e))" "map_fault f (Inl (Panic m)) = Inl (Panic m)"
  by (simp_all add: map_fault_def)

lemma map_fault_Inr: "map_fault f r = Inr x \<longleftrightarrow> r = Inr x"
  by (auto simp: map_fault_def split: sum.splits fault.splits)

lemma with_db_simps [simp]:
  "system_db (with_db d s) = d" "sy_queue (with_db d s) = sy_queue s" "sy_receiving (with_db d s) = sy_receiving s"
  "with_db d (with_db d' s) = with_db d s" "with_db (system_db s) s = s"
  "sy_service (with_db d s) = (sy_service s)\<lparr>ss_db := d\<rparr>"
  by (simp_all add: with_db_def system_db_def)

lemma aquery_eq: "q (system_db s) = (r, d) \<Longrightarrow> aquery f q s = (map_fault f r, with_db d s)"
  by (simp add: aquery_def)

lemma aquery_Inr: "aquery f q s = (Inr x, s') \<longleftrightarrow> (\<exists>d. q (system_db s) = (Inr x, d) \<and> s' = with_db d s)"
  by (auto simp: aquery_def map_fault_Inr split: prod.splits)

lemma as_answer_Inr: "as_answer f m s = (Inr y, s') \<longleftrightarrow> (\<exists>x. m s = (Inr x, s') \<and> y = f x)"
  by (auto simp: as_answer_def sbind_Inr)

section \<open>Runs of the system keep the registry and the service consistent\<close>

interpretation reg: effects "\<lambda>st :: service. db_ok (ss_db st)" .

lemma keeps_commit_metadata [keeps_rules]: "keeps (commit_metadata ddl sb)"
  unfolding commit_metadata_def graph_root_latest_def by (intro keeps_rules)

lemma keeps_new_schema [keeps_rules]: "keeps (new_schema parse sha ddl ns ident schema)"
  unfolding new_schema_def schema_exists_def Let_def
  by (intro keeps_dbind keeps_select) (auto intro!: keeps_rules)

lemma keeps_latest_assets [keeps_rules]: "keeps (latest_assets_for_index i)"
  unfolding latest_assets_for_index_def latest_asset_for_index_def by (intro keeps_rules)

lemma reg_squery: "keeps q \<Longrightarrow> reg.kept (squery q)"
  by (rule reg.keptI) (auto simp: squery_def dest: keepsD split: prod.splits)

lemma reg_frame:
  "reg.kept (spawn m bs)" "reg.kept (remember u i)" "reg.kept (kill_indexer u)" "reg.kept (insert_killer u i)"
  "reg.kept (index_stop ns ident)"
  by (auto intro!: reg.keptI simp: spawn_def remember_def kill_indexer_def insert_killer_def index_stop_def Let_def)

lemma reg_wasm_create: "reg.kept (wasm_create en m src)"
  unfolding wasm_create_def
  by (cases src; cases "mf_module m") (auto intro!: serv_keeps reg_frame split: prod.splits)

lemma reg_reload: "reg.kept (asset_reload en ns ident)"
proof (rule reg.keptI)
  fix st :: service assume ok: "db_ok (ss_db st)"
  obtain r st' where run: "asset_reload en ns ident st = (r, st')" by (cases "asset_reload en ns ident st")
  from run have "ss_db st' = ss_db st"
    by (cases rule: asset_reload_cases) (auto simp: replaced_frame)
  with run ok show "db_ok (ss_db (snd (asset_reload en ns ident st)))" by simp
qed

lemma keeps_remove_module: "reg.kept (remove_latest_module assets)"
proof (rule reg.keptI)
  fix st :: service assume ok: "db_ok (ss_db st)"
  let ?q = "remove_asset_by_version (as_id (ab_manifest assets)) (as_version (ab_wasm assets)) Wasm"
  obtain r st1 where run: "squery ?q st = (r, st1)" by (cases "squery ?q st")
  have "reg.kept (squery ?q)" by (intro reg_squery keeps_rules)
  from reg.keptD [OF this ok run] have ok1: "db_ok (ss_db st1)" .
  have ends: "reg.kept (squery revert_transaction)" "reg.kept (squery commit_transaction)"
    by (intro reg_squery keeps_rules)+
  obtain r2 st2 r3 st3 where e: "squery revert_transaction st1 = (r2, st2)" "squery commit_transaction st1 = (r3, st3)"
    by (cases "squery revert_transaction st1", cases "squery commit_transaction st1")
  from ends(1) ok1 e(1) have "db_ok (ss_db st2)" by (rule reg.keptD)
  moreover from ends(2) ok1 e(2) have "db_ok (ss_db st3)" by (rule reg.keptD)
  ultimately show "db_ok (ss_db (snd (remove_latest_module assets st)))"
    using run ok1 e by (auto simp: remove_latest_module_def split: sum.splits fault.splits)
qed

lemma reg_revert: "reg.kept (index_revert en i bs ns ident)"
  unfolding index_revert_def Let_def
  by (intro serv_keeps reg_frame reg_squery keeps_remove_module keeps_rules)
     (auto intro!: reg_frame serv_keeps reg_wasm_create)

lemma reg_request: "reg.kept (handle_request en q)"
  by (cases q) (simp_all add: reg_reload reg_revert reg_frame)

lemma ok_spawn_insert:
  assumes "service_ok st" "wasm_create en m (FromRegistry bs) st = (Inr (i, bs'), st1)"
  shows "service_ok (snd (insert_killer (uid m) i st1))"
  using assms by (auto simp: wasm_create_registry insert_killer_def service_ok_def nth_append
      split: sum.splits if_splits; fastforce)

lemma ok_revert: "ok.kept (index_revert en i bs ns ident)"
proof (rule ok.keptI)
  fix st :: service assume ok: "service_ok st"
  have kill: "ok.kept (kill_indexer u)" for u
    by (auto intro!: ok.keptI simp: kill_indexer_def kill_switch_def service_ok_def split: option.splits)
  have module: "ok.kept (remove_latest_module assets)" for assets
    by (rule ok.keptI) (auto simp: remove_latest_module_def squery_def service_ok_def split: prod.splits sum.splits fault.splits)
  have create: "ok.kept (sbind (wasm_create en m (FromRegistry bs)) (\<lambda>(i, _). insert_killer (uid m) i))" for m
  proof (rule ok.keptI)
    fix st :: service assume ok: "service_ok st"
    show "service_ok (snd (sbind (wasm_create en m (FromRegistry bs)) (\<lambda>(i, _). insert_killer (uid m) i) st))"
      using ok ok_spawn_insert [OF ok, of en m bs]
      by (auto simp: sbind_def wasm_create_registry split: sum.splits)
  qed
  have "ok.kept (index_revert en i bs ns ident)"
    unfolding index_revert_def Let_def
    by (rule create | rule ok.kept_sbind kill module ok.kept_squery ok.kept_slift)+
  with ok show "service_ok (snd (index_revert en i bs ns ident st))" by (simp add: ok.kept_def)
qed

lemma ok_request: "service_ok st \<Longrightarrow> handle_request en q st = (r, st') \<Longrightarrow> service_ok st'"
proof (cases q)
  case (AssetReload ns ident)
  assume "service_ok st" "handle_request en q st = (r, st')"
  with AssetReload have ok: "service_ok st" "asset_reload en ns ident st = (r, st')" by simp_all
  from ok(2) show ?thesis by (cases rule: asset_reload_cases) (use ok in \<open>auto intro: replaced_ok\<close>)
next
  case (IndexStop ns ident)
  assume "service_ok st" "handle_request en q st = (r, st')"
  with IndexStop stop_ok [of st ns ident] show ?thesis by simp
next
  case (IndexRevert i bs ns ident)
  assume "service_ok st" "handle_request en q st = (r, st')"
  with IndexRevert show ?thesis using ok.keptD [OF ok_revert, of st en i bs ns ident r st'] by simp
qed

lemma load_schema_reads: "keeps (load_schema parse ns ident)"
proof -
  have types: "keeps (load_types tids acc)" for tids acc
    by (induction tids acc rule: load_types.induct)
       (auto simp: list_column_by_id_def keeps_def [of "Pair _"] split: prod.splits intro!: keeps_rules)
  show ?thesis
    unfolding load_schema_def load_from_db_def graph_root_latest_def root_columns_list_by_id_def type_id_list_by_name_def
    by (intro keeps_rules types) (auto intro!: keeps_rules types split: prod.splits)
qed

section \<open>What the handlers keep\<close>

text \<open>
  A predicate on the system that does not mention the channel and of the database says at most that
  its tables are consistent; every handler keeps it.
\<close>

locale web_predicate = effects holds for holds :: "system \<Rightarrow> bool" +
  assumes query: "holds s \<Longrightarrow> db_ok (system_db s) \<longrightarrow> db_ok d \<Longrightarrow> holds (with_db d s)"
    and queue: "holds s \<Longrightarrow> holds (s\<lparr>sy_queue := qs\<rparr>)"
begin

lemma kept_aquery: "keeps q \<Longrightarrow> kept (aquery f q)"
  by (rule keptI) (auto simp: aquery_def intro!: query dest: keepsD split: prod.splits)

lemma kept_send: "kept (send q)"
  by (rule keptI) (simp add: send_def queue)

lemma kept_stop: "kept (stop_indexer c ns ident)"
proof -
  have "kept (\<lambda>s. case aquery Sqlx (remove_indexer ns ident) s of
          (Inl (Err _), s1) \<Rightarrow>
            sbind (aquery Sqlx revert_transaction) (\<lambda>_. slift (Inl (Err (Sqlx RowNotFound)))) s1
        | (Inl (Panic m), s1) \<Rightarrow> (Inl (Panic m), s1)
        | (Inr _, s1) \<Rightarrow>
            sbind (aquery Sqlx commit_transaction) (\<lambda>_. send (IndexStop ns ident)) s1)" (is "kept ?m")
  proof (rule keptI)
    fix s :: system assume ok: "holds s"
    obtain r s1 where run: "aquery Sqlx (remove_indexer ns ident) s = (r, s1)"
      by (cases "aquery Sqlx (remove_indexer ns ident) s")
    have "kept (aquery Sqlx (remove_indexer ns ident))" by (intro kept_aquery keeps_rules)
    from keptD [OF this ok run] have ok1: "holds s1" .
    have undo: "kept (sbind (aquery Sqlx revert_transaction) (\<lambda>_. slift (Inl (Err (Sqlx RowNotFound)))))"
      and commit: "kept (sbind (aquery Sqlx commit_transaction) (\<lambda>_. send (IndexStop ns ident)))"
      by (intro serv_keeps kept_aquery kept_send keeps_rules)+
    from run ok1 undo commit show "holds (snd (?m s))"
      by (auto simp: kept_def split: sum.splits fault.splits)
  qed
  then show ?thesis
    unfolding stop_indexer_def by (auto intro!: serv_keeps kept_aquery keeps_rules)
qed

lemma kept_revert: "kept (revert_indexer c ns ident)"
  unfolding revert_indexer_def penultimate_asset_for_index_def index_id_for_def
  by (auto intro!: serv_keeps kept_aquery kept_send keeps_rules)

lemma kept_uploads: "kept (register_uploads ap sub ns ident parts)"
proof (induction parts)
  case (Cons part parts)
  then show ?case by (cases part) (auto intro!: serv_keeps kept_aquery keeps_rules)
qed (simp add: kept_def)

lemma kept_register: "kept (register_indexer_assets ap c ns ident multipart)"
  unfolding register_indexer_assets_def
  by (auto intro!: serv_keeps kept_aquery kept_send kept_uploads keeps_rules split: option.split)

lemma kept_verify: "kept (verify_signature ap now issued signature message)"
proof -
  have get: "kept (aquery Sqlx (get_nonce message))" and del: "kept (aquery Sqlx (delete_nonce n))" for n
    unfolding get_nonce_def by (intro kept_aquery keeps_rules)+
  show ?thesis
    unfolding verify_signature_def issue_token_def Let_def
    by (auto intro!: serv_keeps get del split: option.split authentication_strategy.split)
qed

lemma kept_query:
  assumes "holds s" "query_graph ap ns ident query s = (r, s')"
  shows "holds s'"
proof -
  obtain x d where l: "load_schema (en_parse (ap_env ap)) ns ident (system_db s) = (x, d)"
    by (cases "load_schema (en_parse (ap_env ap)) ns ident (system_db s)")
  then have "db_ok (system_db s) \<longrightarrow> db_ok d"
    using keepsD [OF load_schema_reads, of "system_db s" "en_parse (ap_env ap)" ns ident] by simp
  with assms l show ?thesis by (auto simp: query_graph_def query split: sum.splits fault.splits)
qed

lemma kept_api: "kept (handle_api ap q)"
proof (cases q)
  case (QueryGraph ns ident query)
  show ?thesis
  proof (rule keptI)
    fix s :: system assume ok: "holds s"
    obtain r s' where run: "query_graph ap ns ident query s = (r, s')" by (cases "query_graph ap ns ident query s")
    from kept_query [OF ok run] run show "holds (snd (handle_api ap q s))"
      by (auto simp: QueryGraph split: option.splits sum.splits)
  qed
qed (auto simp: as_answer_def api_get_nonce_def
      intro!: serv_keeps kept_stop kept_revert kept_register kept_verify kept_aquery keeps_rules)

end

interpretation sys: web_predicate "\<lambda>s. service_ok (sy_service s) \<and> db_ok (system_db s)"
  by unfold_locales (auto simp: ok.other_database system_db_def)

interpretation still: web_predicate "\<lambda>s. sy_receiving s = receiving \<and> live_executors (sy_service s) = live"
  for receiving live
  by unfold_locales (auto simp: live_executors_def)

section \<open>A system to run the properties on\<close>

definition demo_api :: api_env where
  "demo_api = \<lparr>ap_env = demo_environment,
     ap_auth = \<lparr>au_enabled = True, au_strategy = Some JWT, au_jwt_secret = Some ''s'', au_jwt_issuer = None, au_jwt_expiry = None\<rparr>,
     ap_utf8 = (\<lambda>_. ''schema''),
     ap_jwt_decode = (\<lambda>k t. if t = ''good'' then Some \<lparr>cl_sub = ''me'', cl_iss = [], cl_iat = 5, cl_exp = 9\<rparr> else None),
     ap_jwt_encode = (\<lambda>k c. Some ''token''), ap_unhex = (\<lambda>_. Some (replicate 64 1)),
     ap_recover = (\<lambda>_ _. Some ''key''), ap_verify = (\<lambda>_ _ _. True), ap_parse_query = (\<lambda>_. None), ap_pg = (\<lambda>_. Inr [])\<rparr>"

definition demo_system :: system where
  "demo_system = \<lparr>sy_service = demo_service, sy_queue = [], sy_receiving = True\<rparr>"

lemma demo_system_ok: "db_ok (system_db demo_system)" "service_ok (sy_service demo_system)"
  by (simp_all add: demo_system_def system_db_def demo_service_db served_ok demo_service_ok)

lemma demo_db:
  "system_db demo_system = served_database" "sy_receiving demo_system" "sy_queue demo_system = []"
  by (simp_all add: demo_system_def system_db_def demo_service_db)

lemma demo_middleware:
  "middleware demo_api (Some ''good'') = Inr \<lparr>cl_sub = ''me'', cl_iss = [], cl_iat = 5, cl_exp = 9\<rparr>"
  "middleware demo_api None = Inr claims_unauthenticated"
  by (simp_all add: middleware_def demo_api_def)

section \<open>Properties\<close>

text \<open>
  C3: whatever web requests arrive, whenever the service task takes the next request and whether or
  not it has ended, the registry's tables stay consistent, each kill switch that the service
  holds belongs to an executor of the indexer it is filed under, and no switch is given out twice.
\<close>

theorem system_stays_consistent:
  assumes "(system_step ap)\<^sup>*\<^sup>* s0 s" and "db_ok (system_db s0)" "service_ok (sy_service s0)"
  shows "db_ok (system_db s) \<and> service_ok (sy_service s)"
  using assms
proof (induction rule: rtranclp_induct)
  case (step s s')
  then have ok: "service_ok (sy_service s) \<and> db_ok (system_db s)" by simp
  from step.hyps(2) show ?case
  proof (cases rule: system_step.cases)
    case (web q r)
    with sys.keptD [OF sys.kept_api ok] show ?thesis by blast
  next
    case (served q qs sv)
    with ok ok_request [OF _ served(4)] reg.keptD [OF reg_request _ served(4)] show ?thesis
      by (simp add: system_db_def)
  next
    case (ended q qs e sv)
    with ok ok_request [OF _ ended(4)] reg.keptD [OF reg_request _ ended(4)] show ?thesis
      by (simp add: system_db_def)
  qed
qed simp

lemma demo_stopped:
  "\<exists>s. system_step demo_api demo_system s \<and> sy_queue s = [IndexStop ''ns'' ''idx'']"
proof -
  obtain s where "handle_api demo_api (Stop (Some ''good'') ''ns'' ''idx'') demo_system = (Inr Success, s)"
      "sy_queue s = [IndexStop ''ns'' ''idx'']"
    by (simp add: demo_middleware is_unauthenticated_def as_answer_def sbind_def stop_indexer_def aquery_def demo_system_def
        system_db_def with_db_def demo_service_db served_database_def empty_database_def empty_tables_def
        start_transaction_def commit_transaction_def remove_indexer_def dbind_def index_id_for_def select_one_simp
        delete_assets_def delete_index_def update_simp send_def)
  then show ?thesis by (blast intro: system_step.web)
qed

lemma system_stays_consistent_witness:
  "\<exists>s. system_step demo_api demo_system s \<and> sy_queue s = [IndexStop ''ns'' ''idx''] \<and> db_ok (system_db s)"
proof -
  obtain s where s: "system_step demo_api demo_system s" "sy_queue s = [IndexStop ''ns'' ''idx'']"
    using demo_stopped by blast
  then have "(system_step demo_api)\<^sup>*\<^sup>* demo_system s" by blast
  from system_stays_consistent [OF this demo_system_ok] s show ?thesis by blast
qed

text \<open>
  Once the service task has ended, no web request starts or kills an executor any more: the live
  executors stay the same in every run of the system, whatever is uploaded, stopped or reverted.
\<close>

theorem ended_service_is_deaf:
  assumes "(system_step ap)\<^sup>*\<^sup>* s0 s" and "\<not> sy_receiving s0"
  shows "\<not> sy_receiving s \<and> live_executors (sy_service s) = live_executors (sy_service s0)"
  using assms
proof (induction rule: rtranclp_induct)
  case (step s s')
  then have deaf: "\<not> sy_receiving s" by simp
  from step.hyps(2) deaf obtain q r where run: "handle_api ap q s = (r, s')" by (auto elim: system_stepE)
  from still.keptD [OF still.kept_api _ run, of "sy_receiving s" "live_executors (sy_service s)"] step deaf
  show ?case by simp
qed simp

lemma ended_service_is_deaf_witness:
  "\<exists>s. system_step demo_api (demo_system\<lparr>sy_receiving := False\<rparr>) s
    \<and> live_executors (sy_service s) = live_executors demo_service"
proof -
  let ?s0 = "demo_system\<lparr>sy_receiving := False\<rparr>"
  obtain r s where "handle_api demo_api (Stop (Some ''good'') ''ns'' ''idx'') ?s0 = (r, s)"
    by (cases "handle_api demo_api (Stop (Some ''good'') ''ns'' ''idx'') ?s0")
  then have step: "system_step demo_api ?s0 s" by (rule system_step.web)
  then have "(system_step demo_api)\<^sup>*\<^sup>* ?s0 s" by blast
  from ended_service_is_deaf [OF this] step show ?thesis by (auto simp: demo_system_def)
qed

text \<open>
  With JWT authentication, a request to stop, revert or upload whose token does not decode is
  answered with status 401 and changes nothing: neither the database nor the channel.
\<close>

theorem bad_tokens_are_refused:
  assumes "au_enabled (ap_auth ap)" "au_strategy (ap_auth ap) = Some JWT"
    and "ap_jwt_decode ap (case au_jwt_secret (ap_auth ap) of None \<Rightarrow> [] | Some k \<Rightarrow> k)
      (case header of None \<Rightarrow> [] | Some h \<Rightarrow> h) = None"
    and "q = Stop header ns ident \<or> q = Revert header ns ident \<or> q = Upload header ns ident multipart"
  shows "handle_api ap q s = (Inl (Err (Http Unauthorized)), s) \<and> error_status (Http Unauthorized) = 401"
proof -
  from assms(1-3) have "middleware ap header = Inr claims_unauthenticated" by (simp add: middleware_def Let_def)
  moreover have "is_unauthenticated claims_unauthenticated"
    by (simp add: is_unauthenticated_def claims_unauthenticated_def)
  ultimately show ?thesis
    using assms(4)
    by (auto simp: sbind_def as_answer_def stop_indexer_def revert_indexer_def register_indexer_assets_def error_status_def)
qed

lemma bad_tokens_are_refused_witness:
  "handle_api demo_api (Stop None ''ns'' ''idx'') demo_system = (Inl (Err (Http Unauthorized)), demo_system)"
  using bad_tokens_are_refused [of demo_api None "Stop None ''ns'' ''idx''" "''ns''" "''idx''" None demo_system]
  by (simp add: demo_api_def)

lemma verify_signature_jwt:
  assumes "au_enabled (ap_auth ap)" "au_strategy (ap_auth ap) = Some JWT"
  shows "verify_signature ap now issued signature message =
    sbind (aquery Sqlx (get_nonce message)) (\<lambda>n. if nonce_is_expired now n then slift (Inl (Err (Http Unauthorized)))
      else sbind (slift (ok_or (ap_unhex ap signature) HexError)) (\<lambda>bs.
        issue_token ap issued message n (if length bs = 64 then bs else replicate 64 0)))"
  using assms by (simp add: verify_signature_def Let_def)

lemma issued_token:
  assumes "issue_token ap issued message n sig s = (Inr token, s')"
  shows "\<exists>pk c secret. ap_recover ap sig message = Some pk \<and> ap_verify ap sig pk message \<and> cl_sub c = pk
    \<and> ap_jwt_encode ap secret c = Some token \<and> aquery Sqlx (delete_nonce n) s = (Inr (), s')"
proof -
  from assms obtain pk c secret where "ap_recover ap sig message = Some pk" "ap_verify ap sig pk message" "cl_sub c = pk"
    "sbind (slift (ok_or (ap_jwt_encode ap secret c) JsonWebToken)) (\<lambda>token.
       sbind (aquery Sqlx (delete_nonce n)) (\<lambda>_. sret token)) s = (Inr token, s')"
    by (auto simp: issue_token_def sbind_Inr [where m = "slift (ok_or (ap_recover _ _ _) _)"] Let_def split: if_splits) (metis claims.select_convs(1))
  then show ?thesis by (auto simp: sbind_Inr)
qed

lemma get_nonce_found:
  assumes "get_nonce u d = (Inr n, d')"
  shows "\<not> db_aborted d \<and> d' = d \<and> n \<in> nr_nonce ` set (tb_nonces (db_tables d)) \<and> no_uid n = u"
proof -
  let ?rows = "filter (\<lambda>r. no_uid (nr_nonce r) = u) (tb_nonces (db_tables d))"
  from assms have "\<not> db_aborted d" "d' = d" "map nr_nonce ?rows \<noteq> []" "n = hd (map nr_nonce ?rows)"
    by (auto simp: get_nonce_def select_one_simp split: if_splits list.splits)
  moreover from this have "n \<in> nr_nonce ` set ?rows"
    using hd_in_set [of "map nr_nonce ?rows"] by simp
  ultimately show ?thesis by auto
qed


definition login_system :: system where
  "login_system = with_db (served_database\<lparr>db_tables := (db_tables served_database)\<lparr>tb_nonces :=
     [\<lparr>nr_id = 1, nr_nonce = \<lparr>no_uid = ''n1'', no_expiry = 100\<rparr>\<rparr>]\<rparr>\<rparr>) demo_system"




lemma index_id_found:
  assumes "\<not> db_aborted d" "find_index (db_tables d) ns ident = Some i"
  shows "index_id_for ns ident d = (Inr (ri_id i), d)"
  using assms filter_find [of "\<lambda>j. ri_namespace j = ns \<and> ri_identifier j = ident" "tb_indexes (db_tables d)"]
  by (auto simp: index_id_for_def select_one_simp find_index_def split: list.splits)

lemma latest_wasm:
  assumes "latest_assets_for_index i d = (Inr assets, d)" "latest_asset_for_index i Wasm d = (Inr a, d')"
  shows "ab_wasm assets = a"
  using assms by (auto simp: latest_assets_for_index_def dbind_Inr)


text \<open>An authenticated upload of a module to the indexer of the sample system.\<close>

definition uploaded_database :: database where
  "uploaded_database = served_database\<lparr>
     db_tables := (db_tables served_database)\<lparr>tb_assets := (tb_assets (db_tables served_database))(Wasm :=
       [asset_row 3 1, asset_row 4 2, \<lparr>as_id = 5, as_index_id = 1, as_version = 3, as_digest = ''d'', as_bytes = [9]\<rparr>])\<rparr>,
     db_seq := (\<lambda>_. 5)(SqAssets Wasm := 6)\<rparr>"

lemma demo_rows:
  "as_index_id (asset_row i v) = 1" "as_digest (asset_row i v) = show_nat v" "show_nat 1 = ''1''" "show_nat 2 = ''2''"
  by (simp_all add: asset_row_def) code_simp+

lemma demo_upload:
  "register_indexer_assets demo_api claims_default ''ns'' ''idx'' (Some [(''wasm'', [9])]) demo_system
    = (Inr [\<lparr>as_id = 5, as_index_id = 1, as_version = 3, as_digest = ''d'', as_bytes = [9]\<rparr>],
       (with_db uploaded_database demo_system)\<lparr>sy_queue := [AssetReload ''ns'' ''idx'']\<rparr>)"
proof -
  let ?d0 = "served_database\<lparr>db_saved := Some (db_tables served_database)\<rparr>"
  let ?d1 = "uploaded_database\<lparr>db_saved := Some (db_tables served_database)\<rparr>"
  let ?row = "\<lparr>as_id = 5, as_index_id = 1, as_version = 3, as_digest = ''d'', as_bytes = [9]\<rparr>"
  have db: "start_transaction served_database = (Inr (), ?d0)" "commit_transaction ?d1 = (Inr (), uploaded_database)"
    by (simp_all add: start_transaction_def commit_transaction_def served_database_def uploaded_database_def empty_database_def)
  have "register_index_asset (en_digest demo_environment) ''ns'' ''idx'' [9] Wasm (Some []) ?d0 = (Inr ?row, ?d1)"
    by (simp add: register_index_asset_def index_is_registered_def dbind_def select_simp find_index_def
        store_asset_def asset_already_exists_simp index_asset_version_simp insert_asset_def statement_def Let_def fits_def
        uploaded_database_def served_database_def empty_database_def empty_tables_def demo_environment_def demo_rows look_asset_def del: One_nat_def)
  with db show ?thesis
    by (simp add: register_indexer_assets_def is_unauthenticated_def claims_default_def sbind_def aquery_def demo_system_ok
        asset_type_of_name_def expect_def send_def demo_api_def demo_db)
qed

lemma demo_deploy:
  "\<exists>sv. handle_request demo_environment (AssetReload ''ns'' ''idx'') (demo_service\<lparr>ss_db := uploaded_database\<rparr>) = (Inr (), sv)"
proof -
  have "index_id_for ''ns'' ''idx'' uploaded_database = (Inr 1, uploaded_database)"
    "latest_assets_for_index 1 uploaded_database = (Inr \<lparr>ab_schema = asset_row 1 1, ab_manifest = asset_row 1 1,
       ab_wasm = \<lparr>as_id = 5, as_index_id = 1, as_version = 3, as_digest = ''d'', as_bytes = [9]\<rparr>\<rparr>, uploaded_database)"
    by (simp_all add: uploaded_database_def served_database_def empty_database_def empty_tables_def index_id_for_def select_one_simp
      latest_assets_for_index_def latest_asset_for_index_def dbind_def assets_of_def by_id_desc_def asset_row_def)
  then show ?thesis
    by (simp add: asset_reload_def squery_def lift_sql_def reload_indexer_def sbind_def wasm_create_def spawn_def
        kill_indexer_eq insert_killer_def Let_def demo_environment_def get_start_block_def served_manifest_def)
qed


end
