(* ===== verification/Tokenizer.thy ===== *)
theory Tokenizer
  imports Text_Format
begin

text \<open>
  \<^verbatim>\<open>fuel-indexer-graphql/parser/src/tokenizer.rs\<close>: the token stream that the parsers of query and
  schema documents read, and the unquoting of strings in \<^verbatim>\<open>common.rs\<close>. Source texts are ASCII, so that a
  character is a byte and offsets count both.
\<close>

section \<open>Tokens and streams\<close>

datatype token_kind = Punctuator | Name | IntValue | BigIntValue | FloatValue | StringValue | BlockString

record token =
  tk_kind :: token_kind
  tk_value :: string

record pos =
  line :: nat
  column :: nat

text \<open>The token that was read last is kept, with the offset that it was read at and the state after it.\<close>

record token_stream =
  ts_buf :: string
  ts_position :: pos
  ts_off :: nat
  ts_next_state :: "(nat \<times> token \<times> nat \<times> pos) option"
  ts_recursion_limit :: "64 word"

datatype token_error = EndOfInput | RecursionLimitExceeded | UnexpectedText string

definition is_digit :: "char \<Rightarrow> bool" where
  "is_digit c \<longleftrightarrow> 48 \<le> (of_char c :: nat) \<and> of_char c \<le> (57 :: nat)"

definition is_letter :: "char \<Rightarrow> bool" where
  "is_letter c \<longleftrightarrow> 65 \<le> (of_char c :: nat) \<and> of_char c \<le> (90 :: nat) \<or> 97 \<le> (of_char c :: nat) \<and> of_char c \<le> (122 :: nat)"

definition name_start :: "char \<Rightarrow> bool" where
  "name_start c \<longleftrightarrow> c = CHR ''_'' \<or> is_letter c"

definition name_char :: "char \<Rightarrow> bool" where
  "name_char c \<longleftrightarrow> name_start c \<or> is_digit c"

definition dquote :: char where
  "dquote = CHR 0x22"

definition backslash :: char where
  "backslash = CHR 0x5C"

section \<open>Numbers\<close>

definition begins :: "string \<Rightarrow> string \<Rightarrow> bool" where
  "begins p s \<longleftrightarrow> take (length p) s = p"

definition check_int :: "string \<Rightarrow> bool" where
  "check_int v \<longleftrightarrow> v = ''0'' \<or> v = ''-0''
     \<or> \<not> begins ''0'' v \<and> v \<noteq> ''-'' \<and> \<not> begins ''-0'' v \<and> list_all is_digit (drop 1 v)"

text \<open>A number that only fails to parse as 64 bits because it is too large.\<close>

definition check_bigint :: "string \<Rightarrow> bool" where
  "check_bigint v \<longleftrightarrow> v \<noteq> [] \<and> list_all is_digit v \<and> 2 ^ 64 \<le> read_nat v"

definition check_dec :: "string \<Rightarrow> bool" where
  "check_dec v \<longleftrightarrow> v \<noteq> [] \<and> list_all is_digit v"

definition check_exp :: "string \<Rightarrow> bool" where
  "check_exp v \<longleftrightarrow> v \<noteq> []
     \<and> \<not> (hd v \<noteq> CHR ''-'' \<and> hd v \<noteq> CHR ''+'' \<and> ((of_char (hd v) :: nat) \<le> 48 \<or> 57 \<le> (of_char (hd v) :: nat)))
     \<and> list_all is_digit (drop 1 v)"

definition check_float :: "string \<Rightarrow> nat option \<Rightarrow> nat option \<Rightarrow> bool" where
  "check_float v exponent real =
     (case (exponent, real) of
        (Some e, Some r) \<Rightarrow> if e < r then False
          else check_int (take r v) \<and> check_dec (drop (r + 1) (take e v)) \<and> check_exp (drop (e + 1) v)
      | (Some e, None) \<Rightarrow> check_int (take e v) \<and> check_exp (drop (e + 1) v)
      | (None, Some r) \<Rightarrow> check_int (take r v) \<and> check_dec (drop (r + 1) v)
      | (None, None) \<Rightarrow> False)"

definition ends_number :: "char \<Rightarrow> bool" where
  "ends_number c \<longleftrightarrow> c \<in> set '' ,#!$:=@|&()[]{}'' \<or> c \<in> {CHR 0x0A, CHR 0x0D, CHR 0x09}"

text \<open>The scan behind the first character: the length and the last exponent and decimal point.\<close>

fun scan_number :: "nat \<Rightarrow> nat option \<Rightarrow> nat option \<Rightarrow> string \<Rightarrow> nat \<times> nat option \<times> nat option" where
  "scan_number i exponent real [] = (i, exponent, real)"
| "scan_number i exponent real (c # cs) =
     (if ends_number c then (i, exponent, real)
      else if c = CHR ''.'' then scan_number (i + 1) exponent (Some i) cs
      else if c = CHR ''e'' \<or> c = CHR ''E'' then scan_number (i + 1) (Some i) real cs
      else scan_number (i + 1) exponent real cs)"

section \<open>Strings\<close>

text \<open>
  The end of a string behind its first quote, and of a block string behind its first three: quotes that
  are matched do not overlap.
\<close>

fun string_end :: "nat \<Rightarrow> bool \<Rightarrow> string \<Rightarrow> nat option" where
  "string_end i escaped [] = None"
| "string_end i escaped (c # cs) =
     (if c = dquote \<and> \<not> escaped then Some (i + 1)
      else if c = CHR 0x0A then None
      else string_end (i + 1) (\<not> escaped \<and> c = backslash) cs)"

fun block_end :: "nat \<Rightarrow> bool \<Rightarrow> string \<Rightarrow> nat option" where
  "block_end i slash (a # b # c # cs) =
     (if a = dquote \<and> b = dquote \<and> c = dquote
      then (if \<not> slash then Some i else block_end (i + 3) False cs)
      else block_end (i + 1) (a = backslash) (b # c # cs))"
| "block_end i slash cs = None"

section \<open>Taking a token\<close>

definition advance_token :: "token_kind \<Rightarrow> nat \<Rightarrow> token_stream \<Rightarrow> (token_error + token_kind \<times> nat) \<times> token_stream" where
  "advance_token k n ts = (Inr (k, n), ts\<lparr>ts_off := ts_off ts + n,
     ts_position := (ts_position ts)\<lparr>column := column (ts_position ts) + n\<rparr>\<rparr>)"

definition fail :: "token_error \<Rightarrow> token_stream \<Rightarrow> (token_error + 'a) \<times> token_stream" where
  "fail e ts = (Inl e, ts)"

definition saturating_succ :: "64 word \<Rightarrow> 64 word" where
  "saturating_succ n = (if n = - 1 then n else n + 1)"

text \<open>\<^verbatim>\<open>update_position\<close>: a block string may span lines.\<close>

definition update_position :: "nat \<Rightarrow> token_stream \<Rightarrow> token_stream" where
  "update_position n ts =
     (let val = take n (drop (ts_off ts) (ts_buf ts)); newlines = length (filter (\<lambda>c. c = CHR 0x0A) val);
          p = ts_position ts
      in ts\<lparr>ts_off := ts_off ts + n,
           ts_position := (if newlines > 0
             then \<lparr>line = line p + newlines, column = length (takeWhile (\<lambda>c. c \<noteq> CHR 0x0A) (rev val)) + 1\<rparr>
             else p\<lparr>column := column p + length val\<rparr>)\<rparr>)"

definition take_number :: "string \<Rightarrow> token_stream \<Rightarrow> (token_error + token_kind \<times> nat) \<times> token_stream" where
  "take_number rest ts =
     (case scan_number 1 None None (drop 1 rest) of (n, exponent, real) \<Rightarrow>
        let v = take n rest
        in if exponent \<noteq> None \<or> real \<noteq> None
           then (if \<not> check_float v exponent real then fail (UnexpectedText ''unsupported float'') ts
                 else advance_token FloatValue n ts)
           else if \<not> check_int v then fail (UnexpectedText ''unsupported integer'') ts
           else if check_bigint v then advance_token BigIntValue n ts
           else advance_token IntValue n ts)"

definition take_string :: "string \<Rightarrow> token_stream \<Rightarrow> (token_error + token_kind \<times> nat) \<times> token_stream" where
  "take_string rest ts =
     (if begins [dquote, dquote] (drop 1 rest)
      then (case block_end 0 False (drop 3 rest) of
              Some i \<Rightarrow> (Inr (BlockString, i + 6), update_position (i + 6) ts)
            | None \<Rightarrow> fail (UnexpectedText ''unterminated block string value'') ts)
      else (case string_end 1 False (drop 1 rest) of
              Some n \<Rightarrow> advance_token StringValue n ts
            | None \<Rightarrow> fail (UnexpectedText ''unterminated string value'') ts))"

definition take_token :: "token_stream \<Rightarrow> (token_error + token_kind \<times> nat) \<times> token_stream" where
  "take_token ts =
     (let rest = drop (ts_off ts) (ts_buf ts) in
      case rest of
        [] \<Rightarrow> fail EndOfInput ts
      | c # cs \<Rightarrow>
          if c \<in> set ''([{'' then
            (if ts_recursion_limit ts = 0 then fail RecursionLimitExceeded ts
             else advance_token Punctuator 1 (ts\<lparr>ts_recursion_limit := ts_recursion_limit ts - 1\<rparr>))
          else if c \<in> set '')]}'' then
            advance_token Punctuator 1 (ts\<lparr>ts_recursion_limit := saturating_succ (ts_recursion_limit ts)\<rparr>)
          else if c \<in> set ''!$:=@|&'' then advance_token Punctuator 1 ts
          else if c = CHR ''.'' then
            (if begins ''..'' cs then advance_token Punctuator 3 ts else fail (UnexpectedText ''bare dot'') ts)
          else if name_start c then advance_token Name (1 + length (takeWhile name_char cs)) ts
          else if c = CHR ''-'' \<or> is_digit c then take_number rest ts
          else if c = dquote then take_string rest ts
          else fail (UnexpectedText ''unexpected character'') ts)"

section \<open>White space\<close>

text \<open>A comment ends with its line; the end of a line starts the next one.\<close>

fun skip_comment :: "nat \<Rightarrow> pos \<Rightarrow> string \<Rightarrow> nat \<times> pos \<times> string" where
  "skip_comment n p [] = (n, p, [])"
| "skip_comment n p (c # cs) =
     (if c = CHR 0x0D \<or> c = CHR 0x0A then (n + 1, \<lparr>line = line p + 1, column = 1\<rparr>, cs)
      else skip_comment (n + 1) p cs)"

lemma skip_comment_shorter [termination_simp]: "skip_comment n p cs = (m, q, ds) \<Longrightarrow> length ds \<le> length cs"
  by (induction n p cs rule: skip_comment.induct) (auto split: if_splits)

function skip_text :: "nat \<Rightarrow> pos \<Rightarrow> string \<Rightarrow> nat \<times> pos" where
  "skip_text n p [] = (n, p)"
| "skip_text n p (c # cs) =
     (if c = CHR 0x0D then skip_text (n + 1) p cs
      else if c = CHR 0x09 then skip_text (n + 1) (p\<lparr>column := column p + 8\<rparr>) cs
      else if c = CHR 0x0A then skip_text (n + 1) \<lparr>line = line p + 1, column = 1\<rparr> cs
      else if c = CHR '' '' \<or> c = CHR '','' then skip_text (n + 1) (p\<lparr>column := column p + 1\<rparr>) cs
      else if c = CHR ''#'' then (case skip_comment (n + 1) p cs of (m, q, ds) \<Rightarrow> skip_text m q ds)
      else (n, p))"
  by pat_completeness auto
termination
  by (relation "measure (\<lambda>(n, p, cs). length cs)") (auto dest: skip_comment_shorter simp: less_Suc_eq_le split: prod.splits)

definition skip_whitespace :: "token_stream \<Rightarrow> token_stream" where
  "skip_whitespace ts =
     (case skip_text 0 (ts_position ts) (drop (ts_off ts) (ts_buf ts)) of
        (n, p) \<Rightarrow> ts\<lparr>ts_off := ts_off ts + n, ts_position := p\<rparr>)"

section \<open>The stream\<close>

definition with_recursion_limit :: "string \<Rightarrow> 64 word \<Rightarrow> token_stream" where
  "with_recursion_limit s limit = skip_whitespace \<lparr>ts_buf = s, ts_position = \<lparr>line = 1, column = 1\<rparr>, ts_off = 0,
     ts_next_state = None, ts_recursion_limit = limit\<rparr>"

definition token_stream_new :: "string \<Rightarrow> token_stream" where
  "token_stream_new s = with_recursion_limit s 50"

definition read_token :: "token_stream \<Rightarrow> (token_error + token) \<times> token_stream" where
  "read_token ts =
     (case take_token ts of
        (Inl e, ts1) \<Rightarrow> (Inl e, ts1)
      | (Inr (k, n), ts1) \<Rightarrow>
          (let tok = \<lparr>tk_kind = k, tk_value = take n (drop (ts_off ts1 - n) (ts_buf ts1))\<rparr>;
               ts2 = skip_whitespace ts1
           in (Inr tok, ts2\<lparr>ts_next_state := Some (ts_off ts, tok, ts_off ts2, ts_position ts2)\<rparr>)))"

definition uncons :: "token_stream \<Rightarrow> (token_error + token) \<times> token_stream" where
  "uncons ts =
     (case ts_next_state ts of
        Some (at, tok, off, p) \<Rightarrow>
          if at = ts_off ts then (Inr tok, ts\<lparr>ts_off := off, ts_position := p\<rparr>) else read_token ts
      | None \<Rightarrow> read_token ts)"

record checkpoint =
  cp_position :: pos
  cp_off :: nat

definition checkpoint_of :: "token_stream \<Rightarrow> checkpoint" where
  "checkpoint_of ts = \<lparr>cp_position = ts_position ts, cp_off = ts_off ts\<rparr>"

definition reset :: "checkpoint \<Rightarrow> token_stream \<Rightarrow> token_stream" where
  "reset cp ts = ts\<lparr>ts_position := cp_position cp, ts_off := cp_off cp\<rparr>"

section \<open>Unquoting (common.rs)\<close>

text \<open>Strings are lists of code points. \<open>u32::from_str_radix\<close> reads hexadecimal digits after an optional plus.\<close>

definition hex_value :: "char \<Rightarrow> nat option" where
  "hex_value c =
     (let n = of_char c in
      if is_digit c then Some (n - 48)
      else if 65 \<le> n \<and> n \<le> 70 then Some (n - 55)
      else if 97 \<le> n \<and> n \<le> 102 then Some (n - 87) else None)"

fun read_hex_digits :: "nat \<Rightarrow> string \<Rightarrow> nat option" where
  "read_hex_digits n [] = Some n"
| "read_hex_digits n (c # cs) = (case hex_value c of None \<Rightarrow> None | Some d \<Rightarrow> read_hex_digits (16 * n + d) cs)"

definition read_hex :: "string \<Rightarrow> nat option" where
  "read_hex s = (let ds = (if begins ''+'' s then drop 1 s else s) in if ds = [] then None else read_hex_digits 0 ds)"

definition is_scalar_value :: "nat \<Rightarrow> bool" where
  "is_scalar_value n \<longleftrightarrow> n < 55296 \<or> 57343 < n \<and> n < 1114112"

definition escape_value :: "char \<Rightarrow> nat option" where
  "escape_value c =
     (if c \<in> {dquote, backslash, CHR ''/''} then Some (of_char c)
      else if c = CHR ''b'' then Some 16
      else if c = CHR ''f'' then Some 12
      else if c = CHR ''n'' then Some 10
      else if c = CHR ''r'' then Some 13
      else if c = CHR ''t'' then Some 9
      else None)"

fun unescape :: "string \<Rightarrow> (nat list, token_error) result" where
  "unescape [] = Inr []"
| "unescape (c # cs) =
     (if c \<noteq> backslash then rbind (unescape cs) (\<lambda>ns. Inr (of_char c # ns))
      else case cs of
          [] \<Rightarrow> Inl (Panic ''slash cant be at the end'')
        | d # ds \<Rightarrow>
            (case escape_value d of
               Some n \<Rightarrow> rbind (unescape ds) (\<lambda>ns. Inr (n # ns))
             | None \<Rightarrow>
                 if d = CHR ''u''
                 then (if length ds < 4 then Inl (Err (UnexpectedText ''too few characters''))
                       else case read_hex (take 4 ds) of
                           Some n \<Rightarrow> if is_scalar_value n then rbind (unescape (drop 4 ds)) (\<lambda>ns. Inr (n # ns))
                                     else Inl (Err (UnexpectedText ''not a valid unicode code point''))
                         | None \<Rightarrow> Inl (Err (UnexpectedText ''not a valid unicode code point'')))
                 else Inl (Err (UnexpectedText ''bad escaped char''))))"

definition unquote_string :: "string \<Rightarrow> (nat list, token_error) result" where
  "unquote_string s = unescape (butlast (drop 1 s))"

text \<open>\<^verbatim>\<open>replace\<close> of an escaped triple quote by a triple quote.\<close>

fun unescape_triple :: "string \<Rightarrow> string" where
  "unescape_triple (a # b # c # d # cs) =
     (if a = backslash \<and> b = dquote \<and> c = dquote \<and> d = dquote
      then [dquote, dquote, dquote] @ unescape_triple cs
      else a # unescape_triple (b # c # d # cs))"
| "unescape_triple cs = cs"

definition line_indent :: "string \<Rightarrow> nat option" where
  "line_indent l = (let trimmed = length (dropWhile is_whitespace l) in if trimmed > 0 then Some (length l - trimmed) else None)"

definition block_indent :: "string list \<Rightarrow> nat" where
  "block_indent ls = (case List.map_filter line_indent (drop 1 ls) of [] \<Rightarrow> 0 | n # ns \<Rightarrow> foldl min n ns)"

text \<open>A line behind the first one; a last line of white space is dropped.\<close>

definition unquote_line :: "nat \<Rightarrow> string \<Rightarrow> string" where
  "unquote_line ind l = (if length l > ind then unescape_triple (drop ind l) else []) @ [CHR 0x0A]"

definition unquote_block_string :: "string \<Rightarrow> string" where
  "unquote_block_string src =
     (let ls = lines (take (length src - 6) (drop 3 src)); ind = block_indent ls;
          first = (case ls of [] \<Rightarrow> [] | l # _ \<Rightarrow> if trim l \<noteq> [] then trim l @ [CHR 0x0A] else []);
          rest = map (unquote_line ind) (drop 1 ls);
          kept = (if rest = [] then [] else first @ concat (butlast rest));
          result = first @ concat rest
      in if trim (drop (length kept) result) = [] then kept else result)"

end
