(* ===== verification/Tokenizer_Laws.thy ===== *)
theory Tokenizer_Laws
  imports Tokenizer
begin

text \<open>
  Correctness of the token stream: tokens are the text without what is ignored, nesting is bounded,
  reading again gives the same token, and quoted strings are read back.
\<close>

section \<open>A token is a part of the text\<close>

lemma begins_length: "begins p s \<Longrightarrow> length p \<le> length s"
  unfolding begins_def by (metis length_take min.bounded_iff nle_le)

lemma scan_number_bound: "scan_number i e r cs = (n, e', r') \<Longrightarrow> i \<le> n \<and> n \<le> i + length cs"
  by (induction i e r cs rule: scan_number.induct) (fastforce split: if_splits)+

lemma string_end_bound: "string_end i esc cs = Some n \<Longrightarrow> i < n \<and> n \<le> i + length cs"
  by (induction i esc cs rule: string_end.induct) (fastforce split: if_splits)+

lemma block_end_bound: "block_end i slash cs = Some j \<Longrightarrow> i \<le> j \<and> j + 3 \<le> i + length cs"
  by (induction i slash cs rule: block_end.induct) (fastforce split: if_splits)+

lemma advance_token_simps [simp]:
  "advance_token k n ts = (Inr (k', n'), ts') \<longleftrightarrow> k' = k \<and> n' = n \<and> ts' = snd (advance_token k n ts)"
  "ts_buf (snd (advance_token k n ts)) = ts_buf ts" "ts_off (snd (advance_token k n ts)) = ts_off ts + n"
  "ts_recursion_limit (snd (advance_token k n ts)) = ts_recursion_limit ts"
  by (auto simp: advance_token_def)

lemma fail_simp [simp]: "fail e ts \<noteq> (Inr x, ts')" "fst (fail e ts) = Inl e"
  by (simp_all add: fail_def)

lemma update_position_simps [simp]:
  "ts_buf (update_position n ts) = ts_buf ts" "ts_off (update_position n ts) = ts_off ts + n"
  "ts_recursion_limit (update_position n ts) = ts_recursion_limit ts"
  by (simp_all add: update_position_def Let_def)

lemma take_number_cases:
  assumes "take_number rest ts = (Inr (k, n), ts')" "rest \<noteq> []"
  shows "0 < n \<and> n \<le> length rest \<and> ts_off ts' = ts_off ts + n \<and> ts_buf ts' = ts_buf ts
    \<and> ts_recursion_limit ts' = ts_recursion_limit ts"
proof -
  obtain m e r where scan: "scan_number 1 None None (drop 1 rest) = (m, e, r)"
    by (cases "scan_number 1 None None (drop 1 rest)")
  from scan_number_bound [OF scan] assms(2) have "0 < m" "m \<le> length rest" by (cases rest; simp)+
  with assms(1) scan show ?thesis by (auto simp: take_number_def Let_def split: if_splits)
qed

lemma take_string_cases:
  assumes "take_string rest ts = (Inr (k, n), ts')" "rest \<noteq> []"
  shows "0 < n \<and> n \<le> length rest \<and> ts_off ts' = ts_off ts + n \<and> ts_buf ts' = ts_buf ts
    \<and> ts_recursion_limit ts' = ts_recursion_limit ts"
proof (cases "begins [dquote, dquote] (drop 1 rest)")
  case True
  from begins_length [OF True] have "3 \<le> length rest" by simp
  with True assms show ?thesis
    by (auto simp: take_string_def split: option.splits dest!: block_end_bound)
next
  case False
  with assms show ?thesis
    by (cases rest) (auto simp: take_string_def split: option.splits dest!: string_end_bound)
qed

text \<open>Brackets that open and close a level of nesting.\<close>

definition opens :: "token \<Rightarrow> bool" where
  "opens t \<longleftrightarrow> tk_value t \<in> {''('', ''['', ''{''}"

definition closes :: "token \<Rightarrow> bool" where
  "closes t \<longleftrightarrow> tk_value t \<in> {'')'', '']'', ''}''}"

lemma take_token_cases:
  assumes "take_token ts = (Inr (k, n), ts')"
  defines "rest \<equiv> drop (ts_off ts) (ts_buf ts)"
  shows "0 < n \<and> n \<le> length rest \<and> ts_off ts' = ts_off ts + n \<and> ts_buf ts' = ts_buf ts
    \<and> ts_recursion_limit ts' = (if hd rest \<in> set ''([{'' then ts_recursion_limit ts - 1
        else if hd rest \<in> set '')]}'' then saturating_succ (ts_recursion_limit ts) else ts_recursion_limit ts)
    \<and> (hd rest \<in> set ''([{'' \<longrightarrow> ts_recursion_limit ts \<noteq> 0 \<and> n = 1) \<and> (hd rest \<in> set '')]}'' \<longrightarrow> n = 1)"
proof (cases rest)
  case Nil
  with assms(1) show ?thesis by (simp add: take_token_def rest_def [symmetric])
next
  case (Cons c cs)
  have run: "(if c \<in> set ''([{'' then
            (if ts_recursion_limit ts = 0 then fail RecursionLimitExceeded ts
             else advance_token Punctuator 1 (ts\<lparr>ts_recursion_limit := ts_recursion_limit ts - 1\<rparr>))
          else if c \<in> set '')]}'' then
            advance_token Punctuator 1 (ts\<lparr>ts_recursion_limit := saturating_succ (ts_recursion_limit ts)\<rparr>)
          else if c \<in> set ''!$:=@|&'' then advance_token Punctuator 1 ts
          else if c = CHR ''.'' then
            (if begins ''..'' cs then advance_token Punctuator 3 ts else fail (UnexpectedText ''bare dot'') ts)
          else if name_start c then advance_token Name (1 + length (takeWhile name_char cs)) ts
          else if c = CHR ''-'' \<or> is_digit c then take_number (c # cs) ts
          else if c = dquote then take_string (c # cs) ts
          else fail (UnexpectedText ''unexpected character'') ts) = (Inr (k, n), ts')"
    using assms(1) unfolding take_token_def Let_def rest_def [symmetric] Cons list.case .
  have dots: "begins ''..'' cs \<Longrightarrow> 3 \<le> length rest" using Cons by (auto dest: begins_length)
  have names: "1 + length (takeWhile name_char cs) \<le> length rest" using Cons by (simp add: length_takeWhile_le)
  have ne: "rest \<noteq> []" "hd rest = c" "0 < length rest" using Cons by simp_all
  consider (left) "c \<in> set ''([{''" | (right) "c \<notin> set ''([{''" "c \<in> set '')]}''"
    | (mark) "c \<notin> set ''([{''" "c \<notin> set '')]}''" "c \<in> set ''!$:=@|&''"
    | (other) "c \<notin> set ''([{''" "c \<notin> set '')]}''" "c \<notin> set ''!$:=@|&''" by blast
  then show ?thesis
  proof cases
    case left
    then have "c \<notin> set '')]}''" by auto
    with left run ne show ?thesis by (simp add: Suc_le_eq split: if_splits del: list.set)
  next
    case right
    with run ne show ?thesis by (simp add: Suc_le_eq split: if_splits del: list.set)
  next
    case mark
    with run ne show ?thesis by (simp add: Suc_le_eq split: if_splits del: list.set)
  next
    case other
    with run ne take_number_cases [of "c # cs" ts k n ts'] take_string_cases [of "c # cs" ts k n ts'] Cons dots names
    show ?thesis by (simp add: Suc_le_eq split: if_splits del: list.set)
  qed
qed

section \<open>What is ignored\<close>

text \<open>White space, commas, and comments up to the end of their line.\<close>

inductive ignored :: "string \<Rightarrow> bool" where
  ignored_nil: "ignored []"
| ignored_space: "c \<in> {CHR 0x0D, CHR 0x09, CHR 0x0A, CHR '' '', CHR '',''} \<Longrightarrow> ignored cs \<Longrightarrow> ignored (c # cs)"
| ignored_comment: "CHR 0x0A \<notin> set body \<Longrightarrow> CHR 0x0D \<notin> set body \<Longrightarrow> e \<in> {CHR 0x0A, CHR 0x0D} \<Longrightarrow> ignored cs
    \<Longrightarrow> ignored (CHR ''#'' # body @ e # cs)"
| ignored_last_comment: "CHR 0x0A \<notin> set body \<Longrightarrow> CHR 0x0D \<notin> set body \<Longrightarrow> ignored (CHR ''#'' # body)"

lemma skip_comment_text:
  assumes "skip_comment n p cs = (m, q, ds)"
  shows "\<exists>body. CHR 0x0A \<notin> set body \<and> CHR 0x0D \<notin> set body
    \<and> (ds = [] \<and> cs = body \<and> m = n + length body
       \<or> (\<exists>e \<in> {CHR 0x0A, CHR 0x0D}. cs = body @ e # ds \<and> m = n + length body + 1))"
  using assms
proof (induction n p cs rule: skip_comment.induct)
  case (2 n p c cs)
  show ?case
  proof (cases "c = CHR 0x0D \<or> c = CHR 0x0A")
    case True
    with 2(2) show ?thesis by (intro exI [of _ "[]"]) auto
  next
    case False
    with 2 obtain body where "CHR 0x0A \<notin> set body" "CHR 0x0D \<notin> set body"
      "ds = [] \<and> cs = body \<and> m = n + 1 + length body
       \<or> (\<exists>e \<in> {CHR 0x0A, CHR 0x0D}. cs = body @ e # ds \<and> m = n + 1 + length body + 1)" by auto
    with False show ?thesis by (intro exI [of _ "c # body"]) auto
  qed
qed auto

lemma skip_text_ignores:
  assumes "skip_text n p cs = (m, q)"
  shows "n \<le> m \<and> m \<le> n + length cs \<and> ignored (take (m - n) cs)"
  using assms
proof (induction n p cs rule: skip_text.induct)
  case (2 n p c cs)
  show ?case
  proof (cases "c = CHR ''#''")
    case True
    obtain k r ds where sk: "skip_comment (n + 1) p cs = (k, r, ds)" by (cases "skip_comment (n + 1) p cs")
    have "skip_text k r ds = (m, q)" using 2(6) sk True by simp
    from 2(5) [OF _ _ _ _ True sk [symmetric] refl this] True
    have ih: "k \<le> m \<and> m \<le> k + length ds \<and> ignored (take (m - k) ds)" by simp
    from skip_comment_text [OF sk] obtain body where body: "CHR 0x0A \<notin> set body" "CHR 0x0D \<notin> set body"
      and cases: "ds = [] \<and> cs = body \<and> k = n + 1 + length body
       \<or> (\<exists>e \<in> {CHR 0x0A, CHR 0x0D}. cs = body @ e # ds \<and> k = n + 1 + length body + 1)" by blast
    from cases show ?thesis
    proof
      assume "ds = [] \<and> cs = body \<and> k = n + 1 + length body"
      with ih body True show ?thesis by (auto intro: ignored_last_comment)
    next
      assume "\<exists>e \<in> {CHR 0x0A, CHR 0x0D}. cs = body @ e # ds \<and> k = n + 1 + length body + 1"
      then obtain e where e: "e \<in> {CHR 0x0A, CHR 0x0D}" "cs = body @ e # ds" "k = n + 1 + length body + 1" by blast
      from ih have "k \<le> m" by simp
      with e(3) have "m - n = Suc (length body + Suc (m - k))" by arith
      moreover have "take (Suc (length body + Suc j)) (c # body @ e # ds) = c # body @ e # take j ds" for j by simp
      ultimately have "take (m - n) (c # cs) = c # body @ e # take (m - k) ds" by (simp only: e(2))
      with ih body e True show ?thesis by (auto intro: ignored_comment)
    qed
  next
    case False
    note no_comment = this
    show ?thesis
    proof (cases "c \<in> {CHR 0x0D, CHR 0x09, CHR 0x0A, CHR '' '', CHR '',''}")
      case True
      then have "\<exists>r. skip_text (n + 1) r cs = (m, q) \<and> (skip_text (n + 1) r cs = (m, q) \<longrightarrow>
          n + 1 \<le> m \<and> m \<le> n + 1 + length cs \<and> ignored (take (m - (n + 1)) cs))"
        using 2(1,2,3,4,6) by auto
      then have ih: "n + 1 \<le> m" "m \<le> n + 1 + length cs" "ignored (take (m - (n + 1)) cs)" by blast+
      then have "take (m - n) (c # cs) = c # take (m - (n + 1)) cs" by (simp add: Suc_diff_le take_Cons')
      with ih True show ?thesis by (auto intro: ignored_space)
    next
      case False
      with no_comment 2(6) show ?thesis by (auto intro: ignored_nil)
    qed
  qed
qed (auto intro: ignored_nil)

section \<open>Reading tokens\<close>

definition unread :: "token_stream \<Rightarrow> string" where
  "unread ts = drop (ts_off ts) (ts_buf ts)"

text \<open>No token is kept for the place where the stream stands.\<close>

definition fresh :: "token_stream \<Rightarrow> bool" where
  "fresh ts \<longleftrightarrow> (case ts_next_state ts of None \<Rightarrow> True | Some (at, _) \<Rightarrow> at < ts_off ts)"

lemma skip_whitespace_cases:
  obtains gap where "ignored gap" "unread ts = gap @ unread (skip_whitespace ts)"
    and "ts_off ts \<le> ts_off (skip_whitespace ts)" "ts_buf (skip_whitespace ts) = ts_buf ts"
    and "ts_recursion_limit (skip_whitespace ts) = ts_recursion_limit ts"
proof -
  obtain n p where sk: "skip_text 0 (ts_position ts) (unread ts) = (n, p)" by (cases "skip_text 0 (ts_position ts) (unread ts)")
  then have eq: "skip_whitespace ts = ts\<lparr>ts_off := ts_off ts + n, ts_position := p\<rparr>"
    by (simp add: skip_whitespace_def unread_def)
  from skip_text_ignores [OF sk] have "ignored (take n (unread ts))" by simp
  moreover have "unread (skip_whitespace ts) = drop n (unread ts)" by (simp add: eq unread_def add.commute)
  ultimately show ?thesis using that [of "take n (unread ts)"] by (simp add: eq)
qed

lemma saturating_succ_le: "unat (saturating_succ n) \<le> unat n + 1"
  by (auto simp: saturating_succ_def unat_word_ariths intro: mod_less_eq_dividend)

lemma read_token_cases:
  assumes "read_token ts = (Inr t, ts1)"
  shows "fresh ts1 \<and> ts_buf ts1 = ts_buf ts \<and> tk_value t \<noteq> []
    \<and> (\<exists>gap. ignored gap \<and> unread ts = tk_value t @ gap @ unread ts1)
    \<and> unat (ts_recursion_limit ts1) + of_bool (opens t) \<le> unat (ts_recursion_limit ts) + of_bool (closes t)"
proof -
  from assms obtain k n ts0 where take: "take_token ts = (Inr (k, n), ts0)"
    and t: "tk_value t = take n (drop (ts_off ts0 - n) (ts_buf ts0))"
    and ts1: "ts1 = (skip_whitespace ts0)\<lparr>ts_next_state := Some (ts_off ts, t, ts_off (skip_whitespace ts0), ts_position (skip_whitespace ts0))\<rparr>"
    by (auto simp: read_token_def Let_def split: prod.splits sum.splits)
  let ?rest = "unread ts"
  note c = take_token_cases [OF take, folded unread_def]
  from c t have val: "tk_value t = take n ?rest" by (simp add: unread_def)
  obtain gap where gap: "ignored gap" "unread ts0 = gap @ unread (skip_whitespace ts0)"
      "ts_off ts0 \<le> ts_off (skip_whitespace ts0)" "ts_buf (skip_whitespace ts0) = ts_buf ts0"
      "ts_recursion_limit (skip_whitespace ts0) = ts_recursion_limit ts0"
    by (rule skip_whitespace_cases)
  have "unread ts0 = drop n ?rest" using c by (simp add: unread_def add.commute)
  then have "?rest = tk_value t @ gap @ unread (skip_whitespace ts0)"
    using gap(2) val append_take_drop_id [of n ?rest] by metis
  then have split: "?rest = tk_value t @ gap @ unread ts1" by (simp add: ts1 unread_def)
  have nonempty: "tk_value t \<noteq> []" "hd (tk_value t) = hd ?rest" using c val by (auto simp: hd_take)
  obtain d ds where d: "?rest = d # ds" using c by (cases ?rest) auto
  then have vd: "tk_value t = d # take (n - 1) ds" "hd ?rest = d" using c val by (simp_all add: take_Cons')
  have one: "n = 1" if "d \<in> set ''([{'' \<or> d \<in> set '')]}''" using c that vd(2) by (auto simp del: list.set)
  have open_hd: "opens t \<longleftrightarrow> hd ?rest \<in> set ''([{''"
    by (cases "d \<in> set ''([{''") (use one vd in \<open>auto simp: opens_def\<close>)
  have close_hd: "closes t \<longleftrightarrow> hd ?rest \<in> set '')]}''"
    by (cases "d \<in> set '')]}''") (use one vd in \<open>auto simp: closes_def\<close>)
  have "unat (ts_recursion_limit ts0) + of_bool (opens t) \<le> unat (ts_recursion_limit ts) + of_bool (closes t)"
  proof (cases "opens t")
    case True
    then have "ts_recursion_limit ts \<noteq> 0" "ts_recursion_limit ts0 = ts_recursion_limit ts - 1"
      using c unfolding open_hd by (simp_all del: list.set)
    then have "unat (ts_recursion_limit ts0) = unat (ts_recursion_limit ts) - 1" "0 < unat (ts_recursion_limit ts)"
      by (simp_all add: unat_minus_one unat_gt_0)
    with True show ?thesis by simp
  next
    case False
    then show ?thesis
      using c saturating_succ_le [of "ts_recursion_limit ts"] unfolding open_hd close_hd by (auto simp del: list.set)
  qed
  moreover have "fresh ts1" using c gap(3) by (simp add: fresh_def ts1)
  moreover have "ts_buf ts1 = ts_buf ts" "ts_recursion_limit ts1 = ts_recursion_limit ts0" using c gap(4,5) by (simp_all add: ts1)
  ultimately show ?thesis using gap(1) split nonempty by auto
qed

lemma uncons_fresh: "fresh ts \<Longrightarrow> uncons ts = read_token ts"
  by (auto simp: fresh_def uncons_def split: option.splits)

inductive token_run :: "token_stream \<Rightarrow> token list \<Rightarrow> token_stream \<Rightarrow> bool" where
  run_nil: "token_run ts [] ts"
| run_step: "uncons ts = (Inr t, ts1) \<Longrightarrow> token_run ts1 toks ts2 \<Longrightarrow> token_run ts (t # toks) ts2"

inductive_cases token_run_ConsE: "token_run ts (t # toks) ts2"

text \<open>The text that a list of tokens with gaps between them makes up.\<close>

fun spread :: "token list \<Rightarrow> string list \<Rightarrow> string" where
  "spread (t # toks) (g # gaps) = tk_value t @ g @ spread toks gaps"
| "spread _ _ = []"

lemma run_text:
  assumes "token_run ts toks ts'" "fresh ts"
  shows "\<exists>gaps. length gaps = length toks \<and> list_all ignored gaps \<and> unread ts = spread toks gaps @ unread ts'"
  using assms
proof (induction rule: token_run.induct)
  case (run_step ts t ts1 toks ts2)
  from run_step.hyps(1) run_step.prems have "read_token ts = (Inr t, ts1)" by (simp add: uncons_fresh)
  from read_token_cases [OF this] obtain g where "fresh ts1" "ignored g" "unread ts = tk_value t @ g @ unread ts1" by blast
  moreover from run_step.IH [OF this(1)] obtain gaps where
    "length gaps = length toks" "list_all ignored gaps" "unread ts1 = spread toks gaps @ unread ts2" by blast
  ultimately show ?case by (intro exI [of _ "g # gaps"]) simp
qed simp

lemma run_depth:
  assumes "token_run ts toks ts'" "fresh ts"
  shows "unat (ts_recursion_limit ts') + length (filter opens toks) \<le> unat (ts_recursion_limit ts) + length (filter closes toks)"
  using assms
proof (induction rule: token_run.induct)
  case (run_step ts t ts1 toks ts2)
  from run_step.hyps(1) run_step.prems have "read_token ts = (Inr t, ts1)" by (simp add: uncons_fresh)
  from read_token_cases [OF this] have "fresh ts1"
    and "unat (ts_recursion_limit ts1) + of_bool (opens t) \<le> unat (ts_recursion_limit ts) + of_bool (closes t)" by blast+
  with run_step.IH [OF this(1)] show ?case by (auto split: if_splits)
qed simp

lemma run_prefix:
  assumes "token_run ts (xs @ ys) ts'" shows "\<exists>ts1. token_run ts xs ts1"
  using assms
proof (induction xs arbitrary: ts)
  case (Cons x xs)
  then obtain ts1 where "uncons ts = (Inr x, ts1)" "token_run ts1 (xs @ ys) ts'" by (auto elim: token_run_ConsE)
  with Cons.IH show ?case by (blast intro: run_step)
qed (blast intro: run_nil)

lemma new_stream:
  shows "fresh (token_stream_new s)" "ts_recursion_limit (token_stream_new s) = 50" "ts_buf (token_stream_new s) = s"
    and "\<exists>gap. ignored gap \<and> s = gap @ unread (token_stream_new s)"
proof -
  let ?ts = "\<lparr>ts_buf = s, ts_position = \<lparr>line = 1, column = 1\<rparr>, ts_off = 0, ts_next_state = None, ts_recursion_limit = 50\<rparr>"
  have eq: "token_stream_new s = skip_whitespace ?ts" by (simp add: token_stream_new_def with_recursion_limit_def)
  show "fresh (token_stream_new s)" "ts_recursion_limit (token_stream_new s) = 50" "ts_buf (token_stream_new s) = s"
    by (simp_all add: eq fresh_def skip_whitespace_def split: prod.splits)
  obtain gap where "ignored gap" "unread ?ts = gap @ unread (skip_whitespace ?ts)" by (rule skip_whitespace_cases)
  then show "\<exists>gap. ignored gap \<and> s = gap @ unread (token_stream_new s)" by (auto simp: eq unread_def)
qed

section \<open>Quoted strings\<close>

definition quoted_text :: "string \<Rightarrow> string" where
  "quoted_text s = dquote # concat (map escape_char s) @ [dquote]"

text \<open>What an escape sequence of the printer is read as: control characters are printed in decimal.\<close>

definition reread :: "char \<Rightarrow> nat" where
  "reread c = (let n = of_char c in if n < 32 \<and> n \<notin> {9, 10, 13} then 16 * (n div 10) + n mod 10 else n)"

lemma control_escape: "n < 32 \<Longrightarrow> read_hex (pad4 (show_nat n)) = Some (16 * (n div 10) + n mod 10)
    \<and> length (pad4 (show_nat n)) = 4 \<and> list_all is_digit (pad4 (show_nat n))"
proof -
  have "list_all (\<lambda>n. read_hex (pad4 (show_nat n)) = Some (16 * (n div 10) + n mod 10)
      \<and> length (pad4 (show_nat n)) = 4 \<and> list_all is_digit (pad4 (show_nat n))) [0..<32]" by code_simp
  then show "n < 32 \<Longrightarrow> ?thesis" by (simp add: list_all_iff)
qed

lemma plain_codes:
  "dquote = CHR 0x22" "backslash = CHR 0x5C" "of_char dquote = (34 :: nat)" "of_char backslash = (92 :: nat)"
  by (simp_all add: dquote_def backslash_def)

lemma string_end_plain:
  "dquote \<notin> set cs \<Longrightarrow> backslash \<notin> set cs \<Longrightarrow> CHR 0x0A \<notin> set cs \<Longrightarrow>
    string_end i False (cs @ rest) = string_end (i + length cs) False rest"
  by (induction cs arbitrary: i) auto

lemma digits_plain: "list_all is_digit cs \<Longrightarrow> dquote \<notin> set cs \<and> backslash \<notin> set cs \<and> CHR 0x0A \<notin> set cs"
  by (auto simp: list_all_iff is_digit_def plain_codes)

lemma string_end_escape:
  "string_end i False (escape_char c @ rest) = string_end (i + length (escape_char c)) False rest"
proof (cases "c \<in> {CHR 0x0D, CHR 0x0A, CHR 0x09, CHR 0x22, CHR 0x5C}")
  case True
  then show ?thesis by (auto simp: escape_char_def plain_codes)
next
  case False
  show ?thesis
  proof (cases "32 \<le> (of_char c :: nat)")
    case True
    with False have "escape_char c = [c]" by (simp add: escape_char_def)
    with False show ?thesis by (simp add: plain_codes)
  next
    case small: False
    with False have "escape_char c = [backslash, CHR ''u''] @ pad4 (show_nat (of_char c))" by (simp add: escape_char_def plain_codes)
    with control_escape [of "of_char c"] small show ?thesis
      by (simp add: plain_codes(1,2) string_end_plain [unfolded plain_codes(1,2)] digits_plain [unfolded plain_codes(1,2)] add.commute)
  qed
qed

lemma string_end_body:
  "string_end i False (concat (map escape_char s) @ dquote # rest) = Some (i + length (concat (map escape_char s)) + 1)"
  by (induction s arbitrary: i) (simp_all add: string_end_escape)

lemma escape_char_first: "\<exists>d ds. escape_char c = d # ds \<and> d \<noteq> dquote"
  by (auto simp: escape_char_def plain_codes)

lemma unescape_escape:
  "unescape (escape_char c @ rest) = rbind (unescape rest) (\<lambda>ns. Inr (reread c # ns))"
proof (cases "c \<in> {CHR 0x0D, CHR 0x0A, CHR 0x09, CHR 0x22, CHR 0x5C}")
  case True
  then show ?thesis by (auto simp: escape_char_def plain_codes(1,2) escape_value_def reread_def)
next
  case False
  then have n: "of_char c \<notin> {9, 10, 13 :: nat}"
    by (auto simp flip: of_char_eq_iff [where 'a = nat])
  show ?thesis
  proof (cases "32 \<le> (of_char c :: nat)")
    case True
    with False have "escape_char c = [c]" by (simp add: escape_char_def)
    with False True show ?thesis by (simp add: plain_codes(1,2) reread_def)
  next
    case small: False
    with False have e: "escape_char c = [backslash, CHR ''u''] @ pad4 (show_nat (of_char c))" by (simp add: escape_char_def plain_codes)
    from control_escape [of "of_char c"] small
    have d: "read_hex (pad4 (show_nat (of_char c))) = Some (16 * (of_char c div 10) + of_char c mod 10)"
      "length (pad4 (show_nat (of_char c))) = 4" by simp_all
    have "is_scalar_value (16 * (of_char c div 10) + of_char c mod 10)" 
    proof -
      have "(of_char c :: nat) div 10 \<le> 31" "(of_char c :: nat) mod 10 \<le> 31"
        using small order_trans [OF div_le_dividend, of "of_char c :: nat" 31 10]
          order_trans [OF mod_less_eq_dividend, of "of_char c :: nat" 31 10] by linarith+
      then have "16 * (of_char c div 10) + of_char c mod 10 < (55296 :: nat)" by linarith
      then show ?thesis by (simp add: is_scalar_value_def)
    qed
    moreover have "reread c = 16 * (of_char c div 10) + of_char c mod 10" using small n by (simp add: reread_def Let_def)
    ultimately show ?thesis using d by (simp add: e escape_value_def plain_codes)
  qed
qed

lemma unquote_quoted: "unquote_string (quoted_text s) = Inr (map reread s)"
proof -
  have "unescape (concat (map escape_char s)) = Inr (map reread s)"
    by (induction s) (simp_all add: unescape_escape)
  then show ?thesis by (simp add: unquote_string_def quoted_text_def butlast_append)
qed

lemma reread_same: "reread c = of_char c \<longleftrightarrow> (of_char c :: nat) \<notin> {11, 12} \<union> {14..31}"
proof -
  have "list_all (\<lambda>n. (if n < 32 \<and> n \<notin> {9, 10, 13} then 16 * (n div 10) + n mod 10 else n) = n
      \<longleftrightarrow> \<not> (n = 11 \<or> n = 12 \<or> 14 \<le> n \<and> n \<le> 31)) [0..<32 :: nat]" by code_simp
  then show ?thesis by (cases "(of_char c :: nat) < 32") (auto simp: list_all_iff reread_def Let_def)
qed

lemma bodies_first: "\<not> begins [dquote, dquote] (concat (map escape_char s) @ [dquote])"
proof (cases s)
  case (Cons c cs)
  obtain d ds where "escape_char c = d # ds" "d \<noteq> dquote" using escape_char_first by blast
  with Cons show ?thesis by (simp add: begins_def)
qed (simp add: begins_def)

lemma skip_nothing: "cs = [] \<or> hd cs = dquote \<Longrightarrow> skip_text n p cs = (n, p)"
  by (cases cs) (auto simp: plain_codes)

lemma quoted_stream: "token_stream_new (quoted_text s) = \<lparr>ts_buf = quoted_text s, ts_position = \<lparr>line = 1, column = 1\<rparr>,
    ts_off = 0, ts_next_state = None, ts_recursion_limit = 50\<rparr>"
  using skip_nothing [of "quoted_text s"]
  by (simp add: token_stream_new_def with_recursion_limit_def skip_whitespace_def quoted_text_def)

text \<open>A stream that stands at a quote takes the string.\<close>

lemma take_token_quote:
  assumes "unread ts = dquote # cs"
  shows "take_token ts = take_string (dquote # cs) ts"
  using assms by (simp add: take_token_def unread_def plain_codes name_start_def is_letter_def is_digit_def)

lemma quoted_token:
  obtains ts where "uncons (token_stream_new (quoted_text s)) = (Inr \<lparr>tk_kind = StringValue, tk_value = quoted_text s\<rparr>, ts)"
    and "fst (uncons ts) = Inl EndOfInput"
proof -
  let ?ts = "token_stream_new (quoted_text s)" and ?body = "concat (map escape_char s)"
  have "string_end 1 False (?body @ [dquote]) = Some (length ?body + 2)"
    using string_end_body [of 1 s "[]"] by simp
  then have "take_string (quoted_text s) ?ts = advance_token StringValue (length ?body + 2) ?ts"
    using bodies_first [of s] by (simp add: take_string_def quoted_text_def)
  moreover have "unread ?ts = quoted_text s" by (simp add: quoted_stream unread_def)
  ultimately have take: "take_token ?ts = advance_token StringValue (length ?body + 2) ?ts"
    using take_token_quote [of ?ts "?body @ [dquote]"] by (simp add: quoted_text_def)
  let ?ts1 = "snd (advance_token StringValue (length ?body + 2) ?ts)"
  have len: "length (quoted_text s) = length ?body + 2" by (simp add: quoted_text_def)
  then have "drop (ts_off ?ts1) (ts_buf ?ts1) = []" by (simp add: quoted_stream)
  then have ws: "skip_whitespace ?ts1 = ?ts1" using skip_nothing [of "[]"] by (simp add: skip_whitespace_def)
  let ?tok = "\<lparr>tk_kind = StringValue, tk_value = quoted_text s\<rparr>"
  let ?ts2 = "?ts1\<lparr>ts_next_state := Some (0, ?tok, length ?body + 2, ts_position ?ts1)\<rparr>"
  have "read_token ?ts = (Inr ?tok, ?ts2)"
    using take ws len by (simp add: read_token_def advance_token_def quoted_stream Let_def)
  then have "uncons ?ts = (Inr ?tok, ?ts2)" using uncons_fresh [OF new_stream(1)] by simp
  moreover have "take_token ?ts2 = fail EndOfInput ?ts2"
    using len by (simp add: take_token_def quoted_stream advance_token_def)
  then have "fst (uncons ?ts2) = Inl EndOfInput"
    by (simp add: uncons_def read_token_def fail_def advance_token_def quoted_stream)
  ultimately show ?thesis by (rule that)
qed

section \<open>Numbers\<close>

lemma scan_number_append:
  assumes "\<forall>c \<in> set cs. \<not> ends_number c \<and> c \<noteq> CHR ''.'' \<and> c \<noteq> CHR ''e'' \<and> c \<noteq> CHR ''E''"
  shows "scan_number i e r (cs @ rest) = scan_number (i + length cs) e r rest"
  using assms by (induction cs arbitrary: i) auto

lemma digit_plain: "is_digit c \<Longrightarrow> \<not> ends_number c \<and> c \<noteq> CHR ''.'' \<and> c \<noteq> CHR ''e'' \<and> c \<noteq> CHR ''E''"
  by (auto simp: is_digit_def ends_number_def)

lemma check_int_chars:
  assumes "check_int v" "is_digit (hd v) \<or> hd v = CHR ''-''" "v \<noteq> []"
  shows "\<forall>c \<in> set (drop 1 v). is_digit c"
  using assms by (auto simp: check_int_def list_all_iff is_digit_def)

lemma take_token_number:
  assumes "unread ts = c # cs" "is_digit c \<or> c = CHR ''-''"
  shows "take_token ts = take_number (c # cs) ts"
proof -
  have "c \<notin> set ''([{'' \<and> c \<notin> set '')]}'' \<and> c \<notin> set ''!$:=@|&'' \<and> c \<noteq> CHR ''.'' \<and> \<not> name_start c"
    using assms(2) by (auto simp: is_digit_def name_start_def is_letter_def)
  then show ?thesis using assms by (auto simp: take_token_def unread_def simp del: list.set)
qed

lemma skip_number: "cs = [] \<or> is_digit (hd cs) \<or> hd cs = CHR ''-'' \<Longrightarrow> skip_text n p cs = (n, p)"
  by (cases cs) (auto simp: is_digit_def)

lemma check_exp_digits:
  assumes "x \<noteq> []" "list_all is_digit x"
  shows "check_exp x \<longleftrightarrow> \<not> (hd x = CHR ''0'' \<or> hd x = CHR ''9'')"
proof -
  from assms obtain c cs where x: "x = c # cs" "is_digit c" "list_all is_digit cs" by (cases x) auto
  have "c = CHR ''0'' \<longleftrightarrow> (of_char c :: nat) = of_char (CHR ''0'')" "c = CHR ''9'' \<longleftrightarrow> (of_char c :: nat) = of_char (CHR ''9'')"
    by (simp_all only: of_char_eq_iff)
  with x show ?thesis by (auto simp: check_exp_def is_digit_def)
qed

section \<open>Properties\<close>

text \<open>
  C12: the tokens that are read from a text make it up, in order and unchanged, together with gaps of
  white space, commas and comments before the first and after each of them: nothing else is
  dropped and nothing is invented.
\<close>

theorem tokens_make_up_the_text:
  assumes "token_run (token_stream_new s) toks ts"
  shows "\<exists>gap gaps. length gaps = length toks \<and> ignored gap \<and> list_all ignored gaps
    \<and> s = gap @ spread toks gaps @ unread ts"
proof -
  obtain gap where "ignored gap" "s = gap @ unread (token_stream_new s)" using new_stream(4) by blast
  moreover obtain gaps where "length gaps = length toks" "list_all ignored gaps"
    "unread (token_stream_new s) = spread toks gaps @ unread ts" using run_text [OF assms new_stream(1)] by blast
  ultimately show ?thesis by (intro exI [of _ gap] exI [of _ gaps]) simp
qed

lemma demo_tokens: "\<exists>ts. token_run (token_stream_new (quoted_text ''a'')) [\<lparr>tk_kind = StringValue, tk_value = quoted_text ''a''\<rparr>] ts"
  by (rule quoted_token [of "''a''"]) (blast intro: run_step run_nil)

lemma tokens_make_up_the_text_witness:
  "\<exists>ts gap gaps. token_run (token_stream_new (quoted_text ''a'')) [\<lparr>tk_kind = StringValue, tk_value = quoted_text ''a''\<rparr>] ts
    \<and> quoted_text ''a'' = gap @ spread [\<lparr>tk_kind = StringValue, tk_value = quoted_text ''a''\<rparr>] gaps @ unread ts"
proof -
  obtain ts where ts: "token_run (token_stream_new (quoted_text ''a'')) [\<lparr>tk_kind = StringValue, tk_value = quoted_text ''a''\<rparr>] ts"
    using demo_tokens by blast
  from tokens_make_up_the_text [OF this] ts show ?thesis by blast
qed



text \<open>
  Going back to the place where the last token was read and reading again gives the same token and
  the same stream, so that looking ahead does not use up the nesting that is allowed.
\<close>

theorem reading_again:
  assumes "uncons ts = (Inr t, ts1)" "fresh ts"
  shows "uncons (reset (checkpoint_of ts) ts1) = (Inr t, ts1)"
proof -
  from assms have "read_token ts = (Inr t, ts1)" by (simp add: uncons_fresh)
  then show ?thesis
    by (auto simp: read_token_def uncons_def reset_def checkpoint_of_def Let_def split: prod.splits sum.splits)
qed

lemma reading_again_witness:
  "\<exists>t ts. uncons (token_stream_new (quoted_text ''a'')) = (Inr t, ts)
    \<and> uncons (reset (checkpoint_of (token_stream_new (quoted_text ''a''))) ts) = (Inr t, ts)"
proof -
  obtain t ts where u: "uncons (token_stream_new (quoted_text ''a'')) = (Inr t, ts)" by (rule quoted_token [of "''a''"]) blast
  from reading_again [OF u new_stream(1)] u show ?thesis by blast
qed

text \<open>
  What the printer writes for a string on one line is one string token, and it is unquoted to the
  string again, unless it has a control character from 11 on other than a carriage return: those
  are printed with their decimal code, which is read as hexadecimal.
\<close>

theorem quoted_strings_read_back:
  assumes "\<not> has_newline s \<or> has_nonprintable s" "write_quoted s f = Some f'"
  shows "\<exists>q ts. f_buf f' = f_buf f @ q
    \<and> uncons (token_stream_new q) = (Inr \<lparr>tk_kind = StringValue, tk_value = q\<rparr>, ts) \<and> fst (uncons ts) = Inl EndOfInput
    \<and> (unquote_string q = Inr (map of_char s) \<longleftrightarrow> (\<forall>c \<in> set s. (of_char c :: nat) \<notin> {11, 12} \<union> {14..31}))"
proof -
  have "f_buf f' = f_buf f @ quoted_text s"
    using assms by (auto simp: write_quoted_def run.simps emit_def quoted_text_def dquote_def)
  moreover have "map reread s = map of_char s \<longleftrightarrow> (\<forall>c \<in> set s. (of_char c :: nat) \<notin> {11, 12} \<union> {14..31})"
    using reread_same by (auto simp: map_eq_conv)
  ultimately show ?thesis
    using quoted_token [of s] unquote_quoted [of s] by (metis (no_types, lifting) sum.inject(2))
qed

lemma quoted_strings_read_back_witness:
  "\<exists>f' q. write_quoted ''a'' (new_formatter default_style) = Some f' \<and> f_buf f' = q \<and> unquote_string q = Inr [97]"
proof -
  obtain f' where f': "write_quoted ''a'' (new_formatter default_style) = Some f'"
    by (simp add: write_quoted_def has_newline_def run.simps emit_def)
  from quoted_strings_read_back [OF _ this] obtain q where "f_buf f' = f_buf (new_formatter default_style) @ q"
    "unquote_string q = Inr (map of_char ''a'')" by (auto simp: has_newline_def)
  moreover have "f_buf (new_formatter default_style) = []" by (simp add: new_formatter_def)
  ultimately show ?thesis using f' by auto
qed

text \<open>
  A number with an exponent is a float token, except that an exponent that begins with the digit
  0 or 9 is refused: \<^verbatim>\<open>1e9\<close> is not read, although GraphQL allows it.
\<close>

theorem exponents_of_floats:
  assumes "check_int v" "v \<noteq> []" "is_digit (hd v) \<or> hd v = CHR ''-''" and "x \<noteq> []" "list_all is_digit x"
  shows "fst (uncons (token_stream_new (v @ ''e'' @ x))) =
    (if hd x = CHR ''0'' \<or> hd x = CHR ''9'' then Inl (UnexpectedText ''unsupported float'')
     else Inr \<lparr>tk_kind = FloatValue, tk_value = v @ ''e'' @ x\<rparr>)"
proof -
  let ?w = "v @ ''e'' @ x" and ?n = "length v + 1 + length x"
  let ?ts = "\<lparr>ts_buf = ?w, ts_position = \<lparr>line = 1, column = 1\<rparr>, ts_off = 0, ts_next_state = None, ts_recursion_limit = 50\<rparr>"
  obtain c cs where v: "v = c # cs" using assms(2) by (cases v) auto
  have c: "is_digit c \<or> c = CHR ''-''" using assms(3) v by simp
  have new: "token_stream_new ?w = ?ts"
    using skip_number [of ?w] c v by (simp add: token_stream_new_def with_recursion_limit_def skip_whitespace_def)
  have "\<forall>d \<in> set cs. is_digit d" using check_int_chars [OF assms(1,3,2)] v by simp
  then have "scan_number 1 None None (cs @ ''e'' @ x) = scan_number (1 + length cs) None None (''e'' @ x)"
    by (intro scan_number_append) (use digit_plain in blast)
  also have "\<dots> = scan_number (1 + length cs + 1) (Some (1 + length cs)) None (x @ [])"
    by (simp add: ends_number_def)
  also have "\<dots> = (?n, Some (length v), None)"
    using assms(5) digit_plain by (subst scan_number_append) (auto simp: list_all_iff v)
  finally have scan: "scan_number 1 None None (drop 1 ?w) = (?n, Some (length v), None)" by (simp add: v)
  have float: "check_float ?w (Some (length v)) None \<longleftrightarrow> \<not> (hd x = CHR ''0'' \<or> hd x = CHR ''9'')"
    using assms(1) check_exp_digits [OF assms(4,5)] by (simp add: check_float_def)
  have take: "take_token ?ts = (if hd x = CHR ''0'' \<or> hd x = CHR ''9'' then fail (UnexpectedText ''unsupported float'') ?ts
      else advance_token FloatValue ?n ?ts)"
    using take_token_number [of ?ts c "cs @ ''e'' @ x"] c scan float
    by (simp add: unread_def v take_number_def Let_def del: One_nat_def)
  have "drop ?n ?w = []" by simp
  then have "skip_whitespace (snd (advance_token FloatValue ?n ?ts)) = snd (advance_token FloatValue ?n ?ts)"
    using skip_number [of "[]"] by (simp add: skip_whitespace_def advance_token_def)
  with take show ?thesis
    unfolding new by (simp add: uncons_def read_token_def fail_def advance_token_def Let_def)
qed

lemma exponents_of_floats_witness:
  "fst (uncons (token_stream_new ''1e9'')) = Inl (UnexpectedText ''unsupported float'')"
  using exponents_of_floats [of "''1''" "''9''"] by (simp add: check_int_def begins_def is_digit_def)

end
