(* ===== verification/Lexing.thy ===== *)
theory Lexing
  imports Tokenizer_Laws
begin

text \<open>
  Reading a token again in another text: which tokens are read depends only on the text that is left
  and on the recursion limit, and a token is read from any text that begins with it and goes on with
  a character that ends it.
\<close>

section \<open>What ends a token\<close>

definition apart :: "token_kind \<Rightarrow> string \<Rightarrow> string \<Rightarrow> bool" where
  "apart k v r \<longleftrightarrow>
     (case k of
        Punctuator \<Rightarrow> True
      | Name \<Rightarrow> r = [] \<or> \<not> name_char (hd r)
      | StringValue \<Rightarrow> v = [dquote, dquote] \<longrightarrow> r = [] \<or> hd r \<noteq> dquote
      | BlockString \<Rightarrow> True
      | _ \<Rightarrow> r = [] \<or> ends_number (hd r))"

lemma scan_number_local:
  assumes "scan_number i e x (v @ r) = (i + length v, e', x')" "r2 = [] \<or> ends_number (hd r2)"
  shows "scan_number i e x (v @ r2) = (i + length v, e', x')"
  using assms
proof (induction v arbitrary: i e x)
  case Nil
  then have "e' = e \<and> x' = x"
    by (cases r) (fastforce split: if_splits dest: scan_number_bound)+
  with Nil.prems(2) show ?case by (cases r2) simp_all
next
  case (Cons c v)
  then have "\<not> ends_number c" by (auto split: if_splits)
  with Cons.prems Cons.IH [of "i + 1"] show ?case by (auto split: if_splits)
qed

lemma string_end_local:
  assumes "string_end i esc (v @ r) = Some (i + length v)" "v \<noteq> []"
  shows "string_end i esc (v @ r2) = Some (i + length v)"
  using assms
proof (induction v arbitrary: i esc)
  case (Cons c v)
  show ?case
  proof (cases "c = dquote \<and> \<not> esc")
    case False
    with Cons.prems(1) have e: "string_end (i + 1) (\<not> esc \<and> c = backslash) (v @ r) = Some ((i + 1) + length v)" and n: "c \<noteq> CHR 0x0A"
      by (auto split: if_splits)
    from string_end_bound [OF e] have "v \<noteq> []" by auto
    from Cons.IH [OF e this] False n show ?thesis by auto
  qed (use Cons.prems in auto)
qed simp

lemma block_end_local:
  assumes "block_end i slash (w @ r) = Some j" "j + 3 = i + length w"
  shows "block_end i slash (w @ r2) = Some j"
  using assms
proof (induction w arbitrary: i slash rule: length_induct)
  case (1 w)
  from block_end_bound [OF 1(2)] 1(3) have "3 \<le> length w" by simp
  then obtain a b c w' where w: "w = a # b # c # w'" by (auto simp: numeral_eq_Suc Suc_le_length_iff)
  show ?case
  proof (cases "a = dquote \<and> b = dquote \<and> c = dquote")
    case True
    show ?thesis
    proof (cases slash)
      case True
      with 1(2) w \<open>a = dquote \<and> _\<close> have e: "block_end (i + 3) False (w' @ r) = Some j" by simp
      from 1(1) e 1(3) w have "block_end (i + 3) False (w' @ r2) = Some j" by simp
      with True w \<open>a = dquote \<and> _\<close> show ?thesis by simp
    qed (use 1(2) w True in simp)
  next
    case False
    with 1(2) w have e: "block_end (i + 1) (a = backslash) ((b # c # w') @ r) = Some j" by auto
    have "block_end (i + 1) (a = backslash) ((b # c # w') @ r2) = Some j"
      using 1(1) [rule_format, of "b # c # w'", OF _ e] 1(3) w by simp
    with False w show ?thesis by auto
  qed
qed

lemma take_number_local:
  assumes "take_number (v @ r) ts = (Inr (k, length v), ts')" "v \<noteq> []" "r2 = [] \<or> ends_number (hd r2)"
  shows "fst (take_number (v @ r2) ts2) = Inr (k, length v)"
    and "k \<in> {IntValue, BigIntValue, FloatValue}"
proof -
  obtain c cs where v: "v = c # cs" using assms(2) by (cases v) auto
  obtain n e x where scan: "scan_number 1 None None (cs @ r) = (n, e, x)" by (cases "scan_number 1 None None (cs @ r)")
  with assms(1) v have n: "n = 1 + length cs" and k: "k \<in> {IntValue, BigIntValue, FloatValue}"
    by (auto simp: take_number_def Let_def split: if_splits)
  from scan_number_local [OF scan [unfolded n] assms(3)] have "scan_number 1 None None (cs @ r2) = (n, e, x)" using n by simp
  with assms(1) v scan n show "fst (take_number (v @ r2) ts2) = Inr (k, length v)"
    by (auto simp: take_number_def Let_def advance_token_def split: if_splits)
  show "k \<in> {IntValue, BigIntValue, FloatValue}" by (rule k)
qed

lemma begins_append: "length p \<le> length v \<Longrightarrow> begins p (v @ r) \<longleftrightarrow> begins p v"
  by (simp add: begins_def)

lemma take_string_local:
  assumes "take_string (v @ r) ts = (Inr (k, length v), ts')" "v \<noteq> []" "hd v = dquote" "apart k v r2"
  shows "fst (take_string (v @ r2) ts2) = Inr (k, length v)"
    and "k \<in> {StringValue, BlockString}"
proof -
  obtain c cs where v: "v = c # cs" using assms(2) by (cases v) auto
  show "k \<in> {StringValue, BlockString}"
    using assms(1) by (auto simp: take_string_def split: if_splits option.splits)
  show "fst (take_string (v @ r2) ts2) = Inr (k, length v)"
  proof (cases "begins [dquote, dquote] (cs @ r)")
    case True
    with assms(1) v obtain i where i: "block_end 0 False (drop 3 (c # cs @ r)) = Some i" "i + 6 = length v" "k = BlockString"
      by (cases "block_end 0 False (drop 3 (c # cs @ r))") (auto simp: take_string_def)
    then obtain a b w where cs: "cs = a # b # w" "length w = i + 3" using v
      by (cases cs; cases "tl cs") auto
    with i have "block_end 0 False (w @ r2) = Some i" using block_end_local [of 0 False w r i r2] by simp
    moreover from True cs have "begins [dquote, dquote] (cs @ r2)" by (simp add: begins_def)
    ultimately show ?thesis using v cs i by (simp add: take_string_def)
  next
    case False
    with assms(1) v have e: "string_end 1 False (cs @ r) = Some (1 + length cs)" and k: "k = StringValue"
      by (auto simp: take_string_def split: option.splits)
    from string_end_bound [OF e] have ne: "cs \<noteq> []" by auto
    have "\<not> begins [dquote, dquote] (cs @ r2)"
    proof
      assume b: "begins [dquote, dquote] (cs @ r2)"
      from ne obtain d ds where cs: "cs = d # ds" by (cases cs) auto
      with b have d: "d = dquote" by (simp add: begins_def)
      with e cs have "ds = []" by simp
      with b d cs False assms(3,4) k v e show False
        by (cases r2) (auto simp: begins_def apart_def)
    qed
    with string_end_local [OF e ne] v k show ?thesis by (simp add: take_string_def advance_token_def)
  qed
qed

lemma take_token_local:
  assumes take: "take_token ts = (Inr (k, n), ts')" and left: "unread ts = v @ r" "length v = n"
    and again: "unread ts2 = v @ r2" "ts_recursion_limit ts2 = ts_recursion_limit ts" and sep: "apart k v r2"
  obtains ts2' where "take_token ts2 = (Inr (k, n), ts2')" "ts_recursion_limit ts2' = ts_recursion_limit ts'"
    and "unread ts2' = r2" "ts_off ts2' = ts_off ts2 + n" "ts_buf ts2' = ts_buf ts2"
proof -
  from take_token_cases [OF take] have n: "0 < n" and lim: "ts_recursion_limit ts' =
      (if hd (unread ts) \<in> set ''([{'' then ts_recursion_limit ts - 1
        else if hd (unread ts) \<in> set '')]}'' then saturating_succ (ts_recursion_limit ts) else ts_recursion_limit ts)"
    by (simp_all only: unread_def)
  then obtain c cs where v: "v = c # cs" using left by (cases v) auto
  have run: "take_token t = (if c \<in> set ''([{'' then
            (if ts_recursion_limit t = 0 then fail RecursionLimitExceeded t
             else advance_token Punctuator 1 (t\<lparr>ts_recursion_limit := ts_recursion_limit t - 1\<rparr>))
          else if c \<in> set '')]}'' then
            advance_token Punctuator 1 (t\<lparr>ts_recursion_limit := saturating_succ (ts_recursion_limit t)\<rparr>)
          else if c \<in> set ''!$:=@|&'' then advance_token Punctuator 1 t
          else if c = CHR ''.'' then
            (if begins ''..'' (cs @ x) then advance_token Punctuator 3 t else fail (UnexpectedText ''bare dot'') t)
          else if name_start c then advance_token Name (1 + length (takeWhile name_char (cs @ x))) t
          else if c = CHR ''-'' \<or> is_digit c then take_number (v @ x) t
          else if c = dquote then take_string (v @ x) t
          else fail (UnexpectedText ''unexpected character'') t)" if "unread t = v @ x" for t x
    using that v unfolding take_token_def Let_def unread_def by (simp del: list.set)
  have taken: "fst (take_token ts) = Inr (k, n)" by (simp add: take)
  have "fst (take_token ts2) = Inr (k, n)"
  proof -
    consider (left) "c \<in> set ''([{''" | (right) "c \<notin> set ''([{''" "c \<in> set '')]}''"
      | (mark) "c \<notin> set ''([{''" "c \<notin> set '')]}''" "c \<in> set ''!$:=@|&''"
      | (other) "c \<notin> set ''([{''" "c \<notin> set '')]}''" "c \<notin> set ''!$:=@|&''" by blast
    then show ?thesis
    proof cases
      case other
      consider (dots) "c = CHR ''.''" | (nm) "c \<noteq> CHR ''.''" "name_start c"
        | (num) "c \<noteq> CHR ''.''" "\<not> name_start c" "c = CHR ''-'' \<or> is_digit c"
        | (str) "c \<noteq> CHR ''.''" "\<not> name_start c" "\<not> (c = CHR ''-'' \<or> is_digit c)" by blast
      then show ?thesis
      proof cases
        case dots
        with run [OF left(1)] taken other have b: "begins ''..'' (cs @ r)" "n = 3" "k = Punctuator"
          by (auto simp: advance_token_def split: if_splits simp del: list.set)
        with v left(2) have "begins ''..'' cs" by (simp add: begins_append)
        then have "begins ''..'' (cs @ r2)" using v left(2) b(2) by (simp add: begins_append)
        with dots run [OF again(1)] other b show ?thesis by (simp add: advance_token_def del: list.set)
      next
        case nm
        with run [OF left(1)] taken other have "k = Name" "n = 1 + length (takeWhile name_char (cs @ r))"
          by (auto simp: advance_token_def split: if_splits simp del: list.set)
        then have k: "k = Name" and w: "length (takeWhile name_char (cs @ r)) = length cs" using v left(2) by simp_all
        have same: "takeWhile name_char (cs @ r) = cs" by (subst takeWhile_eq_take) (simp add: w)
        have "\<forall>x \<in> set (takeWhile name_char (cs @ r)). name_char x" by (blast dest: set_takeWhileD)
        then have "\<forall>x \<in> set cs. name_char x" unfolding same .
        then have "takeWhile name_char (cs @ r2) = cs" using sep k by (cases r2) (auto simp: apart_def takeWhile_append)
        with nm run [OF again(1)] other k v left(2) show ?thesis by (simp add: advance_token_def del: list.set)
      next
        case num
        with run [OF left(1)] take other left(2) have e: "take_number (v @ r) ts = (Inr (k, length v), ts')" by (simp del: list.set)
        from take_number_local(2) [OF e, of "[]"] v sep have "r2 = [] \<or> ends_number (hd r2)" by (auto simp: apart_def)
        from take_number_local(1) [OF e _ this] v num run [OF again(1)] other left(2) show ?thesis by (simp del: list.set)
      next
        case str
        with run [OF left(1)] taken other have q: "c = dquote" by (auto simp: fail_def split: if_splits simp del: list.set)
        with str run [OF left(1)] take other left(2) have e: "take_string (v @ r) ts = (Inr (k, length v), ts')"
          by (simp del: list.set)
        from take_string_local(1) [OF e _ _ sep] v q str run [OF again(1)] other left(2) show ?thesis by (simp del: list.set)
      qed
    qed (use run [OF left(1)] run [OF again(1)] taken again(2) in \<open>auto simp: advance_token_def split: if_splits simp del: list.set\<close>)
  qed
  then obtain ts2' where t2: "take_token ts2 = (Inr (k, n), ts2')" by (cases "take_token ts2") auto
  from take_token_cases [OF t2] have "ts_off ts2' = ts_off ts2 + n" "ts_buf ts2' = ts_buf ts2"
    "ts_recursion_limit ts2' = (if hd (unread ts2) \<in> set ''([{'' then ts_recursion_limit ts2 - 1
        else if hd (unread ts2) \<in> set '')]}'' then saturating_succ (ts_recursion_limit ts2) else ts_recursion_limit ts2)"
    by (simp_all only: unread_def)
  moreover have "hd (unread ts2) = hd (unread ts)" using v left(1) again(1) by simp
  moreover from calculation(1,2) have "unread ts2' = drop n (unread ts2)" by (simp add: unread_def add.commute)
  then have "unread ts2' = r2" using left(2) again(1) by simp
  ultimately show ?thesis using that t2 again(2) lim by simp
qed

section \<open>Blanks between tokens\<close>

definition blank :: "char \<Rightarrow> bool" where
  "blank c \<longleftrightarrow> c \<in> {CHR 0x0D, CHR 0x09, CHR 0x0A, CHR '' '', CHR '',''}"

definition starts_token :: "string \<Rightarrow> bool" where
  "starts_token s \<longleftrightarrow> s = [] \<or> \<not> blank (hd s) \<and> hd s \<noteq> CHR ''#''"

lemma skip_blanks:
  assumes "list_all blank gap" "starts_token rest"
  shows "\<exists>q. skip_text n p (gap @ rest) = (n + length gap, q)"
  using assms(1)
proof (induction gap arbitrary: n p)
  case Nil
  then show ?case using assms(2) by (cases rest) (auto simp: starts_token_def blank_def)
next
  case (Cons c gap)
  then have "blank c" and gap: "list_all blank gap" by simp_all
  then have c: "c \<in> {CHR 0x0D, CHR 0x09, CHR 0x0A, CHR '' '', CHR '',''}" by (simp add: blank_def)
  from Cons.IH [OF gap] have ih: "\<exists>q. skip_text (n + 1) r (gap @ rest) = (n + 1 + length gap, q)" for r by blast
  from c obtain r where r: "skip_text n p ((c # gap) @ rest) = skip_text (n + 1) r (gap @ rest)" by auto
  show ?case using ih [of r] unfolding r by simp
qed

lemma skip_whitespace_blanks:
  assumes "unread ts = gap @ rest" "list_all blank gap" "starts_token rest"
  shows "unread (skip_whitespace ts) = rest" "ts_off (skip_whitespace ts) = ts_off ts + length gap"
proof -
  from skip_blanks [OF assms(2,3), of 0 "ts_position ts"] obtain q where "skip_text 0 (ts_position ts) (gap @ rest) = (length gap, q)" by auto
  then have eq: "skip_whitespace ts = ts\<lparr>ts_off := ts_off ts + length gap, ts_position := q\<rparr>"
    using assms(1) by (simp add: skip_whitespace_def unread_def)
  then show "ts_off (skip_whitespace ts) = ts_off ts + length gap" by simp
  have "unread (skip_whitespace ts) = drop (length gap) (unread ts)" by (simp add: eq unread_def add.commute)
  then show "unread (skip_whitespace ts) = rest" using assms(1) by simp
qed

lemma read_token_starts:
  assumes "read_token ts = (Inr t, ts1)"
  shows "starts_token (tk_value t @ r)"
proof -
  from assms obtain k n ts0 where take: "take_token ts = (Inr (k, n), ts0)"
    by (auto simp: read_token_def Let_def split: prod.splits sum.splits)
  from read_token_cases [OF assms] obtain g where g: "unread ts = tk_value t @ g" "tk_value t \<noteq> []" by blast
  then obtain c cs where c: "tk_value t = c # cs" by (cases "tk_value t") auto
  have "take_token ts = fail (UnexpectedText ''unexpected character'') ts" if "blank c \<or> c = CHR ''#''"
    using that g(1) c unfolding take_token_def unread_def
    by (auto simp: blank_def name_start_def is_letter_def is_digit_def dquote_def)
  with take have "\<not> blank c \<and> c \<noteq> CHR ''#''" by (auto simp: fail_def)
  with c show ?thesis by (simp add: starts_token_def)
qed

text \<open>The token again, in front of blanks.\<close>

lemma read_token_local:
  assumes "read_token ts = (Inr t, ts1)"
    and "unread ts2 = tk_value t @ gap @ rest" "list_all blank gap" "starts_token rest"
    and "ts_recursion_limit ts2 = ts_recursion_limit ts" "apart (tk_kind t) (tk_value t) (gap @ rest)"
  obtains ts3 where "read_token ts2 = (Inr t, ts3)" "fresh ts3" "unread ts3 = rest"
    and "ts_recursion_limit ts3 = ts_recursion_limit ts1"
proof -
  from assms(1) obtain k n ts0 where take: "take_token ts = (Inr (k, n), ts0)"
    and t: "t = \<lparr>tk_kind = k, tk_value = take n (drop (ts_off ts0 - n) (ts_buf ts0))\<rparr>"
    and ts1: "ts1 = (skip_whitespace ts0)\<lparr>ts_next_state := Some (ts_off ts, t, ts_off (skip_whitespace ts0), ts_position (skip_whitespace ts0))\<rparr>"
    by (auto simp: read_token_def Let_def split: prod.splits sum.splits)
  from read_token_cases [OF assms(1)] obtain g where g: "unread ts = tk_value t @ g" by blast
  from take_token_cases [OF take] have "ts_off ts0 = ts_off ts + n" "ts_buf ts0 = ts_buf ts" "n \<le> length (unread ts)"
    by (simp_all only: unread_def)
  then have n: "length (tk_value t) = n" by (simp add: t unread_def)
  have kind: "k = tk_kind t" by (simp add: t)
  from take_token_local [OF take g n assms(2,5)] kind assms(6) obtain ts2' where
    take2: "take_token ts2 = (Inr (k, n), ts2')" "ts_recursion_limit ts2' = ts_recursion_limit ts0"
      "unread ts2' = gap @ rest" "ts_off ts2' = ts_off ts2 + n" "ts_buf ts2' = ts_buf ts2" by auto
  have val: "take n (drop (ts_off ts2' - n) (ts_buf ts2')) = tk_value t"
    using assms(2) n take2(4,5) by (simp add: unread_def)
  note ws = skip_whitespace_blanks [OF take2(3) assms(3,4)]
  have "0 < n" using take_token_cases [OF take] by blast
  obtain gap0 where "ts_recursion_limit (skip_whitespace ts0) = ts_recursion_limit ts0" by (rule skip_whitespace_cases [of ts0])
  moreover have "ts_recursion_limit (skip_whitespace ts2') = ts_recursion_limit ts2'" by (rule skip_whitespace_cases [of ts2'])
  ultimately have lim: "ts_recursion_limit (skip_whitespace ts2') = ts_recursion_limit ts1" using take2(2) by (simp add: ts1)
  let ?ts3 = "(skip_whitespace ts2')\<lparr>ts_next_state := Some (ts_off ts2, t, ts_off (skip_whitespace ts2'), ts_position (skip_whitespace ts2'))\<rparr>"
  have "read_token ts2 = (Inr t, ?ts3)"
    using take2(1) val kind by (simp add: read_token_def Let_def)
  moreover have "fresh ?ts3" using ws(2) take2(4) \<open>0 < n\<close> by (simp add: fresh_def)
  moreover have "unread ?ts3 = rest" using ws(1) by (simp add: unread_def)
  ultimately show ?thesis using lim by (intro that [of ?ts3]) simp_all
qed

text \<open>The texts of punctuators.\<close>

lemma punctuator_text:
  assumes "read_token ts = (Inr t, ts1)" "tk_kind t = Punctuator"
  shows "(\<exists>c \<in> set ''([{)]}!$:=@|&''. tk_value t = [c]) \<or> tk_value t = ''...''"
proof -
  from assms(1) obtain n ts0 where take: "take_token ts = (Inr (Punctuator, n), ts0)"
    and t: "tk_value t = take n (drop (ts_off ts0 - n) (ts_buf ts0))"
    using assms(2) by (auto simp: read_token_def Let_def split: prod.splits sum.splits)
  from take_token_cases [OF take] have c: "ts_off ts0 = ts_off ts + n" "ts_buf ts0 = ts_buf ts" "0 < n" "n \<le> length (unread ts)"
    by (simp_all only: unread_def)
  then have val: "tk_value t = take n (unread ts)" by (simp add: t unread_def)
  obtain d ds where u: "unread ts = d # ds" using c(3,4) by (cases "unread ts") auto
  have run: "fst (take_token ts) = Inr (Punctuator, n)" by (simp add: take)
  show ?thesis
  proof (cases "d \<in> set ''([{)]}!$:=@|&''")
    case True
    then have "n = 1" using run u unfolding take_token_def unread_def
      by (auto simp: advance_token_def fail_def split: if_splits)
    with True val u show ?thesis by auto
  next
    case False
    note notin = this
    have no_number: "fst (take_number (d # ds) ts) \<noteq> Inr (Punctuator, n)"
      by (auto simp: take_number_def Let_def advance_token_def fail_def split: prod.splits if_splits)
    have no_string: "fst (take_string (d # ds) ts) \<noteq> Inr (Punctuator, n)"
      by (auto simp: take_string_def advance_token_def fail_def split: option.splits if_splits)
    have "d \<notin> set ''([{''" "d \<notin> set '')]}''" "d \<notin> set ''!$:=@|&''" using False by auto
    with run u no_number no_string have "d = CHR ''.''" "begins ''..'' ds" "n = 3"
      unfolding take_token_def Let_def unread_def
      by (auto simp: advance_token_def fail_def split: if_splits simp del: list.set)
    with val u show ?thesis by (simp add: begins_def numeral_3_eq_3)
  qed
qed

end
