(* ===== verification/Minify.thy ===== *)
theory Minify
  imports Lexing
begin

text \<open>
  \<^verbatim>\<open>fuel-indexer-graphql/parser/src/query/minify.rs\<close>: a query without what is ignored. The loop over the
  token stream is a \<open>partial_function\<close>; that it returns is a theorem.
\<close>

section \<open>The loop\<close>

text \<open>\<open>prev\<close> is \<^verbatim>\<open>prev_was_punctuator\<close>, which the code sets to whether the token before was \<^emph>\<open>not\<close> a punctuator.\<close>

partial_function (option) minify_loop :: "token_stream \<Rightarrow> bool \<Rightarrow> string list \<Rightarrow> (string list, token_error) result option" where
  "minify_loop ts prev bits =
     (case uncons ts of
        (Inr t, ts1) \<Rightarrow>
          (let is_non_punctuator = tk_kind t \<noteq> Punctuator
           in minify_loop ts1 is_non_punctuator
                (bits @ (if prev \<and> is_non_punctuator then ['' ''] else []) @ [tk_value t]))
      | (Inl e, ts1) \<Rightarrow> if e = EndOfInput then Some (Inr bits) else Some (Inl (Err e)))"

definition minify_query :: "string \<Rightarrow> (string, token_error) result option" where
  "minify_query s = map_option (\<lambda>r. rbind r (\<lambda>bits. Inr (concat bits))) (minify_loop (token_stream_new s) False [])"

section \<open>What it writes\<close>

text \<open>The text of a list of tokens, with a space between two that are not punctuators.\<close>

fun minified :: "bool \<Rightarrow> token list \<Rightarrow> string" where
  "minified prev [] = []"
| "minified prev (t # toks) = (if prev \<and> tk_kind t \<noteq> Punctuator then '' '' else []) @ tk_value t
     @ minified (tk_kind t \<noteq> Punctuator) toks"

text \<open>Every stream is read to an end, or to an error.\<close>

lemma complete_run:
  assumes "fresh ts"
  obtains toks ts1 e where "token_run ts toks ts1" "fst (uncons ts1) = Inl e"
  using assms
proof (induction "length (unread ts)" arbitrary: ts thesis rule: less_induct)
  case less
  show ?case
  proof (cases "uncons ts")
    case (Pair r ts1)
    show ?thesis
    proof (cases r)
      case (Inl e)
      with Pair less.prems(1) [of "[]" ts e] run_nil show ?thesis by simp
    next
      case (Inr t)
      with Pair less.prems(2) have "read_token ts = (Inr t, ts1)" by (simp add: uncons_fresh)
      from read_token_cases [OF this] have f: "fresh ts1" "length (unread ts1) < length (unread ts)" by auto
      obtain toks ts2 e where "token_run ts1 toks ts2" "fst (uncons ts2) = Inl e" by (rule less.hyps [OF f(2) _ f(1)])
      with Pair Inr less.prems(1) [of "t # toks" ts2 e] show ?thesis by (auto intro: run_step)
    qed
  qed
qed

lemma minify_loop_run:
  assumes "token_run ts toks ts1" "fst (uncons ts1) = Inl e"
  shows "\<exists>bits'. concat bits' = minified prev toks
    \<and> minify_loop ts prev bits = Some (if e = EndOfInput then Inr (bits @ bits') else Inl (Err e))"
  using assms
proof (induction arbitrary: prev bits rule: token_run.induct)
  case (run_nil ts)
  then show ?case by (subst minify_loop.simps, intro exI [of _ "[]"]) (auto split: prod.splits)
next
  case (run_step ts t ts1 toks ts2)
  let ?b = "(if prev \<and> tk_kind t \<noteq> Punctuator then ['' ''] else []) @ [tk_value t]"
  from run_step.IH [OF run_step.prems, of "tk_kind t \<noteq> Punctuator" "bits @ ?b"] obtain bits' where
    "concat bits' = minified (tk_kind t \<noteq> Punctuator) toks"
    "minify_loop ts1 (tk_kind t \<noteq> Punctuator) (bits @ ?b) = Some (if e = EndOfInput then Inr ((bits @ ?b) @ bits') else Inl (Err e))"
    by blast
  then show ?case
    by (subst minify_loop.simps, intro exI [of _ "?b @ bits'"]) (simp add: run_step.hyps(1) Let_def)
qed

lemma minify_query_run:
  assumes "token_run (token_stream_new s) toks ts" "fst (uncons ts) = Inl e"
  shows "minify_query s = Some (if e = EndOfInput then Inr (minified False toks) else Inl (Err e))"
  using minify_loop_run [OF assms, of False "[]"] by (auto simp: minify_query_def)

section \<open>Reading it again\<close>

definition is_number :: "token \<Rightarrow> bool" where
  "is_number t \<longleftrightarrow> tk_kind t \<in> {IntValue, BigIntValue, FloatValue}"

text \<open>No number directly before an ellipsis, as in no document: \<^verbatim>\<open>1 ...\<close> would become the broken float \<^verbatim>\<open>1...\<close>.\<close>

fun numbers_apart :: "token list \<Rightarrow> bool" where
  "numbers_apart (t # u # toks) = (\<not> (is_number t \<and> tk_kind u = Punctuator \<and> tk_value u = ''...'') \<and> numbers_apart (u # toks))"
| "numbers_apart _ = True"

lemma minified_gap:
  "minified prev toks = (if prev \<and> toks \<noteq> [] \<and> tk_kind (hd toks) \<noteq> Punctuator then '' '' else []) @ minified False toks"
  by (cases toks) simp_all

lemma minified_apart:
  assumes "read_token ts = (Inr t, ts1)" "token_run ts1 toks ts2" "fresh ts1" "numbers_apart (t # toks)"
  shows "apart (tk_kind t) (tk_value t) (minified (tk_kind t \<noteq> Punctuator) toks)"
proof (cases toks)
  case (Cons u us)
  from assms(2) [unfolded Cons] assms(3) obtain ts3 where u: "read_token ts1 = (Inr u, ts3)"
    by (auto elim!: token_run_ConsE simp: uncons_fresh)
  show ?thesis
  proof (cases "tk_kind u = Punctuator \<and> tk_kind t \<noteq> Punctuator")
    case True
    with punctuator_text [OF u] have "hd (tk_value u) \<in> set ''([{)]}!$:=@|&'' \<and> tk_value u \<noteq> [] \<or> tk_value u = ''...''" by auto
    moreover have "tk_value u \<noteq> ''...''" if "is_number t" using assms(4) that Cons True by simp
    ultimately show ?thesis using True Cons
      by (auto simp: apart_def is_number_def ends_number_def name_char_def name_start_def is_letter_def is_digit_def dquote_def
        split: token_kind.splits)
  next
    case False
    then show ?thesis using Cons
      by (auto simp: apart_def ends_number_def name_char_def name_start_def is_letter_def is_digit_def dquote_def
        split: token_kind.splits)
  qed
qed (simp add: apart_def split: token_kind.splits)

lemma minified_run:
  assumes "token_run ts toks ts1" "fresh ts" "numbers_apart toks"
    and "fresh ts2" "ts_recursion_limit ts2 = ts_recursion_limit ts" "unread ts2 = minified False toks"
  shows "\<exists>ts3. token_run ts2 toks ts3 \<and> fresh ts3 \<and> unread ts3 = []"
  using assms
proof (induction arbitrary: ts2 rule: token_run.induct)
  case (run_step ts t ts1 toks ts3)
  then have t: "read_token ts = (Inr t, ts1)" by (simp add: uncons_fresh)
  then have f: "fresh ts1" using read_token_cases by blast
  let ?gap = "if tk_kind t \<noteq> Punctuator \<and> toks \<noteq> [] \<and> tk_kind (hd toks) \<noteq> Punctuator then '' '' else []"
  have split: "minified (tk_kind t \<noteq> Punctuator) toks = ?gap @ minified False toks" by (rule minified_gap)
  have starts: "starts_token (minified False toks)"
  proof (cases toks)
    case (Cons u us)
    with run_step.hyps(2) f obtain ts4 where "read_token ts1 = (Inr u, ts4)" by (auto elim!: token_run_ConsE simp: uncons_fresh)
    from read_token_starts [OF this] show ?thesis by (simp add: Cons)
  qed (simp add: starts_token_def)
  have "unread ts2 = tk_value t @ ?gap @ minified False toks" using run_step.prems(5) split by simp
  moreover have "list_all blank ?gap" by (simp add: blank_def)
  ultimately obtain ts4 where ts4: "read_token ts2 = (Inr t, ts4)" "fresh ts4" "unread ts4 = minified False toks"
    "ts_recursion_limit ts4 = ts_recursion_limit ts1"
    using read_token_local [OF t _ _ starts run_step.prems(4)] minified_apart [OF t run_step.hyps(2) f run_step.prems(2)] split
    by metis
  have "numbers_apart toks" using run_step.prems(2) by (cases toks) simp_all
  from run_step.IH [OF f this ts4(2,4,3)] obtain ts5 where "token_run ts4 toks ts5" "fresh ts5" "unread ts5 = []" by blast
  with ts4(1) run_step.prems(3) show ?case by (auto simp: uncons_fresh intro!: exI [of _ ts5] token_run.run_step)
qed (auto intro: token_run.run_nil)

lemma end_of_text: "fresh ts \<Longrightarrow> unread ts = [] \<Longrightarrow> fst (uncons ts) = Inl EndOfInput"
  by (simp add: uncons_fresh read_token_def take_token_def fail_def unread_def)

lemma minified_read_again:
  assumes "token_run (token_stream_new s) toks ts" "numbers_apart toks"
  shows "\<exists>ts'. token_run (token_stream_new (minified False toks)) toks ts' \<and> fst (uncons ts') = Inl EndOfInput"
proof -
  let ?m = "minified False toks"
  have starts: "starts_token ?m"
  proof (cases toks)
    case (Cons t toks')
    with assms(1) obtain ts1 where "read_token (token_stream_new s) = (Inr t, ts1)"
      by (auto elim!: token_run_ConsE simp: uncons_fresh [OF new_stream(1)])
    from read_token_starts [OF this] show ?thesis by (simp add: Cons)
  qed (simp add: starts_token_def)
  have "unread (token_stream_new ?m) = ?m"
    unfolding token_stream_new_def with_recursion_limit_def
    by (rule skip_whitespace_blanks(1) [of _ "[]"]) (simp_all add: unread_def starts)
  from minified_run [OF assms(1) new_stream(1) assms(2) new_stream(1) _ this] new_stream(2)
  obtain ts' where run: "token_run (token_stream_new ?m) toks ts'" "fresh ts'" "unread ts' = []" by auto
  from run(1) end_of_text [OF run(2,3)] show ?thesis by blast
qed

section \<open>Properties\<close>

text \<open>
  Minifying a text returns, and fails only where the text has an error: then with that error.
\<close>

theorem minify_returns:
  "\<exists>toks ts e. token_run (token_stream_new s) toks ts \<and> fst (uncons ts) = Inl e
    \<and> minify_query s = Some (if e = EndOfInput then Inr (minified False toks) else Inl (Err e))"
proof -
  obtain toks ts e where "token_run (token_stream_new s) toks ts" "fst (uncons ts) = Inl e" by (rule complete_run [OF new_stream(1)])
  with minify_query_run show ?thesis by blast
qed

text \<open>
  A minified query is the same query: it has the tokens of the text that was minified, from its
  first character to its end, and minifying it again changes nothing. (The tokens of a document
  never have a number directly before an ellipsis.)
\<close>

theorem minified_query_is_the_same:
  assumes "token_run (token_stream_new s) toks ts" "fst (uncons ts) = Inl EndOfInput" "numbers_apart toks"
  shows "\<exists>m ts'. minify_query s = Some (Inr m) \<and> token_run (token_stream_new m) toks ts'
    \<and> fst (uncons ts') = Inl EndOfInput \<and> minify_query m = Some (Inr m)"
proof -
  from minified_read_again [OF assms(1,3)] obtain ts' where
    run: "token_run (token_stream_new (minified False toks)) toks ts'" "fst (uncons ts') = Inl EndOfInput" by blast
  from minify_query_run [OF assms(1,2)] minify_query_run [OF run] run show ?thesis by auto
qed

lemma minified_query_is_the_same_witness:
  "\<exists>toks. minify_query (quoted_text ''a'') = Some (Inr (minified False toks)) \<and> toks \<noteq> []
    \<and> minify_query (minified False toks) = Some (Inr (minified False toks))"
proof -
  let ?t = "\<lparr>tk_kind = StringValue, tk_value = quoted_text ''a''\<rparr>"
  obtain ts where u: "uncons (token_stream_new (quoted_text ''a'')) = (Inr ?t, ts)" "fst (uncons ts) = Inl EndOfInput"
    by (rule quoted_token)
  then have run: "token_run (token_stream_new (quoted_text ''a'')) [?t] ts" by (blast intro: run_step run_nil)
  from minified_query_is_the_same [OF run u(2)] minify_query_run [OF run u(2)] show ?thesis
    by (intro exI [of _ "[?t]"]) auto
qed

end
