(* ===== verification/Combinators.thy ===== *)
theory Combinators
  imports Lexing
begin

text \<open>
  The parser combinators that \<^verbatim>\<open>fuel-indexer-graphql/parser/src\<close> writes its grammars with are those of the
  crate \<^verbatim>\<open>combine\<close>, which is not part of the program. They are an argument of the grammars, the
  record \<open>combine\<close>; the locale \<open>combinators\<close> states what the crate documents of them, and the
  lemmas on grammars are proved inside it. A record \<open>ll1\<close> of combinators as documented is defined
  and shown to meet the contract.

  A parser changes the token stream and returns a match, or a failure, and in both cases whether it
  has read from the stream. The messages of errors are left out.
\<close>

section \<open>Parsers\<close>

text \<open>Everything that a parser of the grammars returns.\<close>

datatype node =
    NNone
  | NSome node
  | NTuple "node list"
  | NMany "node list"
  | NToken token
  | NText string
  | NValue gql_value
  | NType gql_type
  | NDirective directive
  | NSelection selection
  | NSet selection_set
  | NVariable variable_definition
  | NBody op_body
  | NDefinition query_definition
  | NInput input_value
  | NField field
  | NEnumValue enum_value
  | NLocation directive_location
  | NTypeDef type_definition
  | NExtension type_extension
  | NItem schema_item

datatype reply = Matched bool node | Failed bool

type_synonym parser = "token_stream \<Rightarrow> reply \<times> token_stream"

record combine =
  c_satisfy :: "(token \<Rightarrow> bool) \<Rightarrow> parser"
  c_eof :: parser
  c_map :: "(node \<Rightarrow> node) \<Rightarrow> parser \<Rightarrow> parser"
  c_and_then :: "(node \<Rightarrow> node option) \<Rightarrow> parser \<Rightarrow> parser"
  c_tuple :: "parser list \<Rightarrow> parser"
  c_with :: "parser \<Rightarrow> parser \<Rightarrow> parser"
  c_skip :: "parser \<Rightarrow> parser \<Rightarrow> parser"
  c_or :: "parser \<Rightarrow> parser \<Rightarrow> parser"
  c_optional :: "parser \<Rightarrow> parser"
  c_many :: "parser \<Rightarrow> parser"
  c_many1 :: "parser \<Rightarrow> parser"
  c_sep_by1 :: "parser \<Rightarrow> parser \<Rightarrow> parser"

text \<open>Going back to where a parser began.\<close>

abbreviation again :: "token_stream \<Rightarrow> token_stream \<Rightarrow> token_stream" where
  "again s s' \<equiv> reset (checkpoint_of s) s'"

fun cons_node :: "node \<Rightarrow> node \<Rightarrow> node" where
  "cons_node v (NTuple vs) = NTuple (v # vs)"
| "cons_node v (NMany vs) = NMany (v # vs)"
| "cons_node v n = n"

section \<open>The contract\<close>

text \<open>
  A failure of a parser that has read nothing lets \<open>or\<close>, \<open>optional\<close> and \<open>many\<close> go on at the same place;
  after a token has been read there is no way back.
\<close>

locale combinators =
  fixes cb :: combine
  assumes satisfy: "c_satisfy cb P s = (case uncons s of
      (Inr t, s') \<Rightarrow> (if P t then Matched True (NToken t) else Failed False, s') | (Inl e, s') \<Rightarrow> (Failed False, s'))"
    and eof: "c_eof cb s = (case uncons s of
      (Inl EndOfInput, s') \<Rightarrow> (Matched False NNone, again s s') | (_, s') \<Rightarrow> (Failed False, s'))"
    and map: "c_map cb f p s = (case p s of (Matched c v, s') \<Rightarrow> (Matched c (f v), s') | r \<Rightarrow> r)"
    and and_then: "c_and_then cb g p s = (case p s of
      (Matched c v, s') \<Rightarrow> (case g v of Some w \<Rightarrow> Matched c w | None \<Rightarrow> Failed c, s') | r \<Rightarrow> r)"
    and tuple_Nil: "c_tuple cb [] s = (Matched False (NTuple []), s)"
    and tuple_Cons: "c_tuple cb (p # ps) s = (case p s of
      (Matched c v, s') \<Rightarrow> (case c_tuple cb ps s' of
          (Matched c' vs, s'') \<Rightarrow> (Matched (c \<or> c') (cons_node v vs), s'')
        | (Failed c', s'') \<Rightarrow> (Failed (c \<or> c'), s'')) | r \<Rightarrow> r)"
    and with_then: "c_with cb p q s = (case p s of
      (Matched c v, s') \<Rightarrow> (case q s' of
          (Matched c' w, s'') \<Rightarrow> (Matched (c \<or> c') w, s'') | (Failed c', s'') \<Rightarrow> (Failed (c \<or> c'), s'')) | r \<Rightarrow> r)"
    and skip_then: "c_skip cb p q s = (case p s of
      (Matched c v, s') \<Rightarrow> (case q s' of
          (Matched c' w, s'') \<Rightarrow> (Matched (c \<or> c') v, s'') | (Failed c', s'') \<Rightarrow> (Failed (c \<or> c'), s'')) | r \<Rightarrow> r)"
    and or_else: "c_or cb p q s = (case p s of (Failed False, s') \<Rightarrow> q (again s s') | r \<Rightarrow> r)"
    and optional: "c_optional cb p s = (case p s of
      (Matched c v, s') \<Rightarrow> (Matched c (NSome v), s') | (Failed False, s') \<Rightarrow> (Matched False NNone, again s s') | r \<Rightarrow> r)"
    and many_stop: "p s = (Failed False, s') \<Longrightarrow> c_many cb p s = (Matched False (NMany []), again s s')"
    and many_fail: "p s = (Failed True, s') \<Longrightarrow> c_many cb p s = (Failed True, s')"
    and many_go: "p s = (Matched True v, s') \<Longrightarrow> c_many cb p s' = (Matched c (NMany vs), s'')
      \<Longrightarrow> c_many cb p s = (Matched True (NMany (v # vs)), s'')"
    and many_go_fail: "p s = (Matched True v, s') \<Longrightarrow> c_many cb p s' = (Failed c, s'')
      \<Longrightarrow> \<exists>s3. c_many cb p s = (Failed True, s3)"
    and many1: "c_many1 cb p s = (case p s of
      (Matched c v, s') \<Rightarrow> (case c_many cb p s' of
          (Matched c' vs, s'') \<Rightarrow> (Matched (c \<or> c') (cons_node v vs), s'') | (Failed c', s'') \<Rightarrow> (Failed (c \<or> c'), s'')) | r \<Rightarrow> r)"
    and sep_by1: "c_sep_by1 cb p sep s = (case p s of
      (Matched c v, s') \<Rightarrow> (case c_many cb (c_with cb sep p) s' of
          (Matched c' vs, s'') \<Rightarrow> (Matched (c \<or> c') (cons_node v vs), s'') | (Failed c', s'') \<Rightarrow> (Failed (c \<or> c'), s'')) | r \<Rightarrow> r)"

section \<open>Combinators as documented\<close>

fun ll_tuple :: "parser list \<Rightarrow> parser" where
  "ll_tuple [] s = (Matched False (NTuple []), s)"
| "ll_tuple (p # ps) s = (case p s of
     (Matched c v, s') \<Rightarrow> (case ll_tuple ps s' of
         (Matched c' vs, s'') \<Rightarrow> (Matched (c \<or> c') (cons_node v vs), s'')
       | (Failed c', s'') \<Rightarrow> (Failed (c \<or> c'), s'')) | r \<Rightarrow> r)"

partial_function (option) ll_many_loop :: "parser \<Rightarrow> token_stream \<Rightarrow> (node list option \<times> token_stream) option" where
  "ll_many_loop p s =
     (case p s of
        (Matched c v, s') \<Rightarrow>
          (if \<not> c then None
           else Option.bind (ll_many_loop p s') (\<lambda>(vs, s''). Some (map_option ((#) v) vs, s'')))
      | (Failed c, s') \<Rightarrow> if c then Some (None, s') else Some (Some [], again s s'))"

definition ll_many :: "parser \<Rightarrow> parser" where
  "ll_many p s = (case ll_many_loop p s of
     Some (Some vs, s') \<Rightarrow> (Matched (vs \<noteq> []) (NMany vs), s') | Some (None, s') \<Rightarrow> (Failed True, s') | None \<Rightarrow> (Failed True, s))"

definition ll_with :: "parser \<Rightarrow> parser \<Rightarrow> parser" where
  "ll_with p q s = (case p s of
     (Matched c v, s') \<Rightarrow> (case q s' of
         (Matched c' w, s'') \<Rightarrow> (Matched (c \<or> c') w, s'') | (Failed c', s'') \<Rightarrow> (Failed (c \<or> c'), s'')) | r \<Rightarrow> r)"

definition ll1 :: combine where
  "ll1 = \<lparr>c_satisfy = (\<lambda>P s. case uncons s of
       (Inr t, s') \<Rightarrow> (if P t then Matched True (NToken t) else Failed False, s') | (Inl e, s') \<Rightarrow> (Failed False, s')),
     c_eof = (\<lambda>s. case uncons s of
       (Inl EndOfInput, s') \<Rightarrow> (Matched False NNone, again s s') | (_, s') \<Rightarrow> (Failed False, s')),
     c_map = (\<lambda>f p s. case p s of (Matched c v, s') \<Rightarrow> (Matched c (f v), s') | r \<Rightarrow> r),
     c_and_then = (\<lambda>g p s. case p s of
       (Matched c v, s') \<Rightarrow> (case g v of Some w \<Rightarrow> Matched c w | None \<Rightarrow> Failed c, s') | r \<Rightarrow> r),
     c_tuple = ll_tuple, c_with = ll_with,
     c_skip = (\<lambda>p q s. case p s of
       (Matched c v, s') \<Rightarrow> (case q s' of
           (Matched c' w, s'') \<Rightarrow> (Matched (c \<or> c') v, s'') | (Failed c', s'') \<Rightarrow> (Failed (c \<or> c'), s'')) | r \<Rightarrow> r),
     c_or = (\<lambda>p q s. case p s of (Failed False, s') \<Rightarrow> q (again s s') | r \<Rightarrow> r),
     c_optional = (\<lambda>p s. case p s of
       (Matched c v, s') \<Rightarrow> (Matched c (NSome v), s') | (Failed False, s') \<Rightarrow> (Matched False NNone, again s s') | r \<Rightarrow> r),
     c_many = ll_many,
     c_many1 = (\<lambda>p s. case p s of
       (Matched c v, s') \<Rightarrow> (case ll_many p s' of
           (Matched c' vs, s'') \<Rightarrow> (Matched (c \<or> c') (cons_node v vs), s'') | (Failed c', s'') \<Rightarrow> (Failed (c \<or> c'), s'')) | r \<Rightarrow> r),
     c_sep_by1 = (\<lambda>p sep s. case p s of
       (Matched c v, s') \<Rightarrow> (case ll_many (ll_with sep p) s' of
           (Matched c' vs, s'') \<Rightarrow> (Matched (c \<or> c') (cons_node v vs), s'') | (Failed c', s'') \<Rightarrow> (Failed (c \<or> c'), s'')) | r \<Rightarrow> r)\<rparr>"

lemma ll1_fields: "c_tuple ll1 = ll_tuple" "c_many ll1 = ll_many" "c_with ll1 = ll_with"
  by (simp_all add: ll1_def)

interpretation ll: combinators ll1
proof
  fix p s s' v c vs s''
  assume "p s = (Matched True v, s')" "c_many ll1 p s' = (Matched c (NMany vs), s'')"
  then show "c_many ll1 p s = (Matched True (NMany (v # vs)), s'')"
    by (auto simp: ll1_fields ll_many_def ll_many_loop.simps [of p s] split: option.splits)
next
  fix p s s' v c s''
  assume "p s = (Matched True v, s')" "c_many ll1 p s' = (Failed c, s'')"
  then show "\<exists>s3. c_many ll1 p s = (Failed True, s3)"
    by (auto simp: ll1_fields ll_many_def ll_many_loop.simps [of p s] split: option.splits)
qed (unfold ll1_fields, simp_all add: ll1_def, simp_all add: ll_with_def ll_many_def ll_many_loop.simps)

section \<open>Parsers on lists of tokens\<close>

text \<open>The stream stands before these tokens and the end of the text, and would after looking at the next one.\<close>

fun ahead :: "token_stream \<Rightarrow> token list \<Rightarrow> bool" where
  "ahead s [] \<longleftrightarrow> uncons s = (Inl EndOfInput, s)"
| "ahead s (t # toks) \<longleftrightarrow> (\<exists>s'. uncons s = (Inr t, s') \<and> uncons (again s s') = (Inr t, s') \<and> ahead s' toks)"

lemma again_simps [simp]:
  "again s s = s" "again (again s s1) s2 = again s s2" "checkpoint_of (again s s') = checkpoint_of s"
  by (simp_all add: reset_def checkpoint_of_def)

lemma ahead_again: "ahead s (t # toks) \<Longrightarrow> uncons s = (r, s') \<Longrightarrow> ahead (again s s') (t # toks)"
  by auto

lemma take_token_end:
  assumes "fst (take_token s) = Inl EndOfInput" shows "unread s = []"
proof (rule ccontr)
  assume "unread s \<noteq> []"
  then obtain c cs where c: "drop (ts_off s) (ts_buf s) = c # cs" by (cases "unread s") (auto simp: unread_def)
  have "fst (take_number x s) \<noteq> Inl EndOfInput" for x
    by (simp add: take_number_def Let_def advance_token_def fail_def split: prod.split)
  moreover have "fst (take_string x s) \<noteq> Inl EndOfInput" for x
    by (simp add: take_string_def advance_token_def fail_def split: option.split)
  ultimately have "fst (take_token s) \<noteq> Inl EndOfInput" using c
    by (simp add: take_token_def Let_def advance_token_def fail_def del: list.set)
  with assms show False by simp
qed

lemma read_token_again: "read_token s = (Inr t, s') \<Longrightarrow> uncons (again s s') = (Inr t, s')"
  by (auto simp: read_token_def uncons_def reset_def checkpoint_of_def Let_def split: prod.splits sum.splits)

lemma ahead_run: "token_run s toks s1 \<Longrightarrow> fresh s \<Longrightarrow> fst (uncons s1) = Inl EndOfInput \<Longrightarrow> ahead s toks"
proof (induction rule: token_run.induct)
  case (run_nil s)
  then have "fst (take_token s) = Inl EndOfInput"
    by (auto simp: uncons_fresh read_token_def Let_def split: prod.splits sum.splits)
  from take_token_end [OF this] have "take_token s = (Inl EndOfInput, s)"
    by (simp add: take_token_def fail_def unread_def)
  with run_nil show ?case by (auto simp: uncons_fresh read_token_def)
next
  case (run_step s t s' toks s1)
  then have r: "read_token s = (Inr t, s')" by (simp add: uncons_fresh)
  then have "fresh s'" using read_token_cases by blast
  with run_step read_token_again [OF r] show ?case by auto
qed

text \<open>
  \<open>gives p toks c v rest\<close>: the parser matches \<open>v\<close> and leaves \<open>rest\<close>; without reading it stays where it was.
  \<open>refuses\<close>: it fails having read nothing; \<open>breaks\<close>: it fails for good.
\<close>

definition gives :: "parser \<Rightarrow> token list \<Rightarrow> bool \<Rightarrow> node \<Rightarrow> token list \<Rightarrow> bool" where
  "gives p toks c v rest \<longleftrightarrow> (\<forall>s. ahead s toks \<longrightarrow>
     (\<exists>s'. p s = (Matched c v, s') \<and> ahead s' rest \<and> (c \<or> checkpoint_of s' = checkpoint_of s)))"

definition refuses :: "parser \<Rightarrow> token list \<Rightarrow> bool" where
  "refuses p toks \<longleftrightarrow> (\<forall>s. ahead s toks \<longrightarrow> (\<exists>s'. p s = (Failed False, s') \<and> ahead (again s s') toks))"

definition breaks :: "parser \<Rightarrow> token list \<Rightarrow> bool" where
  "breaks p toks \<longleftrightarrow> (\<forall>s. ahead s toks \<longrightarrow> (\<exists>s'. p s = (Failed True, s')))"

lemma givesE:
  assumes "gives p toks c v rest" "ahead s toks"
  obtains s' where "p s = (Matched c v, s')" "ahead s' rest" "c \<or> checkpoint_of s' = checkpoint_of s"
  using assms by (auto simp: gives_def)

lemma refusesE:
  assumes "refuses p toks" "ahead s toks"
  obtains s' where "p s = (Failed False, s')" "ahead (again s s') toks"
  using assms by (auto simp: refuses_def)

lemma breaksE:
  assumes "breaks p toks" "ahead s toks" obtains s' where "p s = (Failed True, s')"
  using assms by (auto simp: breaks_def)

context combinators
begin

lemma gives_satisfy: "P t \<Longrightarrow> gives (c_satisfy cb P) (t # rest) True (NToken t) rest"
  by (auto simp: gives_def satisfy)

lemma refuses_satisfy: "toks = [] \<or> \<not> P (hd toks) \<Longrightarrow> refuses (c_satisfy cb P) toks"
  by (cases toks) (auto simp: refuses_def satisfy)

lemma gives_eof: "gives (c_eof cb) [] False NNone []"
  by (auto simp: gives_def eof)

lemma gives_map: "gives p toks c v rest \<Longrightarrow> f v = w \<Longrightarrow> gives (c_map cb f p) toks c w rest"
  by (fastforce simp: gives_def map)

lemma refuses_map: "refuses p toks \<Longrightarrow> refuses (c_map cb f p) toks"
  by (fastforce simp: refuses_def map)

lemma breaks_map: "breaks p toks \<Longrightarrow> breaks (c_map cb f p) toks"
  by (fastforce simp: breaks_def map)

lemma gives_and_then: "gives p toks c v rest \<Longrightarrow> g v = Some w \<Longrightarrow> gives (c_and_then cb g p) toks c w rest"
  by (fastforce simp: gives_def and_then)

lemma breaks_and_then: "gives p toks True v rest \<Longrightarrow> g v = None \<Longrightarrow> breaks (c_and_then cb g p) toks"
  by (fastforce simp: gives_def breaks_def and_then)

lemma refuses_and_then: "refuses p toks \<Longrightarrow> refuses (c_and_then cb g p) toks"
  by (fastforce simp: refuses_def and_then)

lemma gives_Nil: "gives (c_tuple cb []) toks False (NTuple []) toks"
  by (auto simp: gives_def tuple_Nil)

lemma gives_Cons:
  assumes "gives p toks c v mid" "gives (c_tuple cb ps) mid c' (NTuple vs) rest"
  shows "gives (c_tuple cb (p # ps)) toks (c \<or> c') (NTuple (v # vs)) rest"
  unfolding gives_def
proof (intro allI impI)
  fix s assume "ahead s toks"
  with assms(1) obtain s1 where s1: "p s = (Matched c v, s1)" "ahead s1 mid" "c \<or> checkpoint_of s1 = checkpoint_of s" by (rule givesE)
  from assms(2) s1(2) obtain s2 where "c_tuple cb ps s1 = (Matched c' (NTuple vs), s2)" "ahead s2 rest"
    "c' \<or> checkpoint_of s2 = checkpoint_of s1" by (rule givesE)
  with s1 show "\<exists>s'. c_tuple cb (p # ps) s = (Matched (c \<or> c') (NTuple (v # vs)), s') \<and> ahead s' rest
      \<and> ((c \<or> c') \<or> checkpoint_of s' = checkpoint_of s)" by (auto simp: tuple_Cons)
qed

lemma refuses_Cons: "refuses p toks \<Longrightarrow> refuses (c_tuple cb (p # ps)) toks"
  by (fastforce simp: refuses_def tuple_Cons)

lemma refuses_Cons_later:
  assumes "gives p toks False v toks" "refuses (c_tuple cb ps) toks"
  shows "refuses (c_tuple cb (p # ps)) toks"
  unfolding refuses_def
proof (intro allI impI)
  fix s assume "ahead s toks"
  with assms(1) obtain s1 where s1: "p s = (Matched False v, s1)" "ahead s1 toks" "checkpoint_of s1 = checkpoint_of s" by (auto elim: givesE)
  from assms(2) s1(2) obtain s2 where "c_tuple cb ps s1 = (Failed False, s2)" "ahead (again s1 s2) toks" by (rule refusesE)
  with s1 show "\<exists>s'. c_tuple cb (p # ps) s = (Failed False, s') \<and> ahead (again s s') toks" by (auto simp: tuple_Cons)
qed

lemma breaks_Cons: "breaks p toks \<Longrightarrow> breaks (c_tuple cb (p # ps)) toks"
  by (fastforce simp: breaks_def tuple_Cons)

lemma breaks_Cons_later:
  assumes "gives p toks c v mid" "breaks (c_tuple cb ps) mid \<or> c \<and> refuses (c_tuple cb ps) mid"
  shows "breaks (c_tuple cb (p # ps)) toks"
  unfolding breaks_def
proof (intro allI impI)
  fix s assume "ahead s toks"
  with assms(1) obtain s1 where s1: "p s = (Matched c v, s1)" "ahead s1 mid" by (rule givesE)
  with assms(2) show "\<exists>s'. c_tuple cb (p # ps) s = (Failed True, s')" by (auto simp: tuple_Cons elim: breaksE refusesE)
qed

lemma gives_with:
  assumes "gives p toks c v mid" "gives q mid c' w rest"
  shows "gives (c_with cb p q) toks (c \<or> c') w rest"
  unfolding gives_def
proof (intro allI impI)
  fix s assume "ahead s toks"
  with assms(1) obtain s1 where s1: "p s = (Matched c v, s1)" "ahead s1 mid" "c \<or> checkpoint_of s1 = checkpoint_of s" by (rule givesE)
  from assms(2) s1(2) obtain s2 where "q s1 = (Matched c' w, s2)" "ahead s2 rest" "c' \<or> checkpoint_of s2 = checkpoint_of s1" by (rule givesE)
  with s1 show "\<exists>s'. c_with cb p q s = (Matched (c \<or> c') w, s') \<and> ahead s' rest \<and> ((c \<or> c') \<or> checkpoint_of s' = checkpoint_of s)"
    by (auto simp: with_then)
qed

lemma refuses_with: "refuses p toks \<Longrightarrow> refuses (c_with cb p q) toks"
  by (fastforce simp: refuses_def with_then)

lemma breaks_with:
  assumes "gives p toks c v mid" "breaks q mid \<or> c \<and> refuses q mid"
  shows "breaks (c_with cb p q) toks"
  unfolding breaks_def
proof (intro allI impI)
  fix s assume "ahead s toks"
  with assms(1) obtain s1 where s1: "p s = (Matched c v, s1)" "ahead s1 mid" by (rule givesE)
  with assms(2) show "\<exists>s'. c_with cb p q s = (Failed True, s')" by (auto simp: with_then elim: breaksE refusesE)
qed

lemma gives_skip:
  assumes "gives p toks c v mid" "gives q mid c' w rest"
  shows "gives (c_skip cb p q) toks (c \<or> c') v rest"
  unfolding gives_def
proof (intro allI impI)
  fix s assume "ahead s toks"
  with assms(1) obtain s1 where s1: "p s = (Matched c v, s1)" "ahead s1 mid" "c \<or> checkpoint_of s1 = checkpoint_of s" by (rule givesE)
  from assms(2) s1(2) obtain s2 where "q s1 = (Matched c' w, s2)" "ahead s2 rest" "c' \<or> checkpoint_of s2 = checkpoint_of s1" by (rule givesE)
  with s1 show "\<exists>s'. c_skip cb p q s = (Matched (c \<or> c') v, s') \<and> ahead s' rest \<and> ((c \<or> c') \<or> checkpoint_of s' = checkpoint_of s)"
    by (auto simp: skip_then)
qed

lemma refuses_skip: "refuses p toks \<Longrightarrow> refuses (c_skip cb p q) toks"
  by (fastforce simp: refuses_def skip_then)

lemma breaks_skip:
  assumes "breaks p toks \<or> (\<exists>c v mid. gives p toks c v mid \<and> (breaks q mid \<or> c \<and> refuses q mid))"
  shows "breaks (c_skip cb p q) toks"
  using assms
proof
  assume "breaks p toks"
  then show ?thesis by (fastforce simp: breaks_def skip_then)
next
  assume "\<exists>c v mid. gives p toks c v mid \<and> (breaks q mid \<or> c \<and> refuses q mid)"
  then obtain c v mid where a: "gives p toks c v mid" "breaks q mid \<or> c \<and> refuses q mid" by blast
  show ?thesis
    unfolding breaks_def
  proof (intro allI impI)
    fix s assume "ahead s toks"
    with a(1) obtain s1 where s1: "p s = (Matched c v, s1)" "ahead s1 mid" by (rule givesE)
    with a(2) show "\<exists>s'. c_skip cb p q s = (Failed True, s')" by (auto simp: skip_then elim: breaksE refusesE)
  qed
qed

lemma gives_or1: "gives p toks c v rest \<Longrightarrow> gives (c_or cb p q) toks c v rest"
  by (fastforce simp: gives_def or_else)

lemma gives_or2:
  assumes "refuses p toks" "gives q toks c v rest"
  shows "gives (c_or cb p q) toks c v rest"
  unfolding gives_def
proof (intro allI impI)
  fix s assume "ahead s toks"
  with assms(1) obtain s1 where s1: "p s = (Failed False, s1)" "ahead (again s s1) toks" by (rule refusesE)
  from assms(2) s1(2) obtain s2 where "q (again s s1) = (Matched c v, s2)" "ahead s2 rest" "c \<or> checkpoint_of s2 = checkpoint_of (again s s1)"
    by (rule givesE)
  with s1 show "\<exists>s'. c_or cb p q s = (Matched c v, s') \<and> ahead s' rest \<and> (c \<or> checkpoint_of s' = checkpoint_of s)"
    by (auto simp: or_else)
qed

lemma refuses_or:
  assumes "refuses p toks" "refuses q toks"
  shows "refuses (c_or cb p q) toks"
  unfolding refuses_def
proof (intro allI impI)
  fix s assume "ahead s toks"
  with assms(1) obtain s1 where s1: "p s = (Failed False, s1)" "ahead (again s s1) toks" by (rule refusesE)
  from assms(2) s1(2) obtain s2 where "q (again s s1) = (Failed False, s2)" "ahead (again (again s s1) s2) toks" by (rule refusesE)
  with s1 show "\<exists>s'. c_or cb p q s = (Failed False, s') \<and> ahead (again s s') toks" by (auto simp: or_else)
qed

lemma breaks_or1: "breaks p toks \<Longrightarrow> breaks (c_or cb p q) toks"
  by (fastforce simp: breaks_def or_else)

lemma breaks_or2:
  assumes "refuses p toks" "breaks q toks"
  shows "breaks (c_or cb p q) toks"
  unfolding breaks_def
proof (intro allI impI)
  fix s assume "ahead s toks"
  with assms(1) obtain s1 where s1: "p s = (Failed False, s1)" "ahead (again s s1) toks" by (rule refusesE)
  with assms(2) show "\<exists>s'. c_or cb p q s = (Failed True, s')" by (auto simp: or_else elim: breaksE)
qed

lemma gives_optional_some: "gives p toks c v rest \<Longrightarrow> gives (c_optional cb p) toks c (NSome v) rest"
  by (fastforce simp: gives_def optional)

lemma gives_optional_none: "refuses p toks \<Longrightarrow> gives (c_optional cb p) toks False NNone toks"
  by (fastforce simp: gives_def refuses_def optional)

lemma breaks_optional: "breaks p toks \<Longrightarrow> breaks (c_optional cb p) toks"
  by (fastforce simp: breaks_def optional)

lemma gives_many_stop: "refuses p toks \<Longrightarrow> gives (c_many cb p) toks False (NMany []) toks"
  by (fastforce simp: gives_def refuses_def many_stop)

lemma gives_many_go:
  assumes "gives p toks True v mid" "gives (c_many cb p) mid c (NMany vs) rest"
  shows "gives (c_many cb p) toks True (NMany (v # vs)) rest"
  unfolding gives_def
proof (intro allI impI)
  fix s assume "ahead s toks"
  with assms(1) obtain s1 where s1: "p s = (Matched True v, s1)" "ahead s1 mid" by (rule givesE)
  from assms(2) s1(2) obtain s2 where "c_many cb p s1 = (Matched c (NMany vs), s2)" "ahead s2 rest" by (rule givesE)
  with many_go [of p s v s1, OF s1(1)] show "\<exists>s'. c_many cb p s = (Matched True (NMany (v # vs)), s') \<and> ahead s' rest
      \<and> (True \<or> checkpoint_of s' = checkpoint_of s)" by auto
qed

text \<open>A list of items, where \<open>Q\<close> is what may follow an item.\<close>

lemma gives_many:
  assumes "\<And>x r. x \<in> set xs \<Longrightarrow> Q r \<Longrightarrow> gives p (f x @ r) True (g x) r" "\<And>x r. x \<in> set xs \<Longrightarrow> Q r \<Longrightarrow> Q (f x @ r)"
    and "Q rest" "refuses p rest"
  shows "gives (c_many cb p) (concat (List.map f xs) @ rest) (xs \<noteq> []) (NMany (List.map g xs)) rest"
  using assms(1,2)
proof (induction xs)
  case Nil
  then show ?case using gives_many_stop [OF assms(4)] by simp
next
  case (Cons x xs)
  have q: "Q (concat (List.map f xs) @ rest)"
    using Cons.prems(2) assms(3) by (induction xs) auto
  have "gives p (f x @ (concat (List.map f xs) @ rest)) True (g x) (concat (List.map f xs) @ rest)"
    using Cons.prems(1) [of x, OF _ q] by simp
  from gives_many_go [OF this Cons.IH] Cons.prems show ?case by simp
qed

lemma gives_many1_step:
  assumes "gives p toks c v mid" "gives (c_many cb p) mid c' (NMany vs) rest"
  shows "gives (c_many1 cb p) toks (c \<or> c') (NMany (v # vs)) rest"
  unfolding gives_def
proof (intro allI impI)
  fix s assume "ahead s toks"
  with assms(1) obtain s1 where s1: "p s = (Matched c v, s1)" "ahead s1 mid" "c \<or> checkpoint_of s1 = checkpoint_of s" by (rule givesE)
  from assms(2) s1(2) obtain s2 where "c_many cb p s1 = (Matched c' (NMany vs), s2)" "ahead s2 rest"
    "c' \<or> checkpoint_of s2 = checkpoint_of s1" by (rule givesE)
  with s1 show "\<exists>s'. c_many1 cb p s = (Matched (c \<or> c') (NMany (v # vs)), s') \<and> ahead s' rest
      \<and> ((c \<or> c') \<or> checkpoint_of s' = checkpoint_of s)" by (auto simp: many1)
qed

lemma gives_many1:
  assumes "\<And>x r. x \<in> set xs \<Longrightarrow> Q r \<Longrightarrow> gives p (f x @ r) True (g x) r" "\<And>x r. x \<in> set xs \<Longrightarrow> Q r \<Longrightarrow> Q (f x @ r)"
    and "Q rest" "refuses p rest" "xs \<noteq> []"
  shows "gives (c_many1 cb p) (concat (List.map f xs) @ rest) True (NMany (List.map g xs)) rest"
proof -
  from assms(5) obtain x ys where xs: "xs = x # ys" by (cases xs) auto
  have q: "Q (concat (List.map f ys) @ rest)"
    using assms(2) assms(3) unfolding xs by (induction ys) auto
  have "gives p (f x @ (concat (List.map f ys) @ rest)) True (g x) (concat (List.map f ys) @ rest)"
    using assms(1) [of x, OF _ q] xs by simp
  moreover have "gives (c_many cb p) (concat (List.map f ys) @ rest) (ys \<noteq> []) (NMany (List.map g ys)) rest"
    using assms xs by (intro gives_many [where Q = Q]) auto
  ultimately show ?thesis using gives_many1_step xs by fastforce
qed

lemma refuses_many1: "refuses p toks \<Longrightarrow> refuses (c_many1 cb p) toks"
  by (fastforce simp: refuses_def many1)

lemma breaks_many1: "breaks p toks \<Longrightarrow> breaks (c_many1 cb p) toks"
  by (fastforce simp: breaks_def many1)

end

end
