(* ===== verification/Grammar.thy ===== *)
theory Grammar
  imports Combinators "HOL-Library.Char_ord" "HOL-Library.List_Lexorder"
begin

text \<open>
  The grammar of query documents: the helpers of \<^verbatim>\<open>parser/src/helpers.rs\<close>, the parsers of
  \<^verbatim>\<open>parser/src/common.rs\<close> and those of \<^verbatim>\<open>parser/src/query/grammar.rs\<close>, over the combinators \<open>cb\<close>. Positions are
  left out, as in the syntax trees, so \<^verbatim>\<open>position()\<close>, which reads nothing, has no counterpart.

  A parser that calls itself has a bound on the depth of the calls: each level takes a bracket from the
  text, so its length is enough. \<open>f64\<close> stands for the reading of a float: it gives the text that the
  float prints as, if any. Strings are lists of bytes, with other characters in UTF-8.
\<close>

section \<open>What the parsers return\<close>

text \<open>The types of the code make the other cases impossible.\<close>

fun text_of :: "node \<Rightarrow> string" where
  "text_of (NText t) = t" | "text_of (NToken t) = tk_value t" | "text_of _ = []"

fun option_of_node :: "node \<Rightarrow> node option" where
  "option_of_node (NSome n) = Some n" | "option_of_node _ = None"

fun items_of :: "node \<Rightarrow> node list" where
  "items_of (NMany ns) = ns" | "items_of (NTuple ns) = ns" | "items_of _ = []"

fun value_of :: "node \<Rightarrow> gql_value" where
  "value_of (NValue v) = v" | "value_of _ = Null"

fun type_of :: "node \<Rightarrow> gql_type" where
  "type_of (NType t) = t" | "type_of _ = NamedType []"

fun pair_of :: "node \<Rightarrow> string \<times> gql_value" where
  "pair_of (NTuple [k, v]) = (text_of k, value_of v)" | "pair_of _ = ([], Null)"

fun directive_of :: "node \<Rightarrow> directive" where
  "directive_of (NDirective d) = d" | "directive_of _ = \<lparr>dir_name = [], dir_arguments = []\<rparr>"

fun selection_of :: "node \<Rightarrow> selection" where
  "selection_of (NSelection s) = s" | "selection_of _ = FragmentSpread [] []"

fun set_of :: "node \<Rightarrow> selection_set" where
  "set_of (NSet s) = s" | "set_of _ = []"

fun variable_of :: "node \<Rightarrow> variable_definition" where
  "variable_of (NVariable v) = v" | "variable_of _ = \<lparr>var_name = [], var_type = NamedType [], var_default = None\<rparr>"

definition pairs_of :: "node \<Rightarrow> (string \<times> gql_value) list" where
  "pairs_of n = map pair_of (items_of n)"

definition directives_of :: "node \<Rightarrow> directive list" where
  "directives_of n = map directive_of (items_of n)"

text \<open>\<^verbatim>\<open>unwrap_or_default()\<close> on an optional list.\<close>

definition unwrap_list :: "node \<Rightarrow> node" where
  "unwrap_list n = (case option_of_node n of None \<Rightarrow> NMany [] | Some m \<Rightarrow> m)"

text \<open>\<^verbatim>\<open>collect()\<close> into a \<^verbatim>\<open>BTreeMap\<close>: the last value of a key stays.\<close>

fun map_insert :: "string \<Rightarrow> 'v \<Rightarrow> (string \<times> 'v) list \<Rightarrow> (string \<times> 'v) list" where
  "map_insert k v [] = [(k, v)]"
| "map_insert k v ((l, w) # kvs) =
     (if k = l then (k, v) # kvs else if k < l then (k, v) # (l, w) # kvs else (l, w) # map_insert k v kvs)"

definition collect_map :: "(string \<times> 'v) list \<Rightarrow> (string \<times> 'v) list" where
  "collect_map kvs = foldl (\<lambda>m (k, v). map_insert k v m) [] kvs"

definition utf8 :: "nat \<Rightarrow> string" where
  "utf8 n =
     (if n < 128 then [char_of n]
      else if n < 2048 then [char_of (192 + n div 64), char_of (128 + n mod 64)]
      else if n < 65536 then [char_of (224 + n div 4096), char_of (128 + n div 64 mod 64), char_of (128 + n mod 64)]
      else [char_of (240 + n div 262144), char_of (128 + n div 4096 mod 64), char_of (128 + n div 64 mod 64), char_of (128 + n mod 64)])"

section \<open>Tokens (helpers.rs)\<close>

definition kind :: "combine \<Rightarrow> token_kind \<Rightarrow> parser" where
  "kind cb k = c_satisfy cb (\<lambda>t. tk_kind t = k)"

definition punct :: "combine \<Rightarrow> string \<Rightarrow> parser" where
  "punct cb v = c_satisfy cb (\<lambda>t. tk_kind t = Punctuator \<and> tk_value t = v)"

definition ident :: "combine \<Rightarrow> string \<Rightarrow> parser" where
  "ident cb v = c_satisfy cb (\<lambda>t. tk_kind t = Name \<and> tk_value t = v)"

definition name :: "combine \<Rightarrow> parser" where
  "name cb = c_map cb (\<lambda>n. NText (text_of n)) (c_satisfy cb (\<lambda>t. tk_kind t = Name))"

section \<open>Values (common.rs)\<close>

text \<open>\<^verbatim>\<open>str::parse\<close> into an unsigned integer of so many bits: digits only, and no overflow.\<close>

definition parse_unsigned :: "nat \<Rightarrow> string \<Rightarrow> nat option" where
  "parse_unsigned bits s =
     (let ds = (if begins ''+'' s then drop 1 s else s)
      in if ds \<noteq> [] \<and> list_all is_digit ds \<and> read_nat ds < 2 ^ bits then Some (read_nat ds) else None)"

definition int_node :: "node \<Rightarrow> node option" where
  "int_node n = map_option (\<lambda>v. NValue (IntVal (of_nat v))) (parse_unsigned 64 (text_of n))"

definition bigint_node :: "node \<Rightarrow> node option" where
  "bigint_node n = map_option (\<lambda>v. NValue (BigInt (of_nat v))) (parse_unsigned 128 (text_of n))"

definition string_node :: "node \<Rightarrow> node option" where
  "string_node n = (case unquote_string (text_of n) of Inr codes \<Rightarrow> Some (NText (concat (map utf8 codes))) | Inl _ \<Rightarrow> None)"

definition block_string_node :: "node \<Rightarrow> node option" where
  "block_string_node n = Some (NText (unquote_block_string (text_of n)))"

definition int_value :: "combine \<Rightarrow> parser" where
  "int_value cb = c_and_then cb int_node (kind cb IntValue)"

definition bigint_value :: "combine \<Rightarrow> parser" where
  "bigint_value cb = c_and_then cb bigint_node (kind cb BigIntValue)"

definition float_value :: "combine \<Rightarrow> (string \<Rightarrow> string option) \<Rightarrow> parser" where
  "float_value cb f64 = c_and_then cb (\<lambda>n. map_option (\<lambda>x. NValue (Float x)) (f64 (text_of n))) (kind cb FloatValue)"

definition string_p :: "combine \<Rightarrow> parser" where
  "string_p cb = c_or cb (c_and_then cb string_node (kind cb StringValue))
     (c_and_then cb block_string_node (kind cb BlockString))"

definition string_value :: "combine \<Rightarrow> parser" where
  "string_value cb = c_map cb (\<lambda>n. NValue (String (text_of n))) (c_and_then cb string_node (kind cb StringValue))"

definition block_string_value :: "combine \<Rightarrow> parser" where
  "block_string_value cb = c_map cb (\<lambda>n. NValue (String (text_of n))) (c_and_then cb block_string_node (kind cb BlockString))"

text \<open>Alternatives in the order of the code's chain of \<^verbatim>\<open>or\<close>.\<close>

fun alternatives :: "combine \<Rightarrow> parser \<Rightarrow> parser list \<Rightarrow> parser" where
  "alternatives cb p [] = p"
| "alternatives cb p (q # qs) = alternatives cb (c_or cb p q) qs"

definition plain_value :: "combine \<Rightarrow> (string \<Rightarrow> string option) \<Rightarrow> parser" where
  "plain_value cb f64 = alternatives cb (c_map cb (\<lambda>_. NValue (Boolean True)) (ident cb ''true''))
     [c_map cb (\<lambda>_. NValue (Boolean False)) (ident cb ''false''), c_map cb (\<lambda>_. NValue Null) (ident cb ''null''),
      c_map cb (\<lambda>n. NValue (Enum (text_of n))) (name cb), int_value cb, float_value cb f64, bigint_value cb, string_value cb,
      block_string_value cb]"

definition list_node :: "node \<Rightarrow> node" where
  "list_node n = NValue (List (map value_of (items_of n)))"

definition object_node :: "node \<Rightarrow> node" where
  "object_node n = NValue (Object (collect_map (pairs_of n)))"

text \<open>A name, a colon and a value.\<close>

definition named :: "combine \<Rightarrow> parser \<Rightarrow> parser" where
  "named cb p = c_tuple cb [c_skip cb (name cb) (punct cb '':''), p]"

fun value_p :: "combine \<Rightarrow> (string \<Rightarrow> string option) \<Rightarrow> nat \<Rightarrow> parser" where
  "value_p cb f64 0 = (\<lambda>s. (Failed True, s))"
| "value_p cb f64 (Suc d) = alternatives cb (plain_value cb f64)
     [c_map cb (\<lambda>n. NValue (Variable (text_of n))) (c_with cb (punct cb ''$'') (name cb)),
      c_map cb list_node (c_skip cb (c_with cb (punct cb ''['') (c_many cb (value_p cb f64 d))) (punct cb '']'')),
      c_map cb object_node (c_skip cb (c_with cb (punct cb ''{'') (c_many cb (named cb (value_p cb f64 d)))) (punct cb ''}''))]"

fun default_value :: "combine \<Rightarrow> (string \<Rightarrow> string option) \<Rightarrow> nat \<Rightarrow> parser" where
  "default_value cb f64 0 = (\<lambda>s. (Failed True, s))"
| "default_value cb f64 (Suc d) = alternatives cb (plain_value cb f64)
     [c_map cb list_node (c_skip cb (c_with cb (punct cb ''['') (c_many cb (default_value cb f64 d))) (punct cb '']'')),
      c_map cb object_node (c_skip cb (c_with cb (punct cb ''{'') (c_many cb (named cb (default_value cb f64 d)))) (punct cb ''}''))]"

fun type_node :: "node \<Rightarrow> node" where
  "type_node (NTuple [t, strict]) = (if option_of_node strict \<noteq> None then NType (NonNullType (type_of t)) else t)"
| "type_node n = n"

fun parse_type :: "combine \<Rightarrow> nat \<Rightarrow> parser" where
  "parse_type cb 0 = (\<lambda>s. (Failed True, s))"
| "parse_type cb (Suc d) = c_map cb type_node (c_tuple cb
     [c_or cb (c_map cb (\<lambda>n. NType (NamedType (text_of n))) (name cb))
        (c_map cb (\<lambda>n. NType (ListType (type_of n))) (c_skip cb (c_with cb (punct cb ''['') (parse_type cb d)) (punct cb '']''))),
      c_optional cb (punct cb ''!'')])"

definition arguments :: "combine \<Rightarrow> (string \<Rightarrow> string option) \<Rightarrow> nat \<Rightarrow> parser" where
  "arguments cb f64 d = c_map cb unwrap_list (c_optional cb
     (c_skip cb (c_with cb (punct cb ''('') (c_many1 cb (named cb (value_p cb f64 d)))) (punct cb '')'')))"

fun directive_node :: "node \<Rightarrow> node" where
  "directive_node (NTuple [at, n, args]) = NDirective \<lparr>dir_name = text_of n, dir_arguments = pairs_of args\<rparr>"
| "directive_node n = n"

definition directives :: "combine \<Rightarrow> (string \<Rightarrow> string option) \<Rightarrow> nat \<Rightarrow> parser" where
  "directives cb f64 d = c_many cb (c_map cb directive_node (c_tuple cb [punct cb ''@'', name cb, arguments cb f64 d]))"

section \<open>Selections (query/grammar.rs)\<close>

fun field_node :: "node \<Rightarrow> node" where
  "field_node (NTuple [name_or_alias, opt_name, args, ds, sel]) =
     (case option_of_node opt_name of
        Some n \<Rightarrow> NSelection (Field (Some (text_of name_or_alias)) (text_of n) (pairs_of args) (directives_of ds)
          (case option_of_node sel of None \<Rightarrow> [] | Some s \<Rightarrow> set_of s))
      | None \<Rightarrow> NSelection (Field None (text_of name_or_alias) (pairs_of args) (directives_of ds)
          (case option_of_node sel of None \<Rightarrow> [] | Some s \<Rightarrow> set_of s)))"
| "field_node n = n"

fun inline_node :: "node \<Rightarrow> node" where
  "inline_node (NTuple [cond, ds, sel]) =
     NSelection (InlineFragment (map_option text_of (option_of_node cond)) (directives_of ds) (set_of sel))"
| "inline_node n = n"

fun spread_node :: "node \<Rightarrow> node" where
  "spread_node (NTuple [n, ds]) = NSelection (FragmentSpread (text_of n) (directives_of ds))"
| "spread_node n = n"

fun set_node :: "node \<Rightarrow> node" where
  "set_node (NTuple [open, items, close]) = NSet (map selection_of (items_of items))"
| "set_node n = n"

definition field_p :: "combine \<Rightarrow> (string \<Rightarrow> string option) \<Rightarrow> nat \<Rightarrow> parser \<Rightarrow> parser" where
  "field_p cb f64 d selection_set = c_map cb field_node (c_tuple cb
     [name cb, c_optional cb (c_with cb (punct cb '':'') (name cb)), arguments cb f64 d, directives cb f64 d,
      c_optional cb selection_set])"

definition selection_p :: "combine \<Rightarrow> (string \<Rightarrow> string option) \<Rightarrow> nat \<Rightarrow> parser \<Rightarrow> parser" where
  "selection_p cb f64 d selection_set = c_or cb (field_p cb f64 d selection_set)
     (c_with cb (punct cb ''...'')
       (c_or cb
         (c_map cb inline_node (c_tuple cb
            [c_optional cb (c_with cb (ident cb ''on'') (name cb)), directives cb f64 d, selection_set]))
         (c_map cb spread_node (c_tuple cb [name cb, directives cb f64 d]))))"

fun selection_set :: "combine \<Rightarrow> (string \<Rightarrow> string option) \<Rightarrow> nat \<Rightarrow> parser" where
  "selection_set cb f64 0 = (\<lambda>s. (Failed True, s))"
| "selection_set cb f64 (Suc d) = c_map cb set_node (c_tuple cb
     [punct cb ''{'', c_many1 cb (selection_p cb f64 d (selection_set cb f64 d)), punct cb ''}''])"

section \<open>Operations, fragments and documents\<close>

fun variable_node :: "node \<Rightarrow> node" where
  "variable_node (NTuple [n, t, v]) =
     NVariable \<lparr>var_name = text_of n, var_type = type_of t, var_default = map_option value_of (option_of_node v)\<rparr>"
| "variable_node n = n"

definition variable_p :: "combine \<Rightarrow> (string \<Rightarrow> string option) \<Rightarrow> nat \<Rightarrow> parser" where
  "variable_p cb f64 d = c_map cb variable_node (c_tuple cb
     [c_skip cb (c_with cb (punct cb ''$'') (name cb)) (punct cb '':''), parse_type cb d,
      c_optional cb (c_with cb (punct cb ''='') (default_value cb f64 d))])"

fun body_node :: "node \<Rightarrow> node" where
  "body_node (NTuple [n, vars, ds, sel]) =
     NBody \<lparr>op_name = map_option text_of (option_of_node n), op_variables = map variable_of (items_of vars),
       op_directives = directives_of ds, op_selection_set = set_of sel\<rparr>"
| "body_node n = n"

definition operation_common :: "combine \<Rightarrow> (string \<Rightarrow> string option) \<Rightarrow> nat \<Rightarrow> parser" where
  "operation_common cb f64 d = c_map cb body_node (c_tuple cb
     [c_optional cb (name cb),
      c_map cb unwrap_list (c_optional cb
        (c_skip cb (c_with cb (punct cb ''('') (c_many1 cb (variable_p cb f64 d))) (punct cb '')''))),
      directives cb f64 d, selection_set cb f64 d])"

fun operation_node :: "(op_body \<Rightarrow> operation_definition) \<Rightarrow> node \<Rightarrow> node" where
  "operation_node f (NTuple [keyword, NBody b]) = NDefinition (Operation (f b))"
| "operation_node f n = n"

definition operation_p :: "combine \<Rightarrow> (string \<Rightarrow> string option) \<Rightarrow> nat \<Rightarrow> string \<Rightarrow> (op_body \<Rightarrow> operation_definition) \<Rightarrow> parser" where
  "operation_p cb f64 d keyword f = c_map cb (operation_node f) (c_tuple cb [ident cb keyword, operation_common cb f64 d])"

definition query_p :: "combine \<Rightarrow> (string \<Rightarrow> string option) \<Rightarrow> nat \<Rightarrow> parser" where
  "query_p cb f64 d = operation_p cb f64 d ''query'' Query"

definition mutation_p :: "combine \<Rightarrow> (string \<Rightarrow> string option) \<Rightarrow> nat \<Rightarrow> parser" where
  "mutation_p cb f64 d = operation_p cb f64 d ''mutation'' Mutation"

definition subscription_p :: "combine \<Rightarrow> (string \<Rightarrow> string option) \<Rightarrow> nat \<Rightarrow> parser" where
  "subscription_p cb f64 d = operation_p cb f64 d ''subscription'' Subscription"

definition operation_definition_p :: "combine \<Rightarrow> (string \<Rightarrow> string option) \<Rightarrow> nat \<Rightarrow> parser" where
  "operation_definition_p cb f64 d = alternatives cb
     (c_map cb (\<lambda>n. NDefinition (Operation (SelectionSet (set_of n)))) (selection_set cb f64 d))
     [query_p cb f64 d, mutation_p cb f64 d, subscription_p cb f64 d]"

fun fragment_node :: "node \<Rightarrow> node" where
  "fragment_node (NTuple [keyword, n, cond, ds, sel]) =
     NDefinition (Fragment \<lparr>frag_name = text_of n, frag_type_condition = text_of cond, frag_directives = directives_of ds,
       frag_selection_set = set_of sel\<rparr>)"
| "fragment_node n = n"

definition fragment_definition_p :: "combine \<Rightarrow> (string \<Rightarrow> string option) \<Rightarrow> nat \<Rightarrow> parser" where
  "fragment_definition_p cb f64 d = c_map cb fragment_node (c_tuple cb
     [ident cb ''fragment'', name cb, c_with cb (ident cb ''on'') (name cb), directives cb f64 d, selection_set cb f64 d])"

definition definition_p :: "combine \<Rightarrow> (string \<Rightarrow> string option) \<Rightarrow> nat \<Rightarrow> parser" where
  "definition_p cb f64 d = c_or cb (operation_definition_p cb f64 d) (fragment_definition_p cb f64 d)"

fun definition_of :: "node \<Rightarrow> query_definition" where
  "definition_of (NDefinition d) = d" | "definition_of _ = Operation (SelectionSet [])"

definition document_p :: "combine \<Rightarrow> (string \<Rightarrow> string option) \<Rightarrow> nat \<Rightarrow> parser" where
  "document_p cb f64 d = c_skip cb (c_many1 cb (definition_p cb f64 d)) (c_eof cb)"

definition parse_query :: "combine \<Rightarrow> (string \<Rightarrow> string option) \<Rightarrow> string \<Rightarrow> query_document option" where
  "parse_query cb f64 s = (case document_p cb f64 (length s) (token_stream_new s) of
     (Matched _ n, _) \<Rightarrow> Some (map definition_of (items_of n)) | (Failed _, _) \<Rightarrow> None)"

definition consume_definition :: "combine \<Rightarrow> (string \<Rightarrow> string option) \<Rightarrow> string \<Rightarrow> (query_definition \<times> string) option" where
  "consume_definition cb f64 s = (case definition_p cb f64 (length s) (token_stream_new s) of
     (Matched _ n, ts) \<Rightarrow> Some (definition_of n, drop (ts_off ts) s) | (Failed _, _) \<Rightarrow> None)"

end
