(* ===== verification/Grammar_Laws.thy ===== *)
theory Grammar_Laws
  imports Grammar
begin

text \<open>
  Every query document is read back from its tokens: for each kind of syntax tree the tokens that it is
  written with, the trees that can be written, and the lemma that the parser, over any combinators
  that keep their contract, reads the tree from its tokens. A tree has at least as many tokens as
  levels, which bounds the depth of the calls.
\<close>

section \<open>Tokens of syntax trees\<close>

abbreviation p_tok :: "string \<Rightarrow> token" where
  "p_tok v \<equiv> \<lparr>tk_kind = Punctuator, tk_value = v\<rparr>"

abbreviation n_tok :: "string \<Rightarrow> token" where
  "n_tok v \<equiv> \<lparr>tk_kind = Name, tk_value = v\<rparr>"

fun value_tokens :: "gql_value \<Rightarrow> token list" where
  "value_tokens (Variable n) = [p_tok ''$'', n_tok n]"
| "value_tokens (BigInt w) = [\<lparr>tk_kind = BigIntValue, tk_value = show_nat (unat w)\<rparr>]"
| "value_tokens (IntVal w) = [\<lparr>tk_kind = IntValue, tk_value = show_nat (unat w)\<rparr>]"
| "value_tokens (Float s) = [\<lparr>tk_kind = FloatValue, tk_value = s\<rparr>]"
| "value_tokens (String s) = [\<lparr>tk_kind = StringValue, tk_value = quoted_text s\<rparr>]"
| "value_tokens (Boolean b) = [n_tok (show_bool b)]"
| "value_tokens Null = [n_tok ''null'']"
| "value_tokens (Enum n) = [n_tok n]"
| "value_tokens (List vs) = p_tok ''['' # concat (map value_tokens vs) @ [p_tok '']'']"
| "value_tokens (Object kvs) = p_tok ''{'' # concat (map (\<lambda>(k, v). n_tok k # p_tok '':'' # value_tokens v) kvs) @ [p_tok ''}'']"

definition entry_tokens :: "string \<times> gql_value \<Rightarrow> token list" where
  "entry_tokens kv = n_tok (fst kv) # p_tok '':'' # value_tokens (snd kv)"

fun type_tokens :: "gql_type \<Rightarrow> token list" where
  "type_tokens (NamedType n) = [n_tok n]"
| "type_tokens (ListType t) = p_tok ''['' # type_tokens t @ [p_tok '']'']"
| "type_tokens (NonNullType t) = type_tokens t @ [p_tok ''!'']"

definition argument_tokens :: "(string \<times> gql_value) list \<Rightarrow> token list" where
  "argument_tokens args = (if args = [] then [] else p_tok ''('' # concat (map entry_tokens args) @ [p_tok '')''])"

definition directive_tokens :: "directive \<Rightarrow> token list" where
  "directive_tokens d = p_tok ''@'' # n_tok (dir_name d) # argument_tokens (dir_arguments d)"

definition directives_tokens :: "directive list \<Rightarrow> token list" where
  "directives_tokens ds = concat (map directive_tokens ds)"

fun selection_tokens :: "selection \<Rightarrow> token list" where
  "selection_tokens (Field al n args ds items) =
     (case al of None \<Rightarrow> [] | Some a \<Rightarrow> [n_tok a, p_tok '':'']) @ n_tok n # argument_tokens args @ directives_tokens ds
     @ (if items = [] then [] else p_tok ''{'' # concat (map selection_tokens items) @ [p_tok ''}''])"
| "selection_tokens (FragmentSpread n ds) = p_tok ''...'' # n_tok n # directives_tokens ds"
| "selection_tokens (InlineFragment cond ds items) =
     p_tok ''...'' # (case cond of None \<Rightarrow> [] | Some c \<Rightarrow> [n_tok ''on'', n_tok c]) @ directives_tokens ds
     @ p_tok ''{'' # concat (map selection_tokens items) @ [p_tok ''}'']"

definition set_tokens :: "selection_set \<Rightarrow> token list" where
  "set_tokens items = p_tok ''{'' # concat (map selection_tokens items) @ [p_tok ''}'']"

definition variable_tokens :: "variable_definition \<Rightarrow> token list" where
  "variable_tokens v = p_tok ''$'' # n_tok (var_name v) # p_tok '':'' # type_tokens (var_type v)
     @ (case var_default v of None \<Rightarrow> [] | Some x \<Rightarrow> p_tok ''='' # value_tokens x)"

definition body_tokens :: "op_body \<Rightarrow> token list" where
  "body_tokens b = (case op_name b of None \<Rightarrow> [] | Some n \<Rightarrow> [n_tok n])
     @ (if op_variables b = [] then [] else p_tok ''('' # concat (map variable_tokens (op_variables b)) @ [p_tok '')''])
     @ directives_tokens (op_directives b) @ set_tokens (op_selection_set b)"

fun operation_tokens :: "operation_definition \<Rightarrow> token list" where
  "operation_tokens (SelectionSet items) = set_tokens items"
| "operation_tokens (Query b) = n_tok ''query'' # body_tokens b"
| "operation_tokens (Mutation b) = n_tok ''mutation'' # body_tokens b"
| "operation_tokens (Subscription b) = n_tok ''subscription'' # body_tokens b"

fun definition_tokens :: "query_definition \<Rightarrow> token list" where
  "definition_tokens (Operation op) = operation_tokens op"
| "definition_tokens (Fragment f) = n_tok ''fragment'' # n_tok (frag_name f) # n_tok ''on'' # n_tok (frag_type_condition f)
     # directives_tokens (frag_directives f) @ set_tokens (frag_selection_set f)"

definition document_tokens :: "query_document \<Rightarrow> token list" where
  "document_tokens doc = concat (map definition_tokens doc)"

section \<open>Trees that can be written\<close>

definition ascii_text :: "string \<Rightarrow> bool" where
  "ascii_text s \<longleftrightarrow> list_all (\<lambda>c. reread c = of_char c \<and> (of_char c :: nat) < 128) s"

text \<open>A keyword is no enumeration value; the keys of an object are sorted, as in a \<^verbatim>\<open>BTreeMap\<close>.\<close>

fun writable_value :: "(string \<Rightarrow> string option) \<Rightarrow> gql_value \<Rightarrow> bool" where
  "writable_value f64 (Enum n) \<longleftrightarrow> n \<notin> {''true'', ''false'', ''null''}"
| "writable_value f64 (Float s) \<longleftrightarrow> f64 s = Some s"
| "writable_value f64 (String s) \<longleftrightarrow> ascii_text s"
| "writable_value f64 (List vs) \<longleftrightarrow> list_all (writable_value f64) vs"
| "writable_value f64 (Object kvs) \<longleftrightarrow> sorted_wrt (<) (map fst kvs) \<and> list_all (\<lambda>(k, v). writable_value f64 v) kvs"
| "writable_value f64 _ \<longleftrightarrow> True"

fun no_variable :: "gql_value \<Rightarrow> bool" where
  "no_variable (Variable n) \<longleftrightarrow> False"
| "no_variable (List vs) \<longleftrightarrow> list_all no_variable vs"
| "no_variable (Object kvs) \<longleftrightarrow> list_all (\<lambda>(k, v). no_variable v) kvs"
| "no_variable _ \<longleftrightarrow> True"

fun writable_type :: "gql_type \<Rightarrow> bool" where
  "writable_type (NamedType n) \<longleftrightarrow> True"
| "writable_type (ListType t) \<longleftrightarrow> writable_type t"
| "writable_type (NonNullType (NonNullType t)) \<longleftrightarrow> False"
| "writable_type (NonNullType t) \<longleftrightarrow> writable_type t"

definition writable_arguments :: "(string \<Rightarrow> string option) \<Rightarrow> (string \<times> gql_value) list \<Rightarrow> bool" where
  "writable_arguments f64 args \<longleftrightarrow> list_all (writable_value f64 \<circ> snd) args"

definition writable_directives :: "(string \<Rightarrow> string option) \<Rightarrow> directive list \<Rightarrow> bool" where
  "writable_directives f64 ds \<longleftrightarrow> list_all (writable_arguments f64 \<circ> dir_arguments) ds"

text \<open>A fragment is not called \<^verbatim>\<open>on\<close>, and a fragment has selections.\<close>

fun writable_selection :: "(string \<Rightarrow> string option) \<Rightarrow> selection \<Rightarrow> bool" where
  "writable_selection f64 (Field al n args ds items) \<longleftrightarrow>
     writable_arguments f64 args \<and> writable_directives f64 ds \<and> list_all (writable_selection f64) items"
| "writable_selection f64 (FragmentSpread n ds) \<longleftrightarrow> n \<noteq> ''on'' \<and> writable_directives f64 ds"
| "writable_selection f64 (InlineFragment cond ds items) \<longleftrightarrow>
     writable_directives f64 ds \<and> items \<noteq> [] \<and> list_all (writable_selection f64) items"

definition writable_set :: "(string \<Rightarrow> string option) \<Rightarrow> selection_set \<Rightarrow> bool" where
  "writable_set f64 items \<longleftrightarrow> items \<noteq> [] \<and> list_all (writable_selection f64) items"

definition writable_variable :: "(string \<Rightarrow> string option) \<Rightarrow> variable_definition \<Rightarrow> bool" where
  "writable_variable f64 v \<longleftrightarrow> writable_type (var_type v)
     \<and> (case var_default v of None \<Rightarrow> True | Some x \<Rightarrow> writable_value f64 x \<and> no_variable x)"

definition writable_body :: "(string \<Rightarrow> string option) \<Rightarrow> op_body \<Rightarrow> bool" where
  "writable_body f64 b \<longleftrightarrow> list_all (writable_variable f64) (op_variables b) \<and> writable_directives f64 (op_directives b)
     \<and> writable_set f64 (op_selection_set b)"

fun writable_definition :: "(string \<Rightarrow> string option) \<Rightarrow> query_definition \<Rightarrow> bool" where
  "writable_definition f64 (Operation (SelectionSet items)) \<longleftrightarrow> writable_set f64 items"
| "writable_definition f64 (Operation (Query b)) \<longleftrightarrow> writable_body f64 b"
| "writable_definition f64 (Operation (Mutation b)) \<longleftrightarrow> writable_body f64 b"
| "writable_definition f64 (Operation (Subscription b)) \<longleftrightarrow> writable_body f64 b"
| "writable_definition f64 (Fragment f) \<longleftrightarrow> writable_directives f64 (frag_directives f) \<and> writable_set f64 (frag_selection_set f)"

section \<open>Leaves\<close>

lemma map_insert_last: "\<forall>x \<in> set (map fst kvs). x < k \<Longrightarrow> map_insert k v kvs = kvs @ [(k, v)]"
proof (induction kvs)
  case (Cons kv kvs)
  then have "fst kv < k" by simp
  then have "k \<noteq> fst kv" "\<not> k < fst kv" by auto
  with Cons show ?case by (cases kv) simp
qed simp

lemma collect_sorted: "sorted_wrt (<) (map fst kvs) \<Longrightarrow> collect_map kvs = kvs"
proof (induction kvs rule: rev_induct)
  case (snoc kv kvs)
  then have "collect_map kvs = kvs" "\<forall>x \<in> set (map fst kvs). x < fst kv" by (auto simp: sorted_wrt_append)
  then show ?case using map_insert_last [of kvs "fst kv" "snd kv"]
    by (cases kv) (simp add: collect_map_def)
qed (simp add: collect_map_def)

lemma digits_of_show: "list_all is_digit (show_nat n)"
  using show_nat_digits [of _ n] by (auto simp: list_all_iff is_digit_def)

lemma parse_show: "n < 2 ^ bits \<Longrightarrow> parse_unsigned bits (show_nat n) = Some n"
proof -
  have "\<not> begins ''+'' (show_nat n)" using digits_of_show [of n] by (cases "show_nat n") (auto simp: begins_def is_digit_def)
  then show "n < 2 ^ bits \<Longrightarrow> ?thesis" using digits_of_show [of n] by (simp add: parse_unsigned_def Let_def)
qed

lemma utf8_ascii: "ascii_text s \<Longrightarrow> concat (map utf8 (map reread s)) = s"
  by (induction s) (auto simp: ascii_text_def utf8_def)

lemma string_node_quoted: "ascii_text s \<Longrightarrow> string_node (NToken \<lparr>tk_kind = k, tk_value = quoted_text s\<rparr>) = Some (NText s)"
  using utf8_ascii [of s] by (simp add: string_node_def unquote_quoted)

text \<open>The next token is no punctuator of these.\<close>

definition next_not :: "string list \<Rightarrow> token list \<Rightarrow> bool" where
  "next_not vs toks \<longleftrightarrow> toks = [] \<or> \<not> (tk_kind (hd toks) = Punctuator \<and> tk_value (hd toks) \<in> set vs)"

lemma next_not_simps [simp]:
  "next_not vs []" "next_not vs (p_tok v # toks) \<longleftrightarrow> v \<notin> set vs" "next_not vs (n_tok n # toks)"
  by (simp_all add: next_not_def)

lemma next_not_mono: "next_not vs toks \<Longrightarrow> set ws \<subseteq> set vs \<Longrightarrow> next_not ws toks"
  by (auto simp: next_not_def)

text \<open>The next token is a punctuator, or there is none.\<close>

definition next_punct :: "token list \<Rightarrow> bool" where
  "next_punct toks \<longleftrightarrow> toks = [] \<or> tk_kind (hd toks) = Punctuator"

lemma next_punct_simps [simp]: "next_punct []" "next_punct (p_tok v # toks)"
  by (simp_all add: next_punct_def)

context combinators
begin

lemma gives_punct: "gives (punct cb v) (p_tok v # rest) True (NToken (p_tok v)) rest"
  by (simp add: punct_def gives_satisfy)

lemma refuses_punct: "next_not [v] toks \<Longrightarrow> refuses (punct cb v) toks"
  unfolding punct_def by (rule refuses_satisfy) (auto simp: next_not_def)

lemma gives_kind: "tk_kind t = k \<Longrightarrow> gives (kind cb k) (t # rest) True (NToken t) rest"
  by (simp add: kind_def gives_satisfy)

lemma refuses_kind: "toks = [] \<or> tk_kind (hd toks) \<noteq> k \<Longrightarrow> refuses (kind cb k) toks"
  by (simp add: kind_def refuses_satisfy)

lemma gives_ident: "gives (ident cb v) (n_tok v # rest) True (NToken (n_tok v)) rest"
  by (simp add: ident_def gives_satisfy)

lemma refuses_ident: "toks = [] \<or> \<not> (tk_kind (hd toks) = Name \<and> tk_value (hd toks) = v) \<Longrightarrow> refuses (ident cb v) toks"
  by (simp add: ident_def refuses_satisfy)

lemma gives_name: "gives (name cb) (n_tok v # rest) True (NText v) rest"
  unfolding name_def by (rule gives_map [OF gives_satisfy]) simp_all

lemma refuses_name: "toks = [] \<or> tk_kind (hd toks) \<noteq> Name \<Longrightarrow> refuses (name cb) toks"
  unfolding name_def by (intro refuses_map refuses_satisfy)

subsection \<open>Alternatives\<close>

lemma gives_alternatives1: "gives p toks c v rest \<Longrightarrow> gives (alternatives cb p qs) toks c v rest"
  by (induction qs arbitrary: p) (auto intro: gives_or1)

lemma gives_alternatives:
  "i < length qs \<Longrightarrow> refuses p toks \<Longrightarrow> \<forall>q \<in> set (take i qs). refuses q toks \<Longrightarrow> gives (qs ! i) toks c v rest
    \<Longrightarrow> gives (alternatives cb p qs) toks c v rest"
proof (induction qs arbitrary: p i)
  case (Cons q qs)
  show ?case
  proof (cases i)
    case 0
    with Cons.prems show ?thesis by (simp add: gives_alternatives1 gives_or2)
  next
    case (Suc i')
    with Cons.prems(3) have "refuses q toks" "\<forall>q \<in> set (take i' qs). refuses q toks" by auto
    with Cons.IH [of i' "c_or cb p q"] Cons.prems Suc show ?thesis by (simp add: refuses_or)
  qed
qed simp

lemma refuses_alternatives: "refuses p toks \<Longrightarrow> \<forall>q \<in> set qs. refuses q toks \<Longrightarrow> refuses (alternatives cb p qs) toks"
  by (induction qs arbitrary: p) (auto intro: refuses_or)

lemma breaks_alternatives1: "breaks p toks \<Longrightarrow> breaks (alternatives cb p qs) toks"
  by (induction qs arbitrary: p) (auto intro: breaks_or1)

lemma breaks_alternatives:
  "i < length qs \<Longrightarrow> refuses p toks \<Longrightarrow> \<forall>q \<in> set (take i qs). refuses q toks \<Longrightarrow> breaks (qs ! i) toks
    \<Longrightarrow> breaks (alternatives cb p qs) toks"
proof (induction qs arbitrary: p i)
  case (Cons q qs)
  show ?case
  proof (cases i)
    case 0
    with Cons.prems show ?thesis by (simp add: breaks_alternatives1 breaks_or2)
  next
    case (Suc i')
    with Cons.prems(3) have "refuses q toks" "\<forall>q \<in> set (take i' qs). refuses q toks" by auto
    with Cons.IH [of i' "c_or cb p q"] Cons.prems Suc show ?thesis by (simp add: refuses_or)
  qed
qed simp

subsection \<open>Values\<close>

declare alternatives.simps [simp del]

lemmas refuses_leaf = refuses_map refuses_and_then refuses_ident refuses_kind refuses_name

lemma refuses_plain: "next_punct toks \<Longrightarrow> refuses (plain_value cb f64) toks"
  unfolding plain_value_def int_value_def float_value_def bigint_value_def string_value_def block_string_value_def
  by (rule refuses_alternatives) (auto simp: next_punct_def intro!: refuses_leaf)

lemma gives_plain:
  assumes "writable_value f64 v" "case v of Variable _ \<Rightarrow> False | List _ \<Rightarrow> False | Object _ \<Rightarrow> False | _ \<Rightarrow> True"
  shows "gives (plain_value cb f64) (value_tokens v @ rest) True (NValue v) rest"
proof -
  note defs = plain_value_def int_value_def float_value_def bigint_value_def string_value_def block_string_value_def
  show ?thesis
  proof (cases v)
    case (Boolean b)
    show ?thesis
    proof (cases b)
      case True
      with Boolean show ?thesis
        by (simp add: defs show_bool_def) (rule gives_alternatives1, rule gives_map [OF gives_ident], simp)
    next
      case False
      with Boolean show ?thesis
        by (simp add: defs show_bool_def)
          (rule gives_alternatives [where i = 0], auto intro!: refuses_leaf gives_map [OF gives_ident])
    qed
  next
    case Null
    then show ?thesis
      by (simp add: defs) (rule gives_alternatives [where i = 1], auto intro!: refuses_leaf gives_map [OF gives_ident])
  next
    case (Enum n)
    with assms(1) show ?thesis
      by (simp add: defs) (rule gives_alternatives [where i = 2], auto intro!: refuses_leaf gives_map [OF gives_name])
  next
    case (IntVal w)
    have "int_node (NToken \<lparr>tk_kind = IntValue, tk_value = show_nat (unat w)\<rparr>) = Some (NValue v)"
      using parse_show [of "unat w" 64] unsigned_less [of w, where 'a = nat] by (simp add: int_node_def IntVal)
    with IntVal show ?thesis
      by (simp add: defs) (rule gives_alternatives [where i = 3], auto intro!: refuses_leaf gives_and_then [OF gives_kind])
  next
    case (Float x)
    with assms(1) show ?thesis
      by (simp add: defs) (rule gives_alternatives [where i = 4], auto intro!: refuses_leaf gives_and_then [OF gives_kind])
  next
    case (BigInt w)
    have "bigint_node (NToken \<lparr>tk_kind = BigIntValue, tk_value = show_nat (unat w)\<rparr>) = Some (NValue v)"
      using parse_show [of "unat w" 128] unsigned_less [of w, where 'a = nat] by (simp add: bigint_node_def BigInt)
    with BigInt show ?thesis
      by (simp add: defs) (rule gives_alternatives [where i = 5], auto intro!: refuses_leaf gives_and_then [OF gives_kind])
  next
    case (String x)
    with assms(1) string_node_quoted [of x] show ?thesis
      by (simp add: defs) (rule gives_alternatives [where i = 6], auto intro!: refuses_leaf gives_map [OF gives_and_then [OF gives_kind]])
  qed (use assms(2) in simp_all)
qed

lemma gives_bracketed:
  assumes "gives p (toks @ p_tok close # rest) c v (p_tok close # rest)"
  shows "gives (c_skip cb (c_with cb (punct cb opening) p) (punct cb close)) (p_tok opening # toks @ p_tok close # rest) True v rest"
  using gives_skip [OF gives_with [OF gives_punct assms] gives_punct] by simp

lemma refuses_bracketed:
  "next_not [opening] toks \<Longrightarrow> refuses (c_skip cb (c_with cb (punct cb opening) p) (punct cb close)) toks"
  by (intro refuses_skip refuses_with refuses_punct)

lemma gives_named:
  assumes "gives p toks True v rest"
  shows "gives (named cb p) (n_tok k # p_tok '':'' # toks) True (NTuple [NText k, v]) rest"
  using gives_Cons [OF gives_skip [OF gives_name gives_punct] gives_Cons [OF assms gives_Nil]] by (simp add: named_def)

lemma refuses_named: "toks = [] \<or> tk_kind (hd toks) \<noteq> Name \<Longrightarrow> refuses (named cb p) toks"
  unfolding named_def by (intro refuses_Cons refuses_skip refuses_name)

lemma refuses_value: "next_punct toks \<Longrightarrow> next_not [''$'', ''['', ''{''] toks \<Longrightarrow> 0 < d \<Longrightarrow> refuses (value_p cb f64 d) toks"
  by (cases d) (auto intro!: refuses_alternatives refuses_plain refuses_map refuses_bracketed refuses_with refuses_punct
    elim!: next_not_mono)

lemma refuses_default: "next_punct toks \<Longrightarrow> next_not [''['', ''{''] toks \<Longrightarrow> 0 < d \<Longrightarrow> refuses (default_value cb f64 d) toks"
  by (cases d) (auto intro!: refuses_alternatives refuses_plain refuses_map refuses_bracketed elim!: next_not_mono)

end

lemma value_tokens_Object: "value_tokens (Object kvs) = p_tok ''{'' # concat (map entry_tokens kvs) @ [p_tok ''}'']"
  by (simp add: entry_tokens_def [abs_def] split_def)

lemma length_item: "x \<in> set xs \<Longrightarrow> length (f x) \<le> length (concat (map f xs))"
  by (induction xs) auto

context combinators
begin

lemma gives_leaf:
  assumes "writable_value f64 v" "case v of Variable _ \<Rightarrow> False | List _ \<Rightarrow> False | Object _ \<Rightarrow> False | _ \<Rightarrow> True" "0 < d"
  shows "gives (value_p cb f64 d) (value_tokens v @ rest) True (NValue v) rest"
    and "gives (default_value cb f64 d) (value_tokens v @ rest) True (NValue v) rest"
  using assms by (cases d; simp add: gives_alternatives1 gives_plain)+

lemma gives_value:
  assumes "length (value_tokens v) \<le> d" "writable_value f64 v"
  shows "gives (value_p cb f64 d) (value_tokens v @ rest) True (NValue v) rest"
  using assms
proof (induction v arbitrary: d rest)
  case (List vs)
  then obtain d' where d: "d = Suc d'" "0 < d'" by (cases d) (auto simp: Suc_le_eq)
  have "gives (c_many cb (value_p cb f64 d')) (concat (List.map value_tokens vs) @ p_tok '']'' # rest) (vs \<noteq> [])
      (NMany (List.map NValue vs)) (p_tok '']'' # rest)"
  proof (rule gives_many [where Q = "\<lambda>_. True"])
    fix x r assume x: "x \<in> set vs"
    with List.prems d length_item [OF x, of value_tokens] show "gives (value_p cb f64 d') (value_tokens x @ r) True (NValue x) r"
      by (intro List.IH) (auto simp: list_all_iff)
  qed (auto intro!: refuses_value d(2))
  from gives_map [OF gives_bracketed [OF this], of list_node "NValue (List vs)"] show ?case
    unfolding d(1) value_p.simps
    by (intro gives_alternatives [where i = 1]) (auto simp: list_node_def o_def intro!: refuses_plain refuses_map refuses_with refuses_punct)
next
  case (Object kvs)
  then obtain d' where d: "d = Suc d'" "0 < d'" by (cases d) (auto simp: Suc_le_eq)
  have "gives (c_many cb (named cb (value_p cb f64 d'))) (concat (List.map entry_tokens kvs) @ p_tok ''}'' # rest) (kvs \<noteq> [])
      (NMany (List.map (\<lambda>(k, v). NTuple [NText k, NValue v]) kvs)) (p_tok ''}'' # rest)"
  proof (rule gives_many [where Q = "\<lambda>_. True"])
    fix x r assume x: "x \<in> set kvs"
    obtain k v where kv: "x = (k, v)" by (cases x)
    have "length (value_tokens v) \<le> d'"
      using Object.prems(1) d(1) length_item [OF x, of entry_tokens] by (simp add: value_tokens_Object entry_tokens_def kv del: value_tokens.simps)
    moreover have "writable_value f64 v" using Object.prems(2) x kv by (auto simp: list_all_iff)
    ultimately have "gives (value_p cb f64 d') (value_tokens v @ r) True (NValue v) r"
      using Object.IH [OF x] kv by auto
    from gives_named [OF this, of k] show "gives (named cb (value_p cb f64 d')) (entry_tokens x @ r) True
        (case x of (k, v) \<Rightarrow> NTuple [NText k, NValue v]) r" by (simp add: kv entry_tokens_def)
  qed (auto intro!: refuses_named)
  from gives_map [OF gives_bracketed [OF this], of object_node "NValue (Object kvs)"] Object.prems(2) show ?case
    unfolding d(1) value_p.simps value_tokens_Object
    by (intro gives_alternatives [where i = 2])
      (auto simp: object_node_def pairs_of_def o_def case_prod_beta collect_sorted
        intro!: refuses_plain refuses_map refuses_with refuses_punct refuses_bracketed)
next
  case (Variable n)
  then obtain d' where d: "d = Suc d'" by (cases d) auto
  show ?case unfolding d value_p.simps
    by (rule gives_alternatives [where i = 0])
      (auto intro!: refuses_plain gives_map [where v = "NText n"] gives_with [OF gives_punct gives_name, simplified])
qed (rule gives_leaf; simp)+

lemma gives_default:
  assumes "length (value_tokens v) \<le> d" "writable_value f64 v" "no_variable v"
  shows "gives (default_value cb f64 d) (value_tokens v @ rest) True (NValue v) rest"
  using assms
proof (induction v arbitrary: d rest)
  case (List vs)
  then obtain d' where d: "d = Suc d'" "0 < d'" by (cases d) (auto simp: Suc_le_eq)
  have "gives (c_many cb (default_value cb f64 d')) (concat (List.map value_tokens vs) @ p_tok '']'' # rest) (vs \<noteq> [])
      (NMany (List.map NValue vs)) (p_tok '']'' # rest)"
  proof (rule gives_many [where Q = "\<lambda>_. True"])
    fix x r assume x: "x \<in> set vs"
    with List.prems d length_item [OF x, of value_tokens] show "gives (default_value cb f64 d') (value_tokens x @ r) True (NValue x) r"
      by (intro List.IH) (auto simp: list_all_iff)
  qed (auto intro!: refuses_default d(2))
  from gives_map [OF gives_bracketed [OF this], of list_node "NValue (List vs)"] show ?case
    unfolding d(1) default_value.simps
    by (intro gives_alternatives [where i = 0]) (auto simp: list_node_def o_def intro!: refuses_plain)
next
  case (Object kvs)
  then obtain d' where d: "d = Suc d'" "0 < d'" by (cases d) (auto simp: Suc_le_eq)
  have "gives (c_many cb (named cb (default_value cb f64 d'))) (concat (List.map entry_tokens kvs) @ p_tok ''}'' # rest) (kvs \<noteq> [])
      (NMany (List.map (\<lambda>(k, v). NTuple [NText k, NValue v]) kvs)) (p_tok ''}'' # rest)"
  proof (rule gives_many [where Q = "\<lambda>_. True"])
    fix x r assume x: "x \<in> set kvs"
    obtain k v where kv: "x = (k, v)" by (cases x)
    have "length (value_tokens v) \<le> d'"
      using Object.prems(1) d(1) length_item [OF x, of entry_tokens] by (simp add: value_tokens_Object entry_tokens_def kv del: value_tokens.simps)
    moreover have "writable_value f64 v" "no_variable v" using Object.prems(2,3) x kv by (auto simp: list_all_iff)
    ultimately have "gives (default_value cb f64 d') (value_tokens v @ r) True (NValue v) r"
      using Object.IH [OF x] kv by auto
    from gives_named [OF this, of k] show "gives (named cb (default_value cb f64 d')) (entry_tokens x @ r) True
        (case x of (k, v) \<Rightarrow> NTuple [NText k, NValue v]) r" by (simp add: kv entry_tokens_def)
  qed (auto intro!: refuses_named)
  from gives_map [OF gives_bracketed [OF this], of object_node "NValue (Object kvs)"] Object.prems(2) show ?case
    unfolding d(1) default_value.simps value_tokens_Object
    by (intro gives_alternatives [where i = 1])
      (auto simp: object_node_def pairs_of_def o_def case_prod_beta collect_sorted intro!: refuses_plain refuses_map refuses_bracketed)
qed (rule gives_leaf(2); simp; fail | simp)+

subsection \<open>Types, arguments and directives\<close>

lemma gives_type:
  assumes "length (type_tokens t) \<le> d" "writable_type t" "next_not [''!''] rest"
  shows "gives (parse_type cb d) (type_tokens t @ rest) True (NType t) rest"
  using assms
proof (induction "size t" arbitrary: t d rest rule: less_induct)
  case less
  then obtain d' where d: "d = Suc d'" by (cases d; cases t) auto
  let ?inner = "c_or cb (c_map cb (\<lambda>n. NType (NamedType (text_of n))) (name cb))
    (c_map cb (\<lambda>n. NType (ListType (type_of n))) (c_skip cb (c_with cb (punct cb ''['') (parse_type cb d')) (punct cb '']'')))"
  have inner: "gives ?inner (type_tokens u @ r) True (NType u) r"
    if "size u \<le> size t" "length (type_tokens u) \<le> d" "writable_type u" "\<forall>x. u \<noteq> NonNullType x" for u r
  proof (cases u)
    case (NamedType n)
    show ?thesis unfolding NamedType by (rule gives_or1, rule gives_map) (auto intro: gives_name)
  next
    case (ListType x)
    with that less.hyps [of x d' "p_tok '']'' # r"] have "gives (parse_type cb d') (type_tokens x @ p_tok '']'' # r) True (NType x) (p_tok '']'' # r)"
      by (simp add: d)
    from gives_map [OF gives_bracketed [OF this], of "\<lambda>n. NType (ListType (type_of n))" "NType u"] show ?thesis
      unfolding ListType by (intro gives_or2 refuses_map refuses_name) simp_all
  qed (use that in auto)
  show ?case
  proof (cases "\<exists>u. t = NonNullType u")
    case True
    then obtain u where t: "t = NonNullType u" by blast
    with less.prems(2) have u: "\<forall>x. u \<noteq> NonNullType x" "writable_type u" by (cases u; auto)+
    from inner [OF _ _ u(2,1), of "p_tok ''!'' # rest"] less.prems(1) t
    have "gives ?inner (type_tokens u @ p_tok ''!'' # rest) True (NType u) (p_tok ''!'' # rest)" by simp
    from gives_map [OF gives_Cons [OF this gives_Cons [OF gives_optional_some [OF gives_punct] gives_Nil]], of type_node "NType t"]
    show ?thesis unfolding d parse_type.simps by (simp add: t)
  next
    case False
    with inner [of t rest] less.prems have "gives ?inner (type_tokens t @ rest) True (NType t) rest" by auto
    from gives_map [OF gives_Cons [OF this gives_Cons [OF gives_optional_none [OF refuses_punct [OF less.prems(3)]] gives_Nil]], of type_node "NType t"]
    show ?thesis unfolding d parse_type.simps by simp
  qed
qed

lemma gives_arguments:
  assumes "length (argument_tokens args) \<le> d" "writable_arguments f64 args" "next_not [''(''] rest"
  shows "\<exists>c v. gives (arguments cb f64 d) (argument_tokens args @ rest) c v rest \<and> pairs_of v = args"
proof (cases "args = []")
  case True
  from gives_map [OF gives_optional_none [OF refuses_bracketed [OF assms(3)]], of unwrap_list "NMany []"] True show ?thesis
    by (intro exI [of _ False] exI [of _ "NMany []"]) (simp add: arguments_def argument_tokens_def pairs_of_def unwrap_list_def)
next
  case False
  have "gives (c_many1 cb (named cb (value_p cb f64 d))) (concat (List.map entry_tokens args) @ p_tok '')'' # rest) True
      (NMany (List.map (\<lambda>(k, v). NTuple [NText k, NValue v]) args)) (p_tok '')'' # rest)"
  proof (rule gives_many1 [where Q = "\<lambda>_. True"])
    fix x r assume x: "x \<in> set args"
    obtain k v where kv: "x = (k, v)" by (cases x)
    have "length (value_tokens v) \<le> d"
      using assms(1) length_item [OF x, of entry_tokens] by (simp add: argument_tokens_def entry_tokens_def kv split: if_splits)
    moreover have "writable_value f64 v" using assms(2) x kv by (auto simp: writable_arguments_def list_all_iff)
    ultimately have "gives (value_p cb f64 d) (value_tokens v @ r) True (NValue v) r" by (rule gives_value)
    from gives_named [OF this, of k] show "gives (named cb (value_p cb f64 d)) (entry_tokens x @ r) True
        (case x of (k, v) \<Rightarrow> NTuple [NText k, NValue v]) r" by (simp add: kv entry_tokens_def)
  qed (use False in \<open>auto intro!: refuses_named\<close>)
  from gives_map [OF gives_optional_some [OF gives_bracketed [OF this]], of unwrap_list] False show ?thesis
    by (intro exI [of _ True] exI [of _ "NMany (List.map (\<lambda>(k, v). NTuple [NText k, NValue v]) args)"])
      (auto simp: arguments_def argument_tokens_def pairs_of_def unwrap_list_def o_def case_prod_beta)
qed

lemma gives_directives:
  assumes "length (directives_tokens ds) \<le> d" "writable_directives f64 ds" "next_not [''@'', ''(''] rest"
  shows "\<exists>c v. gives (directives cb f64 d) (directives_tokens ds @ rest) c v rest \<and> directives_of v = ds \<and> (c \<longleftrightarrow> ds \<noteq> [])"
proof -
  have "gives (c_many cb (c_map cb directive_node (c_tuple cb [punct cb ''@'', name cb, arguments cb f64 d])))
      (concat (List.map directive_tokens ds) @ rest) (ds \<noteq> []) (NMany (List.map NDirective ds)) rest"
  proof (rule gives_many [where Q = "next_not [''('']"])
    fix x r assume x: "x \<in> set ds" and r: "next_not [''(''] r"
    have "length (argument_tokens (dir_arguments x)) \<le> d" "writable_arguments f64 (dir_arguments x)"
      using assms(1,2) length_item [OF x, of directive_tokens] x
      by (auto simp: directives_tokens_def directive_tokens_def writable_directives_def list_all_iff)
    from gives_arguments [OF this r] obtain c v where v: "gives (arguments cb f64 d) (argument_tokens (dir_arguments x) @ r) c v r"
      "pairs_of v = dir_arguments x" by blast
    from gives_map [OF gives_Cons [OF gives_punct gives_Cons [OF gives_name gives_Cons [OF v(1) gives_Nil]]], where f = directive_node and w = "NDirective x"] v(2)
    show "gives (c_map cb directive_node (c_tuple cb [punct cb ''@'', name cb, arguments cb f64 d])) (directive_tokens x @ r) True (NDirective x) r"
      by (simp add: directive_tokens_def)
  qed (use assms(3) in \<open>auto simp: directive_tokens_def intro!: refuses_map refuses_Cons refuses_punct elim: next_not_mono\<close>)
  then show ?thesis
    by (intro exI [of _ "ds \<noteq> []"] exI [of _ "NMany (List.map NDirective ds)"])
      (simp add: directives_def directives_tokens_def directives_of_def o_def)
qed

end

section \<open>Selections\<close>

lemma next_not_arguments [simp]:
  "next_not vs (argument_tokens args @ r) \<longleftrightarrow> (if args = [] then next_not vs r else ''('' \<notin> set vs)"
  by (simp add: argument_tokens_def)

lemma next_not_directives [simp]:
  "next_not vs (directives_tokens ds @ r) \<longleftrightarrow> (if ds = [] then next_not vs r else ''@'' \<notin> set vs)"
  by (cases ds) (simp_all add: directives_tokens_def directive_tokens_def)

lemma next_not_set [simp]: "next_not vs (set_tokens items @ r) \<longleftrightarrow> ''{'' \<notin> set vs"
  by (simp add: set_tokens_def)

lemma no_name_ahead:
  "hd (directives_tokens ds @ set_tokens items @ r) = p_tok ''@'' \<or> hd (directives_tokens ds @ set_tokens items @ r) = p_tok ''{''"
  by (cases ds) (simp_all add: directives_tokens_def directive_tokens_def set_tokens_def)

definition opt_set_tokens :: "selection_set \<Rightarrow> token list" where
  "opt_set_tokens items = (if items = [] then [] else set_tokens items)"

lemma next_not_opt_set [simp]:
  "next_not vs (opt_set_tokens items @ r) \<longleftrightarrow> (if items = [] then next_not vs r else ''{'' \<notin> set vs)"
  by (simp add: opt_set_tokens_def)

lemma selection_tokens_sets:
  "selection_tokens (Field al n args ds items) = (case al of None \<Rightarrow> [] | Some a \<Rightarrow> [n_tok a, p_tok '':''])
     @ n_tok n # argument_tokens args @ directives_tokens ds @ opt_set_tokens items"
  "selection_tokens (InlineFragment cond ds items) =
     p_tok ''...'' # (case cond of None \<Rightarrow> [] | Some c \<Rightarrow> [n_tok ''on'', n_tok c]) @ directives_tokens ds @ set_tokens items"
  by (simp_all add: opt_set_tokens_def set_tokens_def)

lemma selection_starts: "next_not [''('', ''@'', ''{'', '':''] (selection_tokens x @ r)"
  by (cases x) (auto split: option.splits)

context combinators
begin

lemma refuses_set: "next_not [''{''] toks \<Longrightarrow> 0 < d \<Longrightarrow> refuses (selection_set cb f64 d) toks"
  by (cases d) (auto intro!: refuses_map refuses_Cons refuses_punct)

lemma gives_field:
  assumes sets: "items \<noteq> [] \<Longrightarrow> gives (selection_set cb f64 d) (set_tokens items @ r) True (NSet items) r"
    and "length (argument_tokens args) \<le> d" "length (directives_tokens ds) \<le> d" "0 < d"
    and "writable_arguments f64 args" "writable_directives f64 ds" "next_not [''('', ''@'', ''{'', '':''] r"
  shows "gives (field_p cb f64 d (selection_set cb f64 d)) (selection_tokens (Field al n args ds items) @ r) True
    (NSelection (Field al n args ds items)) r"
proof -
  note r = next_not_mono [OF assms(7)]
  have "\<exists>c v. gives (c_optional cb (selection_set cb f64 d)) (opt_set_tokens items @ r) c v r
    \<and> (case option_of_node v of None \<Rightarrow> [] | Some s \<Rightarrow> set_of s) = items"
  proof (cases "items = []")
    case True
    have "refuses (selection_set cb f64 d) r" by (rule refuses_set [OF r assms(4)]) simp
    from gives_optional_none [OF this] True show ?thesis by (intro exI [of _ False] exI [of _ NNone]) (simp add: opt_set_tokens_def)
  next
    case False
    from gives_optional_some [OF sets [OF False]] False show ?thesis
      by (intro exI [of _ True] exI [of _ "NSome (NSet items)"]) (simp add: opt_set_tokens_def)
  qed
  then obtain c3 v3 where v3: "gives (c_optional cb (selection_set cb f64 d)) (opt_set_tokens items @ r) c3 v3 r"
    "(case option_of_node v3 of None \<Rightarrow> [] | Some s \<Rightarrow> set_of s) = items" by blast
  have "next_not [''@'', ''(''] (opt_set_tokens items @ r)" using r [of "[''@'', ''('']"] by simp
  from gives_directives [OF assms(3,6) this] obtain c2 v2 where v2:
    "gives (directives cb f64 d) (directives_tokens ds @ opt_set_tokens items @ r) c2 v2 (opt_set_tokens items @ r)" "directives_of v2 = ds" by blast
  have "next_not [''(''] (directives_tokens ds @ opt_set_tokens items @ r)" using r [of "[''('']"] by simp
  from gives_arguments [OF assms(2,5) this] obtain c1 v1 where v1:
    "gives (arguments cb f64 d) (argument_tokens args @ directives_tokens ds @ opt_set_tokens items @ r) c1 v1 (directives_tokens ds @ opt_set_tokens items @ r)"
    "pairs_of v1 = args" by blast
  note tail = gives_Cons [OF v1(1) gives_Cons [OF v2(1) gives_Cons [OF v3(1) gives_Nil]]]
  show ?thesis
  proof (cases al)
    case None
    have "next_not ['':''] (argument_tokens args @ directives_tokens ds @ opt_set_tokens items @ r)" using r [of "['':'']"] by simp
    then have "refuses (c_with cb (punct cb '':'') (name cb)) (argument_tokens args @ directives_tokens ds @ opt_set_tokens items @ r)"
      by (intro refuses_with refuses_punct)
    from gives_map [OF gives_Cons [OF gives_name gives_Cons [OF gives_optional_none [OF this] tail]], where f = field_node]
    show ?thesis by (simp add: field_p_def selection_tokens_sets None v1(2) v2(2) v3(2) del: selection_tokens.simps)
  next
    case (Some a)
    from gives_map [OF gives_Cons [OF gives_name gives_Cons [OF gives_optional_some [OF gives_with [OF gives_punct gives_name]] tail]], where f = field_node]
    show ?thesis by (simp add: field_p_def selection_tokens_sets Some v1(2) v2(2) v3(2) del: selection_tokens.simps)
  qed
qed

lemma gives_selection:
  assumes sets: "\<And>items r. length (set_tokens items) \<le> d \<Longrightarrow> writable_set f64 items
      \<Longrightarrow> gives (selection_set cb f64 d) (set_tokens items @ r) True (NSet items) r"
    and "length (selection_tokens x) \<le> d" "writable_selection f64 x" "next_not [''('', ''@'', ''{'', '':''] r"
  shows "gives (selection_p cb f64 d (selection_set cb f64 d)) (selection_tokens x @ r) True (NSelection x) r"
proof (cases x)
  case (Field al n args ds items)
  have "gives (selection_set cb f64 d) (set_tokens items @ r) True (NSet items) r" if "items \<noteq> []"
    using assms(2,3) that by (intro sets) (auto simp: Field selection_tokens_sets opt_set_tokens_def writable_set_def simp del: selection_tokens.simps)
  moreover have "length (argument_tokens args) \<le> d" "length (directives_tokens ds) \<le> d" "0 < d"
    using assms(2) by (auto simp: Field selection_tokens_sets simp del: selection_tokens.simps)
  ultimately show ?thesis
    using assms(3,4) unfolding selection_p_def Field by (intro gives_or1 gives_field) auto
next
  case (InlineFragment cond ds items)
  have len: "length (directives_tokens ds) \<le> d" "length (set_tokens items) \<le> d" and w: "writable_directives f64 ds" "writable_set f64 items"
    using assms(2,3) by (auto simp: InlineFragment selection_tokens_sets writable_set_def simp del: selection_tokens.simps)
  from gives_directives [OF len(1) w(1), of "set_tokens items @ r"] obtain c v where
    v: "gives (directives cb f64 d) (directives_tokens ds @ set_tokens items @ r) c v (set_tokens items @ r)" "directives_of v = ds" by auto
  note tail = gives_Cons [OF v(1) gives_Cons [OF sets [OF len(2) w(2)] gives_Nil]]
  let ?inline = "c_map cb inline_node (c_tuple cb [c_optional cb (c_with cb (ident cb ''on'') (name cb)), directives cb f64 d, selection_set cb f64 d])"
  have "\<exists>c. gives ?inline ((case cond of None \<Rightarrow> [] | Some c \<Rightarrow> [n_tok ''on'', n_tok c]) @ directives_tokens ds @ set_tokens items @ r) c (NSelection x) r"
  proof (cases cond)
    case None
    have "refuses (c_with cb (ident cb ''on'') (name cb)) (directives_tokens ds @ set_tokens items @ r)"
      using no_name_ahead [of ds items r] by (intro refuses_with refuses_ident) auto
    from gives_map [OF gives_Cons [OF gives_optional_none [OF this] tail], where f = inline_node and w = "NSelection x"] show ?thesis
      by (auto simp: InlineFragment None v(2))
  next
    case (Some t)
    from gives_map [OF gives_Cons [OF gives_optional_some [OF gives_with [OF gives_ident gives_name]] tail],
        where f = inline_node and w = "NSelection x"] show ?thesis
      by (auto simp: InlineFragment Some v(2))
  qed
  then obtain c' where "gives ?inline ((case cond of None \<Rightarrow> [] | Some c \<Rightarrow> [n_tok ''on'', n_tok c]) @ directives_tokens ds @ set_tokens items @ r) c' (NSelection x) r" by blast
  from gives_with [OF gives_punct [of "''...''"] gives_or1 [OF this]] show ?thesis
    unfolding selection_p_def
    by (intro gives_or2) (auto simp: InlineFragment selection_tokens_sets field_p_def simp del: selection_tokens.simps
      intro!: refuses_map refuses_Cons refuses_name)
next
  case (FragmentSpread n ds)
  have "0 < d" and len: "length (directives_tokens ds) \<le> d" using assms(2) by (auto simp: FragmentSpread)
  from len have "length (directives_tokens ds) \<le> d" .
  moreover have "next_not [''@'', ''(''] r" by (rule next_not_mono [OF assms(4)]) simp
  ultimately obtain c v where v: "gives (directives cb f64 d) (directives_tokens ds @ r) c v r" "directives_of v = ds"
    using gives_directives [of ds d f64 r] assms(3) by (auto simp: FragmentSpread)
  let ?inline = "c_map cb inline_node (c_tuple cb [c_optional cb (c_with cb (ident cb ''on'') (name cb)), directives cb f64 d, selection_set cb f64 d])"
  from gives_directives [of "[]" d f64 "n_tok n # directives_tokens ds @ r"] obtain v0 where
    "gives (directives cb f64 d) (n_tok n # directives_tokens ds @ r) False v0 (n_tok n # directives_tokens ds @ r)"
    by (auto simp: directives_tokens_def writable_directives_def)
  then have "refuses ?inline (n_tok n # directives_tokens ds @ r)"
    using assms(3) \<open>0 < d\<close>
    by (intro refuses_map refuses_Cons_later [OF gives_optional_none] refuses_Cons_later refuses_Cons [OF refuses_set] refuses_with refuses_ident)
      (auto simp: FragmentSpread)
  moreover from gives_map [OF gives_Cons [OF gives_name gives_Cons [OF v(1) gives_Nil]], where f = spread_node and w = "NSelection x"] v(2)
  have "gives (c_map cb spread_node (c_tuple cb [name cb, directives cb f64 d])) (n_tok n # directives_tokens ds @ r) True (NSelection x) r"
    by (simp add: FragmentSpread)
  ultimately have "gives (c_or cb ?inline (c_map cb spread_node (c_tuple cb [name cb, directives cb f64 d])))
      (n_tok n # directives_tokens ds @ r) True (NSelection x) r" by (rule gives_or2)
  from gives_with [OF gives_punct [of "''...''"] this] show ?thesis
    unfolding selection_p_def
    by (intro gives_or2) (auto simp: FragmentSpread field_p_def intro!: refuses_map refuses_Cons refuses_name)
qed

lemma gives_set:
  assumes "length (set_tokens items) \<le> d" "writable_set f64 items"
  shows "gives (selection_set cb f64 d) (set_tokens items @ r) True (NSet items) r"
  using assms
proof (induction d arbitrary: items r)
  case (Suc d)
  have "gives (c_many1 cb (selection_p cb f64 d (selection_set cb f64 d))) (concat (List.map selection_tokens items) @ p_tok ''}'' # r) True
      (NMany (List.map NSelection items)) (p_tok ''}'' # r)"
  proof (rule gives_many1 [where Q = "next_not [''('', ''@'', ''{'', '':'']"])
    fix x r assume x: "x \<in> set items" and r: "next_not [''('', ''@'', ''{'', '':''] r"
    have "length (selection_tokens x) \<le> d" "writable_selection f64 x"
      using Suc.prems length_item [OF x, of selection_tokens] x by (auto simp: set_tokens_def writable_set_def list_all_iff)
    with Suc.IH r show "gives (selection_p cb f64 d (selection_set cb f64 d)) (selection_tokens x @ r) True (NSelection x) r"
      by (intro gives_selection)
  next
    show "refuses (selection_p cb f64 d (selection_set cb f64 d)) (p_tok ''}'' # r)"
      unfolding selection_p_def field_p_def by (auto intro!: refuses_or refuses_map refuses_Cons refuses_name refuses_with refuses_punct)
  qed (use Suc.prems(2) selection_starts in \<open>auto simp: writable_set_def\<close>)
  from gives_map [OF gives_Cons [OF gives_punct gives_Cons [OF this gives_Cons [OF gives_punct gives_Nil]]], where f = set_node and w = "NSet items"]
  show ?case by (simp add: set_tokens_def o_def)
qed (simp add: set_tokens_def)

subsection \<open>Operations and documents\<close>

lemma gives_variable:
  assumes "length (variable_tokens v) \<le> d" "writable_variable f64 v" "next_not [''!'', ''=''] r"
  shows "gives (variable_p cb f64 d) (variable_tokens v @ r) True (NVariable v) r"
proof -
  let ?default = "case var_default v of None \<Rightarrow> [] | Some x \<Rightarrow> p_tok ''='' # value_tokens x"
  have "\<exists>c w. gives (c_optional cb (c_with cb (punct cb ''='') (default_value cb f64 d))) (?default @ r) c w r
    \<and> map_option value_of (option_of_node w) = var_default v"
  proof (cases "var_default v")
    case None
    have "refuses (c_with cb (punct cb ''='') (default_value cb f64 d)) r"
      by (intro refuses_with refuses_punct next_not_mono [OF assms(3)]) simp
    from gives_optional_none [OF this] None show ?thesis by (intro exI [of _ False] exI [of _ NNone]) simp
  next
    case (Some x)
    with assms(1,2) have "gives (default_value cb f64 d) (value_tokens x @ r) True (NValue x) r"
      by (intro gives_default) (auto simp: variable_tokens_def writable_variable_def)
    from gives_optional_some [OF gives_with [OF gives_punct [of "''=''"] this]] Some show ?thesis
      by (intro exI [of _ True] exI [of _ "NSome (NValue x)"]) simp
  qed
  then obtain c w where w: "gives (c_optional cb (c_with cb (punct cb ''='') (default_value cb f64 d))) (?default @ r) c w r"
    "map_option value_of (option_of_node w) = var_default v" by blast
  have "next_not [''!''] (?default @ r)" using next_not_mono [OF assms(3), of "[''!'']"] by (simp split: option.split)
  with assms(1,2) have "gives (parse_type cb d) (type_tokens (var_type v) @ ?default @ r) True (NType (var_type v)) (?default @ r)"
    by (intro gives_type) (auto simp: variable_tokens_def writable_variable_def)
  from gives_map [OF gives_Cons [OF gives_skip [OF gives_with [OF gives_punct gives_name] gives_punct]
      gives_Cons [OF this gives_Cons [OF w(1) gives_Nil]]], where f = variable_node and w = "NVariable v"] w(2)
  show ?thesis by (simp add: variable_p_def variable_tokens_def)
qed

lemma gives_body:
  assumes "length (body_tokens b) \<le> d" "writable_body f64 b"
  shows "gives (operation_common cb f64 d) (body_tokens b @ r) True (NBody b) r"
proof -
  let ?vars = "if op_variables b = [] then [] else p_tok ''('' # concat (List.map variable_tokens (op_variables b)) @ [p_tok '')'']"
  let ?set = "set_tokens (op_selection_set b)" and ?dirs = "directives_tokens (op_directives b)"
  have len: "length ?dirs \<le> d" "length ?set \<le> d" "length (concat (List.map variable_tokens (op_variables b))) \<le> d"
    using assms(1) by (cases "op_variables b = []"; simp add: body_tokens_def)+
  have w: "writable_directives f64 (op_directives b)" "writable_set f64 (op_selection_set b)" "list_all (writable_variable f64) (op_variables b)"
    using assms(2) by (simp_all add: writable_body_def)
  let ?p = "c_skip cb (c_with cb (punct cb ''('') (c_many1 cb (variable_p cb f64 d))) (punct cb '')'')"
  have "\<exists>c v. gives (c_map cb unwrap_list (c_optional cb ?p)) (?vars @ ?dirs @ ?set @ r) c v (?dirs @ ?set @ r)
    \<and> List.map variable_of (items_of v) = op_variables b"
  proof (cases "op_variables b = []")
    case True
    have "refuses ?p (?dirs @ ?set @ r)" by (rule refuses_bracketed) simp
    from gives_map [OF gives_optional_none [OF this], of unwrap_list "NMany []"] True show ?thesis
      by (intro exI [of _ False] exI [of _ "NMany []"]) (simp add: unwrap_list_def)
  next
    case False
    have "gives (c_many1 cb (variable_p cb f64 d)) (concat (List.map variable_tokens (op_variables b)) @ p_tok '')'' # ?dirs @ ?set @ r) True
        (NMany (List.map NVariable (op_variables b))) (p_tok '')'' # ?dirs @ ?set @ r)"
    proof (rule gives_many1 [where Q = "next_not [''!'', ''='']"])
      fix x q assume x: "x \<in> set (op_variables b)" and q: "next_not [''!'', ''=''] q"
      show "gives (variable_p cb f64 d) (variable_tokens x @ q) True (NVariable x) q"
        using len(3) w(3) length_item [OF x, of variable_tokens] x q by (intro gives_variable) (auto simp: list_all_iff)
    qed (use False in \<open>auto simp: variable_tokens_def variable_p_def intro!: refuses_map refuses_Cons refuses_skip refuses_with refuses_punct\<close>)
    from gives_map [OF gives_optional_some [OF gives_bracketed [OF this]], where f = unwrap_list] False show ?thesis
      by (intro exI [of _ True] exI [of _ "NMany (List.map NVariable (op_variables b))"]) (simp add: unwrap_list_def o_def)
  qed
  then obtain c1 v1 where v1: "gives (c_map cb unwrap_list (c_optional cb ?p)) (?vars @ ?dirs @ ?set @ r) c1 v1 (?dirs @ ?set @ r)"
    "List.map variable_of (items_of v1) = op_variables b" by blast
  from gives_directives [OF len(1) w(1), of "?set @ r"] obtain c2 v2 where
    v2: "gives (directives cb f64 d) (?dirs @ ?set @ r) c2 v2 (?set @ r)" "directives_of v2 = op_directives b" by auto
  note tail = gives_Cons [OF v1(1) gives_Cons [OF v2(1) gives_Cons [OF gives_set [OF len(2) w(2)] gives_Nil]]]
  show ?thesis
  proof (cases "op_name b")
    case None
    have "refuses (name cb) (?vars @ ?dirs @ ?set @ r)"
      using no_name_ahead [of "op_directives b" "op_selection_set b" r] by (intro refuses_name) auto
    from gives_map [OF gives_Cons [OF gives_optional_none [OF this] tail], where f = body_node and w = "NBody b"] v1(2) v2(2) show ?thesis
      by (simp add: operation_common_def body_tokens_def None)
  next
    case (Some n)
    from gives_map [OF gives_Cons [OF gives_optional_some [OF gives_name] tail], where f = body_node and w = "NBody b"] v1(2) v2(2) show ?thesis
      by (simp add: operation_common_def body_tokens_def Some)
  qed
qed

lemma gives_operation:
  assumes "length (body_tokens b) \<le> d" "writable_body f64 b"
  shows "gives (operation_p cb f64 d k f) (n_tok k # body_tokens b @ r) True (NDefinition (Operation (f b))) r"
  using gives_map [OF gives_Cons [OF gives_ident [of k] gives_Cons [OF gives_body [OF assms] gives_Nil]], where f = "operation_node f"]
  by (simp add: operation_p_def)

lemma refuses_operation: "toks = [] \<or> \<not> (tk_kind (hd toks) = Name \<and> tk_value (hd toks) = k) \<Longrightarrow> refuses (operation_p cb f64 d k f) toks"
  unfolding operation_p_def by (intro refuses_map refuses_Cons refuses_ident)

lemmas operation_parsers = query_p_def mutation_p_def subscription_p_def

lemma gives_definition:
  assumes "length (definition_tokens x) \<le> d" "writable_definition f64 x"
  shows "gives (definition_p cb f64 d) (definition_tokens x @ r) True (NDefinition x) r"
proof (cases x)
  case (Operation op)
  have "gives (operation_definition_p cb f64 d) (operation_tokens op @ r) True (NDefinition x) r"
  proof (cases op)
    case (SelectionSet items)
    with assms Operation have "gives (selection_set cb f64 d) (set_tokens items @ r) True (NSet items) r" by (intro gives_set) auto
    from gives_map [OF this, where f = "\<lambda>n. NDefinition (Operation (SelectionSet (set_of n)))"] show ?thesis
      unfolding operation_definition_p_def by (intro gives_alternatives1) (simp add: Operation SelectionSet)
  next
    case (Query b)
    with assms Operation gives_operation [of b d f64 "''query''" Query r] show ?thesis
      unfolding operation_definition_p_def operation_parsers
      by (intro gives_alternatives [where i = 0]) (auto intro!: refuses_map refuses_set refuses_operation)
  next
    case (Mutation b)
    with assms Operation gives_operation [of b d f64 "''mutation''" Mutation r] show ?thesis
      unfolding operation_definition_p_def operation_parsers
      by (intro gives_alternatives [where i = 1]) (auto intro!: refuses_map refuses_set refuses_operation)
  next
    case (Subscription b)
    with assms Operation gives_operation [of b d f64 "''subscription''" Subscription r] show ?thesis
      unfolding operation_definition_p_def operation_parsers
      by (intro gives_alternatives [where i = 2]) (auto intro!: refuses_map refuses_set refuses_operation)
  qed
  then show ?thesis unfolding definition_p_def by (intro gives_or1) (simp add: Operation)
next
  case (Fragment f)
  let ?set = "set_tokens (frag_selection_set f)" and ?dirs = "directives_tokens (frag_directives f)"
  have len: "length ?dirs \<le> d" "length ?set \<le> d" and w: "writable_directives f64 (frag_directives f)" "writable_set f64 (frag_selection_set f)"
    and "0 < d" using assms by (auto simp: Fragment)
  from gives_directives [OF len(1) w(1), of "?set @ r"] obtain c2 v2 where
    v2: "gives (directives cb f64 d) (?dirs @ ?set @ r) c2 v2 (?set @ r)" "directives_of v2 = frag_directives f" by auto
  from gives_map [OF gives_Cons [OF gives_ident gives_Cons [OF gives_name gives_Cons [OF gives_with [OF gives_ident gives_name]
      gives_Cons [OF v2(1) gives_Cons [OF gives_set [OF len(2) w(2)] gives_Nil]]]]], where f = fragment_node and w = "NDefinition x"] v2(2)
  have "gives (fragment_definition_p cb f64 d) (definition_tokens x @ r) True (NDefinition x) r"
    by (simp add: fragment_definition_p_def Fragment)
  then show ?thesis
    unfolding definition_p_def operation_definition_p_def operation_parsers
    by (intro gives_or2) (auto simp: Fragment \<open>0 < d\<close> intro!: refuses_alternatives refuses_map refuses_set refuses_operation)
qed

lemma refuses_definition: "0 < d \<Longrightarrow> refuses (definition_p cb f64 d) []"
  unfolding definition_p_def operation_definition_p_def operation_parsers fragment_definition_p_def
  by (intro refuses_or refuses_alternatives) (auto intro!: refuses_map refuses_set refuses_operation refuses_Cons refuses_ident)

lemma gives_document:
  assumes "length (document_tokens doc) \<le> d" "list_all (writable_definition f64) doc" "doc \<noteq> []"
  shows "gives (document_p cb f64 d) (document_tokens doc) True (NMany (List.map NDefinition doc)) []"
proof -
  have "0 < d"
  proof -
    from assms(3) obtain x where x: "x \<in> set doc" by (cases doc) auto
    have "definition_tokens x \<noteq> []" by (cases x rule: definition_tokens.cases) (auto simp: set_tokens_def elim: operation_tokens.elims)
    with length_item [OF x, of definition_tokens] assms(1) show ?thesis by (cases "definition_tokens x") (auto simp: document_tokens_def)
  qed
  have "gives (c_many1 cb (definition_p cb f64 d)) (concat (List.map definition_tokens doc) @ []) True (NMany (List.map NDefinition doc)) []"
  proof (rule gives_many1 [where Q = "\<lambda>_. True"])
    fix x r assume x: "x \<in> set doc"
    show "gives (definition_p cb f64 d) (definition_tokens x @ r) True (NDefinition x) r"
      using assms(1,2) length_item [OF x, of definition_tokens] x
      by (intro gives_definition) (auto simp: document_tokens_def list_all_iff)
  qed (use assms(3) refuses_definition [OF \<open>0 < d\<close>] in auto)
  from gives_skip [OF this gives_eof] show ?thesis by (simp add: document_p_def document_tokens_def)
qed

lemma breaks_negative:
  assumes "tk_kind t = IntValue" "begins ''-'' (tk_value t)" "0 < d"
  shows "breaks (value_p cb f64 d) (t # rest)"
proof -
  have "parse_unsigned 64 (tk_value t) = None"
    using assms(2) by (cases "tk_value t") (auto simp: parse_unsigned_def Let_def begins_def is_digit_def)
  then have "int_node (NToken t) = None" by (simp add: int_node_def)
  from breaks_and_then [OF gives_kind [OF assms(1), of rest], where g = int_node, OF this]
  have "breaks (int_value cb) (t # rest)" by (simp add: int_value_def)
  then have "breaks (plain_value cb f64) (t # rest)"
    unfolding plain_value_def using assms(1) by (intro breaks_alternatives [where i = 3]) (auto intro!: refuses_leaf)
  with assms(3) show ?thesis by (cases d) (auto intro: breaks_alternatives1)
qed

end

section \<open>Properties\<close>

lemma run_length: "token_run ts toks ts' \<Longrightarrow> fresh ts \<Longrightarrow> length toks \<le> length (unread ts)"
proof (induction rule: token_run.induct)
  case (run_step ts t ts1 toks ts2)
  then have "read_token ts = (Inr t, ts1)" by (simp add: uncons_fresh)
  from read_token_cases [OF this] have "fresh ts1" "length (unread ts1) < length (unread ts)" by auto
  with run_step.IH show ?case by simp
qed simp

text \<open>A text with some tokens has them ahead, and is long enough for the calls of the parser.\<close>

lemma tokens_ahead:
  assumes "token_run (token_stream_new s) toks ts" "fst (uncons ts) = Inl EndOfInput"
  shows "ahead (token_stream_new s) toks" "length toks \<le> length s"
proof -
  show "ahead (token_stream_new s) toks" by (rule ahead_run [OF assms(1) new_stream(1) assms(2)])
  have "length (unread (token_stream_new s)) \<le> length s" using new_stream(3) by (simp add: unread_def)
  with run_length [OF assms(1) new_stream(1)] show "length toks \<le> length s" by simp
qed

lemma document_parsed:
  assumes "combinators cb" "ahead (token_stream_new s) (document_tokens doc)" "length (document_tokens doc) \<le> length s"
    and "list_all (writable_definition f64) doc" "doc \<noteq> []"
  shows "parse_query cb f64 s = Some doc"
proof -
  from combinators.gives_document [OF assms(1,3,4,5)] assms(2) obtain s' where
    "document_p cb f64 (length s) (token_stream_new s) = (Matched True (NMany (map NDefinition doc)), s')" by (rule givesE)
  then show ?thesis by (simp add: parse_query_def o_def)
qed


lemma run_head:
  "fst (uncons s) = Inr t \<Longrightarrow> token_run (snd (uncons s)) toks s' \<Longrightarrow> token_run s (t # toks) s'"
  by (cases "uncons s") (auto intro: run_step)


text \<open>
  A negative integer is no value of the grammar, although the lexer gives it as an integer: the
  parser of values fails for good at the first integer token with a sign, whatever follows.
\<close>

theorem negative_integers_refused:
  assumes "combinators cb" "ahead s (t # rest)" "tk_kind t = IntValue" "begins ''-'' (tk_value t)" "0 < d"
  shows "\<exists>s'. value_p cb f64 d s = (Failed True, s')"
proof -
  have "breaks (value_p cb f64 d) (t # rest)" by (rule combinators.breaks_negative [OF assms(1,3,4,5)])
  from breaksE [OF this assms(2)] show ?thesis by blast
qed

lemma negative_integers_refused_witness:
  "\<exists>s'. value_p ll1 Some 1 (token_stream_new ''-5'') = (Failed True, s')"
proof -
  let ?t = "\<lparr>tk_kind = IntValue, tk_value = ''-5''\<rparr>" and ?s = "token_stream_new ''-5''"
  have "fst (uncons ?s) = Inr ?t" and e: "fst (uncons (snd (uncons ?s))) = Inl EndOfInput" by code_simp+
  then have "token_run ?s [?t] (snd (uncons ?s))" by (auto intro!: run_head run_nil)
  from ahead_run [OF this new_stream(1) e] have a: "ahead ?s [?t]" .
  show ?thesis by (rule negative_integers_refused [OF ll.combinators_axioms a]) (simp_all add: begins_def)
qed

end
