(* ===== verification/Query_Texts.thy ===== *)
theory Query_Texts
  imports Api_Laws Minify Grammar_Laws
begin

text \<open>
  The reading of a query text and its answer: the web API with the parser of \<open>Grammar\<close> gives to a minified query the
  answer that it gives to the query.
\<close>

section \<open>Numbers in documents\<close>

text \<open>Lists of tokens that can be put one after another: no number before an ellipsis, and none at the end.\<close>

definition settled :: "token list \<Rightarrow> bool" where
  "settled toks \<longleftrightarrow> numbers_apart toks \<and> (toks \<noteq> [] \<longrightarrow> \<not> is_number (last toks))"

definition no_dots :: "token list \<Rightarrow> bool" where
  "no_dots toks \<longleftrightarrow> p_tok ''...'' \<notin> set toks"

lemma no_dots_simps [simp]:
  "no_dots []" "no_dots (t # toks) \<longleftrightarrow> t \<noteq> p_tok ''...'' \<and> no_dots toks" "no_dots (xs @ ys) \<longleftrightarrow> no_dots xs \<and> no_dots ys"
  "no_dots (concat xss) \<longleftrightarrow> (\<forall>xs \<in> set xss. no_dots xs)"
  by (auto simp: no_dots_def)

lemma dots_eq: "tk_kind u = Punctuator \<and> tk_value u = ''...'' \<longleftrightarrow> u = p_tok ''...''"
  by (cases u) auto

lemma apart_no_dots: "no_dots toks \<Longrightarrow> numbers_apart toks"
  by (induction toks rule: numbers_apart.induct) (simp_all add: dots_eq)

lemma apart_Cons: "numbers_apart (t # toks) \<longleftrightarrow> numbers_apart toks \<and> \<not> (is_number t \<and> toks \<noteq> [] \<and> hd toks = p_tok ''...'')"
  by (cases toks) (auto simp: dots_eq)

lemma apart_append: "numbers_apart xs \<Longrightarrow> numbers_apart ys \<Longrightarrow> (xs \<noteq> [] \<longrightarrow> \<not> is_number (last xs)) \<Longrightarrow> numbers_apart (xs @ ys)"
  by (induction xs) (auto simp: apart_Cons hd_append split: if_splits)

lemma settled_Nil [simp]: "settled []"
  by (simp add: settled_def)

lemma settled_append: "settled xs \<Longrightarrow> settled ys \<Longrightarrow> settled (xs @ ys)"
  by (auto simp: settled_def last_append split: if_splits intro: apart_append)

lemma settled_concat: "(\<And>xs. xs \<in> set xss \<Longrightarrow> settled xs) \<Longrightarrow> settled (concat xss)"
  by (induction xss) (auto intro: settled_append)

lemma settled_Cons: "\<not> is_number t \<Longrightarrow> settled toks \<Longrightarrow> settled (t # toks)"
  using settled_append [of "[t]" toks] by (simp add: settled_def)

lemma settled_closed: "no_dots toks \<Longrightarrow> \<not> is_number t \<Longrightarrow> t \<noteq> p_tok ''...'' \<Longrightarrow> settled (toks @ [t])"
  by (auto simp: settled_def intro: apart_no_dots)

lemma plain_tokens [simp]: "\<not> is_number (p_tok v)" "\<not> is_number (n_tok v)"
  by (simp_all add: is_number_def)


lemma no_dots_value: "no_dots (value_tokens v)"
  by (induction v) auto

lemma no_dots_type: "no_dots (type_tokens t)"
  by (induction t) auto

lemma settled_arguments: "settled (argument_tokens args)"
proof -
  have "no_dots (p_tok ''('' # concat (map entry_tokens args))"
    by (auto simp: entry_tokens_def no_dots_value)
  from settled_closed [OF this, of "p_tok '')''"] show ?thesis by (simp add: argument_tokens_def)
qed

lemma settled_directives: "settled (directives_tokens ds)"
  unfolding directives_tokens_def
  by (rule settled_concat) (auto simp: directive_tokens_def intro!: settled_Cons settled_arguments)

lemma settled_selection: "settled (selection_tokens sel)"
proof (induction sel)
  case (Field al n args ds items)
  then have "settled (concat (map selection_tokens items) @ [p_tok ''}''])"
    by (intro settled_append settled_concat) (auto intro: settled_Cons)
  then show ?case
    by (auto intro!: settled_Cons settled_append settled_arguments settled_directives split: option.split)
next
  case (InlineFragment cond ds items)
  then have "settled (concat (map selection_tokens items) @ [p_tok ''}''])"
    by (intro settled_append settled_concat) (auto intro: settled_Cons)
  then show ?case by (auto intro!: settled_Cons settled_append settled_directives split: option.split)
qed (auto intro!: settled_Cons settled_directives)

lemma settled_set: "settled (set_tokens items)"
  unfolding set_tokens_def by (intro settled_Cons settled_append settled_concat) (auto intro: settled_selection settled_Cons)

lemma settled_body: "settled (body_tokens b)"
proof -
  have "no_dots (p_tok ''('' # concat (map variable_tokens vs))" for vs
    by (auto simp: variable_tokens_def no_dots_value no_dots_type split: option.split)
  from settled_closed [OF this, of "p_tok '')''"]
  have "settled (p_tok ''('' # concat (map variable_tokens vs) @ [p_tok '')''])" for vs by simp
  then show ?thesis
    unfolding body_tokens_def
    by (intro settled_append settled_directives settled_set) (auto intro: settled_Cons split: option.split)
qed

lemma settled_operation: "settled (operation_tokens op)"
  by (cases op) (auto intro!: settled_Cons settled_set settled_body)

lemma settled_definition: "settled (definition_tokens d)"
  by (cases d) (auto intro!: settled_Cons settled_append settled_directives settled_set settled_operation)

lemma document_numbers_apart: "numbers_apart (document_tokens doc)"
proof -
  have "settled (document_tokens doc)"
    unfolding document_tokens_def by (rule settled_concat) (auto intro: settled_definition)
  then show ?thesis by (simp add: settled_def)
qed

section \<open>Minified queries\<close>

lemma minified_document:
  assumes "combinators cb" "token_run (token_stream_new s) (document_tokens doc) ts" "fst (uncons ts) = Inl EndOfInput"
    and "list_all (writable_definition f64) doc" "doc \<noteq> []"
  shows "\<exists>m. minify_query s = Some (Inr m) \<and> parse_query cb f64 m = Some doc \<and> parse_query cb f64 s = Some doc"
proof -
  obtain ts' where "token_run (token_stream_new (minified False (document_tokens doc))) (document_tokens doc) ts'"
      "fst (uncons ts') = Inl EndOfInput"
    using minified_read_again [OF assms(2) document_numbers_apart] by blast
  from document_parsed [OF assms(1) tokens_ahead [OF this] assms(4,5)]
    document_parsed [OF assms(1) tokens_ahead [OF assms(2,3)] assms(4,5)] minify_query_run [OF assms(2,3)]
  show ?thesis by simp
qed


definition parsing_api :: api_env where
  "parsing_api = demo_api\<lparr>ap_parse_query := parse_query ll1 Some\<rparr>"


end
