(* ===== verification/Schema_Grammar.thy ===== *)
theory Schema_Grammar
  imports Grammar
begin

text \<open>
  The grammar of schema documents, \<^verbatim>\<open>parser/src/schema/grammar.rs\<close>, over the combinators \<open>cb\<close>. As in the
  grammar of queries positions are left out, and \<open>d\<close> bounds the nesting of values and types.
  \<^verbatim>\<open>flat_map\<close> with a closure that may fail is \<open>c_and_then\<close>; \<^verbatim>\<open>choice\<close> is the chain of its alternatives.
\<close>

section \<open>What the parsers return\<close>

fun input_of :: "node \<Rightarrow> input_value" where
  "input_of (NInput i) = i"
| "input_of _ = \<lparr>iv_description = None, iv_name = [], iv_type = NamedType [], iv_default = None, iv_directives = []\<rparr>"

fun field_of :: "node \<Rightarrow> field" where
  "field_of (NField f) = f"
| "field_of _ = \<lparr>fd_description = None, fd_name = [], fd_arguments = [], fd_type = NamedType [], fd_directives = []\<rparr>"

fun enum_value_of :: "node \<Rightarrow> enum_value" where
  "enum_value_of (NEnumValue v) = v"
| "enum_value_of _ = \<lparr>ev_description = None, ev_name = [], ev_directives = []\<rparr>"

fun location_of :: "node \<Rightarrow> directive_location" where
  "location_of (NLocation l) = l" | "location_of _ = LQuery"

fun type_definition_of :: "node \<Rightarrow> type_definition" where
  "type_definition_of (NTypeDef t) = t"
| "type_definition_of _ = TScalar \<lparr>sc_description = None, sc_name = [], sc_directives = []\<rparr>"

fun extension_of :: "node \<Rightarrow> type_extension" where
  "extension_of (NExtension t) = t"
| "extension_of _ = XScalar \<lparr>sc_description = None, sc_name = [], sc_directives = []\<rparr>"

fun item_of :: "node \<Rightarrow> schema_item" where
  "item_of (NItem x) = x"
| "item_of _ = SchemaDefinition \<lparr>sd_directives = [], sd_query = None, sd_mutation = None, sd_subscription = None\<rparr>"

definition texts_of :: "node \<Rightarrow> string list" where
  "texts_of n = map text_of (items_of n)"

definition text_option :: "node \<Rightarrow> string option" where
  "text_option n = map_option text_of (option_of_node n)"

section \<open>The schema definition\<close>

text \<open>The operations one after the other; the flag tells whether an error has been added.\<close>

fun add_operation :: "schema_definition \<times> bool \<Rightarrow> node \<Rightarrow> schema_definition \<times> bool" where
  "add_operation (sd, err) (NTuple [oper, type_name]) =
     (if text_of oper = ''query'' \<and> sd_query sd \<noteq> None then (sd, True)
      else if text_of oper = ''query'' then (sd\<lparr>sd_query := Some (text_of type_name)\<rparr>, err)
      else if text_of oper = ''mutation'' \<and> sd_mutation sd \<noteq> None then (sd, True)
      else if text_of oper = ''mutation'' then (sd\<lparr>sd_mutation := Some (text_of type_name)\<rparr>, err)
      else if text_of oper = ''subscription'' \<and> sd_subscription sd \<noteq> None then (sd, True)
      else if text_of oper = ''subscription'' then (sd\<lparr>sd_subscription := Some (text_of type_name)\<rparr>, err)
      else (sd, True))"
| "add_operation s _ = s"

fun schema_node :: "node \<Rightarrow> node option" where
  "schema_node (NTuple [keyword, ds, operations]) =
     (case foldl add_operation
         (\<lparr>sd_directives = directives_of ds, sd_query = None, sd_mutation = None, sd_subscription = None\<rparr>, False) (items_of operations) of
        (sd, err) \<Rightarrow> if err then None else Some (NItem (SchemaDefinition sd)))"
| "schema_node _ = None"

definition schema_p :: "combine \<Rightarrow> (string \<Rightarrow> string option) \<Rightarrow> nat \<Rightarrow> parser" where
  "schema_p cb f64 d = c_and_then cb schema_node (c_tuple cb
     [ident cb ''schema'', directives cb f64 d,
      c_skip cb (c_with cb (punct cb ''{'') (c_many cb (c_tuple cb [c_skip cb (kind cb Name) (punct cb '':''), name cb]))) (punct cb ''}'')])"

section \<open>Scalars, objects and interfaces\<close>

fun scalar_node :: "node \<Rightarrow> node" where
  "scalar_node (NTuple [n, ds]) = NTypeDef (TScalar \<lparr>sc_description = None, sc_name = text_of n, sc_directives = directives_of ds\<rparr>)"
| "scalar_node n = n"

definition scalar_type_p :: "combine \<Rightarrow> (string \<Rightarrow> string option) \<Rightarrow> nat \<Rightarrow> parser" where
  "scalar_type_p cb f64 d = c_map cb scalar_node (c_tuple cb [c_with cb (ident cb ''scalar'') (name cb), directives cb f64 d])"

fun scalar_extension_node :: "node \<Rightarrow> node option" where
  "scalar_extension_node (NTuple [n, ds]) =
     (if directives_of ds = [] then None
      else Some (NExtension (XScalar \<lparr>sc_description = None, sc_name = text_of n, sc_directives = directives_of ds\<rparr>)))"
| "scalar_extension_node _ = None"

definition scalar_type_extension :: "combine \<Rightarrow> (string \<Rightarrow> string option) \<Rightarrow> nat \<Rightarrow> parser" where
  "scalar_type_extension cb f64 d = c_and_then cb scalar_extension_node (c_tuple cb [c_with cb (ident cb ''scalar'') (name cb), directives cb f64 d])"

definition implements_interfaces :: "combine \<Rightarrow> parser" where
  "implements_interfaces cb = c_map cb unwrap_list (c_optional cb
     (c_with cb (c_skip cb (ident cb ''implements'') (c_optional cb (punct cb ''&''))) (c_sep_by1 cb (name cb) (punct cb ''&''))))"

fun input_node :: "node \<Rightarrow> node" where
  "input_node (NTuple [descr, n, t, v, ds]) =
     NInput \<lparr>iv_description = text_option descr, iv_name = text_of n, iv_type = type_of t,
       iv_default = map_option value_of (option_of_node v), iv_directives = directives_of ds\<rparr>"
| "input_node n = n"

definition input_value_p :: "combine \<Rightarrow> (string \<Rightarrow> string option) \<Rightarrow> nat \<Rightarrow> parser" where
  "input_value_p cb f64 d = c_map cb input_node (c_tuple cb
     [c_optional cb (string_p cb), name cb, c_with cb (punct cb '':'') (parse_type cb d),
      c_optional cb (c_with cb (punct cb ''='') (default_value cb f64 d)), directives cb f64 d])"

definition arguments_definition :: "combine \<Rightarrow> (string \<Rightarrow> string option) \<Rightarrow> nat \<Rightarrow> parser" where
  "arguments_definition cb f64 d = c_map cb unwrap_list (c_optional cb
     (c_skip cb (c_with cb (punct cb ''('') (c_many1 cb (input_value_p cb f64 d))) (punct cb '')'')))"

fun schema_field_node :: "node \<Rightarrow> node" where
  "schema_field_node (NTuple [descr, n, args, t, ds]) =
     NField \<lparr>fd_description = text_option descr, fd_name = text_of n, fd_arguments = map input_of (items_of args),
       fd_type = type_of t, fd_directives = directives_of ds\<rparr>"
| "schema_field_node n = n"

definition schema_field :: "combine \<Rightarrow> (string \<Rightarrow> string option) \<Rightarrow> nat \<Rightarrow> parser" where
  "schema_field cb f64 d = c_map cb schema_field_node (c_tuple cb
     [c_optional cb (string_p cb), name cb, arguments_definition cb f64 d,
      c_with cb (punct cb '':'') (parse_type cb d), directives cb f64 d])"

definition fields_p :: "combine \<Rightarrow> (string \<Rightarrow> string option) \<Rightarrow> nat \<Rightarrow> parser" where
  "fields_p cb f64 d = c_map cb unwrap_list (c_optional cb
     (c_skip cb (c_with cb (punct cb ''{'') (c_many1 cb (schema_field cb f64 d))) (punct cb ''}'')))"

fun object_of :: "node \<Rightarrow> object_type" where
  "object_of (NTuple [n, interfaces, ds, fds]) =
     \<lparr>ob_description = None, ob_name = text_of n, ob_implements = texts_of interfaces, ob_directives = directives_of ds,
      ob_fields = map field_of (items_of fds)\<rparr>"
| "object_of _ = \<lparr>ob_description = None, ob_name = [], ob_implements = [], ob_directives = [], ob_fields = []\<rparr>"

text \<open>The four parts of an object or interface type, which the code writes out for each of the four parsers.\<close>

definition object_parts :: "combine \<Rightarrow> (string \<Rightarrow> string option) \<Rightarrow> nat \<Rightarrow> string \<Rightarrow> parser" where
  "object_parts cb f64 d keyword = c_tuple cb
     [c_with cb (ident cb keyword) (name cb), implements_interfaces cb, directives cb f64 d, fields_p cb f64 d]"

definition object_type_p :: "combine \<Rightarrow> (string \<Rightarrow> string option) \<Rightarrow> nat \<Rightarrow> parser" where
  "object_type_p cb f64 d = c_map cb (\<lambda>n. NTypeDef (TObject (object_of n))) (object_parts cb f64 d ''type'')"

definition object_extension_node :: "node \<Rightarrow> node option" where
  "object_extension_node n =
     (if ob_implements (object_of n) = [] \<and> ob_directives (object_of n) = [] \<and> ob_fields (object_of n) = [] then None
      else Some (NExtension (XObject (object_of n))))"

definition object_type_extension :: "combine \<Rightarrow> (string \<Rightarrow> string option) \<Rightarrow> nat \<Rightarrow> parser" where
  "object_type_extension cb f64 d = c_and_then cb object_extension_node (object_parts cb f64 d ''type'')"

definition interface_type_p :: "combine \<Rightarrow> (string \<Rightarrow> string option) \<Rightarrow> nat \<Rightarrow> parser" where
  "interface_type_p cb f64 d = c_map cb (\<lambda>n. NTypeDef (TInterface (object_of n))) (object_parts cb f64 d ''interface'')"

definition interface_extension_node :: "node \<Rightarrow> node option" where
  "interface_extension_node n =
     (if ob_directives (object_of n) = [] \<and> ob_fields (object_of n) = [] then None
      else Some (NExtension (XInterface (object_of n))))"

definition interface_type_extension :: "combine \<Rightarrow> (string \<Rightarrow> string option) \<Rightarrow> nat \<Rightarrow> parser" where
  "interface_type_extension cb f64 d = c_and_then cb interface_extension_node (object_parts cb f64 d ''interface'')"

section \<open>Unions, enumerations and input objects\<close>

definition union_members :: "combine \<Rightarrow> parser" where
  "union_members cb = c_with cb (c_optional cb (punct cb ''|'')) (c_sep_by1 cb (name cb) (punct cb ''|''))"

definition union_parts :: "combine \<Rightarrow> (string \<Rightarrow> string option) \<Rightarrow> nat \<Rightarrow> parser" where
  "union_parts cb f64 d = c_tuple cb
     [c_with cb (ident cb ''union'') (name cb), directives cb f64 d, c_optional cb (c_with cb (punct cb ''='') (union_members cb))]"

fun union_of :: "node \<Rightarrow> union_type" where
  "union_of (NTuple [n, ds, types]) =
     \<lparr>un_description = None, un_name = text_of n, un_directives = directives_of ds, un_types = texts_of (unwrap_list types)\<rparr>"
| "union_of _ = \<lparr>un_description = None, un_name = [], un_directives = [], un_types = []\<rparr>"

definition union_type_p :: "combine \<Rightarrow> (string \<Rightarrow> string option) \<Rightarrow> nat \<Rightarrow> parser" where
  "union_type_p cb f64 d = c_map cb (\<lambda>n. NTypeDef (TUnion (union_of n))) (union_parts cb f64 d)"

fun union_extension_node :: "node \<Rightarrow> node option" where
  "union_extension_node (NTuple [n, ds, types]) =
     (if directives_of ds = [] \<and> option_of_node types = None then None
      else Some (NExtension (XUnion (union_of (NTuple [n, ds, types])))))"
| "union_extension_node _ = None"

definition union_type_extension :: "combine \<Rightarrow> (string \<Rightarrow> string option) \<Rightarrow> nat \<Rightarrow> parser" where
  "union_type_extension cb f64 d = c_and_then cb union_extension_node (union_parts cb f64 d)"

fun enum_value_node :: "node \<Rightarrow> node" where
  "enum_value_node (NTuple [descr, n, ds]) =
     NEnumValue \<lparr>ev_description = text_option descr, ev_name = text_of n, ev_directives = directives_of ds\<rparr>"
| "enum_value_node n = n"

definition enum_value_p :: "combine \<Rightarrow> (string \<Rightarrow> string option) \<Rightarrow> nat \<Rightarrow> parser" where
  "enum_value_p cb f64 d = c_map cb enum_value_node (c_tuple cb [c_optional cb (string_p cb), name cb, directives cb f64 d])"

definition enum_values :: "combine \<Rightarrow> (string \<Rightarrow> string option) \<Rightarrow> nat \<Rightarrow> parser" where
  "enum_values cb f64 d = c_skip cb (c_with cb (punct cb ''{'') (c_many1 cb (enum_value_p cb f64 d))) (punct cb ''}'')"

definition enum_parts :: "combine \<Rightarrow> (string \<Rightarrow> string option) \<Rightarrow> nat \<Rightarrow> parser" where
  "enum_parts cb f64 d = c_tuple cb
     [c_with cb (ident cb ''enum'') (name cb), directives cb f64 d, c_optional cb (enum_values cb f64 d)]"

fun enum_of :: "node \<Rightarrow> enum_type" where
  "enum_of (NTuple [n, ds, vals]) =
     \<lparr>en_description = None, en_name = text_of n, en_directives = directives_of ds,
      en_values = map enum_value_of (items_of (unwrap_list vals))\<rparr>"
| "enum_of _ = \<lparr>en_description = None, en_name = [], en_directives = [], en_values = []\<rparr>"

definition enum_type_p :: "combine \<Rightarrow> (string \<Rightarrow> string option) \<Rightarrow> nat \<Rightarrow> parser" where
  "enum_type_p cb f64 d = c_map cb (\<lambda>n. NTypeDef (TEnum (enum_of n))) (enum_parts cb f64 d)"

fun enum_extension_node :: "node \<Rightarrow> node option" where
  "enum_extension_node (NTuple [n, ds, vals]) =
     (if directives_of ds = [] \<and> option_of_node vals = None then None
      else Some (NExtension (XEnum (enum_of (NTuple [n, ds, vals])))))"
| "enum_extension_node _ = None"

definition enum_type_extension :: "combine \<Rightarrow> (string \<Rightarrow> string option) \<Rightarrow> nat \<Rightarrow> parser" where
  "enum_type_extension cb f64 d = c_and_then cb enum_extension_node (enum_parts cb f64 d)"

definition input_fields :: "combine \<Rightarrow> (string \<Rightarrow> string option) \<Rightarrow> nat \<Rightarrow> parser" where
  "input_fields cb f64 d = c_map cb unwrap_list (c_optional cb
     (c_skip cb (c_with cb (punct cb ''{'') (c_many1 cb (input_value_p cb f64 d))) (punct cb ''}'')))"

definition input_object_parts :: "combine \<Rightarrow> (string \<Rightarrow> string option) \<Rightarrow> nat \<Rightarrow> parser" where
  "input_object_parts cb f64 d = c_tuple cb
     [c_with cb (ident cb ''input'') (name cb), directives cb f64 d, input_fields cb f64 d]"

fun input_object_of :: "node \<Rightarrow> input_object_type" where
  "input_object_of (NTuple [n, ds, fds]) =
     \<lparr>io_description = None, io_name = text_of n, io_directives = directives_of ds, io_fields = map input_of (items_of fds)\<rparr>"
| "input_object_of _ = \<lparr>io_description = None, io_name = [], io_directives = [], io_fields = []\<rparr>"

definition input_object_type_p :: "combine \<Rightarrow> (string \<Rightarrow> string option) \<Rightarrow> nat \<Rightarrow> parser" where
  "input_object_type_p cb f64 d = c_map cb (\<lambda>n. NTypeDef (TInputObject (input_object_of n))) (input_object_parts cb f64 d)"

definition input_object_extension_node :: "node \<Rightarrow> node option" where
  "input_object_extension_node n =
     (if io_directives (input_object_of n) = [] \<and> io_fields (input_object_of n) = [] then None
      else Some (NExtension (XInputObject (input_object_of n))))"

definition input_object_type_extension :: "combine \<Rightarrow> (string \<Rightarrow> string option) \<Rightarrow> nat \<Rightarrow> parser" where
  "input_object_type_extension cb f64 d = c_and_then cb input_object_extension_node (input_object_parts cb f64 d)"

section \<open>Directives\<close>

definition location_node :: "node \<Rightarrow> node option" where
  "location_node n = map_option NLocation (location_from_str (text_of n))"

definition directive_locations :: "combine \<Rightarrow> parser" where
  "directive_locations cb = c_map cb unwrap_list (c_optional cb (c_with cb (c_optional cb (punct cb ''|''))
     (c_sep_by1 cb (c_and_then cb location_node (kind cb Name)) (punct cb ''|''))))"

fun directive_definition_node :: "node \<Rightarrow> node" where
  "directive_definition_node (NTuple [n, args, repeatable, locations]) =
     NItem (DirectiveDefinition \<lparr>dd_description = None, dd_name = text_of n, dd_arguments = map input_of (items_of args),
       dd_repeatable = (option_of_node repeatable \<noteq> None), dd_locations = map location_of (items_of locations)\<rparr>)"
| "directive_definition_node n = n"

definition directive_definition_p :: "combine \<Rightarrow> (string \<Rightarrow> string option) \<Rightarrow> nat \<Rightarrow> parser" where
  "directive_definition_p cb f64 d = c_map cb directive_definition_node (c_tuple cb
     [c_with cb (c_tuple cb [ident cb ''directive'', punct cb ''@'']) (name cb), arguments_definition cb f64 d,
      c_optional cb (ident cb ''repeatable''), c_with cb (ident cb ''on'') (directive_locations cb)])"

section \<open>Documents\<close>

fun describe :: "string option \<Rightarrow> schema_item \<Rightarrow> schema_item" where
  "describe descr (TypeDefinition (TScalar s)) = TypeDefinition (TScalar (s\<lparr>sc_description := descr\<rparr>))"
| "describe descr (TypeDefinition (TObject ob)) = TypeDefinition (TObject (ob\<lparr>ob_description := descr\<rparr>))"
| "describe descr (TypeDefinition (TInterface ob)) = TypeDefinition (TInterface (ob\<lparr>ob_description := descr\<rparr>))"
| "describe descr (TypeDefinition (TUnion u)) = TypeDefinition (TUnion (u\<lparr>un_description := descr\<rparr>))"
| "describe descr (TypeDefinition (TEnum e)) = TypeDefinition (TEnum (e\<lparr>en_description := descr\<rparr>))"
| "describe descr (TypeDefinition (TInputObject io)) = TypeDefinition (TInputObject (io\<lparr>io_description := descr\<rparr>))"
| "describe descr (DirectiveDefinition dd) = DirectiveDefinition (dd\<lparr>dd_description := descr\<rparr>)"
| "describe descr (SchemaDefinition sd) = SchemaDefinition sd"
| "describe descr (TypeExtension x) = TypeExtension x"

text \<open>The last two cases are \<^verbatim>\<open>unreachable!()\<close>: the alternatives give types and directives only.\<close>

fun described_node :: "node \<Rightarrow> node" where
  "described_node (NTuple [descr, NItem x]) = NItem (describe (text_option descr) x)"
| "described_node n = n"

definition described_definition :: "combine \<Rightarrow> (string \<Rightarrow> string option) \<Rightarrow> nat \<Rightarrow> parser" where
  "described_definition cb f64 d = c_map cb described_node (c_tuple cb
     [c_optional cb (string_p cb),
      c_or cb (c_map cb (\<lambda>n. NItem (TypeDefinition (type_definition_of n)))
          (alternatives cb (scalar_type_p cb f64 d)
            [object_type_p cb f64 d, interface_type_p cb f64 d, union_type_p cb f64 d, enum_type_p cb f64 d, input_object_type_p cb f64 d]))
        (directive_definition_p cb f64 d)])"

definition type_extension_p :: "combine \<Rightarrow> (string \<Rightarrow> string option) \<Rightarrow> nat \<Rightarrow> parser" where
  "type_extension_p cb f64 d = c_with cb (ident cb ''extend'')
     (alternatives cb (scalar_type_extension cb f64 d)
       [object_type_extension cb f64 d, interface_type_extension cb f64 d, union_type_extension cb f64 d,
        enum_type_extension cb f64 d, input_object_type_extension cb f64 d])"

definition item_p :: "combine \<Rightarrow> (string \<Rightarrow> string option) \<Rightarrow> nat \<Rightarrow> parser" where
  "item_p cb f64 d = alternatives cb (schema_p cb f64 d)
     [c_map cb (\<lambda>n. NItem (TypeExtension (extension_of n))) (type_extension_p cb f64 d), described_definition cb f64 d]"

definition schema_document_p :: "combine \<Rightarrow> (string \<Rightarrow> string option) \<Rightarrow> nat \<Rightarrow> parser" where
  "schema_document_p cb f64 d = c_skip cb (c_many1 cb (item_p cb f64 d)) (c_eof cb)"

definition parse_schema :: "combine \<Rightarrow> (string \<Rightarrow> string option) \<Rightarrow> string \<Rightarrow> schema_document option" where
  "parse_schema cb f64 s = (case schema_document_p cb f64 (length s) (token_stream_new s) of
     (Matched _ n, _) \<Rightarrow> Some (map item_of (items_of n)) | (Failed _, _) \<Rightarrow> None)"

end
