(* ===== verification/Schema_Grammar_Laws.thy ===== *)
theory Schema_Grammar_Laws
  imports Schema_Grammar Grammar_Laws
begin

text \<open>
  Every schema document is read back from its tokens, and the checks that the grammar makes beyond its
  rules: the operations of a schema definition, and extensions that extend nothing.
\<close>

section \<open>Tokens of schema documents\<close>

fun description_tokens :: "string option \<Rightarrow> token list" where
  "description_tokens None = []"
| "description_tokens (Some s) = [\<lparr>tk_kind = StringValue, tk_value = quoted_text s\<rparr>]"

fun default_tokens :: "gql_value option \<Rightarrow> token list" where
  "default_tokens None = []"
| "default_tokens (Some x) = p_tok ''='' # value_tokens x"

definition block_tokens :: "string \<Rightarrow> ('a \<Rightarrow> token list) \<Rightarrow> 'a list \<Rightarrow> string \<Rightarrow> token list" where
  "block_tokens opening f xs close = (if xs = [] then [] else p_tok opening # concat (map f xs) @ [p_tok close])"

fun separated_tokens :: "string \<Rightarrow> string list \<Rightarrow> token list" where
  "separated_tokens sep [] = []"
| "separated_tokens sep (n # ns) = n_tok n # concat (map (\<lambda>m. [p_tok sep, n_tok m]) ns)"

definition input_tokens :: "input_value \<Rightarrow> token list" where
  "input_tokens iv = description_tokens (iv_description iv) @ n_tok (iv_name iv) # p_tok '':'' # type_tokens (iv_type iv)
     @ default_tokens (iv_default iv) @ directives_tokens (iv_directives iv)"

definition field_tokens :: "field \<Rightarrow> token list" where
  "field_tokens fd = description_tokens (fd_description fd) @ n_tok (fd_name fd)
     # block_tokens ''('' input_tokens (fd_arguments fd) '')'' @ p_tok '':'' # type_tokens (fd_type fd)
     @ directives_tokens (fd_directives fd)"

definition enum_value_tokens :: "enum_value \<Rightarrow> token list" where
  "enum_value_tokens ev = description_tokens (ev_description ev) @ n_tok (ev_name ev) # directives_tokens (ev_directives ev)"

definition scalar_tokens :: "scalar_type \<Rightarrow> token list" where
  "scalar_tokens sc = n_tok ''scalar'' # n_tok (sc_name sc) # directives_tokens (sc_directives sc)"

definition implements_tokens :: "string list \<Rightarrow> token list" where
  "implements_tokens ns = (if ns = [] then [] else n_tok ''implements'' # separated_tokens ''&'' ns)"

definition object_tokens :: "string \<Rightarrow> object_type \<Rightarrow> token list" where
  "object_tokens keyword ob = n_tok keyword # n_tok (ob_name ob) # implements_tokens (ob_implements ob)
     @ directives_tokens (ob_directives ob) @ block_tokens ''{'' field_tokens (ob_fields ob) ''}''"

definition members_tokens :: "string list \<Rightarrow> token list" where
  "members_tokens ns = (if ns = [] then [] else p_tok ''='' # separated_tokens ''|'' ns)"

definition union_tokens :: "union_type \<Rightarrow> token list" where
  "union_tokens un = n_tok ''union'' # n_tok (un_name un) # directives_tokens (un_directives un) @ members_tokens (un_types un)"

definition enum_tokens :: "enum_type \<Rightarrow> token list" where
  "enum_tokens en = n_tok ''enum'' # n_tok (en_name en) # directives_tokens (en_directives en)
     @ block_tokens ''{'' enum_value_tokens (en_values en) ''}''"

definition input_object_tokens :: "input_object_type \<Rightarrow> token list" where
  "input_object_tokens io = n_tok ''input'' # n_tok (io_name io) # directives_tokens (io_directives io)
     @ block_tokens ''{'' input_tokens (io_fields io) ''}''"

fun type_definition_tokens :: "type_definition \<Rightarrow> token list" where
  "type_definition_tokens (TScalar sc) = scalar_tokens sc"
| "type_definition_tokens (TObject ob) = object_tokens ''type'' ob"
| "type_definition_tokens (TInterface ob) = object_tokens ''interface'' ob"
| "type_definition_tokens (TUnion un) = union_tokens un"
| "type_definition_tokens (TEnum en) = enum_tokens en"
| "type_definition_tokens (TInputObject io) = input_object_tokens io"

fun extended :: "type_extension \<Rightarrow> type_definition" where
  "extended (XScalar sc) = TScalar sc"
| "extended (XObject ob) = TObject ob"
| "extended (XInterface ob) = TInterface ob"
| "extended (XUnion un) = TUnion un"
| "extended (XEnum en) = TEnum en"
| "extended (XInputObject io) = TInputObject io"

fun type_description :: "type_definition \<Rightarrow> string option" where
  "type_description (TScalar sc) = sc_description sc"
| "type_description (TObject ob) = ob_description ob"
| "type_description (TInterface ob) = ob_description ob"
| "type_description (TUnion un) = un_description un"
| "type_description (TEnum en) = en_description en"
| "type_description (TInputObject io) = io_description io"

definition directive_definition_tokens :: "directive_definition \<Rightarrow> token list" where
  "directive_definition_tokens dd = n_tok ''directive'' # p_tok ''@'' # n_tok (dd_name dd)
     # block_tokens ''('' input_tokens (dd_arguments dd) '')'' @ (if dd_repeatable dd then [n_tok ''repeatable''] else [])
     @ n_tok ''on'' # separated_tokens ''|'' (map location_as_str (dd_locations dd))"

definition operations_tokens :: "(string \<times> string) list \<Rightarrow> token list" where
  "operations_tokens ops = concat (map (\<lambda>(k, n). [n_tok k, p_tok '':'', n_tok n]) ops)"

definition schema_operations :: "schema_definition \<Rightarrow> (string \<times> string) list" where
  "schema_operations sd = (case sd_query sd of None \<Rightarrow> [] | Some n \<Rightarrow> [(''query'', n)])
     @ (case sd_mutation sd of None \<Rightarrow> [] | Some n \<Rightarrow> [(''mutation'', n)])
     @ (case sd_subscription sd of None \<Rightarrow> [] | Some n \<Rightarrow> [(''subscription'', n)])"

definition schema_tokens :: "directive list \<Rightarrow> (string \<times> string) list \<Rightarrow> token list" where
  "schema_tokens ds ops = n_tok ''schema'' # directives_tokens ds @ p_tok ''{'' # operations_tokens ops @ [p_tok ''}'']"

fun item_tokens :: "schema_item \<Rightarrow> token list" where
  "item_tokens (SchemaDefinition sd) = schema_tokens (sd_directives sd) (schema_operations sd)"
| "item_tokens (TypeDefinition t) = description_tokens (type_description t) @ type_definition_tokens t"
| "item_tokens (TypeExtension x) = n_tok ''extend'' # type_definition_tokens (extended x)"
| "item_tokens (DirectiveDefinition dd) = description_tokens (dd_description dd) @ directive_definition_tokens dd"

definition schema_document_tokens :: "schema_document \<Rightarrow> token list" where
  "schema_document_tokens doc = concat (map item_tokens doc)"

section \<open>Documents that can be written\<close>

definition writable_description :: "string option \<Rightarrow> bool" where
  "writable_description s \<longleftrightarrow> (case s of None \<Rightarrow> True | Some x \<Rightarrow> ascii_text x)"

definition writable_input :: "(string \<Rightarrow> string option) \<Rightarrow> input_value \<Rightarrow> bool" where
  "writable_input f64 iv \<longleftrightarrow> writable_description (iv_description iv) \<and> writable_type (iv_type iv)
     \<and> (case iv_default iv of None \<Rightarrow> True | Some x \<Rightarrow> writable_value f64 x \<and> no_variable x) \<and> writable_directives f64 (iv_directives iv)"

definition writable_field :: "(string \<Rightarrow> string option) \<Rightarrow> field \<Rightarrow> bool" where
  "writable_field f64 fd \<longleftrightarrow> writable_description (fd_description fd) \<and> list_all (writable_input f64) (fd_arguments fd)
     \<and> writable_type (fd_type fd) \<and> writable_directives f64 (fd_directives fd)"

definition writable_enum_value :: "(string \<Rightarrow> string option) \<Rightarrow> enum_value \<Rightarrow> bool" where
  "writable_enum_value f64 ev \<longleftrightarrow> writable_description (ev_description ev) \<and> writable_directives f64 (ev_directives ev)"

fun writable_parts :: "(string \<Rightarrow> string option) \<Rightarrow> type_definition \<Rightarrow> bool" where
  "writable_parts f64 (TScalar sc) \<longleftrightarrow> writable_directives f64 (sc_directives sc)"
| "writable_parts f64 (TObject ob) \<longleftrightarrow> writable_directives f64 (ob_directives ob) \<and> list_all (writable_field f64) (ob_fields ob)"
| "writable_parts f64 (TInterface ob) \<longleftrightarrow> writable_directives f64 (ob_directives ob) \<and> list_all (writable_field f64) (ob_fields ob)"
| "writable_parts f64 (TUnion un) \<longleftrightarrow> writable_directives f64 (un_directives un)"
| "writable_parts f64 (TEnum en) \<longleftrightarrow> writable_directives f64 (en_directives en) \<and> list_all (writable_enum_value f64) (en_values en)"
| "writable_parts f64 (TInputObject io) \<longleftrightarrow> writable_directives f64 (io_directives io) \<and> list_all (writable_input f64) (io_fields io)"

text \<open>What an extension adds; a change of an interface's own interfaces alone is none.\<close>

fun extends :: "type_extension \<Rightarrow> bool" where
  "extends (XScalar sc) \<longleftrightarrow> sc_directives sc \<noteq> []"
| "extends (XObject ob) \<longleftrightarrow> ob_implements ob \<noteq> [] \<or> ob_directives ob \<noteq> [] \<or> ob_fields ob \<noteq> []"
| "extends (XInterface ob) \<longleftrightarrow> ob_directives ob \<noteq> [] \<or> ob_fields ob \<noteq> []"
| "extends (XUnion un) \<longleftrightarrow> un_directives un \<noteq> [] \<or> un_types un \<noteq> []"
| "extends (XEnum en) \<longleftrightarrow> en_directives en \<noteq> [] \<or> en_values en \<noteq> []"
| "extends (XInputObject io) \<longleftrightarrow> io_directives io \<noteq> [] \<or> io_fields io \<noteq> []"

fun writable_item :: "(string \<Rightarrow> string option) \<Rightarrow> schema_item \<Rightarrow> bool" where
  "writable_item f64 (SchemaDefinition sd) \<longleftrightarrow> writable_directives f64 (sd_directives sd)"
| "writable_item f64 (TypeDefinition t) \<longleftrightarrow> writable_description (type_description t) \<and> writable_parts f64 t"
| "writable_item f64 (TypeExtension x) \<longleftrightarrow> type_description (extended x) = None \<and> extends x \<and> writable_parts f64 (extended x)"
| "writable_item f64 (DirectiveDefinition dd) \<longleftrightarrow> writable_description (dd_description dd)
     \<and> list_all (writable_input f64) (dd_arguments dd) \<and> dd_locations dd \<noteq> []"

section \<open>Parts of definitions\<close>

text \<open>The parser matches, and what it returns stands for \<open>x\<close>.\<close>

definition yields :: "parser \<Rightarrow> token list \<Rightarrow> (node \<Rightarrow> 'a) \<Rightarrow> 'a \<Rightarrow> token list \<Rightarrow> bool" where
  "yields p toks f x rest \<longleftrightarrow> (\<exists>c v. gives p toks c v rest \<and> f v = x)"

lemma yieldsI: "gives p toks c v rest \<Longrightarrow> f v = x \<Longrightarrow> yields p toks f x rest"
  by (auto simp: yields_def)

lemma yieldsE:
  assumes "yields p toks f x rest" obtains c v where "gives p toks c v rest" "f v = x"
  using assms by (auto simp: yields_def)

lemma next_not_block [simp]:
  "next_not vs (block_tokens opening f xs close @ r) \<longleftrightarrow> (if xs = [] then next_not vs r else opening \<notin> set vs)"
  by (simp add: block_tokens_def)

lemma next_not_default [simp]:
  "next_not vs (default_tokens x @ r) \<longleftrightarrow> (if x = None then next_not vs r else ''='' \<notin> set vs)"
  by (cases x) simp_all

lemma next_not_members [simp]:
  "next_not vs (members_tokens ns @ r) \<longleftrightarrow> (if ns = [] then next_not vs r else ''='' \<notin> set vs)"
  by (simp add: members_tokens_def)

lemma next_not_string [simp]: "next_not vs (\<lparr>tk_kind = StringValue, tk_value = x\<rparr> # toks)"
  by (simp add: next_not_def)

lemma next_not_description [simp]: "next_not vs (description_tokens x @ n_tok n # toks)"
  by (cases x) simp_all

context combinators
begin

lemma gives_sep_by1:
  assumes "\<And>n r. n \<in> set ns \<Longrightarrow> gives p (n_tok n # r) True (g n) r" "ns \<noteq> []" "next_not [sep] rest"
  shows "gives (c_sep_by1 cb p (punct cb sep)) (separated_tokens sep ns @ rest) True (NMany (List.map g ns)) rest"
proof -
  from assms(2) obtain n ms where ns: "ns = n # ms" by (cases ns) auto
  let ?more = "concat (List.map (\<lambda>m. [p_tok sep, n_tok m]) ms) @ rest"
  have "gives (c_many cb (c_with cb (punct cb sep) p)) ?more (ms \<noteq> []) (NMany (List.map g ms)) rest"
  proof (rule gives_many [where Q = "\<lambda>_. True"])
    fix x r assume "x \<in> set ms"
    with ns have "gives p (n_tok x # r) True (g x) r" by (intro assms(1)) simp
    from gives_with [OF gives_punct this, of sep] show "gives (c_with cb (punct cb sep) p) ([p_tok sep, n_tok x] @ r) True (g x) r" by simp
  qed (auto intro: refuses_with refuses_punct assms(3))
  moreover have "gives p (n_tok n # ?more) True (g n) ?more" by (rule assms(1)) (simp add: ns)
  ultimately show ?thesis
    unfolding gives_def
  proof (intro allI impI)
    fix s assume *: "\<forall>s. ahead s ?more \<longrightarrow> (\<exists>s'. c_many cb (c_with cb (punct cb sep) p) s = (Matched (ms \<noteq> []) (NMany (List.map g ms)), s')
        \<and> ahead s' rest \<and> (ms \<noteq> [] \<or> checkpoint_of s' = checkpoint_of s))"
      "\<forall>s. ahead s (n_tok n # ?more) \<longrightarrow> (\<exists>s'. p s = (Matched True (g n), s') \<and> ahead s' ?more \<and> (True \<or> checkpoint_of s' = checkpoint_of s))"
      "ahead s (separated_tokens sep ns @ rest)"
    from *(3) have "ahead s (n_tok n # ?more)" by (simp add: ns)
    with *(2) obtain s1 where s1: "p s = (Matched True (g n), s1)" "ahead s1 ?more" by blast
    with *(1) obtain s2 where "c_many cb (c_with cb (punct cb sep) p) s1 = (Matched (ms \<noteq> []) (NMany (List.map g ms)), s2)" "ahead s2 rest" by blast
    with s1 show "\<exists>s'. c_sep_by1 cb p (punct cb sep) s = (Matched True (NMany (List.map g ns)), s') \<and> ahead s' rest
        \<and> (True \<or> checkpoint_of s' = checkpoint_of s)" by (auto simp: sep_by1 ns)
  qed
qed

lemma refuses_sep_by1: "refuses p toks \<Longrightarrow> refuses (c_sep_by1 cb p sep) toks"
  by (fastforce simp: refuses_def sep_by1)

lemma yields_map: "yields p toks (f \<circ> g) x rest \<Longrightarrow> yields (c_map cb g p) toks f x rest"
  by (auto simp: yields_def intro: gives_map)

lemma yields_none: "refuses p toks \<Longrightarrow> f NNone = x \<Longrightarrow> yields (c_optional cb p) toks f x toks"
  by (auto simp: yields_def intro: gives_optional_none)

lemma yields_some: "gives p toks c v rest \<Longrightarrow> f (NSome v) = x \<Longrightarrow> yields (c_optional cb p) toks f x rest"
  by (auto simp: yields_def intro: gives_optional_some)

lemma yields_description:
  assumes "writable_description x"
  shows "yields (c_optional cb (string_p cb)) (description_tokens x @ n_tok n # r) text_option x (n_tok n # r)"
proof (cases x)
  case None
  have "refuses (string_p cb) (n_tok n # r)" unfolding string_p_def by (intro refuses_or refuses_and_then refuses_kind) simp_all
  from yields_none [OF this, of text_option] None show ?thesis by (simp add: text_option_def)
next
  case (Some s)
  with assms string_node_quoted [of s] have "string_node (NToken \<lparr>tk_kind = StringValue, tk_value = quoted_text s\<rparr>) = Some (NText s)"
    by (simp add: writable_description_def)
  then have "gives (string_p cb) (description_tokens x @ n_tok n # r) True (NText s) (n_tok n # r)"
    unfolding string_p_def by (intro gives_or1 gives_and_then [where v = "NToken \<lparr>tk_kind = StringValue, tk_value = quoted_text s\<rparr>"])
      (simp_all add: Some gives_kind)
  from yields_some [OF this, of text_option x] Some show ?thesis by (simp add: text_option_def)
qed

lemma yields_directives:
  assumes "length (directives_tokens ds) \<le> d" "writable_directives f64 ds" "next_not [''@'', ''(''] rest"
  shows "yields (directives cb f64 d) (directives_tokens ds @ rest) directives_of ds rest"
  using gives_directives [OF assms] by (auto simp: yields_def)

lemma yields_default:
  assumes "length (default_tokens x) \<le> d" "case x of None \<Rightarrow> True | Some y \<Rightarrow> writable_value f64 y \<and> no_variable y" "next_not [''=''] r"
  shows "yields (c_optional cb (c_with cb (punct cb ''='') (default_value cb f64 d))) (default_tokens x @ r)
    (\<lambda>v. map_option value_of (option_of_node v)) x r"
proof (cases x)
  case None
  have "refuses (c_with cb (punct cb ''='') (default_value cb f64 d)) r" by (intro refuses_with refuses_punct assms(3))
  from yields_none [OF this, of "\<lambda>v. map_option value_of (option_of_node v)"] None show ?thesis by simp
next
  case (Some y)
  with assms(1,2) have "gives (default_value cb f64 d) (value_tokens y @ r) True (NValue y) r"
    by (intro gives_default) simp_all
  from yields_some [OF gives_with [OF gives_punct [of "''=''"] this], of "\<lambda>v. map_option value_of (option_of_node v)"] Some
  show ?thesis by simp
qed

text \<open>A list of items in brackets, which is left out when there are none.\<close>

lemma yields_block:
  assumes "\<And>x r. x \<in> set xs \<Longrightarrow> Q r \<Longrightarrow> gives p (f x @ r) True (g x) r" "\<And>x r. x \<in> set xs \<Longrightarrow> Q r \<Longrightarrow> Q (f x @ r)"
    and "\<And>r. Q (p_tok close # r)" "\<And>r. refuses p (p_tok close # r)" "next_not [opening] rest" "\<And>x. h (g x) = x"
  shows "yields (c_optional cb (c_skip cb (c_with cb (punct cb opening) (c_many1 cb p)) (punct cb close)))
    (block_tokens opening f xs close @ rest) (\<lambda>v. (List.map h (items_of (unwrap_list v)), option_of_node v = None)) (xs, xs = []) rest"
proof (cases "xs = []")
  case True
  show ?thesis unfolding True
    by (simp add: block_tokens_def) (intro yields_none refuses_bracketed assms(5), simp add: unwrap_list_def)
next
  case False
  have "gives (c_many1 cb p) (concat (List.map f xs) @ p_tok close # rest) True (NMany (List.map g xs)) (p_tok close # rest)"
    by (rule gives_many1 [where Q = Q]) (use assms False in auto)
  from yields_some [OF gives_bracketed [OF this], of "\<lambda>v. (List.map h (items_of (unwrap_list v)), option_of_node v = None)"] False
  show ?thesis by (simp add: block_tokens_def unwrap_list_def o_def assms(6))
qed

lemma yields_unwrapped:
  assumes "yields p toks (\<lambda>v. (List.map h (items_of (unwrap_list v)), option_of_node v = None)) (xs, e) rest"
  shows "yields (c_map cb unwrap_list p) toks (\<lambda>v. List.map h (items_of v)) xs rest"
  using assms by (intro yields_map) (auto simp: yields_def)

lemma gives_input:
  assumes "length (input_tokens iv) \<le> d" "writable_input f64 iv" "next_not [''!'', ''='', ''@'', ''(''] r"
  shows "gives (input_value_p cb f64 d) (input_tokens iv @ r) True (NInput iv) r"
proof -
  note r = next_not_mono [OF assms(3)]
  let ?ds = "directives_tokens (iv_directives iv)" and ?v = "default_tokens (iv_default iv)" and ?t = "type_tokens (iv_type iv)"
  have len: "length ?ds \<le> d" "length ?v \<le> d" "length ?t \<le> d" using assms(1) by (simp_all add: input_tokens_def)
  have w: "writable_description (iv_description iv)" "writable_type (iv_type iv)" "writable_directives f64 (iv_directives iv)"
    "case iv_default iv of None \<Rightarrow> True | Some y \<Rightarrow> writable_value f64 y \<and> no_variable y" using assms(2) by (simp_all add: writable_input_def)
  have n: "next_not [''@'', ''(''] r" "next_not [''=''] (?ds @ r)" "next_not [''!''] (?v @ ?ds @ r)"
    using r [of "[''@'', ''('']"] r [of "[''='']"] r [of "[''!'']"] by simp_all
  from yields_description [OF w(1)] obtain c1 v1 where v1: "gives (c_optional cb (string_p cb))
      (description_tokens (iv_description iv) @ n_tok (iv_name iv) # p_tok '':'' # ?t @ ?v @ ?ds @ r) c1 v1
      (n_tok (iv_name iv) # p_tok '':'' # ?t @ ?v @ ?ds @ r)" "text_option v1 = iv_description iv" by (rule yieldsE)
  from yields_default [OF len(2) w(4) n(2)] obtain c2 v2 where v2: "gives (c_optional cb (c_with cb (punct cb ''='') (default_value cb f64 d)))
      (?v @ ?ds @ r) c2 v2 (?ds @ r)" "map_option value_of (option_of_node v2) = iv_default iv" by (rule yieldsE)
  from yields_directives [OF len(1) w(3) n(1)] obtain c3 v3 where v3: "gives (directives cb f64 d) (?ds @ r) c3 v3 r"
    "directives_of v3 = iv_directives iv" by (rule yieldsE)
  from gives_map [OF gives_Cons [OF v1(1) gives_Cons [OF gives_name gives_Cons [OF gives_with [OF gives_punct gives_type [OF len(3) w(2) n(3)]]
      gives_Cons [OF v2(1) gives_Cons [OF v3(1) gives_Nil]]]]], where f = input_node and w = "NInput iv"] v1(2) v2(2) v3(2)
  show ?thesis by (simp add: input_value_p_def input_tokens_def)
qed

lemma refuses_described: "toks = [] \<or> tk_kind (hd toks) = Punctuator \<Longrightarrow> refuses (c_tuple cb (c_optional cb (string_p cb) # name cb # ps)) toks"
  unfolding string_p_def
  by (intro refuses_Cons_later [OF gives_optional_none] refuses_Cons refuses_name refuses_or refuses_and_then refuses_kind) auto

lemma next_not_input: "next_not vs (input_tokens iv @ r)" "next_not vs (field_tokens fd @ r)" "next_not vs (enum_value_tokens ev @ r)"
  by (simp_all add: input_tokens_def field_tokens_def enum_value_tokens_def)

lemma yields_inputs:
  assumes "length (block_tokens opening input_tokens ivs close) \<le> d" "list_all (writable_input f64) ivs" "next_not [opening] r"
    "close \<notin> {''!'', ''='', ''@'', ''(''}"
  shows "yields (c_map cb unwrap_list (c_optional cb (c_skip cb (c_with cb (punct cb opening) (c_many1 cb (input_value_p cb f64 d))) (punct cb close))))
    (block_tokens opening input_tokens ivs close @ r) (\<lambda>v. List.map input_of (items_of v)) ivs r"
proof (rule yields_unwrapped, rule yields_block [where Q = "next_not [''!'', ''='', ''@'', ''('']" and g = NInput])
  fix x q assume x: "x \<in> set ivs" and q: "next_not [''!'', ''='', ''@'', ''(''] q"
  have "length (input_tokens x) \<le> d"
    using assms(1) length_item [OF x, of input_tokens] x by (auto simp: block_tokens_def split: if_splits)
  with assms(2) x q show "gives (input_value_p cb f64 d) (input_tokens x @ q) True (NInput x) q"
    by (intro gives_input) (auto simp: list_all_iff)
qed (use assms(3,4) in \<open>auto simp: next_not_input input_value_p_def intro!: refuses_map refuses_described\<close>)

lemma gives_field_definition:
  assumes "length (field_tokens fd) \<le> d" "writable_field f64 fd" "next_not [''!'', ''@'', ''(''] r"
  shows "gives (schema_field cb f64 d) (field_tokens fd @ r) True (NField fd) r"
proof -
  note r = next_not_mono [OF assms(3)]
  let ?ds = "directives_tokens (fd_directives fd)" and ?args = "block_tokens ''('' input_tokens (fd_arguments fd) '')''"
    and ?t = "type_tokens (fd_type fd)"
  have len: "length ?ds \<le> d" "length ?args \<le> d" "length ?t \<le> d" using assms(1) by (simp_all add: field_tokens_def)
  have w: "writable_description (fd_description fd)" "writable_type (fd_type fd)" "writable_directives f64 (fd_directives fd)"
    "list_all (writable_input f64) (fd_arguments fd)" using assms(2) by (simp_all add: writable_field_def)
  have n: "next_not [''@'', ''(''] r" "next_not [''!''] (?ds @ r)" using r [of "[''@'', ''('']"] r [of "[''!'']"] by simp_all
  have "yields (arguments_definition cb f64 d) (?args @ p_tok '':'' # ?t @ ?ds @ r)
      (\<lambda>v. List.map input_of (items_of v)) (fd_arguments fd) (p_tok '':'' # ?t @ ?ds @ r)"
    unfolding arguments_definition_def by (rule yields_inputs [OF len(2) w(4)]) simp_all
  then obtain c2 v2 where v2: "gives (arguments_definition cb f64 d) (?args @ p_tok '':'' # ?t @ ?ds @ r) c2 v2 (p_tok '':'' # ?t @ ?ds @ r)"
    "List.map input_of (items_of v2) = fd_arguments fd" by (rule yieldsE)
  from yields_description [OF w(1)] obtain c1 v1 where v1: "gives (c_optional cb (string_p cb))
      (description_tokens (fd_description fd) @ n_tok (fd_name fd) # ?args @ p_tok '':'' # ?t @ ?ds @ r) c1 v1
      (n_tok (fd_name fd) # ?args @ p_tok '':'' # ?t @ ?ds @ r)" "text_option v1 = fd_description fd" by (rule yieldsE)
  from yields_directives [OF len(1) w(3) n(1)] obtain c3 v3 where v3: "gives (directives cb f64 d) (?ds @ r) c3 v3 r"
    "directives_of v3 = fd_directives fd" by (rule yieldsE)
  from gives_map [OF gives_Cons [OF v1(1) gives_Cons [OF gives_name gives_Cons [OF v2(1)
      gives_Cons [OF gives_with [OF gives_punct gives_type [OF len(3) w(2) n(2)]] gives_Cons [OF v3(1) gives_Nil]]]]],
      where f = schema_field_node and w = "NField fd"] v1(2) v2(2) v3(2)
  show ?thesis by (simp add: schema_field_def field_tokens_def)
qed

lemma yields_fields:
  assumes "length (block_tokens ''{'' field_tokens fds ''}'') \<le> d" "list_all (writable_field f64) fds" "next_not [''{''] r"
  shows "yields (fields_p cb f64 d) (block_tokens ''{'' field_tokens fds ''}'' @ r) (\<lambda>v. List.map field_of (items_of v)) fds r"
  unfolding fields_p_def
proof (rule yields_unwrapped, rule yields_block [where Q = "next_not [''!'', ''@'', ''('']" and g = NField])
  fix x q assume x: "x \<in> set fds" and q: "next_not [''!'', ''@'', ''(''] q"
  have "length (field_tokens x) \<le> d"
    using assms(1) length_item [OF x, of field_tokens] x by (auto simp: block_tokens_def split: if_splits)
  with assms(2) x q show "gives (schema_field cb f64 d) (field_tokens x @ q) True (NField x) q"
    by (intro gives_field_definition) (auto simp: list_all_iff)
qed (use assms(3) in \<open>auto simp: next_not_input schema_field_def intro!: refuses_map refuses_described\<close>)

end

section \<open>Types and extensions\<close>

text \<open>What may follow a definition: the next one, or the end.\<close>

definition item_end :: "token list \<Rightarrow> bool" where
  "item_end toks \<longleftrightarrow> next_not [''@'', ''('', ''{'', ''='', ''|'', ''&''] toks
     \<and> (toks = [] \<or> \<not> (tk_kind (hd toks) = Name \<and> tk_value (hd toks) = ''implements''))"

abbreviation begins_with :: "string \<Rightarrow> token list \<Rightarrow> bool" where
  "begins_with keyword toks \<equiv> toks \<noteq> [] \<and> tk_kind (hd toks) = Name \<and> tk_value (hd toks) = keyword"

lemma item_end_not: "item_end r \<Longrightarrow> set vs \<subseteq> {''@'', ''('', ''{'', ''='', ''|'', ''&''} \<Longrightarrow> next_not vs r"
  by (rule next_not_mono [of "[''@'', ''('', ''{'', ''='', ''|'', ''&'']"]) (simp_all add: item_end_def)

lemma item_end_implements:
  "item_end r \<Longrightarrow> \<not> begins_with ''implements'' (directives_tokens ds @ block_tokens ''{'' f xs close @ r)"
  by (cases ds) (auto simp: item_end_def block_tokens_def directives_tokens_def directive_tokens_def)

context combinators
begin

lemma refuses_keyword: "\<not> begins_with k toks \<Longrightarrow> refuses (c_tuple cb (c_with cb (ident cb k) p # ps)) toks"
  by (intro refuses_Cons refuses_with refuses_ident) auto

lemma gives_keyword: "gives (c_with cb (ident cb k) (name cb)) (n_tok k # n_tok n # r) True (NText n) r"
  using gives_with [OF gives_ident gives_name] by simp

lemma yields_implements:
  assumes "\<not> begins_with ''implements'' r" "next_not [''&''] r"
  shows "yields (implements_interfaces cb) (implements_tokens ns @ r) texts_of ns r"
  unfolding implements_interfaces_def
proof (rule yields_map, cases "ns = []")
  case True
  show "yields (c_optional cb (c_with cb (c_skip cb (ident cb ''implements'') (c_optional cb (punct cb ''&''))) (c_sep_by1 cb (name cb) (punct cb ''&''))))
      (implements_tokens ns @ r) (texts_of \<circ> unwrap_list) ns r"
    using assms(1) unfolding True
    by (simp add: implements_tokens_def) (intro yields_none refuses_with refuses_skip refuses_ident, auto simp: texts_of_def unwrap_list_def)
next
  case False
  have "refuses (punct cb ''&'') (separated_tokens ''&'' ns @ r)" by (intro refuses_punct) (use False in \<open>cases ns; simp\<close>)
  note skip = gives_skip [OF gives_ident [of "''implements''"] gives_optional_none [OF this]]
  have "gives (c_sep_by1 cb (name cb) (punct cb ''&'')) (separated_tokens ''&'' ns @ r) True (NMany (List.map NText ns)) r"
    by (rule gives_sep_by1 [OF gives_name False assms(2)])
  from yields_some [OF gives_with [OF skip this], of "texts_of \<circ> unwrap_list"] False
  show "yields (c_optional cb (c_with cb (c_skip cb (ident cb ''implements'') (c_optional cb (punct cb ''&''))) (c_sep_by1 cb (name cb) (punct cb ''&''))))
      (implements_tokens ns @ r) (texts_of \<circ> unwrap_list) ns r"
    by (simp add: implements_tokens_def texts_of_def unwrap_list_def o_def)
qed

lemma yields_object:
  assumes "length (object_tokens k ob) \<le> d" "writable_directives f64 (ob_directives ob)" "list_all (writable_field f64) (ob_fields ob)" "item_end r"
  shows "\<exists>v. gives (object_parts cb f64 d k) (object_tokens k ob @ r) True v r \<and> object_of v = ob\<lparr>ob_description := None\<rparr>"
proof -
  let ?ds = "directives_tokens (ob_directives ob)" and ?fs = "block_tokens ''{'' field_tokens (ob_fields ob) ''}''"
  have len: "length ?ds \<le> d" "length ?fs \<le> d" using assms(1) by (simp_all add: object_tokens_def)
  have n: "next_not [''@'', ''(''] (?fs @ r)" "next_not [''{''] r" "next_not [''&''] (?ds @ ?fs @ r)"
    using item_end_not [OF assms(4)] by simp_all
  from yields_implements [OF item_end_implements [OF assms(4)] n(3)] obtain c1 v1 where v1: "gives (implements_interfaces cb)
      (implements_tokens (ob_implements ob) @ ?ds @ ?fs @ r) c1 v1 (?ds @ ?fs @ r)" "texts_of v1 = ob_implements ob" by (rule yieldsE)
  from yields_directives [OF len(1) assms(2) n(1)] obtain c2 v2 where v2: "gives (directives cb f64 d) (?ds @ ?fs @ r) c2 v2 (?fs @ r)"
    "directives_of v2 = ob_directives ob" by (rule yieldsE)
  from yields_fields [OF len(2) assms(3) n(2)] obtain c3 v3 where v3: "gives (fields_p cb f64 d) (?fs @ r) c3 v3 r"
    "List.map field_of (items_of v3) = ob_fields ob" by (rule yieldsE)
  from gives_Cons [OF gives_keyword gives_Cons [OF v1(1) gives_Cons [OF v2(1) gives_Cons [OF v3(1) gives_Nil]]]] v1(2) v2(2) v3(2)
  show ?thesis
    by (intro exI [of _ "NTuple [NText (ob_name ob), v1, v2, v3]"]) (simp add: object_parts_def object_tokens_def)
qed

lemma yields_scalar:
  assumes "length (scalar_tokens sc) \<le> d" "writable_directives f64 (sc_directives sc)" "item_end r"
  shows "\<exists>v. gives (c_tuple cb [c_with cb (ident cb ''scalar'') (name cb), directives cb f64 d]) (scalar_tokens sc @ r) True
    (NTuple [NText (sc_name sc), v]) r \<and> directives_of v = sc_directives sc"
proof -
  have "length (directives_tokens (sc_directives sc)) \<le> d" "next_not [''@'', ''(''] r"
    using assms(1) item_end_not [OF assms(3)] by (simp_all add: scalar_tokens_def)
  from yields_directives [OF this(1) assms(2) this(2)] obtain c v where v: "gives (directives cb f64 d) (directives_tokens (sc_directives sc) @ r) c v r"
    "directives_of v = sc_directives sc" by (rule yieldsE)
  from gives_Cons [OF gives_keyword gives_Cons [OF v(1) gives_Nil]] v(2) show ?thesis
    by (intro exI [of _ v]) (simp add: scalar_tokens_def)
qed

lemma yields_members:
  assumes "next_not [''='', ''|''] r"
  shows "yields (c_optional cb (c_with cb (punct cb ''='') (union_members cb))) (members_tokens ns @ r)
    (\<lambda>v. (texts_of (unwrap_list v), option_of_node v = None)) (ns, ns = []) r"
proof (cases "ns = []")
  case True
  have "next_not [''=''] r" by (rule next_not_mono [OF assms]) simp
  then show ?thesis unfolding True
    by (simp add: members_tokens_def) (intro yields_none refuses_with refuses_punct, simp_all add: texts_of_def unwrap_list_def)
next
  case False
  have "next_not [''|''] r" by (rule next_not_mono [OF assms]) simp
  from gives_sep_by1 [where g = NText, OF gives_name False this]
  have sep: "gives (c_sep_by1 cb (name cb) (punct cb ''|'')) (separated_tokens ''|'' ns @ r) True (NMany (List.map NText ns)) r" .
  have "refuses (punct cb ''|'') (separated_tokens ''|'' ns @ r)" by (intro refuses_punct) (use False in \<open>cases ns; simp\<close>)
  from gives_with [OF gives_optional_none [OF this] sep]
  have "gives (union_members cb) (separated_tokens ''|'' ns @ r) True (NMany (List.map NText ns)) r" by (simp add: union_members_def)
  from yields_some [OF gives_with [OF gives_punct [of "''=''"] this], of "\<lambda>v. (texts_of (unwrap_list v), option_of_node v = None)"] False
  show ?thesis by (simp add: members_tokens_def texts_of_def unwrap_list_def o_def)
qed

lemma yields_union:
  assumes "length (union_tokens un) \<le> d" "writable_directives f64 (un_directives un)" "item_end r"
  shows "\<exists>v w. gives (union_parts cb f64 d) (union_tokens un @ r) True (NTuple [NText (un_name un), v, w]) r
    \<and> union_of (NTuple [NText (un_name un), v, w]) = un\<lparr>un_description := None\<rparr> \<and> (option_of_node w = None \<longleftrightarrow> un_types un = [])"
proof -
  let ?ds = "directives_tokens (un_directives un)" and ?ms = "members_tokens (un_types un)"
  have n: "length ?ds \<le> d" "next_not [''@'', ''(''] (?ms @ r)" "next_not [''='', ''|''] r"
    using assms(1) item_end_not [OF assms(3)] by (simp_all add: union_tokens_def)
  from yields_directives [OF n(1) assms(2) n(2)] obtain c v where v: "gives (directives cb f64 d) (?ds @ ?ms @ r) c v (?ms @ r)"
    "directives_of v = un_directives un" by (rule yieldsE)
  from yields_members [OF n(3)] obtain c' w where w: "gives (c_optional cb (c_with cb (punct cb ''='') (union_members cb))) (?ms @ r) c' w r"
    "(texts_of (unwrap_list w), option_of_node w = None) = (un_types un, un_types un = [])" by (rule yieldsE)
  from gives_Cons [OF gives_keyword gives_Cons [OF v(1) gives_Cons [OF w(1) gives_Nil]]] v(2) w(2) show ?thesis
    by (intro exI [of _ v] exI [of _ w]) (simp add: union_tokens_def union_parts_def)
qed

lemma gives_enum_value:
  assumes "length (enum_value_tokens ev) \<le> d" "writable_enum_value f64 ev" "next_not [''@'', ''(''] r"
  shows "gives (enum_value_p cb f64 d) (enum_value_tokens ev @ r) True (NEnumValue ev) r"
proof -
  let ?ds = "directives_tokens (ev_directives ev)"
  have w: "writable_description (ev_description ev)" "writable_directives f64 (ev_directives ev)" "length ?ds \<le> d"
    using assms(1,2) by (simp_all add: writable_enum_value_def enum_value_tokens_def)
  from yields_description [OF w(1)] obtain c1 v1 where v1: "gives (c_optional cb (string_p cb))
      (description_tokens (ev_description ev) @ n_tok (ev_name ev) # ?ds @ r) c1 v1 (n_tok (ev_name ev) # ?ds @ r)"
    "text_option v1 = ev_description ev" by (rule yieldsE)
  from yields_directives [OF w(3,2) assms(3)] obtain c2 v2 where v2: "gives (directives cb f64 d) (?ds @ r) c2 v2 r"
    "directives_of v2 = ev_directives ev" by (rule yieldsE)
  from gives_map [OF gives_Cons [OF v1(1) gives_Cons [OF gives_name gives_Cons [OF v2(1) gives_Nil]]],
      where f = enum_value_node and w = "NEnumValue ev"] v1(2) v2(2)
  show ?thesis by (simp add: enum_value_p_def enum_value_tokens_def)
qed

lemma yields_enum:
  assumes "length (enum_tokens en) \<le> d" "writable_directives f64 (en_directives en)" "list_all (writable_enum_value f64) (en_values en)" "item_end r"
  shows "\<exists>v w. gives (enum_parts cb f64 d) (enum_tokens en @ r) True (NTuple [NText (en_name en), v, w]) r
    \<and> enum_of (NTuple [NText (en_name en), v, w]) = en\<lparr>en_description := None\<rparr> \<and> (option_of_node w = None \<longleftrightarrow> en_values en = [])"
proof -
  let ?ds = "directives_tokens (en_directives en)" and ?vs = "block_tokens ''{'' enum_value_tokens (en_values en) ''}''"
  have n: "length ?ds \<le> d" "length ?vs \<le> d" "next_not [''@'', ''(''] (?vs @ r)" "next_not [''{''] r"
    using assms(1) item_end_not [OF assms(4)] by (simp_all add: enum_tokens_def)
  have "yields (c_optional cb (enum_values cb f64 d)) (?vs @ r)
      (\<lambda>v. (List.map enum_value_of (items_of (unwrap_list v)), option_of_node v = None)) (en_values en, en_values en = []) r"
    unfolding enum_values_def
  proof (rule yields_block [where Q = "next_not [''@'', ''('']" and g = NEnumValue])
    fix x q assume x: "x \<in> set (en_values en)" and q: "next_not [''@'', ''(''] q"
    have "length (enum_value_tokens x) \<le> d"
      using n(2) length_item [OF x, of enum_value_tokens] x by (auto simp: block_tokens_def split: if_splits)
    with assms(3) x q show "gives (enum_value_p cb f64 d) (enum_value_tokens x @ q) True (NEnumValue x) q"
      by (intro gives_enum_value) (auto simp: list_all_iff)
  qed (use n(4) in \<open>auto simp: next_not_input enum_value_p_def intro!: refuses_map refuses_described\<close>)
  then obtain c' w where w: "gives (c_optional cb (enum_values cb f64 d)) (?vs @ r) c' w r"
    "(List.map enum_value_of (items_of (unwrap_list w)), option_of_node w = None) = (en_values en, en_values en = [])" by (rule yieldsE)
  from yields_directives [OF n(1) assms(2) n(3)] obtain c v where v: "gives (directives cb f64 d) (?ds @ ?vs @ r) c v (?vs @ r)"
    "directives_of v = en_directives en" by (rule yieldsE)
  from gives_Cons [OF gives_keyword gives_Cons [OF v(1) gives_Cons [OF w(1) gives_Nil]]] v(2) w(2) show ?thesis
    by (intro exI [of _ v] exI [of _ w]) (simp add: enum_tokens_def enum_parts_def)
qed

lemma yields_input_object:
  assumes "length (input_object_tokens io) \<le> d" "writable_directives f64 (io_directives io)" "list_all (writable_input f64) (io_fields io)" "item_end r"
  shows "\<exists>v. gives (input_object_parts cb f64 d) (input_object_tokens io @ r) True v r \<and> input_object_of v = io\<lparr>io_description := None\<rparr>"
proof -
  let ?ds = "directives_tokens (io_directives io)" and ?fs = "block_tokens ''{'' input_tokens (io_fields io) ''}''"
  have n: "length ?ds \<le> d" "length ?fs \<le> d" "next_not [''@'', ''(''] (?fs @ r)" "next_not [''{''] r"
    using assms(1) item_end_not [OF assms(4)] by (simp_all add: input_object_tokens_def)
  have "yields (input_fields cb f64 d) (?fs @ r) (\<lambda>v. List.map input_of (items_of v)) (io_fields io) r"
    unfolding input_fields_def by (rule yields_inputs [OF n(2) assms(3) n(4)]) simp
  then obtain c' w where w: "gives (input_fields cb f64 d) (?fs @ r) c' w r" "List.map input_of (items_of w) = io_fields io" by (rule yieldsE)
  from yields_directives [OF n(1) assms(2) n(3)] obtain c v where v: "gives (directives cb f64 d) (?ds @ ?fs @ r) c v (?fs @ r)"
    "directives_of v = io_directives io" by (rule yieldsE)
  from gives_Cons [OF gives_keyword gives_Cons [OF v(1) gives_Cons [OF w(1) gives_Nil]]] v(2) w(2) show ?thesis
    by (intro exI [of _ "NTuple [NText (io_name io), v, w]"]) (simp add: input_object_tokens_def input_object_parts_def)
qed

end

fun bare :: "type_definition \<Rightarrow> type_definition" where
  "bare (TScalar sc) = TScalar (sc\<lparr>sc_description := None\<rparr>)"
| "bare (TObject ob) = TObject (ob\<lparr>ob_description := None\<rparr>)"
| "bare (TInterface ob) = TInterface (ob\<lparr>ob_description := None\<rparr>)"
| "bare (TUnion un) = TUnion (un\<lparr>un_description := None\<rparr>)"
| "bare (TEnum en) = TEnum (en\<lparr>en_description := None\<rparr>)"
| "bare (TInputObject io) = TInputObject (io\<lparr>io_description := None\<rparr>)"

lemma describe_bare: "describe (type_description t) (TypeDefinition (bare t)) = TypeDefinition t"
  by (cases t) simp_all

lemmas type_tokens_defs = scalar_tokens_def object_tokens_def union_tokens_def enum_tokens_def input_object_tokens_def

context combinators
begin

lemma refuses_types:
  "\<not> begins_with ''scalar'' toks \<Longrightarrow> refuses (scalar_type_p cb f64 d) toks"
  "\<not> begins_with ''type'' toks \<Longrightarrow> refuses (object_type_p cb f64 d) toks"
  "\<not> begins_with ''interface'' toks \<Longrightarrow> refuses (interface_type_p cb f64 d) toks"
  "\<not> begins_with ''union'' toks \<Longrightarrow> refuses (union_type_p cb f64 d) toks"
  "\<not> begins_with ''enum'' toks \<Longrightarrow> refuses (enum_type_p cb f64 d) toks"
  "\<not> begins_with ''input'' toks \<Longrightarrow> refuses (input_object_type_p cb f64 d) toks"
  unfolding scalar_type_p_def object_type_p_def interface_type_p_def union_type_p_def enum_type_p_def input_object_type_p_def
    object_parts_def union_parts_def enum_parts_def input_object_parts_def
  by (intro refuses_map refuses_keyword; assumption)+

lemma refuses_extensions:
  "\<not> begins_with ''scalar'' toks \<Longrightarrow> refuses (scalar_type_extension cb f64 d) toks"
  "\<not> begins_with ''type'' toks \<Longrightarrow> refuses (object_type_extension cb f64 d) toks"
  "\<not> begins_with ''interface'' toks \<Longrightarrow> refuses (interface_type_extension cb f64 d) toks"
  "\<not> begins_with ''union'' toks \<Longrightarrow> refuses (union_type_extension cb f64 d) toks"
  "\<not> begins_with ''enum'' toks \<Longrightarrow> refuses (enum_type_extension cb f64 d) toks"
  "\<not> begins_with ''input'' toks \<Longrightarrow> refuses (input_object_type_extension cb f64 d) toks"
  unfolding scalar_type_extension_def object_type_extension_def interface_type_extension_def union_type_extension_def
    enum_type_extension_def input_object_type_extension_def object_parts_def union_parts_def enum_parts_def input_object_parts_def
  by (intro refuses_and_then refuses_keyword; assumption)+

lemma gives_type_parser:
  assumes "length (type_definition_tokens t) \<le> d" "writable_parts f64 t" "item_end r"
  shows "gives (case t of TScalar _ \<Rightarrow> scalar_type_p cb f64 d | TObject _ \<Rightarrow> object_type_p cb f64 d | TInterface _ \<Rightarrow> interface_type_p cb f64 d
      | TUnion _ \<Rightarrow> union_type_p cb f64 d | TEnum _ \<Rightarrow> enum_type_p cb f64 d | TInputObject _ \<Rightarrow> input_object_type_p cb f64 d)
    (type_definition_tokens t @ r) True (NTypeDef (bare t)) r"
proof (cases t)
  case (TScalar sc)
  with assms yields_scalar [of sc d f64 r] show ?thesis by (auto simp: scalar_type_p_def elim!: gives_map)
next
  case (TObject ob)
  with assms yields_object [of "''type''" ob d f64 r] show ?thesis by (auto simp: object_type_p_def elim!: gives_map)
next
  case (TInterface ob)
  with assms yields_object [of "''interface''" ob d f64 r] show ?thesis by (auto simp: interface_type_p_def elim!: gives_map)
next
  case (TUnion un)
  with assms yields_union [of un d f64 r] show ?thesis by (auto simp: union_type_p_def simp del: union_of.simps elim!: gives_map)
next
  case (TEnum en)
  with assms yields_enum [of en d f64 r] show ?thesis by (auto simp: enum_type_p_def simp del: enum_of.simps elim!: gives_map)
next
  case (TInputObject io)
  with assms yields_input_object [of io d f64 r] show ?thesis by (auto simp: input_object_type_p_def elim!: gives_map)
qed

lemma gives_types:
  assumes "length (type_definition_tokens t) \<le> d" "writable_parts f64 t" "item_end r"
  shows "gives (alternatives cb (scalar_type_p cb f64 d) [object_type_p cb f64 d, interface_type_p cb f64 d, union_type_p cb f64 d,
      enum_type_p cb f64 d, input_object_type_p cb f64 d]) (type_definition_tokens t @ r) True (NTypeDef (bare t)) r"
proof (cases t)
  case (TScalar sc)
  with gives_type_parser [OF assms] show ?thesis by (intro gives_alternatives1) simp
next
  case (TObject ob)
  with gives_type_parser [OF assms] show ?thesis
    by (intro gives_alternatives [where i = 0]) (auto simp: type_tokens_defs intro!: refuses_types)
next
  case (TInterface ob)
  with gives_type_parser [OF assms] show ?thesis
    by (intro gives_alternatives [where i = 1]) (auto simp: type_tokens_defs intro!: refuses_types)
next
  case (TUnion un)
  with gives_type_parser [OF assms] show ?thesis
    by (intro gives_alternatives [where i = 2]) (auto simp: type_tokens_defs intro!: refuses_types)
next
  case (TEnum en)
  with gives_type_parser [OF assms] show ?thesis
    by (intro gives_alternatives [where i = 3]) (auto simp: type_tokens_defs intro!: refuses_types)
next
  case (TInputObject io)
  with gives_type_parser [OF assms] show ?thesis
    by (intro gives_alternatives [where i = 4]) (auto simp: type_tokens_defs intro!: refuses_types)
qed

text \<open>An extension is read exactly when it extends something; otherwise it fails for good.\<close>

abbreviation extension_parser :: "(string \<Rightarrow> string option) \<Rightarrow> nat \<Rightarrow> type_extension \<Rightarrow> parser" where
  "extension_parser f64 d x \<equiv> (case x of XScalar _ \<Rightarrow> scalar_type_extension cb f64 d | XObject _ \<Rightarrow> object_type_extension cb f64 d
     | XInterface _ \<Rightarrow> interface_type_extension cb f64 d | XUnion _ \<Rightarrow> union_type_extension cb f64 d
     | XEnum _ \<Rightarrow> enum_type_extension cb f64 d | XInputObject _ \<Rightarrow> input_object_type_extension cb f64 d)"

lemma and_then_iff:
  assumes "gives p toks True v rest" "g v = (if b then Some w else None)"
  shows "(b \<longrightarrow> gives (c_and_then cb g p) toks True w rest) \<and> (\<not> b \<longrightarrow> breaks (c_and_then cb g p) toks)"
  using assms by (cases b) (auto intro: gives_and_then breaks_and_then)

lemma extension_parser:
  assumes "length (type_definition_tokens (extended x)) \<le> d" "writable_parts f64 (extended x)" "type_description (extended x) = None" "item_end r"
  shows "(extends x \<longrightarrow> gives (extension_parser f64 d x) (type_definition_tokens (extended x) @ r) True (NExtension x) r)
    \<and> (\<not> extends x \<longrightarrow> breaks (extension_parser f64 d x) (type_definition_tokens (extended x) @ r))"
proof (cases x)
  case (XScalar sc)
  with assms yields_scalar [of sc d f64 r] obtain v where v: "gives (c_tuple cb [c_with cb (ident cb ''scalar'') (name cb), directives cb f64 d])
    (scalar_tokens sc @ r) True (NTuple [NText (sc_name sc), v]) r" "directives_of v = sc_directives sc" by auto
  from and_then_iff [OF v(1), of scalar_extension_node "extends x" "NExtension x"] v(2) assms(3) XScalar show ?thesis
    by (simp add: scalar_type_extension_def)
next
  case (XObject ob)
  with assms yields_object [of "''type''" ob d f64 r] obtain v where v: "gives (object_parts cb f64 d ''type'') (object_tokens ''type'' ob @ r) True v r"
    "object_of v = ob\<lparr>ob_description := None\<rparr>" by auto
  from and_then_iff [OF v(1), of object_extension_node "extends x" "NExtension x"] v(2) assms(3) XObject show ?thesis
    by (auto simp: object_type_extension_def object_extension_node_def)
next
  case (XInterface ob)
  with assms yields_object [of "''interface''" ob d f64 r] obtain v where v: "gives (object_parts cb f64 d ''interface'') (object_tokens ''interface'' ob @ r) True v r"
    "object_of v = ob\<lparr>ob_description := None\<rparr>" by auto
  from and_then_iff [OF v(1), of interface_extension_node "extends x" "NExtension x"] v(2) assms(3) XInterface show ?thesis
    by (auto simp: interface_type_extension_def interface_extension_node_def)
next
  case (XUnion un)
  with assms yields_union [of un d f64 r] obtain v w where v: "gives (union_parts cb f64 d) (union_tokens un @ r) True (NTuple [NText (un_name un), v, w]) r"
    "union_of (NTuple [NText (un_name un), v, w]) = un\<lparr>un_description := None\<rparr>" "option_of_node w = None \<longleftrightarrow> un_types un = []" by auto
  have "directives_of v = un_directives un" using arg_cong [OF v(2), of un_directives] by simp
  with and_then_iff [OF v(1), of union_extension_node "extends x" "NExtension x"] v(2,3) assms(3) XUnion show ?thesis
    by (auto simp: union_type_extension_def)
next
  case (XEnum en)
  with assms yields_enum [of en d f64 r] obtain v w where v: "gives (enum_parts cb f64 d) (enum_tokens en @ r) True (NTuple [NText (en_name en), v, w]) r"
    "enum_of (NTuple [NText (en_name en), v, w]) = en\<lparr>en_description := None\<rparr>" "option_of_node w = None \<longleftrightarrow> en_values en = []" by auto
  have "directives_of v = en_directives en" using arg_cong [OF v(2), of en_directives] by simp
  with and_then_iff [OF v(1), of enum_extension_node "extends x" "NExtension x"] v(2,3) assms(3) XEnum show ?thesis
    by (auto simp: enum_type_extension_def)
next
  case (XInputObject io)
  with assms yields_input_object [of io d f64 r] obtain v where v: "gives (input_object_parts cb f64 d) (input_object_tokens io @ r) True v r"
    "input_object_of v = io\<lparr>io_description := None\<rparr>" by auto
  from and_then_iff [OF v(1), of input_object_extension_node "extends x" "NExtension x"] v(2) assms(3) XInputObject show ?thesis
    by (auto simp: input_object_type_extension_def input_object_extension_node_def)
qed

lemma extension_item:
  assumes "length (item_tokens (TypeExtension x)) \<le> d" "writable_parts f64 (extended x)" "type_description (extended x) = None" "item_end r"
  shows "(extends x \<longrightarrow> gives (item_p cb f64 d) (item_tokens (TypeExtension x) @ r) True (NItem (TypeExtension x)) r)
    \<and> (\<not> extends x \<longrightarrow> breaks (item_p cb f64 d) (item_tokens (TypeExtension x) @ r))"
proof -
  let ?toks = "type_definition_tokens (extended x) @ r"
  let ?alt = "alternatives cb (scalar_type_extension cb f64 d) [object_type_extension cb f64 d, interface_type_extension cb f64 d,
    union_type_extension cb f64 d, enum_type_extension cb f64 d, input_object_type_extension cb f64 d]"
  have len: "length (type_definition_tokens (extended x)) \<le> d" using assms(1) by simp
  note x = extension_parser [OF len assms(2-4)]
  have alt: "gives (extension_parser f64 d x) ?toks True n r \<Longrightarrow> gives ?alt ?toks True n r"
    "breaks (extension_parser f64 d x) ?toks \<Longrightarrow> breaks ?alt ?toks" for n
  proof (atomize (full), cases x)
    case XScalar then show "(gives (extension_parser f64 d x) ?toks True n r \<longrightarrow> gives ?alt ?toks True n r)
        \<and> (breaks (extension_parser f64 d x) ?toks \<longrightarrow> breaks ?alt ?toks)"
      by (auto intro: gives_alternatives1 breaks_alternatives1)
  next
    case XObject then show "(gives (extension_parser f64 d x) ?toks True n r \<longrightarrow> gives ?alt ?toks True n r)
        \<and> (breaks (extension_parser f64 d x) ?toks \<longrightarrow> breaks ?alt ?toks)"
      by (auto intro!: gives_alternatives [where i = 0] breaks_alternatives [where i = 0] refuses_extensions simp: type_tokens_defs)
  next
    case XInterface then show "(gives (extension_parser f64 d x) ?toks True n r \<longrightarrow> gives ?alt ?toks True n r)
        \<and> (breaks (extension_parser f64 d x) ?toks \<longrightarrow> breaks ?alt ?toks)"
      by (auto intro!: gives_alternatives [where i = 1] breaks_alternatives [where i = 1] refuses_extensions simp: type_tokens_defs)
  next
    case XUnion then show "(gives (extension_parser f64 d x) ?toks True n r \<longrightarrow> gives ?alt ?toks True n r)
        \<and> (breaks (extension_parser f64 d x) ?toks \<longrightarrow> breaks ?alt ?toks)"
      by (auto intro!: gives_alternatives [where i = 2] breaks_alternatives [where i = 2] refuses_extensions simp: type_tokens_defs)
  next
    case XEnum then show "(gives (extension_parser f64 d x) ?toks True n r \<longrightarrow> gives ?alt ?toks True n r)
        \<and> (breaks (extension_parser f64 d x) ?toks \<longrightarrow> breaks ?alt ?toks)"
      by (auto intro!: gives_alternatives [where i = 3] breaks_alternatives [where i = 3] refuses_extensions simp: type_tokens_defs)
  next
    case XInputObject then show "(gives (extension_parser f64 d x) ?toks True n r \<longrightarrow> gives ?alt ?toks True n r)
        \<and> (breaks (extension_parser f64 d x) ?toks \<longrightarrow> breaks ?alt ?toks)"
      by (auto intro!: gives_alternatives [where i = 4] breaks_alternatives [where i = 4] refuses_extensions simp: type_tokens_defs)
  qed
  have refuse: "refuses (schema_p cb f64 d) (n_tok ''extend'' # ?toks)"
    unfolding schema_p_def by (intro refuses_and_then refuses_Cons refuses_ident) simp
  let ?map = "c_map cb (\<lambda>n. NItem (TypeExtension (extension_of n))) (type_extension_p cb f64 d)"
  have "gives ?map (n_tok ''extend'' # ?toks) True (NItem (TypeExtension x)) r" if "extends x"
    unfolding type_extension_p_def
    using gives_map [OF gives_with [OF gives_ident alt(1)], of "NExtension x" "\<lambda>n. NItem (TypeExtension (extension_of n))"] x that by simp
  moreover have "breaks ?map (n_tok ''extend'' # ?toks)" if "\<not> extends x"
    unfolding type_extension_p_def using breaks_map [OF breaks_with [OF gives_ident disjI1 [OF alt(2)]]] x that by blast
  ultimately show ?thesis
    using refuse unfolding item_p_def
    by (auto intro!: gives_alternatives [where i = 0] breaks_alternatives [where i = 0])
qed

end

section \<open>Directive definitions and schema definitions\<close>

abbreviation operation_node_of :: "string \<times> string \<Rightarrow> node" where
  "operation_node_of \<equiv> \<lambda>(k, n). NTuple [NToken (n_tok k), NText n]"

definition operation_given :: "schema_definition \<Rightarrow> string \<Rightarrow> bool" where
  "operation_given sd k \<longleftrightarrow> k = ''query'' \<and> sd_query sd \<noteq> None \<or> k = ''mutation'' \<and> sd_mutation sd \<noteq> None
     \<or> k = ''subscription'' \<and> sd_subscription sd \<noteq> None"

definition operation_names :: "string set" where
  "operation_names = {''query'', ''mutation'', ''subscription''}"

lemma add_operation_error:
  "add_operation (sd, err) (operation_node_of (k, n)) = (if k \<in> operation_names \<and> \<not> operation_given sd k
     then (fst (add_operation (sd, False) (operation_node_of (k, n))), err) else (sd, True))"
  by (auto simp: operation_given_def operation_names_def)

lemma add_operation_given:
  "k \<in> operation_names \<Longrightarrow> \<not> operation_given sd k
    \<Longrightarrow> operation_given (fst (add_operation (sd, False) (operation_node_of (k, n)))) j \<longleftrightarrow> j = k \<or> operation_given sd j"
  by (auto simp: operation_given_def operation_names_def)

lemma operations_error:
  "snd (foldl add_operation (sd, err) (map operation_node_of ops)) \<longleftrightarrow> err \<or> \<not> distinct (map fst ops)
     \<or> (\<exists>k \<in> set (map fst ops). k \<notin> operation_names \<or> operation_given sd k)"
proof (induction ops arbitrary: sd err)
  case (Cons op ops)
  obtain k n where op: "op = (k, n)" by (cases op)
  show ?case
  proof (cases "k \<in> operation_names \<and> \<not> operation_given sd k")
    case True
    define sd' where "sd' = fst (add_operation (sd, False) (operation_node_of (k, n)))"
    have step: "add_operation (sd, err) (operation_node_of op) = (sd', err)"
      using add_operation_error [of sd err k n] True unfolding op sd'_def by simp
    have "operation_given sd' j \<longleftrightarrow> j = k \<or> operation_given sd j" for j
      unfolding sd'_def using True by (intro add_operation_given) simp_all
    with Cons.IH [of sd' err] True show ?thesis unfolding list.map foldl_Cons step by (auto simp: op)
  next
    case False
    have step: "add_operation (sd, err) (operation_node_of op) = (sd, True)"
      using add_operation_error [of sd err k n] False unfolding op by simp
    from Cons.IH [of sd True] False show ?thesis unfolding list.map foldl_Cons step by (auto simp: op)
  qed
qed simp

lemma operations_collected:
  "foldl add_operation (sd, err) (map operation_node_of ops) = (sd', False)
    \<Longrightarrow> sd_directives sd' = sd_directives sd \<and> set (schema_operations sd') = set (schema_operations sd) \<union> set ops"
proof (induction ops arbitrary: sd err)
  case (Cons op ops)
  obtain k n where op: "op = (k, n)" by (cases op)
  obtain sd1 err1 where step: "add_operation (sd, err) (operation_node_of (k, n)) = (sd1, err1)" by fastforce
  from Cons.prems have rest: "foldl add_operation (sd1, err1) (map operation_node_of ops) = (sd', False)"
    unfolding list.map foldl_Cons op step .
  from Cons.IH [OF this] have *: "sd_directives sd' = sd_directives sd1" "set (schema_operations sd') = set (schema_operations sd1) \<union> set ops" by auto
  from rest operations_error [of sd1 err1 ops] have "\<not> err1" by simp
  with step have "sd_directives sd1 = sd_directives sd \<and> set (schema_operations sd1) = insert (k, n) (set (schema_operations sd))"
    by (auto simp: schema_operations_def split: if_splits)
  with * show ?case by (simp add: op)
qed simp

lemma schema_operations_read:
  "foldl add_operation (\<lparr>sd_directives = sd_directives sd, sd_query = None, sd_mutation = None, sd_subscription = None\<rparr>, False)
     (map operation_node_of (schema_operations sd)) = (sd, False)"
  by (cases sd) (simp add: schema_operations_def split: option.split)

context combinators
begin

lemma gives_operations:
  "gives (c_skip cb (c_with cb (punct cb ''{'') (c_many cb (c_tuple cb [c_skip cb (kind cb Name) (punct cb '':''), name cb]))) (punct cb ''}''))
    (p_tok ''{'' # operations_tokens ops @ p_tok ''}'' # r) True (NMany (List.map operation_node_of ops)) r"
proof -
  have "gives (c_many cb (c_tuple cb [c_skip cb (kind cb Name) (punct cb '':''), name cb]))
      (concat (List.map (\<lambda>(k, n). [n_tok k, p_tok '':'', n_tok n]) ops) @ p_tok ''}'' # r) (ops \<noteq> []) (NMany (List.map operation_node_of ops)) (p_tok ''}'' # r)"
  proof (rule gives_many [where Q = "\<lambda>_. True"])
    fix x :: "string \<times> string" and q
    obtain k n where x: "x = (k, n)" by (cases x)
    show "gives (c_tuple cb [c_skip cb (kind cb Name) (punct cb '':''), name cb]) ((case x of (k, n) \<Rightarrow> [n_tok k, p_tok '':'', n_tok n]) @ q) True
        (operation_node_of x) q"
      using gives_Cons [OF gives_skip [OF gives_kind [of "n_tok k" Name] gives_punct] gives_Cons [OF gives_name gives_Nil]] by (simp add: x)
  qed (auto intro!: refuses_Cons refuses_skip refuses_kind)
  from gives_bracketed [OF this] show ?thesis by (simp add: operations_tokens_def)
qed

text \<open>The errors of a schema definition are exactly a repeated operation and an unknown one.\<close>

lemma schema_parser:
  assumes "length (directives_tokens ds) \<le> d" "writable_directives f64 ds"
  shows "(distinct (List.map fst ops) \<and> fst ` set ops \<subseteq> operation_names \<longrightarrow> (\<exists>sd. gives (schema_p cb f64 d) (schema_tokens ds ops @ r) True (NItem (SchemaDefinition sd)) r
        \<and> foldl add_operation (\<lparr>sd_directives = ds, sd_query = None, sd_mutation = None, sd_subscription = None\<rparr>, False)
            (List.map operation_node_of ops) = (sd, False)))
    \<and> (\<not> (distinct (List.map fst ops) \<and> fst ` set ops \<subseteq> operation_names) \<longrightarrow> breaks (schema_p cb f64 d) (schema_tokens ds ops @ r))"
proof -
  let ?start = "\<lparr>sd_directives = ds, sd_query = None, sd_mutation = None, sd_subscription = None\<rparr>"
  obtain sd err where fold: "foldl add_operation (?start, False) (List.map operation_node_of ops) = (sd, err)" by fastforce
  have err: "err \<longleftrightarrow> \<not> (distinct (List.map fst ops) \<and> fst ` set ops \<subseteq> operation_names)"
    using operations_error [of ?start False ops] fold by (auto simp: operation_given_def)
  from yields_directives [OF assms, of "p_tok ''{'' # operations_tokens ops @ p_tok ''}'' # r"] obtain c v where
    v: "gives (directives cb f64 d) (directives_tokens ds @ p_tok ''{'' # operations_tokens ops @ p_tok ''}'' # r) c v
      (p_tok ''{'' # operations_tokens ops @ p_tok ''}'' # r)" "directives_of v = ds" by (auto elim: yieldsE)
  from gives_Cons [OF gives_ident [of "''schema''"] gives_Cons [OF v(1) gives_Cons [OF gives_operations gives_Nil]]]
  have g: "gives (c_tuple cb [ident cb ''schema'', directives cb f64 d,
      c_skip cb (c_with cb (punct cb ''{'') (c_many cb (c_tuple cb [c_skip cb (kind cb Name) (punct cb '':''), name cb]))) (punct cb ''}'')])
    (schema_tokens ds ops @ r) True (NTuple [NToken (n_tok ''schema''), v, NMany (List.map operation_node_of ops)]) r"
    by (simp add: schema_tokens_def)
  have "schema_node (NTuple [NToken (n_tok ''schema''), v, NMany (List.map operation_node_of ops)])
      = (if \<not> err then Some (NItem (SchemaDefinition sd)) else None)"
    using fold v(2) by simp
  from and_then_iff [where g = schema_node, OF g this] show ?thesis
    using fold err by (auto simp: schema_p_def)
qed

lemma gives_locations:
  assumes "ls \<noteq> []" "next_not [''|''] r"
  shows "gives (directive_locations cb) (separated_tokens ''|'' (List.map location_as_str ls) @ r) True (NMany (List.map NLocation ls)) r"
proof -
  let ?p = "c_and_then cb location_node (kind cb Name)"
  let ?g = "\<lambda>n. case location_from_str n of None \<Rightarrow> NNone | Some l \<Rightarrow> NLocation l"
  have "gives ?p (n_tok n # q) True (?g n) q" if "n \<in> set (List.map location_as_str ls)" for n q
    using that by (intro gives_and_then [where v = "NToken (n_tok n)"]) (auto simp: gives_kind location_node_def)
  from gives_sep_by1 [where g = ?g and ns = "List.map location_as_str ls", OF this _ assms(2)] assms(1)
  have sep: "gives (c_sep_by1 cb ?p (punct cb ''|'')) (separated_tokens ''|'' (List.map location_as_str ls) @ r) True (NMany (List.map NLocation ls)) r"
    by (simp add: o_def)
  have "refuses (punct cb ''|'') (separated_tokens ''|'' (List.map location_as_str ls) @ r)"
    by (intro refuses_punct) (use assms(1) in \<open>cases ls; simp\<close>)
  from gives_map [OF gives_optional_some [OF gives_with [OF gives_optional_none [OF this] sep]], of unwrap_list] show ?thesis
    by (simp add: directive_locations_def unwrap_list_def)
qed

lemma gives_directive_definition:
  assumes "length (directive_definition_tokens dd) \<le> d" "list_all (writable_input f64) (dd_arguments dd)" "dd_locations dd \<noteq> []" "item_end r"
  shows "gives (directive_definition_p cb f64 d) (directive_definition_tokens dd @ r) True (NItem (DirectiveDefinition (dd\<lparr>dd_description := None\<rparr>))) r"
proof -
  let ?args = "block_tokens ''('' input_tokens (dd_arguments dd) '')''" and ?ls = "separated_tokens ''|'' (List.map location_as_str (dd_locations dd))"
  let ?rep = "if dd_repeatable dd then [n_tok ''repeatable''] else []"
  have len: "length ?args \<le> d" using assms(1) by (simp add: directive_definition_tokens_def)
  have "next_not [''(''] (?rep @ n_tok ''on'' # ?ls @ r)" by simp
  from yields_inputs [OF len assms(2) this] obtain c v where v: "gives (arguments_definition cb f64 d) (?args @ ?rep @ n_tok ''on'' # ?ls @ r) c v
      (?rep @ n_tok ''on'' # ?ls @ r)" "List.map input_of (items_of v) = dd_arguments dd"
    by (auto simp: arguments_definition_def elim!: yieldsE)
  have "yields (c_optional cb (ident cb ''repeatable'')) (?rep @ n_tok ''on'' # ?ls @ r) (\<lambda>v. option_of_node v \<noteq> None) (dd_repeatable dd)
      (n_tok ''on'' # ?ls @ r)"
  proof (cases "dd_repeatable dd")
    case True
    then show ?thesis by (simp add: yields_some [OF gives_ident])
  next
    case False
    then show ?thesis by (simp add: yields_none refuses_ident)
  qed
  then obtain c' w where w: "gives (c_optional cb (ident cb ''repeatable'')) (?rep @ n_tok ''on'' # ?ls @ r) c' w (n_tok ''on'' # ?ls @ r)"
    "(option_of_node w \<noteq> None) = dd_repeatable dd" by (rule yieldsE)
  have l: "gives (directive_locations cb) (?ls @ r) True (NMany (List.map NLocation (dd_locations dd))) r"
    using assms(3) item_end_not [OF assms(4)] by (intro gives_locations) simp_all
  from gives_with [OF gives_Cons [OF gives_ident [of "''directive''"] gives_Cons [OF gives_punct [of "''@''"] gives_Nil]] gives_name [of "dd_name dd"]]
  have n: "gives (c_with cb (c_tuple cb [ident cb ''directive'', punct cb ''@'']) (name cb))
      (n_tok ''directive'' # p_tok ''@'' # n_tok (dd_name dd) # q) True (NText (dd_name dd)) q" for q by simp
  from gives_map [OF gives_Cons [OF n gives_Cons [OF v(1) gives_Cons [OF w(1) gives_Cons [OF gives_with [OF gives_ident l] gives_Nil]]]],
      where f = directive_definition_node and w = "NItem (DirectiveDefinition (dd\<lparr>dd_description := None\<rparr>))"] v(2) w(2)
  show ?thesis by (simp add: directive_definition_p_def directive_definition_tokens_def o_def)
qed

lemma refuses_directive_definition: "\<not> begins_with ''directive'' toks \<Longrightarrow> refuses (directive_definition_p cb f64 d) toks"
  unfolding directive_definition_p_def by (intro refuses_map refuses_Cons refuses_with refuses_ident) auto

lemma refuses_undescribed:
  "\<not> begins_with ''schema'' toks \<Longrightarrow> refuses (schema_p cb f64 d) toks"
  "\<not> begins_with ''extend'' toks \<Longrightarrow> refuses (c_map cb (\<lambda>n. NItem (TypeExtension (extension_of n))) (type_extension_p cb f64 d)) toks"
  unfolding schema_p_def type_extension_p_def
  by (intro refuses_and_then refuses_map refuses_Cons refuses_with refuses_ident; auto)+

lemma gives_described:
  assumes "writable_description x" "toks = n_tok k # toks'" "k \<notin> {''schema'', ''extend''}"
    and "gives (c_or cb (c_map cb (\<lambda>n. NItem (TypeDefinition (type_definition_of n)))
          (alternatives cb (scalar_type_p cb f64 d)
            [object_type_p cb f64 d, interface_type_p cb f64 d, union_type_p cb f64 d, enum_type_p cb f64 d, input_object_type_p cb f64 d]))
        (directive_definition_p cb f64 d)) toks True (NItem y) r"
  shows "gives (item_p cb f64 d) (description_tokens x @ toks) True (NItem (describe x y)) r"
proof -
  from yields_description [OF assms(1)] obtain c v where v: "gives (c_optional cb (string_p cb)) (description_tokens x @ toks) c v toks"
    "text_option v = x" unfolding assms(2) by (rule yieldsE)
  from gives_map [OF gives_Cons [OF v(1) gives_Cons [OF assms(4) gives_Nil]], where f = described_node and w = "NItem (describe x y)"] v(2)
  have "gives (described_definition cb f64 d) (description_tokens x @ toks) True (NItem (describe x y)) r"
    by (simp add: described_definition_def)
  moreover have "\<not> begins_with ''schema'' (description_tokens x @ toks)" "\<not> begins_with ''extend'' (description_tokens x @ toks)"
    using assms(2,3) by (cases x; simp)+
  ultimately show ?thesis
    unfolding item_p_def by (intro gives_alternatives [where i = 1]) (auto intro!: refuses_undescribed)
qed

lemma gives_item:
  assumes "length (item_tokens x) \<le> d" "writable_item f64 x" "item_end r"
  shows "gives (item_p cb f64 d) (item_tokens x @ r) True (NItem x) r"
proof (cases x)
  case (SchemaDefinition sd)
  have "length (directives_tokens (sd_directives sd)) \<le> d" "writable_directives f64 (sd_directives sd)"
    using assms(1,2) by (simp_all add: SchemaDefinition schema_tokens_def)
  moreover have "distinct (List.map fst (schema_operations sd)) \<and> fst ` set (schema_operations sd) \<subseteq> operation_names"
    by (auto simp: schema_operations_def operation_names_def split: option.splits)
  ultimately have "gives (schema_p cb f64 d) (schema_tokens (sd_directives sd) (schema_operations sd) @ r) True (NItem (SchemaDefinition sd)) r"
    using schema_parser [of "sd_directives sd" d f64 "schema_operations sd" r] schema_operations_read [of sd] by auto
  then show ?thesis by (simp add: SchemaDefinition item_p_def gives_alternatives1)
next
  case (TypeDefinition t)
  have "gives (alternatives cb (scalar_type_p cb f64 d) [object_type_p cb f64 d, interface_type_p cb f64 d, union_type_p cb f64 d,
      enum_type_p cb f64 d, input_object_type_p cb f64 d]) (type_definition_tokens t @ r) True (NTypeDef (bare t)) r"
    using assms by (intro gives_types) (simp_all add: TypeDefinition)
  from gives_or1 [OF gives_map [OF this, where f = "\<lambda>n. NItem (TypeDefinition (type_definition_of n))"
      and w = "NItem (TypeDefinition (bare t))"]]
  have alt: "gives (c_or cb (c_map cb (\<lambda>n. NItem (TypeDefinition (type_definition_of n)))
      (alternatives cb (scalar_type_p cb f64 d) [object_type_p cb f64 d, interface_type_p cb f64 d, union_type_p cb f64 d,
        enum_type_p cb f64 d, input_object_type_p cb f64 d])) (directive_definition_p cb f64 d))
      (type_definition_tokens t @ r) True (NItem (TypeDefinition (bare t))) r" by simp
  obtain k toks where k: "type_definition_tokens t @ r = n_tok k # toks" "k \<notin> {''schema'', ''extend''}"
    by (cases t) (auto simp: type_tokens_defs)
  have "writable_description (type_description t)" using assms(2) by (simp add: TypeDefinition)
  from gives_described [OF this k alt] show ?thesis by (simp add: TypeDefinition describe_bare)
next
  case (TypeExtension x')
  with assms extension_item [of x' d f64 r] show ?thesis by simp
next
  case (DirectiveDefinition dd)
  have "gives (directive_definition_p cb f64 d) (directive_definition_tokens dd @ r) True (NItem (DirectiveDefinition (dd\<lparr>dd_description := None\<rparr>))) r"
    using assms by (intro gives_directive_definition) (simp_all add: DirectiveDefinition)
  then have alt: "gives (c_or cb (c_map cb (\<lambda>n. NItem (TypeDefinition (type_definition_of n)))
      (alternatives cb (scalar_type_p cb f64 d) [object_type_p cb f64 d, interface_type_p cb f64 d, union_type_p cb f64 d,
        enum_type_p cb f64 d, input_object_type_p cb f64 d])) (directive_definition_p cb f64 d))
      (directive_definition_tokens dd @ r) True (NItem (DirectiveDefinition (dd\<lparr>dd_description := None\<rparr>))) r"
    by (intro gives_or2 refuses_map refuses_alternatives) (auto simp: directive_definition_tokens_def intro!: refuses_types)
  have "writable_description (dd_description dd)" using assms(2) by (simp add: DirectiveDefinition)
  from gives_described [OF this _ _ alt] show ?thesis by (simp add: DirectiveDefinition directive_definition_tokens_def)
qed

lemma item_tokens_end: "item_end (item_tokens x @ r)"
proof (cases x)
  case (TypeDefinition t)
  then show ?thesis by (cases t; cases "type_description t") (auto simp: item_end_def type_tokens_defs)
next
  case (DirectiveDefinition dd)
  then show ?thesis by (cases "dd_description dd") (auto simp: item_end_def directive_definition_tokens_def)
qed (auto simp: item_end_def schema_tokens_def)

lemma refuses_item: "refuses (item_p cb f64 d) []"
proof -
  have string: "refuses (string_p cb) []" unfolding string_p_def by (intro refuses_or refuses_and_then refuses_kind) simp_all
  have types: "refuses (alternatives cb (scalar_type_p cb f64 d) [object_type_p cb f64 d, interface_type_p cb f64 d, union_type_p cb f64 d,
      enum_type_p cb f64 d, input_object_type_p cb f64 d]) []"
    by (rule refuses_alternatives) (auto intro!: refuses_types)
  have "refuses (described_definition cb f64 d) []"
    unfolding described_definition_def
    by (intro refuses_map refuses_Cons_later [OF gives_optional_none [OF string]] refuses_Cons refuses_or types refuses_directive_definition) simp
  then show ?thesis unfolding item_p_def by (intro refuses_alternatives) (auto intro: refuses_undescribed)
qed

lemma gives_schema_document:
  assumes "length (schema_document_tokens doc) \<le> d" "list_all (writable_item f64) doc" "doc \<noteq> []"
  shows "gives (schema_document_p cb f64 d) (schema_document_tokens doc) True (NMany (List.map NItem doc)) []"
proof -
  have "gives (c_many1 cb (item_p cb f64 d)) (concat (List.map item_tokens doc) @ []) True (NMany (List.map NItem doc)) []"
  proof (rule gives_many1 [where Q = item_end])
    fix x r assume x: "x \<in> set doc" and r: "item_end r"
    show "gives (item_p cb f64 d) (item_tokens x @ r) True (NItem x) r"
      using assms(1,2) length_item [OF x, of item_tokens] x r
      by (intro gives_item) (auto simp: schema_document_tokens_def list_all_iff)
  qed (use assms(3) item_tokens_end in \<open>auto simp: refuses_item item_end_def\<close>)
  from gives_skip [OF this gives_eof] show ?thesis by (simp add: schema_document_p_def schema_document_tokens_def)
qed

end

section \<open>Properties\<close>



text \<open>
  The check of the operations in a schema definition is exact. The definition is refused, for good, when an operation is
  repeated or is none of the three, and read otherwise; no operations at all are accepted.
\<close>

theorem schema_operations_checked:
  assumes "combinators cb" "ahead s (schema_tokens ds ops @ rest)" "length (directives_tokens ds) \<le> d" "writable_directives f64 ds"
  shows "if distinct (map fst ops) \<and> fst ` set ops \<subseteq> {''query'', ''mutation'', ''subscription''}
    then \<exists>sd s'. schema_p cb f64 d s = (Matched True (NItem (SchemaDefinition sd)), s') \<and> sd_directives sd = ds
      \<and> set (schema_operations sd) = set ops
    else \<exists>s'. schema_p cb f64 d s = (Failed True, s')"
proof (cases "distinct (map fst ops) \<and> fst ` set ops \<subseteq> operation_names")
  case True
  with combinators.schema_parser [OF assms(1,3,4), of ops rest] obtain sd where
    sd: "gives (schema_p cb f64 d) (schema_tokens ds ops @ rest) True (NItem (SchemaDefinition sd)) rest"
    "foldl add_operation (\<lparr>sd_directives = ds, sd_query = None, sd_mutation = None, sd_subscription = None\<rparr>, False)
      (map operation_node_of ops) = (sd, False)" by blast
  from operations_collected [OF sd(2)] have "sd_directives sd = ds" "set (schema_operations sd) = set ops"
    by (simp_all add: schema_operations_def)
  with sd(1) True assms(2) show ?thesis by (auto simp: operation_names_def elim: givesE)
next
  case False
  with combinators.schema_parser [OF assms(1,3,4), of ops rest] assms(2) have "\<exists>s'. schema_p cb f64 d s = (Failed True, s')"
    by (blast elim: breaksE)
  with False show ?thesis by (simp only: operation_names_def if_False)
qed

lemma schema_operations_checked_witness:
  "\<exists>s'. schema_p ll1 Some 0 (token_stream_new ''schema{a:Q}'') = (Failed True, s')"
proof -
  let ?s = "token_stream_new ''schema{a:Q}''"
  have "fst (uncons ?s) = Inr (n_tok ''schema'')" "fst (uncons (snd (uncons ?s))) = Inr (p_tok ''{'')"
    "fst (uncons (snd (uncons (snd (uncons ?s))))) = Inr (n_tok ''a'')"
    "fst (uncons (snd (uncons (snd (uncons (snd (uncons ?s))))))) = Inr (p_tok '':'')"
    "fst (uncons (snd (uncons (snd (uncons (snd (uncons (snd (uncons ?s))))))))) = Inr (n_tok ''Q'')"
    "fst (uncons (snd (uncons (snd (uncons (snd (uncons (snd (uncons (snd (uncons ?s))))))))))) = Inr (p_tok ''}'')"
    and e: "fst (uncons (snd (uncons (snd (uncons (snd (uncons (snd (uncons (snd (uncons (snd (uncons ?s))))))))))))) = Inl EndOfInput"
    by code_simp+
  then have "token_run ?s (schema_tokens [] [(''a'', ''Q'')] @ [])
      (snd (uncons (snd (uncons (snd (uncons (snd (uncons (snd (uncons (snd (uncons ?s))))))))))))"
    by (auto simp: schema_tokens_def operations_tokens_def directives_tokens_def intro!: run_head run_nil)
  from schema_operations_checked [OF ll.combinators_axioms ahead_run [OF this new_stream(1) e], of 0 Some] show ?thesis
    by (simp add: directives_tokens_def writable_directives_def)
qed

text \<open>
  The check of extensions is exact. An extension is read back when it adds something that the grammar asks for,
  and refused for good otherwise; for an interface, further interfaces do not count.
\<close>

theorem extensions_checked:
  assumes "combinators cb" "ahead s (item_tokens (TypeExtension x) @ rest)" "length (item_tokens (TypeExtension x)) \<le> d"
    and "writable_parts f64 (extended x)" "type_description (extended x) = None" "item_end rest"
  shows "if extends x then \<exists>s'. item_p cb f64 d s = (Matched True (NItem (TypeExtension x)), s') \<and> ahead s' rest
    else \<exists>s'. item_p cb f64 d s = (Failed True, s')"
proof (cases "extends x")
  case True
  with combinators.extension_item [OF assms(1,3-6)] have "gives (item_p cb f64 d) (item_tokens (TypeExtension x) @ rest) True (NItem (TypeExtension x)) rest"
    by blast
  from givesE [OF this assms(2)] True show ?thesis by auto
next
  case False
  with combinators.extension_item [OF assms(1,3-6)] have "breaks (item_p cb f64 d) (item_tokens (TypeExtension x) @ rest)" by blast
  from breaksE [OF this assms(2)] False show ?thesis by auto
qed

lemma extensions_checked_witness:
  "\<exists>s'. item_p ll1 Some 5 (token_stream_new ''extend interface A implements B'') = (Failed True, s')"
proof -
  let ?s = "token_stream_new ''extend interface A implements B''"
  let ?x = "XInterface \<lparr>ob_description = None, ob_name = ''A'', ob_implements = [''B''], ob_directives = [], ob_fields = []\<rparr>"
  have "fst (uncons ?s) = Inr (n_tok ''extend'')" "fst (uncons (snd (uncons ?s))) = Inr (n_tok ''interface'')"
    "fst (uncons (snd (uncons (snd (uncons ?s))))) = Inr (n_tok ''A'')"
    "fst (uncons (snd (uncons (snd (uncons (snd (uncons ?s))))))) = Inr (n_tok ''implements'')"
    "fst (uncons (snd (uncons (snd (uncons (snd (uncons (snd (uncons ?s))))))))) = Inr (n_tok ''B'')"
    and e: "fst (uncons (snd (uncons (snd (uncons (snd (uncons (snd (uncons (snd (uncons ?s))))))))))) = Inl EndOfInput"
    by code_simp+
  then have "token_run ?s (item_tokens (TypeExtension ?x) @ []) (snd (uncons (snd (uncons (snd (uncons (snd (uncons (snd (uncons ?s))))))))))"
    by (auto simp: object_tokens_def implements_tokens_def block_tokens_def directives_tokens_def intro!: run_head run_nil)
  from extensions_checked [OF ll.combinators_axioms ahead_run [OF this new_stream(1) e], of 5 Some] show ?thesis
    by (simp add: object_tokens_def implements_tokens_def block_tokens_def directives_tokens_def writable_directives_def item_end_def)
qed

end
