(* ===== verification/Entities.thy ===== *)
theory Entities
  imports Executor
begin

text \<open>
  \<^verbatim>\<open>fuel-indexer-macros/src/schema.rs\<close> and the trait \<^verbatim>\<open>Entity\<close> of \<^verbatim>\<open>fuel-indexer-plugin\<close>: the macro writes a
  Rust struct for each object type of the schema, with its conversion to a row of column values
  and back. The first part models the macro, which gives a description of the code that it writes;
  the second what that code does when the module runs. Code that \<^verbatim>\<open>rustc\<close> refuses has no behaviour.
\<close>

section \<open>Tokens\<close>

datatype token_tree = TIdent string | TPunct char

type_synonym tokens = "token_tree list"

fun token_text :: "token_tree \<Rightarrow> string" where
  "token_text (TIdent i) = i"
| "token_text (TPunct c) = [c]"

definition tokens_to_string :: "tokens \<Rightarrow> string" where
  "tokens_to_string ts = join '' '' (map token_text ts)"

definition option_of :: "tokens \<Rightarrow> tokens" where
  "option_of ts = [TIdent ''Option'', TPunct (CHR ''<'')] @ ts @ [TPunct (CHR ''>'')]"

section \<open>The macro\<close>

text \<open>\<^verbatim>\<open>process_type\<close>: the type of a field of the struct.\<close>

fun rust_type :: "string set \<Rightarrow> gql_type \<Rightarrow> bool \<Rightarrow> (tokens, 'e) result" where
  "rust_type types (NamedType t) nullable =
     (if t \<notin> types then Inl (Panic (''Type '' @ [CHR 0x27] @ t @ [CHR 0x27] @ '' is undefined.''))
      else Inr (if nullable then option_of [TIdent t] else [TIdent t]))"
| "rust_type types (ListType _) nullable = Inl (Panic ''Got a list type, we don't handle this yet...'')"
| "rust_type types (NonNullType t) nullable = rust_type types t False"

text \<open>\<^verbatim>\<open>get_column_type\<close>: whether the type is an \<^verbatim>\<open>Option\<close>, and its identifiers other than that.\<close>

definition tokens_column_type :: "tokens \<Rightarrow> bool \<times> tokens" where
  "tokens_column_type typ = (TIdent ''Option'' \<in> set typ,
     filter (\<lambda>t. case t of TIdent i \<Rightarrow> i \<noteq> ''Option'' | TPunct _ \<Rightarrow> False) typ)"

text \<open>The code that takes one field from the end of a row.\<close>

record extractor =
  xt_ident :: string
  xt_column :: tokens
  xt_nullable :: bool

definition process_field :: "string set \<Rightarrow> field \<Rightarrow> (tokens \<times> string \<times> extractor, 'e) result" where
  "process_field types f =
     rbind (rust_type types (fd_type f) True) (\<lambda>typ.
     case tokens_column_type typ of (nullable, column) \<Rightarrow>
       Inr (typ, fd_name f, \<lparr>xt_ident = fd_name f, xt_column = column, xt_nullable = nullable\<rparr>))"

definition process_fk_field ::
    "string set \<Rightarrow> object_type \<Rightarrow> field \<Rightarrow> (string \<rightharpoonup> string) \<Rightarrow> bool \<Rightarrow> (tokens \<times> string \<times> extractor, 'e) result" where
  "process_fk_field types obj f types_map nullable =
     rbind (get_join_directive_info f obj types_map) (\<lambda>ji.
     rbind (rust_type types (NamedType (ji_reference_field_type_name ji)) nullable) (\<lambda>typ.
     let ident = to_lowercase (ji_field_name ji)
     in Inr (typ, ident, \<lparr>xt_ident = ident, xt_column = snd (tokens_column_type typ), xt_nullable = nullable\<rparr>)))"

text \<open>
  The struct that is written: its fields with their types, the extractors in the order in which
  they run, the fields of the construction, and for each column of a row its variant, whether
  it is nullable and the field that it comes from.
\<close>

record struct_def =
  st_name :: string
  st_type_id :: int
  st_block :: "(string \<times> tokens) list"
  st_extractors :: "extractor list"
  st_construction :: "string list"
  st_flattened :: "(tokens \<times> bool \<times> string) list"

text \<open>
  The loop body over the fields. A field is a foreign key when its type has been seen before, as a
  struct or as the type of a field, and is not a primitive type.
\<close>

definition struct_field ::
    "string set \<Rightarrow> (string \<rightharpoonup> string) \<Rightarrow> object_type \<Rightarrow> struct_def \<times> string set \<Rightarrow> field
      \<Rightarrow> (struct_def \<times> string set, 'e) result" where
  "struct_field types types_map obj stp f =
     (case stp of (st, processed) \<Rightarrow>
        rbind (process_field types f) (\<lambda>(ty0, name0, ext0).
        case tokens_column_type ty0 of (nullable, column0) \<Rightarrow>
        rbind (if tokens_to_string column0 \<in> processed \<and> tokens_to_string column0 \<notin> primitives
               then rbind (process_fk_field types obj f types_map nullable) (\<lambda>(ty, name, ext). Inr (ty, name, ext, ty))
               else Inr (ty0, name0, ext0, column0)) (\<lambda>(ty, name, ext, column).
        Inr (st\<lparr>st_block := st_block st @ [(name, ty)], st_extractors := ext # st_extractors st,
               st_construction := st_construction st @ [name],
               st_flattened := st_flattened st @ [(column, nullable, name)]\<rparr>,
             insert (tokens_to_string column) processed))))"

definition process_type_def ::
    "(string \<Rightarrow> bytes) \<Rightarrow> string \<Rightarrow> string \<Rightarrow> string \<Rightarrow> string set \<Rightarrow> (string \<rightharpoonup> string)
      \<Rightarrow> type_definition \<Rightarrow> string set \<Rightarrow> (struct_def option \<times> string set, 'e) result" where
  "process_type_def sha root ns ident types types_map typ processed =
     (case typ of
        TObject obj \<Rightarrow>
          (if ob_name obj = root then Inr (None, processed)
           else rbind (foldM (struct_field types types_map obj)
               (\<lparr>st_name = ob_name obj, st_type_id = type_id sha (ns @ ''_'' @ ident) (ob_name obj), st_block = [],
                 st_extractors = [], st_construction = [], st_flattened = []\<rparr>, processed) (ob_fields obj))
             (\<lambda>(st, processed'). Inr (Some st, insert (ob_name obj) processed')))
      | _ \<Rightarrow> Inl (Panic ''Unexpected type''))"

definition process_definition ::
    "(string \<Rightarrow> bytes) \<Rightarrow> string \<Rightarrow> string \<Rightarrow> string \<Rightarrow> string set \<Rightarrow> (string \<rightharpoonup> string)
      \<Rightarrow> struct_def list \<times> string set \<Rightarrow> schema_item \<Rightarrow> (struct_def list \<times> string set, 'e) result" where
  "process_definition sha root ns ident types types_map stp def =
     (case stp of (structs, processed) \<Rightarrow>
      case def of
        TypeDefinition typ \<Rightarrow>
          rbind (process_type_def sha root ns ident types types_map typ processed) (\<lambda>(st, processed').
          Inr (structs @ (case st of None \<Rightarrow> [] | Some s \<Rightarrow> [s]), processed'))
      | SchemaDefinition _ \<Rightarrow> Inr (structs, processed)
      | _ \<Rightarrow> Inl (Panic ''Unhandled definition type''))"

fun first_schema_definition :: "schema_document \<Rightarrow> schema_definition option" where
  "first_schema_definition [] = None"
| "first_schema_definition (SchemaDefinition s # doc) = Some s"
| "first_schema_definition (_ # doc) = first_schema_definition doc"

definition get_query_root :: "string set \<Rightarrow> schema_document \<Rightarrow> (string, 'e) result" where
  "get_query_root types doc =
     rbind (expect (first_schema_definition doc) ''Schema definition not found.'') (\<lambda>s.
     rbind (expect (sd_query s) ''Schema definition must specify a query root.'') (\<lambda>name.
     if name \<in> types then Inr name else Inl (Panic ''Query root not defined.'')))"

record generated =
  gn_namespace :: string
  gn_identifier :: string
  gn_version :: string
  gn_structs :: "struct_def list"

text \<open>The text of the schema file is an argument; an abort of the macro is a panic of the compilation.\<close>

definition process_graphql_schema ::
    "(string \<Rightarrow> schema_document option) \<Rightarrow> (string \<Rightarrow> bytes) \<Rightarrow> string \<Rightarrow> string \<Rightarrow> string \<Rightarrow> (generated, 'e) result" where
  "process_graphql_schema parse sha ns ident file =
     (let schema = inject_native_entities_into_schema file
      in rbind (expect (parse schema) ''Error parsing graphql schema'') (\<lambda>doc.
         let types = fst (build_schema_objects_set doc) \<union> primitives
         in rbind (get_query_root types doc) (\<lambda>root.
            rbind (build_schema_fields_and_types_map doc) (\<lambda>types_map.
            rbind (foldM (process_definition sha root ns ident types types_map) ([], {}) doc) (\<lambda>(structs, _).
            Inr \<lparr>gn_namespace = ns, gn_identifier = ident, gn_version = schema_version sha schema,
                 gn_structs = structs\<rparr>)))))"

section \<open>The code that it writes\<close>

text \<open>The payload of a column, and a field of a struct: of type \<^verbatim>\<open>Option<T>\<close> or \<^verbatim>\<open>T\<close>.\<close>

datatype scalar =
    V32 "32 word"
  | V64 "64 word"
  | V128 "128 word"
  | VBytes bytes
  | VText string
  | VBool bool
  | VIdentity ft_identity

datatype field_value = Maybe "scalar option" | Sure scalar

type_synonym entity = "string \<rightharpoonup> field_value"

text \<open>The variant of a column and its payload: what a \<^verbatim>\<open>match\<close> on \<^verbatim>\<open>FtColumn\<close> sees.\<close>

fun unwrap :: "ft_column \<Rightarrow> string \<times> scalar option" where
  "unwrap (FtID v) = (''ID'', map_option V64 v)"
| "unwrap (FtAddress v) = (''Address'', map_option VBytes v)"
| "unwrap (FtAssetId v) = (''AssetId'', map_option VBytes v)"
| "unwrap (FtBytes4 v) = (''Bytes4'', map_option VBytes v)"
| "unwrap (FtBytes8 v) = (''Bytes8'', map_option VBytes v)"
| "unwrap (FtBytes32 v) = (''Bytes32'', map_option VBytes v)"
| "unwrap (FtContractId v) = (''ContractId'', map_option VBytes v)"
| "unwrap (FtInt4 v) = (''Int4'', map_option V32 v)"
| "unwrap (FtInt8 v) = (''Int8'', map_option V64 v)"
| "unwrap (FtInt16 v) = (''Int16'', map_option V128 v)"
| "unwrap (FtUInt4 v) = (''UInt4'', map_option V32 v)"
| "unwrap (FtUInt8 v) = (''UInt8'', map_option V64 v)"
| "unwrap (FtUInt16 v) = (''UInt16'', map_option V128 v)"
| "unwrap (FtTimestamp v) = (''Timestamp'', map_option V64 v)"
| "unwrap (FtSalt v) = (''Salt'', map_option VBytes v)"
| "unwrap (FtJson v) = (''Json'', map_option VText v)"
| "unwrap (FtMessageId v) = (''MessageId'', map_option VBytes v)"
| "unwrap (FtCharfield v) = (''Charfield'', map_option VText v)"
| "unwrap (FtIdentity v) = (''Identity'', map_option VIdentity v)"
| "unwrap (FtBoolean v) = (''Boolean'', map_option VBool v)"
| "unwrap (FtBlob v) = (''Blob'', map_option VBytes v)"

definition variants :: "string list" where
  "variants = [''ID'', ''Address'', ''AssetId'', ''Bytes4'', ''Bytes8'', ''Bytes32'', ''ContractId'', ''Int4'', ''Int8'', ''Int16'', ''UInt4'', ''UInt8'', ''UInt16'', ''Timestamp'', ''Salt'', ''Json'', ''MessageId'', ''Charfield'', ''Identity'', ''Boolean'', ''Blob'']"

fun un_V32 where "un_V32 (V32 w) = Some w" | "un_V32 _ = None"
fun un_V64 where "un_V64 (V64 w) = Some w" | "un_V64 _ = None"
fun un_V128 where "un_V128 (V128 w) = Some w" | "un_V128 _ = None"
fun un_VBytes where "un_VBytes (VBytes b) = Some b" | "un_VBytes _ = None"
fun un_VText where "un_VText (VText t) = Some t" | "un_VText _ = None"
fun un_VBool where "un_VBool (VBool b) = Some b" | "un_VBool _ = None"
fun un_VIdentity where "un_VIdentity (VIdentity i) = Some i" | "un_VIdentity _ = None"

definition payload :: "(scalar \<Rightarrow> 'a option) \<Rightarrow> scalar option \<Rightarrow> 'a option option" where
  "payload un v = (case v of None \<Rightarrow> Some None | Some s \<Rightarrow> map_option Some (un s))"

text \<open>\<^verbatim>\<open>FtColumn::T(v)\<close>, where \<open>v\<close> has the type of the payload of \<open>T\<close>; other code does not compile.\<close>

definition wrap :: "string \<Rightarrow> scalar option \<Rightarrow> ft_column option" where
  "wrap t v =
     (if t = ''ID'' then map_option FtID (payload un_V64 v)
      else if t = ''Address'' then map_option FtAddress (payload un_VBytes v)
      else if t = ''AssetId'' then map_option FtAssetId (payload un_VBytes v)
      else if t = ''Bytes4'' then map_option FtBytes4 (payload un_VBytes v)
      else if t = ''Bytes8'' then map_option FtBytes8 (payload un_VBytes v)
      else if t = ''Bytes32'' then map_option FtBytes32 (payload un_VBytes v)
      else if t = ''ContractId'' then map_option FtContractId (payload un_VBytes v)
      else if t = ''Int4'' then map_option FtInt4 (payload un_V32 v)
      else if t = ''Int8'' then map_option FtInt8 (payload un_V64 v)
      else if t = ''Int16'' then map_option FtInt16 (payload un_V128 v)
      else if t = ''UInt4'' then map_option FtUInt4 (payload un_V32 v)
      else if t = ''UInt8'' then map_option FtUInt8 (payload un_V64 v)
      else if t = ''UInt16'' then map_option FtUInt16 (payload un_V128 v)
      else if t = ''Timestamp'' then map_option FtTimestamp (payload un_V64 v)
      else if t = ''Salt'' then map_option FtSalt (payload un_VBytes v)
      else if t = ''Json'' then map_option FtJson (payload un_VText v)
      else if t = ''MessageId'' then map_option FtMessageId (payload un_VBytes v)
      else if t = ''Charfield'' then map_option FtCharfield (payload un_VText v)
      else if t = ''Identity'' then map_option FtIdentity (payload un_VIdentity v)
      else if t = ''Boolean'' then map_option FtBoolean (payload un_VBool v)
      else if t = ''Blob'' then map_option FtBlob (payload un_VBytes v)
      else None)"

definition to_column :: "entity \<Rightarrow> tokens \<times> bool \<times> string \<Rightarrow> ft_column option" where
  "to_column e = (\<lambda>(column, nullable, name).
     case (column, e name) of
       ([TIdent t], Some (Maybe v)) \<Rightarrow> if nullable then wrap t v else None
     | ([TIdent t], Some (Sure x)) \<Rightarrow> if nullable then None else wrap t (Some x)
     | _ \<Rightarrow> None)"

text \<open>\<^verbatim>\<open>to_row\<close> and \<^verbatim>\<open>from_row\<close> of the struct.\<close>

definition to_row :: "struct_def \<Rightarrow> entity \<Rightarrow> ft_column list option" where
  "to_row st e = those (map (to_column e) (st_flattened st))"

definition extract_field :: "extractor \<Rightarrow> ft_column \<Rightarrow> (field_value, 'e) result" where
  "extract_field x item = (case unwrap item of (t, v) \<Rightarrow>
     if xt_column x \<noteq> [TIdent t] then Inl (Panic ''Invalid column type'')
     else if xt_nullable x then Inr (Maybe v)
     else case v of
         Some inner \<Rightarrow> Inr (Sure inner)
       | None \<Rightarrow> Inl (Panic ''Non-nullable type is returning a None value.''))"

fun extract_all :: "extractor list \<Rightarrow> ft_column list \<Rightarrow> entity \<Rightarrow> (entity, 'e) result" where
  "extract_all [] row e = Inr e"
| "extract_all (x # xs) row e =
     (if row = [] then Inl (Panic ''Missing item in row.'')
      else rbind (extract_field x (last row)) (\<lambda>v. extract_all xs (butlast row) (e(xt_ident x \<mapsto> v))))"

definition from_row :: "struct_def \<Rightarrow> ft_column list \<Rightarrow> (entity, 'e) result" where
  "from_row st row = rbind (extract_all (st_extractors st) row Map.empty) (\<lambda>e. Inr (e |` set (st_construction st)))"

text \<open>
  \<^verbatim>\<open>save\<close> and \<^verbatim>\<open>load\<close> in a WASM module, with the rest of the handler's run; the serializer of rows and
  its inverse are arguments. A panic of the module is a trap.
\<close>

definition entity_save ::
    "(ft_column list \<Rightarrow> bytes) \<Rightarrow> struct_def \<Rightarrow> entity \<Rightarrow> wasm_run \<Rightarrow> wasm_run option" where
  "entity_save ser st e k = map_option (\<lambda>row. PutObject (st_type_id st) (ser row) k) (to_row st e)"

definition entity_load ::
    "(bytes \<Rightarrow> ft_column list option) \<Rightarrow> struct_def \<Rightarrow> 64 word \<Rightarrow> (entity option \<Rightarrow> wasm_run) \<Rightarrow> wasm_run" where
  "entity_load deser st object_id k = GetObject (st_type_id st) object_id (\<lambda>obj.
     case obj of
       None \<Rightarrow> k None
     | Some bs \<Rightarrow>
         (case deser bs of
            None \<Rightarrow> Trap
          | Some row \<Rightarrow> (case from_row st row :: (entity, unit) result of Inl _ \<Rightarrow> Trap | Inr e \<Rightarrow> k (Some e))))"

end
