(* ===== verification/Wasm_Memory.thy ===== *)
theory Wasm_Memory
  imports Entities
begin

text \<open>
  The memory that an indexer's module shares with the host: the host functions of \<^verbatim>\<open>fuel-indexer/src/ffi.rs\<close> and
  \<^verbatim>\<open>fuel-indexer-plugin/src/wasm.rs\<close> on bytes and addresses, under the tree of calls of \<open>Executor\<close>. The
  runs of modules at this level are shown to be those of their trees.

  The module's allocator (Rust's, behind \<^verbatim>\<open>alloc_fn\<close> and \<^verbatim>\<open>dealloc_fn\<close>), the place where wasmer reads a number
  of some size for a pointer, its check of UTF-8, and the addresses of the variables of the module are the record
  \<open>wasm_env\<close>.
\<close>

section \<open>Memory\<close>

text \<open>
  The linear memory and the blocks in use, as address and size; \<open>mm_failed\<close> records that an allocation has failed.
\<close>

record wasm_memory =
  mm_data :: bytes
  mm_live :: "(nat \<times> nat) list"
  mm_failed :: bool

record wasm_env =
  me_alloc :: "32 word \<Rightarrow> wasm_memory \<Rightarrow> (32 word \<times> wasm_memory) option"
  me_free :: "32 word \<Rightarrow> 32 word \<Rightarrow> wasm_memory \<Rightarrow> wasm_memory"
  me_place :: "nat \<Rightarrow> 32 word \<Rightarrow> 32 word"
  me_utf8 :: "bytes \<Rightarrow> bool"
  me_id :: "32 word"
  me_len :: "32 word"
  me_log :: "32 word \<times> 32 word"

text \<open>A range of a slice, which panics when it is out of bounds.\<close>

definition slice :: "nat \<Rightarrow> nat \<Rightarrow> bytes \<Rightarrow> bytes option" where
  "slice a b bs = (if a \<le> b \<and> b \<le> length bs then Some (take (b - a) (drop a bs)) else None)"

definition store_bytes :: "nat \<Rightarrow> bytes \<Rightarrow> wasm_memory \<Rightarrow> wasm_memory" where
  "store_bytes a bs m = m\<lparr>mm_data := take a (mm_data m) @ bs @ drop (a + length bs) (mm_data m)\<rparr>"

definition allocate :: "wasm_env \<Rightarrow> nat \<Rightarrow> wasm_memory \<Rightarrow> 32 word option \<times> wasm_memory" where
  "allocate env n m =
     (case if n < 2 ^ 32 then me_alloc env (of_nat n) m else None of
        None \<Rightarrow> (None, m\<lparr>mm_failed := True\<rparr>)
      | Some (p, m') \<Rightarrow> (Some p, m'))"

primrec to_le_bytes :: "nat \<Rightarrow> 'a::len word \<Rightarrow> bytes" where
  "to_le_bytes 0 w = []"
| "to_le_bytes (Suc n) w = ucast w # to_le_bytes n (drop_bit 8 w)"

section \<open>Host functions (ffi.rs)\<close>

text \<open>\<^verbatim>\<open>WasmPtr::deref\<close> checks the bounds of the pointer.\<close>

definition deref :: "wasm_env \<Rightarrow> nat \<Rightarrow> 32 word \<Rightarrow> wasm_memory \<Rightarrow> nat option" where
  "deref env sz ptr m = (if unat ptr + sz \<le> length (mm_data m) then Some (unat (me_place env sz ptr)) else None)"

definition get_string :: "wasm_env \<Rightarrow> wasm_memory \<Rightarrow> 32 word \<Rightarrow> 32 word \<Rightarrow> bytes option" where
  "get_string env m ptr len =
     (case slice (unat ptr) (unat ptr + unat len) (mm_data m) of
        None \<Rightarrow> None
      | Some bs \<Rightarrow> if me_utf8 env bs then Some bs else None)"

text \<open>
  The strings that an instance exports by address and length, each a call that should return a number. The memory,
  the exported functions and their calls may fail.
\<close>

datatype ffi_error = MemoryBound | Runtime | HostEnvInit | Export | NoResult string

definition exported_string ::
    "wasm_env \<Rightarrow> ffi_error + wasm_memory \<Rightarrow> string \<Rightarrow> ffi_error + 32 word option \<Rightarrow> ffi_error + 32 word option
      \<Rightarrow> ffi_error + bytes" where
  "exported_string env mem what ptr len =
     (case mem of
        Inl e \<Rightarrow> Inl e
      | Inr m \<Rightarrow>
          (case ptr of
             Inl e \<Rightarrow> Inl e
           | Inr None \<Rightarrow> Inl (NoResult what)
           | Inr (Some p) \<Rightarrow>
               (case len of
                  Inl e \<Rightarrow> Inl e
                | Inr None \<Rightarrow> Inl (NoResult what)
                | Inr (Some n) \<Rightarrow> (case get_string env m p n of None \<Rightarrow> Inl MemoryBound | Some bs \<Rightarrow> Inr bs))))"

definition get_namespace ::
    "wasm_env \<Rightarrow> ffi_error + wasm_memory \<Rightarrow> ffi_error + 32 word option \<Rightarrow> ffi_error + 32 word option \<Rightarrow> ffi_error + bytes" where
  "get_namespace env mem = exported_string env mem ''get_namespace''"

definition get_identifier ::
    "wasm_env \<Rightarrow> ffi_error + wasm_memory \<Rightarrow> ffi_error + 32 word option \<Rightarrow> ffi_error + 32 word option \<Rightarrow> ffi_error + bytes" where
  "get_identifier env mem = exported_string env mem ''get_identifier''"

definition get_version ::
    "wasm_env \<Rightarrow> ffi_error + wasm_memory \<Rightarrow> ffi_error + 32 word option \<Rightarrow> ffi_error + 32 word option \<Rightarrow> ffi_error + bytes" where
  "get_version env mem = exported_string env mem ''get_version''"

definition get_object_id :: "wasm_env \<Rightarrow> wasm_memory \<Rightarrow> 32 word \<Rightarrow> 64 word option" where
  "get_object_id env m ptr =
     (case deref env 8 ptr m of None \<Rightarrow> None | Some a \<Rightarrow> Some (from_le_bytes (take 8 (drop a (mm_data m)))))"

text \<open>A panic, with its message, is a left value.\<close>

definition log_data :: "wasm_env \<Rightarrow> wasm_memory \<Rightarrow> 32 word \<Rightarrow> 32 word \<Rightarrow> nat \<Rightarrow> string + unit" where
  "log_data env m ptr len level =
     (case get_string env m ptr len of
        None \<Rightarrow> Inl ''Log string could not be fetched.''
      | Some _ \<Rightarrow> if level \<in> log_levels then Inr () else Inl ''Invalid log level'')"

definition get_object ::
    "wasm_env \<Rightarrow> server \<Rightarrow> indexer_database \<Rightarrow> int \<Rightarrow> 32 word \<Rightarrow> 32 word \<Rightarrow> wasm_memory \<Rightarrow> (string + 32 word) \<times> wasm_memory" where
  "get_object env sv db tid ptr len_ptr m =
     (case get_object_id env m ptr of
        None \<Rightarrow> (Inl ''Failed to deref WasmPtrs.'', m)
      | Some oid \<Rightarrow>
          (case idb_get_object sv tid oid db of
             Inl _ \<Rightarrow> (Inl ''get_object'', m)
           | Inr None \<Rightarrow> (Inr 0, m)
           | Inr (Some bs) \<Rightarrow>
               (let sz = of_nat (length bs) :: 32 word
                in case allocate env (unat sz) m of
                     (None, m1) \<Rightarrow> (Inl ''Alloc failed.'', m1)
                   | (Some p, m1) \<Rightarrow>
                       (case deref env 4 len_ptr m1 of
                          None \<Rightarrow> (Inl ''Failed to deref WasmPtr.'', m1)
                        | Some a \<Rightarrow>
                            (let m2 = store_bytes a (to_le_bytes 4 sz) m1
                             in if unat p + unat sz \<le> length (mm_data m2) \<and> length bs = unat sz
                                then (Inr p, store_bytes (unat p) bs m2)
                                else (Inl ''copy_from_slice'', m2))))))"

definition put_object ::
    "(bytes \<Rightarrow> ft_column list option) \<Rightarrow> server \<Rightarrow> int \<Rightarrow> 32 word \<Rightarrow> 32 word \<Rightarrow> wasm_memory
      \<Rightarrow> indexer_database \<Rightarrow> (string + unit) \<times> indexer_database" where
  "put_object decode sv tid ptr len m db =
     (case slice (unat ptr) (unat ptr + unat len) (mm_data m) of
        None \<Rightarrow> (Inl ''range out of bounds'', db)
      | Some bs \<Rightarrow>
          (case decode bs of
             None \<Rightarrow> (Inl ''Serde error.'', db)
           | Some columns \<Rightarrow>
               (case idb_put_object sv tid columns bs db of
                  (Inl (Panic msg), db') \<Rightarrow> (Inl msg, db')
                | (_, db') \<Rightarrow> (Inr (), db'))))"

text \<open>
  \<^verbatim>\<open>WasmArg::new\<close>: the end of the range is computed with 32 bits. \<open>Inl None\<close> is a failed call of the allocator,
  \<open>Inl\<close> with a message a panic.
\<close>

definition wasm_arg_new :: "wasm_env \<Rightarrow> bytes \<Rightarrow> wasm_memory \<Rightarrow> (string option + 32 word \<times> 32 word) \<times> wasm_memory" where
  "wasm_arg_new env bs m =
     (let len = of_nat (length bs) :: 32 word
      in case allocate env (unat len) m of
           (None, m1) \<Rightarrow> (Inl None, m1)
         | (Some p, m1) \<Rightarrow>
             if unat p \<le> unat (p + len) \<and> unat (p + len) \<le> length (mm_data m1) \<and> unat (p + len) - unat p = length bs
             then (Inr (p, len), store_bytes (unat p) bs m1)
             else (Inl (Some ''copy_from_slice''), m1))"

definition wasm_arg_drop :: "wasm_env \<Rightarrow> 32 word \<times> 32 word \<Rightarrow> wasm_memory \<Rightarrow> wasm_memory" where
  "wasm_arg_drop env arg m = me_free env (fst arg) (snd arg) m"

section \<open>Modules at the level of memory (wasm.rs)\<close>

text \<open>A run of a module: it uses its memory and calls the host. Accesses out of bounds and failed allocations trap.\<close>

datatype guest =
    GFinish
  | GTrap
  | GAlloc nat "32 word \<Rightarrow> guest"
  | GFree "32 word" "32 word" guest
  | GWrite "32 word" bytes guest
  | GRead "32 word" "32 word" "bytes \<Rightarrow> guest"
  | GPut int "32 word" "32 word" guest
  | GGet int "32 word" "32 word" "32 word \<Rightarrow> guest"
  | GLog "32 word" "32 word" nat guest

primrec run_guest ::
    "wasm_env \<Rightarrow> (bytes \<Rightarrow> ft_column list option) \<Rightarrow> server \<Rightarrow> guest \<Rightarrow> wasm_memory \<Rightarrow> indexer_database
      \<Rightarrow> wasm_end \<times> wasm_memory \<times> indexer_database" where
  "run_guest env decode sv GFinish m db = (Finished, m, db)"
| "run_guest env decode sv GTrap m db = (Trapped, m, db)"
| "run_guest env decode sv (GAlloc n k) m db =
     (case allocate env n m of (None, m1) \<Rightarrow> (Trapped, m1, db) | (Some p, m1) \<Rightarrow> run_guest env decode sv (k p) m1 db)"
| "run_guest env decode sv (GFree p n k) m db = run_guest env decode sv k (me_free env p n m) db"
| "run_guest env decode sv (GWrite p bs k) m db =
     (if unat p + length bs \<le> length (mm_data m) then run_guest env decode sv k (store_bytes (unat p) bs m) db else (Trapped, m, db))"
| "run_guest env decode sv (GRead p n k) m db =
     (case slice (unat p) (unat p + unat n) (mm_data m) of
        None \<Rightarrow> (Trapped, m, db) | Some bs \<Rightarrow> run_guest env decode sv (k bs) m db)"
| "run_guest env decode sv (GPut tid p n k) m db =
     (case put_object decode sv tid p n m db of
        (Inl msg, db') \<Rightarrow> (HostPanic msg, m, db') | (Inr _, db') \<Rightarrow> run_guest env decode sv k m db')"
| "run_guest env decode sv (GGet tid p lp k) m db =
     (case get_object env sv db tid p lp m of
        (Inl msg, m') \<Rightarrow> (HostPanic msg, m', db) | (Inr q, m') \<Rightarrow> run_guest env decode sv (k q) m' db)"
| "run_guest env decode sv (GLog p n level k) m db =
     (case log_data env m p n level of
        Inl msg \<Rightarrow> (HostPanic msg, m, db) | Inr _ \<Rightarrow> run_guest env decode sv k m db)"

text \<open>
  \<^verbatim>\<open>Entity::save\<close> puts the row into a buffer that is dropped after the call. \<^verbatim>\<open>Entity::load\<close> writes the id
  and the length of the buffer that holds it, and takes over the block that the host returns, unless the pointer is null.
\<close>

definition guest_save :: "int \<Rightarrow> bytes \<Rightarrow> guest \<Rightarrow> guest" where
  "guest_save tid bs k = GAlloc (length bs) (\<lambda>p. GWrite p bs
     (GPut tid p (of_nat (length bs)) (GFree p (of_nat (length bs)) k)))"

definition guest_load :: "wasm_env \<Rightarrow> int \<Rightarrow> 64 word \<Rightarrow> (bytes option \<Rightarrow> guest) \<Rightarrow> guest" where
  "guest_load env tid oid k =
     GWrite (me_id env) (to_le_bytes 8 oid) (GWrite (me_len env) (to_le_bytes 4 (8 :: 32 word))
       (GGet tid (me_id env) (me_len env) (\<lambda>p.
          if p \<noteq> 0 then GRead (me_len env) 4 (\<lambda>lb. let n = from_le_bytes lb :: 32 word
            in GRead p n (\<lambda>bs. GFree p n (k (Some bs))))
          else k None)))"

primrec lower :: "wasm_env \<Rightarrow> wasm_run \<Rightarrow> guest" where
  "lower env Finish = GFinish"
| "lower env Trap = GTrap"
| "lower env (PutObject tid bs k) = guest_save tid bs (lower env k)"
| "lower env (GetObject tid oid k) = guest_load env tid oid (\<lambda>obj. lower env (k obj))"
| "lower env (LogData level k) = GLog (fst (me_log env)) (snd (me_log env)) level (lower env k)"

text \<open>\<^verbatim>\<open>handle_events\<close> of the module: it reads the blob where the host has put it, and does not free it.\<close>

definition guest_entry :: "wasm_env \<Rightarrow> (bytes \<Rightarrow> wasm_run) \<Rightarrow> 32 word \<times> 32 word \<Rightarrow> guest" where
  "guest_entry env prog arg = GRead (fst arg) (snd arg) (\<lambda>blob. lower env (prog blob))"

text \<open>
  \<^verbatim>\<open>handle_events\<close> of the executor: the page is put into the module's memory before the transaction is started, and the
  block is given back when the function returns, whatever the outcome. The memory is kept for the next page.
\<close>

definition memory_handle_events ::
    "wasm_env \<Rightarrow> (bytes \<Rightarrow> ft_column list option) \<Rightarrow> server \<Rightarrow> ('b list \<Rightarrow> bytes) \<Rightarrow> (bytes \<Rightarrow> wasm_run)
      \<Rightarrow> 'b list \<Rightarrow> wasm_memory \<Rightarrow> indexer_database \<Rightarrow> (unit, indexer_error) result \<times> wasm_memory \<times> indexer_database" where
  "memory_handle_events env decode sv serialize prog blocks m db =
     (case wasm_arg_new env (serialize blocks) m of
        (Inl None, m1) \<Rightarrow> (Inl (Err RuntimeError), m1, db)
      | (Inl (Some msg), m1) \<Rightarrow> (Inl (Panic msg), m1, db)
      | (Inr arg, m1) \<Rightarrow>
          (case idb_start_transaction db of
             (Inl e, db1) \<Rightarrow> (Inl e, wasm_arg_drop env arg m1, db1)
           | (Inr _, db1) \<Rightarrow>
               (case run_guest env decode sv (guest_entry env prog arg) m1 db1 of
                  (HostPanic _, m2, db2) \<Rightarrow> (Inl (Err JoinError), wasm_arg_drop env arg m2, db2)
                | (Trapped, m2, db2) \<Rightarrow>
                    (case idb_revert_transaction db2 of
                       (Inl e, db3) \<Rightarrow> (Inl e, wasm_arg_drop env arg m2, db3)
                     | (Inr _, db3) \<Rightarrow> (Inl (Err RuntimeError), wasm_arg_drop env arg m2, db3))
                | (Finished, m2, db2) \<Rightarrow>
                    (case idb_commit_transaction db2 of (r, db3) \<Rightarrow> (r, wasm_arg_drop env arg m2, db3)))))"

end
