(* ===== verification/Wasm_Memory_Laws.thy ===== *)
theory Wasm_Memory_Laws
  imports Wasm_Memory
begin

text \<open>
  What entities, pages and messages cross the shared memory as: a run at the level of bytes and addresses is the
  run of the tree of calls, for every allocator that keeps its contract, until an allocation fails.
\<close>

section \<open>Bytes\<close>

lemma le_value_to_le: "le_value (to_le_bytes n w) = unat w mod 256 ^ n"
proof (induction n arbitrary: w)
  case (Suc n)
  have "unat (ucast w :: 8 word) = unat w mod 256" by (simp add: unsigned_ucast_eq take_bit_eq_mod)
  moreover have "unat (drop_bit 8 w) = drop_bit 8 (unat w)" by (rule unat_drop_bit_eq)
  then have "unat (drop_bit 8 w) = unat w div 256" by (simp add: drop_bit_eq_div)
  ultimately show ?case using Suc [of "drop_bit 8 w"] by (simp add: mod_mult2_eq)
qed simp

lemma from_to_le_bytes: "LENGTH('a::len) \<le> 8 * n \<Longrightarrow> (from_le_bytes (to_le_bytes n w) :: 'a word) = w"
proof -
  assume "LENGTH('a) \<le> 8 * n"
  then have "(2::nat) ^ LENGTH('a) \<le> 2 ^ (8 * n)" by simp
  also have "(2::nat) ^ (8 * n) = 256 ^ n" by (simp add: power_mult)
  finally have "unat w < 256 ^ n" using unsigned_less [of w, where 'a = nat] by (rule order.strict_trans2 [rotated])
  then show ?thesis by (simp add: from_le_bytes_value le_value_to_le)
qed

lemma length_to_le [simp]: "length (to_le_bytes n w) = n"
  by (induction n arbitrary: w) simp_all

section \<open>Blocks of memory\<close>

definition block :: "nat \<times> nat \<Rightarrow> wasm_memory \<Rightarrow> bytes" where
  "block b m = take (snd b) (drop (fst b) (mm_data m))"

fun apart :: "nat \<times> nat \<Rightarrow> nat \<times> nat \<Rightarrow> bool" where
  "apart (a, n) (b, m) \<longleftrightarrow> a + n \<le> b \<or> b + m \<le> a"

definition inside :: "nat \<times> nat \<Rightarrow> wasm_memory \<Rightarrow> bool" where
  "inside b m \<longleftrightarrow> fst b + snd b \<le> length (mm_data m)"

definition memory_ok :: "wasm_memory \<Rightarrow> bool" where
  "memory_ok m \<longleftrightarrow> mm_data m \<noteq> [] \<and> length (mm_data m) < 2 ^ 32 \<and> (\<forall>b \<in> set (mm_live m). inside b m)"

text \<open>The contract of the allocator and of the placement of numbers.\<close>

definition sound_allocator :: "wasm_env \<Rightarrow> bool" where
  "sound_allocator env \<longleftrightarrow>
     (\<forall>n m p m'. memory_ok m \<and> me_alloc env n m = Some (p, m') \<longrightarrow>
        p \<noteq> 0 \<and> memory_ok m' \<and> length (mm_data m) \<le> length (mm_data m') \<and> mm_failed m' = mm_failed m
        \<and> mm_live m' = (unat p, unat n) # mm_live m
        \<and> (\<forall>b \<in> set (mm_live m). apart b (unat p, unat n) \<and> block b m' = block b m))
   \<and> (\<forall>p n m. memory_ok m \<longrightarrow>
        memory_ok (me_free env p n m) \<and> length (mm_data m) \<le> length (mm_data (me_free env p n m))
        \<and> mm_live (me_free env p n m) = remove1 (unat p, unat n) (mm_live m)
        \<and> (\<forall>b \<in> set (mm_live (me_free env p n m)). block b (me_free env p n m) = block b m))
   \<and> (\<forall>p n m. mm_failed (me_free env p n m) = mm_failed m)"

definition variables_ok :: "wasm_env \<Rightarrow> wasm_memory \<Rightarrow> bool" where
  "variables_ok env m \<longleftrightarrow>
     (let i = (unat (me_id env), 8); l = (unat (me_len env), 4); t = (unat (fst (me_log env)), unat (snd (me_log env)))
      in {i, l, t} \<subseteq> set (mm_live m) \<and> apart i l \<and> apart t i \<and> apart t l \<and> me_utf8 env (block t m)
         \<and> me_place env 8 (me_id env) = me_id env \<and> me_place env 4 (me_len env) = me_len env)"

lemma store_bytes_simps [simp]: "mm_live (store_bytes a bs m) = mm_live m" "mm_failed (store_bytes a bs m) = mm_failed m"
  by (simp_all add: store_bytes_def)

lemma length_store: "a + length bs \<le> length (mm_data m) \<Longrightarrow> length (mm_data (store_bytes a bs m)) = length (mm_data m)"
  by (simp add: store_bytes_def)

lemma block_store: "a + length bs \<le> length (mm_data m) \<Longrightarrow> block (a, length bs) (store_bytes a bs m) = bs"
  by (simp add: store_bytes_def block_def)

lemma block_store_apart:
  assumes "a + length bs \<le> length (mm_data m)" "apart b (a, length bs)" "inside b m"
  shows "block b (store_bytes a bs m) = block b m"
proof (cases b)
  case (Pair c n)
  show ?thesis
  proof (cases "c + n \<le> a")
    case True
    then have "take n (drop c (take a (mm_data m) @ bs @ drop (a + length bs) (mm_data m))) = take n (drop c (take a (mm_data m)))"
      using assms(1) by simp
    also have "\<dots> = take n (drop c (mm_data m))" using True by (simp add: drop_take min_def)
    finally show ?thesis by (simp add: Pair block_def store_bytes_def)
  next
    case False
    with assms(2) Pair have "a + length bs \<le> c" by simp
    with assms(1) show ?thesis
      by (simp add: Pair block_def store_bytes_def drop_append)
  qed
qed

lemma slice_block: "inside (a, n) m \<Longrightarrow> slice a (a + n) (mm_data m) = Some (block (a, n) m)"
  by (simp add: slice_def block_def inside_def)

lemma memory_ok_store: "memory_ok m \<Longrightarrow> a + length bs \<le> length (mm_data m) \<Longrightarrow> memory_ok (store_bytes a bs m)"
  using length_store [of a bs m] by (auto simp: memory_ok_def inside_def)

section \<open>Keeping the variables of the module\<close>

lemma variables_live:
  assumes "variables_ok env m"
  shows "(unat (me_id env), 8) \<in> set (mm_live m)" "(unat (me_len env), 4) \<in> set (mm_live m)"
    "(unat (fst (me_log env)), unat (snd (me_log env))) \<in> set (mm_live m)"
  using assms by (simp_all add: variables_ok_def Let_def)

lemma live_inside: "memory_ok m \<Longrightarrow> b \<in> set (mm_live m) \<Longrightarrow> inside b m"
  by (simp add: memory_ok_def)

lemma variables_store:
  assumes "memory_ok m" "variables_ok env m" "a + length bs \<le> length (mm_data m)"
    and "apart (unat (fst (me_log env)), unat (snd (me_log env))) (a, length bs)"
  shows "memory_ok (store_bytes a bs m)" "variables_ok env (store_bytes a bs m)"
proof -
  have "inside (unat (fst (me_log env)), unat (snd (me_log env))) m"
    using live_inside [OF assms(1)] variables_live(3) [OF assms(2)] by blast
  from block_store_apart [OF assms(3,4) this] assms(2) show "variables_ok env (store_bytes a bs m)"
    by (simp add: variables_ok_def Let_def)
qed (rule memory_ok_store [OF assms(1,3)])

lemma allocated:
  assumes "sound_allocator env" "memory_ok m" "allocate env n m = (Some p, m')"
  obtains w where "n = unat w" "w = of_nat n" "me_alloc env w m = Some (p, m')" "p \<noteq> 0" "memory_ok m'" "mm_failed m' = mm_failed m"
    "mm_live m' = (unat p, n) # mm_live m" "length (mm_data m) \<le> length (mm_data m')"
    "\<forall>b \<in> set (mm_live m). apart b (unat p, n) \<and> block b m' = block b m"
proof -
  from assms(3) have n: "n < 2 ^ 32" and a: "me_alloc env (of_nat n) m = Some (p, m')"
    by (auto simp: allocate_def split: if_splits option.splits)
  have w: "unat (of_nat n :: 32 word) = n" using n by (simp add: unsigned_of_nat take_bit_nat_eq_self)
  from assms(1) have "\<forall>n m p m'. memory_ok m \<and> me_alloc env n m = Some (p, m') \<longrightarrow>
        p \<noteq> 0 \<and> memory_ok m' \<and> length (mm_data m) \<le> length (mm_data m') \<and> mm_failed m' = mm_failed m
        \<and> mm_live m' = (unat p, unat n) # mm_live m
        \<and> (\<forall>b \<in> set (mm_live m). apart b (unat p, unat n) \<and> block b m' = block b m)"
    unfolding sound_allocator_def by (rule conjunct1)
  with assms(2) a have "p \<noteq> 0 \<and> memory_ok m' \<and> length (mm_data m) \<le> length (mm_data m') \<and> mm_failed m' = mm_failed m
        \<and> mm_live m' = (unat p, n) # mm_live m \<and> (\<forall>b \<in> set (mm_live m). apart b (unat p, n) \<and> block b m' = block b m)"
    using w by metis
  with a w that [of "of_nat n"] show ?thesis by simp
qed

lemma not_allocated: "allocate env n m = (None, m') \<Longrightarrow> mm_failed m'"
  by (auto simp: allocate_def split: if_splits option.splits)

lemma variables_allocated:
  assumes "variables_ok env m" "mm_live m' = x # mm_live m" "\<forall>b \<in> set (mm_live m). block b m' = block b m"
  shows "variables_ok env m'"
proof -
  have "block (unat (fst (me_log env)), unat (snd (me_log env))) m' = block (unat (fst (me_log env)), unat (snd (me_log env))) m"
    using assms(3) variables_live(3) [OF assms(1)] by blast
  with assms(1,2) show ?thesis by (simp add: variables_ok_def Let_def)
qed

text \<open>A block that was allocated after the variables, and perhaps others after it.\<close>

lemma variables_freed:
  assumes "sound_allocator env" "memory_ok m" "variables_ok env m" "mm_live m = pre @ (unat p, unat n) # mm_live m0" "variables_ok env m0"
  shows "memory_ok (me_free env p n m)" "variables_ok env (me_free env p n m)"
    "\<exists>post. mm_live (me_free env p n m) = post @ mm_live m0"
proof -
  from assms(1,2,4) have f: "memory_ok (me_free env p n m)"
    "mm_live (me_free env p n m) = remove1 (unat p, unat n) (pre @ (unat p, unat n) # mm_live m0)"
    "\<forall>b \<in> set (mm_live (me_free env p n m)). block b (me_free env p n m) = block b m"
    by (auto simp: sound_allocator_def)
  from f(2) show post: "\<exists>post. mm_live (me_free env p n m) = post @ mm_live m0"
    by (cases "(unat p, unat n) \<in> set pre") (force simp: remove1_append)+
  then have sub: "set (mm_live m0) \<subseteq> set (mm_live (me_free env p n m))" by auto
  with f(3) variables_live(3) [OF assms(5)]
  have "block (unat (fst (me_log env)), unat (snd (me_log env))) (me_free env p n m) = block (unat (fst (me_log env)), unat (snd (me_log env))) m"
    by blast
  with assms(3,5) sub show "variables_ok env (me_free env p n m)" unfolding variables_ok_def Let_def by auto
qed (use assms(1,2) in \<open>auto simp: sound_allocator_def\<close>)

lemma freed_last:
  assumes "sound_allocator env" "memory_ok m" "mm_live m = (unat p, unat n) # bs"
  shows "mm_live (me_free env p n m) = bs"
  using assms by (simp add: sound_allocator_def)

section \<open>One call\<close>

text \<open>A block that has just been allocated, filled with its bytes.\<close>

lemma filled:
  assumes "sound_allocator env" "memory_ok m" "variables_ok env m" "allocate env (length bs) m = (Some p, m1)"
  defines "m2 \<equiv> store_bytes (unat p) bs m1"
  shows "unat p + length bs \<le> length (mm_data m1)" "memory_ok m2" "variables_ok env m2" "block (unat p, length bs) m2 = bs"
    "mm_live m2 = (unat p, length bs) # mm_live m" "unat (of_nat (length bs) :: 32 word) = length bs" "p \<noteq> 0"
    "\<forall>b \<in> set (mm_live m). block b m2 = block b m"
proof -
  from allocated [OF assms(1,2,4)] obtain w :: "32 word" where a: "length bs = unat w" "w = of_nat (length bs)" "p \<noteq> 0" "memory_ok m1"
    "mm_live m1 = (unat p, length bs) # mm_live m" "\<forall>b \<in> set (mm_live m). apart b (unat p, length bs) \<and> block b m1 = block b m"
    by metis
  show i: "unat p + length bs \<le> length (mm_data m1)" using live_inside [OF a(4)] a(5) by (force simp: inside_def)
  have v: "variables_ok env m1" using variables_allocated [OF assms(3) a(5)] a(6) by blast
  have "apart (unat (fst (me_log env)), unat (snd (me_log env))) (unat p, length bs)"
    using a(6) variables_live(3) [OF assms(3)] by blast
  from variables_store [OF a(4) v i this] show "memory_ok m2" "variables_ok env m2" by (simp_all add: m2_def)
  show "block (unat p, length bs) m2 = bs" unfolding m2_def by (rule block_store [OF i])
  show "mm_live m2 = (unat p, length bs) # mm_live m" by (simp add: m2_def a(5))
  show "unat (of_nat (length bs) :: 32 word) = length bs" using a(1,2) by simp
  show "p \<noteq> 0" by (rule a(3))
  show "\<forall>b \<in> set (mm_live m). block b m2 = block b m"
  proof
    fix b assume b: "b \<in> set (mm_live m)"
    with a(5) have "inside b m1" by (intro live_inside [OF a(4)]) simp
    with a(6) b show "block b m2 = block b m" unfolding m2_def by (subst block_store_apart [OF i]) auto
  qed
qed

lemma put_filled:
  assumes "inside (unat p, length bs) m" "block (unat p, length bs) m = bs" "unat n = length bs"
  shows "put_object decode sv tid p n m db =
    (case decode bs of None \<Rightarrow> (Inl ''Serde error.'', db) | Some columns \<Rightarrow>
       (case idb_put_object sv tid columns bs db of (Inl (Panic msg), db') \<Rightarrow> (Inl msg, db') | (_, db') \<Rightarrow> (Inr (), db')))"
  using slice_block [OF assms(1)] assms(2,3) by (simp add: put_object_def)

text \<open>The variables of a load: the id and the length that it writes before the call.\<close>

lemma load_variables:
  assumes "memory_ok m" "variables_ok env m"
    and m1_def: "m1 = store_bytes (unat (me_id env)) (to_le_bytes 8 (oid :: 64 word)) m"
    and m2_def: "m2 = store_bytes (unat (me_len env)) (to_le_bytes 4 (8 :: 32 word)) m1"
  shows "unat (me_id env) + 8 \<le> length (mm_data m)" "unat (me_len env) + 4 \<le> length (mm_data m1)"
    "memory_ok m2" "variables_ok env m2" "mm_live m2 = mm_live m" "get_object_id env m2 (me_id env) = Some oid"
proof -
  note live = variables_live [OF assms(2)]
  have v: "apart (unat (me_id env), 8) (unat (me_len env), 4)" "me_place env 8 (me_id env) = me_id env"
    "apart (unat (fst (me_log env)), unat (snd (me_log env))) (unat (me_id env), 8)"
    "apart (unat (fst (me_log env)), unat (snd (me_log env))) (unat (me_len env), 4)"
    using assms(2) by (simp_all add: variables_ok_def Let_def)
  show i: "unat (me_id env) + 8 \<le> length (mm_data m)" using live_inside [OF assms(1) live(1)] by (simp add: inside_def)
  have m1: "memory_ok m1" "variables_ok env m1" "mm_live m1 = mm_live m"
    using variables_store [OF assms(1,2), of "unat (me_id env)" "to_le_bytes 8 oid"] i v(3) by (simp_all add: m1_def)
  show l: "unat (me_len env) + 4 \<le> length (mm_data m1)" using live_inside [OF m1(1)] live(2) m1(3) by (fastforce simp: inside_def)
  show m2: "memory_ok m2" "variables_ok env m2" "mm_live m2 = mm_live m"
    using variables_store [OF m1(1,2), of "unat (me_len env)" "to_le_bytes 4 (8 :: 32 word)"] l v(4) m1(3) by (simp_all add: m2_def)
  have "block (unat (me_id env), 8) m2 = block (unat (me_id env), 8) m1"
    unfolding m2_def using l v(1) live_inside [OF m1(1)] live(1) m1(3) by (intro block_store_apart) simp_all
  also have "\<dots> = to_le_bytes 8 oid"
    using block_store [of "unat (me_id env)" "to_le_bytes 8 oid" m] i by (simp add: m1_def)
  finally have "take 8 (drop (unat (me_id env)) (mm_data m2)) = to_le_bytes 8 oid" by (simp add: block_def)
  moreover have "unat (me_id env) + 8 \<le> length (mm_data m2)" using live_inside [OF m2(1)] live(1) m2(3) by (fastforce simp: inside_def)
  ultimately show "get_object_id env m2 (me_id env) = Some oid"
    by (simp add: get_object_id_def deref_def v(2) from_to_le_bytes)
qed

text \<open>The answer of the host: a block with the bytes, and their number in the variable.\<close>

lemma object_returned:
  assumes "sound_allocator env" "memory_ok m" "variables_ok env m" "get_object_id env m (me_id env) = Some oid"
    and "idb_get_object sv tid oid db = Inr (Some bs)" "length bs < 2 ^ 32"
  shows "(\<exists>m1. get_object env sv db tid (me_id env) (me_len env) m = (Inl ''Alloc failed.'', m1) \<and> mm_failed m1)
    \<or> (\<exists>p m1. get_object env sv db tid (me_id env) (me_len env) m = (Inr p, m1) \<and> p \<noteq> 0 \<and> memory_ok m1 \<and> variables_ok env m1
         \<and> mm_live m1 = (unat p, length bs) # mm_live m \<and> block (unat p, length bs) m1 = bs
         \<and> block (unat (me_len env), 4) m1 = to_le_bytes 4 (of_nat (length bs) :: 32 word))"
proof (cases "allocate env (length bs) m")
  case (Pair r m1)
  have n: "unat (of_nat (length bs) :: 32 word) = length bs" using assms(6) by (simp add: unsigned_of_nat take_bit_nat_eq_self)
  show ?thesis
  proof (cases r)
    case None
    with Pair n not_allocated [of env "length bs" m m1] show ?thesis by (simp add: get_object_def assms(4,5) Let_def)
  next
    case (Some p)
    from Pair Some have al: "allocate env (length bs) m = (Some p, m1)" by simp
    from allocated [OF assms(1,2) al] have a: "p \<noteq> 0" "memory_ok m1" "mm_live m1 = (unat p, length bs) # mm_live m"
      "\<forall>b \<in> set (mm_live m). apart b (unat p, length bs) \<and> block b m1 = block b m" by metis+
    note live = variables_live [OF assms(3)]
    have v: "variables_ok env m1" using variables_allocated [OF assms(3) a(3)] a(4) by blast
    have w: "me_place env 4 (me_len env) = me_len env"
      "apart (unat (fst (me_log env)), unat (snd (me_log env))) (unat (me_len env), 4)"
      using assms(3) by (simp_all add: variables_ok_def Let_def)
    let ?le = "to_le_bytes 4 (of_nat (length bs) :: 32 word)"
    define m2 where "m2 = store_bytes (unat (me_len env)) ?le m1"
    define m3 where "m3 = store_bytes (unat p) bs m2"
    have l: "unat (me_len env) + 4 \<le> length (mm_data m1)" using live_inside [OF a(2)] live(2) a(3) by (fastforce simp: inside_def)
    have m2: "memory_ok m2" "variables_ok env m2" "mm_live m2 = mm_live m1"
      using variables_store [OF a(2) v, of "unat (me_len env)" ?le] l w(2) by (simp_all add: m2_def)
    have i: "unat p + length bs \<le> length (mm_data m2)" using live_inside [OF m2(1)] a(3) m2(3) by (force simp: inside_def)
    have "apart (unat (fst (me_log env)), unat (snd (me_log env))) (unat p, length bs)" using a(4) live(3) by blast
    from variables_store [OF m2(1,2) i this] have m3: "memory_ok m3" "variables_ok env m3" "mm_live m3 = mm_live m1"
      using m2(3) by (simp_all add: m3_def)
    have "block (unat (me_len env), 4) m3 = block (unat (me_len env), 4) m2"
      unfolding m3_def using a(4) live(2) m2(3) a(3) live_inside [OF m2(1)] by (intro block_store_apart [OF i]) auto
    also have "\<dots> = ?le" using block_store [of "unat (me_len env)" ?le m1] l by (simp add: m2_def)
    finally have le: "block (unat (me_len env), 4) m3 = ?le" .
    have "get_object env sv db tid (me_id env) (me_len env) m = (Inr p, m3)"
      using al n l i w(1) by (simp add: get_object_def assms(4,5) Let_def deref_def m2_def [symmetric] m3_def)
    with a(1,3) m3 le block_store [OF i] show ?thesis by (auto simp: m3_def [symmetric])
  qed
qed

section \<open>Runs\<close>

text \<open>Each call of the tree, and what the rest of the run makes of it.\<close>

lemma guest_runs_calls:
  assumes "sound_allocator env" "\<And>log q bs. sv_object sv log q = Some bs \<Longrightarrow> length bs < 2 ^ 32"
    and "memory_ok m" "variables_ok env m" "run_guest env decode sv (lower env r) m db = (e, m', db')" "\<not> mm_failed m'"
  shows "run_wasm decode sv r db = (e, db') \<and> memory_ok m' \<and> variables_ok env m' \<and> (\<exists>pre. mm_live m' = pre @ mm_live m)"
  using assms(3-6)
proof (induction r arbitrary: m db)
  case (PutObject tid bs r)
  obtain a m1 where al: "allocate env (length bs) m = (a, m1)" by fastforce
  with PutObject.prems(3,4) not_allocated obtain p where a: "a = Some p" by (cases a) (auto simp: guest_save_def)
  note f = filled [OF assms(1) PutObject.prems(1,2) al [unfolded a]]
  define m2 where "m2 = store_bytes (unat p) bs m1"
  note f = f [folded m2_def]
  have "inside (unat p, length bs) m2" by (rule live_inside [OF f(2)]) (simp add: f(5))
  note put = put_filled [OF this f(4,6)]
  have free: "memory_ok (me_free env p (of_nat (length bs)) m2)" "variables_ok env (me_free env p (of_nat (length bs)) m2)"
    "mm_live (me_free env p (of_nat (length bs)) m2) = mm_live m"
    using variables_freed(1,2) [OF assms(1) f(2,3) _ PutObject.prems(2), of "[]"] freed_last [OF assms(1) f(2)] f(5,6) by auto
  from PutObject.prems(3) have "(case put_object decode sv tid p (of_nat (length bs)) m2 db of
      (Inl msg, db2) \<Rightarrow> (HostPanic msg, m2, db2)
    | (Inr _, db2) \<Rightarrow> run_guest env decode sv (lower env r) (me_free env p (of_nat (length bs)) m2) db2) = (e, m', db')"
    using f(1) by (simp add: guest_save_def al a m2_def [symmetric] split: prod.splits sum.splits)
  with PutObject.IH [OF free(1,2)] PutObject.prems(4) f(2,3,5) free(3) show ?case
    unfolding put by (auto split: option.splits prod.splits sum.splits fault.splits)
next
  case (GetObject tid oid k)
  define m1 where "m1 = store_bytes (unat (me_id env)) (to_le_bytes 8 oid) m"
  define m2 where "m2 = store_bytes (unat (me_len env)) (to_le_bytes 4 (8 :: 32 word)) m1"
  note v = load_variables [OF GetObject.prems(1,2) m1_def m2_def]
  let ?rest = "\<lambda>p. if p \<noteq> 0 then GRead (me_len env) 4 (\<lambda>lb. let n = from_le_bytes lb :: 32 word
            in GRead p n (\<lambda>bs. GFree p n (lower env (k (Some bs))))) else lower env (k None)"
  have run: "(case get_object env sv db tid (me_id env) (me_len env) m2 of
      (Inl msg, m3) \<Rightarrow> (HostPanic msg, m3, db) | (Inr q, m3) \<Rightarrow> run_guest env decode sv (?rest q) m3 db) = (e, m', db')"
    using GetObject.prems(3) v(1,2) by (simp add: guest_load_def m1_def [symmetric] m2_def [symmetric])
  show ?case
  proof (cases "idb_get_object sv tid oid db")
    case (Inl err)
    with run v(3-5) show ?thesis by (auto simp: get_object_def v(6))
  next
    case (Inr obj)
    show ?thesis
    proof (cases obj)
      case None
      with run Inr have "run_guest env decode sv (lower env (k None)) m2 db = (e, m', db')" by (simp add: get_object_def v(6))
      with GetObject.IH [OF _ v(3,4) this GetObject.prems(4)] Inr None v(5) show ?thesis by simp
    next
      case (Some bs)
      with Inr have g: "idb_get_object sv tid oid db = Inr (Some bs)" by simp
      then have "length bs < 2 ^ 32"
        by (auto simp: idb_get_object_def rbind_Inr_iff split: if_splits dest!: assms(2))
      from object_returned [OF assms(1) v(3,4,6) g this] run GetObject.prems(4) obtain p m3 where
        p: "get_object env sv db tid (me_id env) (me_len env) m2 = (Inr p, m3)" "p \<noteq> 0" "memory_ok m3" "variables_ok env m3"
          "mm_live m3 = (unat p, length bs) # mm_live m2" "block (unat p, length bs) m3 = bs"
          "block (unat (me_len env), 4) m3 = to_le_bytes 4 (of_nat (length bs) :: 32 word)" by auto
      have n: "unat (of_nat (length bs) :: 32 word) = length bs" using \<open>length bs < 2 ^ 32\<close> by (simp add: unsigned_of_nat take_bit_nat_eq_self)
      have "slice (unat (me_len env)) (unat (me_len env) + 4) (mm_data m3) = Some (to_le_bytes 4 (of_nat (length bs) :: 32 word))"
        using slice_block [OF live_inside [OF p(3) variables_live(2) [OF p(4)]]] p(7) by simp
      moreover have "slice (unat p) (unat p + length bs) (mm_data m3) = Some bs"
        using slice_block [OF live_inside [OF p(3)], of "unat p" "length bs"] p(5,6) by simp
      ultimately have rest: "run_guest env decode sv (lower env (k (Some bs))) (me_free env p (of_nat (length bs)) m3) db = (e, m', db')"
        using run p(1,2) by (simp add: from_to_le_bytes n Let_def)
      have free: "memory_ok (me_free env p (of_nat (length bs)) m3)" "variables_ok env (me_free env p (of_nat (length bs)) m3)"
        "mm_live (me_free env p (of_nat (length bs)) m3) = mm_live m"
        using variables_freed(1,2) [OF assms(1) p(3,4) _ v(4), of "[]"] freed_last [OF assms(1) p(3)] p(5) n v(5) by auto
      from GetObject.IH [OF rangeI free(1,2) rest GetObject.prems(4)] free(3) g show ?thesis by simp
    qed
  qed
next
  case (LogData level r)
  let ?t = "(unat (fst (me_log env)), unat (snd (me_log env)))"
  have "me_utf8 env (block ?t m)" using LogData.prems(2) by (simp add: variables_ok_def Let_def)
  moreover have "slice (unat (fst (me_log env))) (unat (fst (me_log env)) + unat (snd (me_log env))) (mm_data m) = Some (block ?t m)"
    using slice_block [OF live_inside [OF LogData.prems(1) variables_live(3) [OF LogData.prems(2)]]] by simp
  ultimately have "log_data env m (fst (me_log env)) (snd (me_log env)) level = (if level \<in> log_levels then Inr () else Inl ''Invalid log level'')"
    by (simp add: log_data_def get_string_def)
  with LogData.prems LogData.IH show ?case by (auto split: if_splits)
qed simp_all

section \<open>Properties\<close>

lemma argument_placed:
  assumes "sound_allocator env" "memory_ok m" "variables_ok env m" "wasm_arg_new env blob m = (Inr arg, m1)"
  shows "memory_ok m1" "variables_ok env m1" "mm_live m1 = (unat (fst arg), unat (snd arg)) # mm_live m"
    "slice (unat (fst arg)) (unat (fst arg) + unat (snd arg)) (mm_data m1) = Some blob"
proof -
  let ?len = "of_nat (length blob) :: 32 word"
  from assms(4) obtain p m0 where al: "allocate env (unat ?len) m = (Some p, m0)" and arg: "arg = (p, ?len)"
    "unat p \<le> unat (p + ?len)" "unat (p + ?len) - unat p = length blob" "m1 = store_bytes (unat p) blob m0"
    by (auto simp: wasm_arg_new_def Let_def split: option.splits prod.splits if_splits)
  have "unat (p + ?len) = unat p + unat ?len"
    using arg(2) by (metis unat_plus_simple word_le_nat_alt)
  with arg(3) have len: "unat ?len = length blob" by simp
  note f = filled [OF assms(1-3) al [unfolded len]]
  show "memory_ok m1" "variables_ok env m1" "mm_live m1 = (unat (fst arg), unat (snd arg)) # mm_live m"
    using f(2,3,5) len by (simp_all add: arg(1,4))
  have "inside (unat p, length blob) m1" using f(2,5) by (intro live_inside) (simp_all add: arg(4))
  from slice_block [OF this] f(4) show "slice (unat (fst arg)) (unat (fst arg) + unat (snd arg)) (mm_data m1) = Some blob"
    by (simp add: arg(1,4) len)
qed

text \<open>
  A page that could not be put into memory; without a failed allocation this is a panic and no block of the memory is touched.
\<close>

lemma argument_not_placed:
  assumes "sound_allocator env" "memory_ok m" "variables_ok env m" "wasm_arg_new env blob m = (Inl e, m1)" "\<not> mm_failed m1"
  shows "memory_ok m1" "variables_ok env m1"
proof -
  let ?len = "of_nat (length blob) :: 32 word"
  from assms(4,5) obtain p where al: "allocate env (unat ?len) m = (Some p, m1)"
    by (auto simp: wasm_arg_new_def Let_def dest: not_allocated split: option.splits prod.splits if_splits)
  from allocated [OF assms(1,2) al] have a: "memory_ok m1" "mm_live m1 = (unat p, unat ?len) # mm_live m"
    "\<forall>b \<in> set (mm_live m). block b m1 = block b m" by metis+
  from a(1) show "memory_ok m1" .
  show "variables_ok env m1" by (rule variables_allocated [OF assms(3) a(2,3)])
qed

text \<open>A module at work on its page, and its memory after the page has been given back.\<close>

lemma page_in_memory:
  assumes "sound_allocator env" "\<And>log q bs. sv_object sv log q = Some bs \<Longrightarrow> length bs < 2 ^ 32"
    and "memory_ok m" "variables_ok env m" "wasm_arg_new env blob m = (Inr arg, m1)"
    and "run_guest env decode sv (guest_entry env prog arg) m1 db = (e, m2, db')" "\<not> mm_failed m2"
  shows "run_wasm decode sv (prog blob) db = (e, db')" "memory_ok (wasm_arg_drop env arg m2)" "variables_ok env (wasm_arg_drop env arg m2)"
proof -
  note placed = argument_placed [OF assms(1,3,4,5)]
  from assms(6) placed(4) have "run_guest env decode sv (lower env (prog blob)) m1 db = (e, m2, db')" by (simp add: guest_entry_def)
  from guest_runs_calls [OF assms(1) _ placed(1,2) this assms(7)] assms(2)
  have run: "run_wasm decode sv (prog blob) db = (e, db')" "memory_ok m2" "variables_ok env m2" "\<exists>pre. mm_live m2 = pre @ mm_live m1"
    by auto
  from run(1) show "run_wasm decode sv (prog blob) db = (e, db')" .
  from run(4) placed(3) obtain pre where "mm_live m2 = pre @ (unat (fst arg), unat (snd arg)) # mm_live m" by auto
  from variables_freed(1,2) [OF assms(1) run(2,3) this assms(4)]
  show "memory_ok (wasm_arg_drop env arg m2)" "variables_ok env (wasm_arg_drop env arg m2)" by (simp_all add: wasm_arg_drop_def)
qed

text \<open>The answer of the host when the page could be put into memory or not.\<close>

definition placing :: "wasm_env \<Rightarrow> ('b list \<Rightarrow> bytes) \<Rightarrow> wasm_memory \<Rightarrow> 'b list \<Rightarrow> (unit, indexer_error) result" where
  "placing env serialize m blocks =
     (case fst (wasm_arg_new env (serialize blocks) m) of
        Inl None \<Rightarrow> Inl (Err RuntimeError) | Inl (Some msg) \<Rightarrow> Inl (Panic msg) | Inr _ \<Rightarrow> Inr ())"


text \<open>An allocator that only ever grows the memory.\<close>

definition growing_env :: wasm_env where
  "growing_env = \<lparr>me_alloc = (\<lambda>n m. if length (mm_data m) + unat n < 2 ^ 32
       then Some (of_nat (length (mm_data m)), m\<lparr>mm_data := mm_data m @ replicate (unat n) 0, mm_live := (length (mm_data m), unat n) # mm_live m\<rparr>)
       else None),
     me_free = (\<lambda>p n m. m\<lparr>mm_live := remove1 (unat p, unat n) (mm_live m)\<rparr>),
     me_place = (\<lambda>n p. p), me_utf8 = (\<lambda>bs. True), me_id = 8, me_len = 16, me_log = (20, 0)\<rparr>"

lemma growing_alloc:
  assumes "memory_ok m" "me_alloc growing_env n m = Some (p, m')"
  shows "p \<noteq> 0" "memory_ok m'" "length (mm_data m) \<le> length (mm_data m')" "mm_failed m' = mm_failed m"
    "mm_live m' = (unat p, unat n) # mm_live m" "\<forall>b \<in> set (mm_live m). apart b (unat p, unat n) \<and> block b m' = block b m"
proof -
  let ?n = "length (mm_data m)"
  from assms(2) have n: "?n + unat n < 2 ^ 32" and p: "p = of_nat ?n"
    and m': "m' = m\<lparr>mm_data := mm_data m @ replicate (unat n) 0, mm_live := (?n, unat n) # mm_live m\<rparr>"
    by (simp_all add: growing_env_def split: if_splits)
  have u: "unat p = ?n" using n by (simp add: p unsigned_of_nat take_bit_nat_eq_self)
  with assms(1) show "p \<noteq> 0" by (auto simp: memory_ok_def)
  show "memory_ok m'" using assms(1) n by (auto simp: memory_ok_def inside_def m')
  show "length (mm_data m) \<le> length (mm_data m')" "mm_failed m' = mm_failed m" "mm_live m' = (unat p, unat n) # mm_live m"
    by (simp_all add: m' u)
  show "\<forall>b \<in> set (mm_live m). apart b (unat p, unat n) \<and> block b m' = block b m"
  proof
    fix b assume "b \<in> set (mm_live m)"
    from live_inside [OF assms(1) this] show "apart b (unat p, unat n) \<and> block b m' = block b m"
      by (cases b) (simp add: inside_def block_def m' u)
  qed
qed

lemma growing_free:
  "memory_ok m \<Longrightarrow> memory_ok (me_free growing_env p n m)"
  using set_remove1_subset [of "(unat p, unat n)" "mm_live m"] by (auto simp: growing_env_def memory_ok_def inside_def)

lemma growing_sound: "sound_allocator growing_env"
  unfolding sound_allocator_def
proof (intro conjI)
  show "\<forall>n m p m'. memory_ok m \<and> me_alloc growing_env n m = Some (p, m') \<longrightarrow>
      p \<noteq> 0 \<and> memory_ok m' \<and> length (mm_data m) \<le> length (mm_data m') \<and> mm_failed m' = mm_failed m
      \<and> mm_live m' = (unat p, unat n) # mm_live m
      \<and> (\<forall>b \<in> set (mm_live m). apart b (unat p, unat n) \<and> block b m' = block b m)"
    by (intro allI impI, elim conjE, intro conjI; rule growing_alloc; assumption)
qed (simp_all add: growing_free, simp_all add: growing_env_def block_def)

text \<open>A module that saves the page it was given, loads an object and writes to the log.\<close>

definition busy :: "bytes \<Rightarrow> wasm_run" where
  "busy blob = PutObject 3 blob (GetObject 7 1 (\<lambda>obj. if obj = Some [5, 6, 7] then LogData 2 Finish else Trap))"

definition giving_server :: server where
  "giving_server = \<lparr>sv_rejects = (\<lambda>_ _. False), sv_object = (\<lambda>_ _. Some [5, 6, 7])\<rparr>"

definition small_memory :: wasm_memory where
  "small_memory = \<lparr>mm_data = [0, 0, 0, 0, 0, 0, 0, 0, 0, 0, 0, 0, 0, 0, 0, 0, 0, 0, 0, 0, 0, 0, 0, 0], mm_live = [(8, 8), (16, 4), (20, 0)], mm_failed = False\<rparr>"

lemma to_le_numeral: "to_le_bytes (numeral k) w = ucast w # to_le_bytes (pred_numeral k) (drop_bit 8 w)"
  by (simp add: numeral_eq_Suc)


end
