(* ===== verification/Entity_Laws.thy ===== *)
theory Entity_Laws
  imports Entities
begin

text \<open>
  Correctness of the entities that the macro writes: a row is read back to the entity it was made of,
  rows fit the columns that the schema builder creates for the same schema, and which foreign
  keys give code that compiles.
\<close>

section \<open>Rows\<close>

lemma un_Some [simp]:
  "un_V32 s = Some w32 \<longleftrightarrow> s = V32 w32" "un_V64 s = Some w64 \<longleftrightarrow> s = V64 w64" "un_V128 s = Some w128 \<longleftrightarrow> s = V128 w128"
  "un_VBytes s = Some bs \<longleftrightarrow> s = VBytes bs" "un_VText s = Some t \<longleftrightarrow> s = VText t" "un_VBool s = Some b \<longleftrightarrow> s = VBool b"
  "un_VIdentity s = Some i \<longleftrightarrow> s = VIdentity i"
  by (cases s; simp)+

lemma payload_Some:
  "payload un v = Some p \<longleftrightarrow> (v = None \<and> p = None) \<or> (\<exists>s x. v = Some s \<and> p = Some x \<and> un s = Some x)"
  by (auto simp: payload_def split: option.splits)

lemma unwrap_wrap:
  assumes "wrap t v = Some c"
  shows "unwrap c = (t, v)"
  using assms by (auto simp: wrap_def payload_Some split: if_splits)

lemma wrap_variant: "wrap t v = Some c \<Longrightarrow> t \<in> set variants"
  by (auto simp: wrap_def variants_def split: if_splits)

lemma to_columnD:
  assumes "to_column e (column, nullable, name) = Some c"
  obtains t v where "column = [TIdent t]" "t \<in> set variants" "unwrap c = (t, v)"
    and "e name = Some (if nullable then Maybe v else Sure (the v))" "\<not> nullable \<longrightarrow> v \<noteq> None"
proof -
  from assms obtain t where "column = [TIdent t]" "e name \<noteq> None"
    by (auto simp: to_column_def split: list.splits token_tree.splits option.splits)
  moreover from this assms obtain v where "wrap t v = Some c"
    "e name = Some (if nullable then Maybe v else Sure (the v))" "\<not> nullable \<longrightarrow> v \<noteq> None"
    by (cases "the (e name)") (force simp: to_column_def split: if_splits)+
  ultimately show thesis using that unwrap_wrap wrap_variant by blast
qed

text \<open>The extractor of a field reads what the field wrote.\<close>

definition field_ok :: "extractor \<Rightarrow> tokens \<times> bool \<times> string \<Rightarrow> bool" where
  "field_ok x = (\<lambda>(column, nullable, name). xt_ident x = name \<and> xt_nullable x = nullable
     \<and> (\<forall>t. column = [TIdent t] \<and> t \<noteq> ''Option'' \<longrightarrow> xt_column x = column))"

definition struct_ok :: "struct_def \<Rightarrow> bool" where
  "struct_ok st \<longleftrightarrow> list_all2 field_ok (rev (st_extractors st)) (st_flattened st)
     \<and> st_construction st = map (snd \<circ> snd) (st_flattened st)"

lemma extract_written:
  assumes "field_ok x (column, nullable, name)" "to_column e (column, nullable, name) = Some c"
  shows "extract_field x c = (Inr (the (e name)) :: (field_value, 'e) result) \<and> xt_ident x = name \<and> e name \<noteq> None"
proof -
  from assms(2) obtain t v where t: "column = [TIdent t]" "t \<in> set variants" "unwrap c = (t, v)"
    "e name = Some (if nullable then Maybe v else Sure (the v))" "\<not> nullable \<longrightarrow> v \<noteq> None" by (rule to_columnD)
  from t(2) have "t \<noteq> ''Option''" by (auto simp: variants_def)
  with assms(1) t show ?thesis by (cases nullable; cases v) (auto simp: field_ok_def extract_field_def)
qed

lemma those_append: "those (xs @ ys) = (case those xs of None \<Rightarrow> None | Some us \<Rightarrow> map_option ((@) us) (those ys))"
proof (induction xs)
  case (Cons x xs)
  then show ?case by (cases "those xs"; cases "those ys") (auto split: option.split)
qed (simp add: option.map_ident_strong)

lemma extract_all_written:
  assumes "list_all2 field_ok xs fl" "those (map (to_column e) fl) = Some row"
  shows "extract_all (rev xs) row env
    = (Inr (\<lambda>n. if n \<in> (snd \<circ> snd) ` set fl then e n else env n) :: (entity, 'e) result)"
  using assms
proof (induction fl arbitrary: xs row env rule: rev_induct)
  case (snoc f fl)
  from snoc.prems(1) obtain ys x where xs: "xs = ys @ [x]" "list_all2 field_ok ys fl" "field_ok x f"
    by (auto simp: list_all2_append2 list_all2_Cons2)
  from snoc.prems(2) obtain row' c where row: "those (map (to_column e) fl) = Some row'" "to_column e f = Some c" "row = row' @ [c]"
    by (auto simp: those_append split: option.splits)
  obtain column nullable name where f: "f = (column, nullable, name)" by (cases f)
  from extract_written [of x column nullable name e c] xs(3) row(2) f
  have x: "extract_field x c = (Inr (the (e name)) :: (field_value, 'e) result)" "xt_ident x = name" "e name \<noteq> None" by auto
  then obtain y where y: "e name = Some y" by blast
  have "(\<lambda>n. if n \<in> (snd \<circ> snd) ` set fl then e n else (env(name \<mapsto> y)) n)
      = (\<lambda>n. if n \<in> (snd \<circ> snd) ` set (fl @ [f]) then e n else env n)"
    using y by (auto simp: f)
  with snoc.IH [OF xs(2) row(1), of "env(name \<mapsto> y)"] x y xs(1) row(3) show ?case by (simp del: fun_upd_apply)
qed simp


section \<open>The macro\<close>

fun base_type :: "gql_type \<Rightarrow> string" where
  "base_type (NamedType t) = t"
| "base_type (ListType t) = base_type t"
| "base_type (NonNullType t) = base_type t"

fun nullable_type :: "gql_type \<Rightarrow> bool" where
  "nullable_type (NonNullType t) = False"
| "nullable_type _ = True"

lemma rust_type_Inr:
  assumes "rust_type types t nullable = (Inr ty :: (tokens, 'e) result)"
  shows "ty = (if nullable \<and> nullable_type t then option_of [TIdent (base_type t)] else [TIdent (base_type t)])"
  using assms by (induction types t nullable rule: rust_type.induct) (auto split: if_splits)

lemma process_type_Inr:
  assumes "process_type t = (Inr (ty, nullable) :: (column_type \<times> bool, 'e) result)"
  shows "nullable = nullable_type t
    \<and> (if base_type t \<in> primitives then column_type_of_name (base_type t) = (Inr ty :: (column_type, 'e) result)
       else ty = CtForeignKey)"
  using assms by (induction t arbitrary: ty nullable) (auto split: if_splits)

lemma tokens_column_type_simps:
  "tokens_column_type [TIdent t] = (if t = ''Option'' then (True, []) else (False, [TIdent t]))"
  "tokens_column_type (option_of [TIdent t]) = (True, if t = ''Option'' then [] else [TIdent t])"
  by (auto simp: tokens_column_type_def option_of_def)

lemma tokens_to_string_single [simp]: "tokens_to_string [TIdent t] = t"
  by (simp add: tokens_to_string_def)

text \<open>One field: what is added to the struct, for a foreign key and for another field.\<close>

definition add_field :: "string \<Rightarrow> tokens \<Rightarrow> extractor \<Rightarrow> tokens \<times> bool \<times> string \<Rightarrow> struct_def \<Rightarrow> struct_def" where
  "add_field name ty x fl st = st\<lparr>st_block := st_block st @ [(name, ty)], st_extractors := x # st_extractors st,
     st_construction := st_construction st @ [name], st_flattened := st_flattened st @ [fl]\<rparr>"

definition plain_written :: "string set \<Rightarrow> field \<Rightarrow> tokens \<times> bool \<times> string \<Rightarrow> bool" where
  "plain_written processed f = (\<lambda>(column, nullable, name). name = fd_name f
     \<and> (base_type (fd_type f) \<noteq> ''Option'' \<longrightarrow> column = [TIdent (base_type (fd_type f))] \<and> nullable = nullable_type (fd_type f)
          \<and> (base_type (fd_type f) \<notin> processed \<or> base_type (fd_type f) \<in> primitives))
     \<and> (base_type (fd_type f) = ''Option'' \<longrightarrow> column = []))"

definition fk_written ::
    "'e itself \<Rightarrow> string set \<Rightarrow> (string \<rightharpoonup> string) \<Rightarrow> object_type \<Rightarrow> field \<Rightarrow> tokens \<times> bool \<times> string \<Rightarrow> bool" where
  "fk_written (_ :: 'e itself) processed types_map obj f = (\<lambda>(column, nullable, name). \<exists>ji.
     get_join_directive_info f obj types_map = (Inr ji :: (join_info, 'e) result)
     \<and> name = to_lowercase (ji_field_name ji)
     \<and> (nullable \<longrightarrow> column = option_of [TIdent (ji_reference_field_type_name ji)])
     \<and> (\<not> nullable \<longrightarrow> column = [TIdent (ji_reference_field_type_name ji)] \<and> \<not> nullable_type (fd_type f)
          \<and> base_type (fd_type f) \<in> processed \<and> base_type (fd_type f) \<notin> primitives))"

lemma struct_field_Inr:
  assumes "struct_field types types_map obj (st, processed) f = (Inr (st', processed') :: (struct_def \<times> string set, 'e) result)"
  obtains name ty x column nullable where "st' = add_field name ty x (column, nullable, name) st"
    and "processed' = insert (tokens_to_string column) processed" and "field_ok x (column, nullable, name)"
    and "plain_written processed f (column, nullable, name) \<or> fk_written TYPE('e) processed types_map obj f (column, nullable, name)"
proof -
  from assms obtain ty0 where ty0: "rust_type types (fd_type f) True = (Inr ty0 :: (tokens, 'e) result)"
    by (auto simp: struct_field_def process_field_def)
  obtain nullable column0 where c0: "tokens_column_type ty0 = (nullable, column0)" by (cases "tokens_column_type ty0")
  from rust_type_Inr [OF ty0] c0 have base: "base_type (fd_type f) \<noteq> ''Option'' \<Longrightarrow> column0 = [TIdent (base_type (fd_type f))]
      \<and> nullable = nullable_type (fd_type f)" "base_type (fd_type f) = ''Option'' \<Longrightarrow> column0 = []"
    by (auto simp: tokens_column_type_simps split: if_splits)
  show thesis
  proof (cases "tokens_to_string column0 \<in> processed \<and> tokens_to_string column0 \<notin> primitives")
    case False
    let ?x = "\<lparr>xt_ident = fd_name f, xt_column = column0, xt_nullable = nullable\<rparr>"
    from False assms ty0 c0 have "st' = add_field (fd_name f) ty0 ?x (column0, nullable, fd_name f) st"
      "processed' = insert (tokens_to_string column0) processed"
      by (auto simp: struct_field_def process_field_def add_field_def simp del: rust_type.simps)
    moreover have "field_ok ?x (column0, nullable, fd_name f)" by (simp add: field_ok_def)
    moreover have "plain_written processed f (column0, nullable, fd_name f)"
      using base False by (auto simp: plain_written_def)
    ultimately show thesis using that by blast
  next
    case True
    with assms ty0 c0 obtain ji ty where fk: "get_join_directive_info f obj types_map = (Inr ji :: (join_info, 'e) result)"
      "rust_type types (NamedType (ji_reference_field_type_name ji)) nullable = (Inr ty :: (tokens, 'e) result)"
      and st': "st' = add_field (to_lowercase (ji_field_name ji)) ty \<lparr>xt_ident = to_lowercase (ji_field_name ji),
          xt_column = snd (tokens_column_type ty), xt_nullable = nullable\<rparr> (ty, nullable, to_lowercase (ji_field_name ji)) st"
        "processed' = insert (tokens_to_string ty) processed"
      by (auto simp: struct_field_def process_field_def process_fk_field_def add_field_def Let_def simp del: rust_type.simps)
    let ?x = "\<lparr>xt_ident = to_lowercase (ji_field_name ji), xt_column = snd (tokens_column_type ty), xt_nullable = nullable\<rparr>"
    from rust_type_Inr [OF fk(2)] have ty: "ty = (if nullable then option_of [TIdent (ji_reference_field_type_name ji)]
        else [TIdent (ji_reference_field_type_name ji)])" by simp
    have "field_ok ?x (ty, nullable, to_lowercase (ji_field_name ji))"
      using ty by (auto simp: field_ok_def tokens_column_type_simps option_of_def)
    moreover have "fk_written TYPE('e) processed types_map obj f (ty, nullable, to_lowercase (ji_field_name ji))"
      using fk(1) ty True base c0 rust_type_Inr [OF ty0]
      by (auto simp: fk_written_def tokens_column_type_simps split: if_splits)
    ultimately show thesis using that st' by blast
  qed
qed


lemma struct_field_ok:
  "struct_field types types_map obj (st, processed) f = (Inr (st', processed') :: (struct_def \<times> string set, 'e) result)
    \<Longrightarrow> struct_ok st \<Longrightarrow> struct_ok st'"
  by (elim struct_field_Inr) (auto simp: struct_ok_def add_field_def intro!: list_all2_appendI)

definition new_struct :: "(string \<Rightarrow> bytes) \<Rightarrow> string \<Rightarrow> object_type \<Rightarrow> struct_def" where
  "new_struct sha ns obj = \<lparr>st_name = ob_name obj, st_type_id = type_id sha ns (ob_name obj), st_block = [],
     st_extractors = [], st_construction = [], st_flattened = []\<rparr>"

lemma new_struct_ok: "struct_ok (new_struct sha ns obj)"
  by (simp add: struct_ok_def new_struct_def)

lemma struct_fields_ok:
  assumes "foldM (struct_field types types_map obj) (st, processed) fs = (Inr (st', processed') :: (struct_def \<times> string set, 'e) result)"
    and "struct_ok st"
  shows "struct_ok st' \<and> st_name st' = st_name st \<and> st_type_id st' = st_type_id st"
proof -
  from assms(1) have "struct_ok (fst (st', processed')) \<and> st_name (fst (st', processed')) = st_name st
      \<and> st_type_id (fst (st', processed')) = st_type_id st"
  proof (rule foldM_invariant [where P = "\<lambda>p. struct_ok (fst p) \<and> st_name (fst p) = st_name st \<and> st_type_id (fst p) = st_type_id st"])
    fix p f p' assume p: "struct_ok (fst p) \<and> st_name (fst p) = st_name st \<and> st_type_id (fst p) = st_type_id st"
      and step: "struct_field types types_map obj p f = (Inr p' :: (struct_def \<times> string set, 'e) result)"
    obtain s pr s' pr' where eq: "p = (s, pr)" "p' = (s', pr')" by (metis surj_pair)
    note step' = step [unfolded eq]
    from step' obtain name ty x fl where "s' = add_field name ty x fl s" by (rule struct_field_Inr)
    with struct_field_ok [OF step'] p eq show "struct_ok (fst p') \<and> st_name (fst p') = st_name st \<and> st_type_id (fst p') = st_type_id st"
      by (simp add: add_field_def)
  qed (use assms(2) in simp)
  then show ?thesis by simp
qed

text \<open>The structs of a document: each comes from one of its tables.\<close>

definition from_table ::
    "'e itself \<Rightarrow> (string \<Rightarrow> bytes) \<Rightarrow> string \<Rightarrow> string set \<Rightarrow> (string \<rightharpoonup> string) \<Rightarrow> object_type \<Rightarrow> struct_def \<Rightarrow> bool" where
  "from_table (_ :: 'e itself) sha ns types types_map obj st \<longleftrightarrow> (\<exists>processed processed'.
     foldM (struct_field types types_map obj) (new_struct sha ns obj, processed) (ob_fields obj)
       = (Inr (st, processed') :: (struct_def \<times> string set, 'e) result))"

lemma process_object:
  "process_definition sha root ns ident types types_map (structs, processed) (TypeDefinition (TObject obj)) =
    (if ob_name obj = root then Inr (structs, processed)
     else rbind (foldM (struct_field types types_map obj) (new_struct sha (ns @ ''_'' @ ident) obj, processed) (ob_fields obj))
       (\<lambda>(st, processed'). Inr (structs @ [st], insert (ob_name obj) processed')))"
  by (auto simp: process_definition_def process_type_def_def new_struct_def rbind_def split: sum.split)

lemma process_non_object:
  "process_definition sha root ns ident types types_map stp def = Inr stp'
    \<Longrightarrow> (\<exists>obj. def = TypeDefinition (TObject obj)) \<or> (\<exists>s. def = SchemaDefinition s \<and> stp' = stp)"
  by (cases def) (auto simp: process_definition_def process_type_def_def split: prod.splits type_definition.splits)

lemma process_definitions_Inr:
  assumes "foldM (process_definition sha root ns ident types types_map) (structs, processed) doc
    = (Inr (structs', processed') :: (struct_def list \<times> string set, 'e) result)"
  shows "\<exists>new. structs' = structs @ new
    \<and> list_all2 (from_table TYPE('e) sha (ns @ ''_'' @ ident) types types_map) (tables_in root doc) new"
  using assms
proof (induction doc arbitrary: structs processed)
  case (Cons def doc)
  from Cons.prems obtain stp where step: "process_definition sha root ns ident types types_map (structs, processed) def
      = (Inr stp :: (struct_def list \<times> string set, 'e) result)"
    and rest: "foldM (process_definition sha root ns ident types types_map) stp doc
      = (Inr (structs', processed') :: (struct_def list \<times> string set, 'e) result)" by auto
  from process_non_object [OF step] show ?case
  proof (elim disjE exE conjE)
    fix obj assume def: "def = TypeDefinition (TObject obj)"
    show ?thesis
    proof (cases "ob_name obj = root")
      case True
      with step rest def Cons.IH [of structs processed] show ?thesis
        by (simp add: process_object tables_in_def)
    next
      case False
      with step def obtain st pr where
        st: "foldM (struct_field types types_map obj) (new_struct sha (ns @ ''_'' @ ident) obj, processed) (ob_fields obj)
          = (Inr (st, pr) :: (struct_def \<times> string set, 'e) result)"
        and stp: "stp = (structs @ [st], insert (ob_name obj) pr)"
        by (auto simp: process_object)
      then have "from_table TYPE('e) sha (ns @ ''_'' @ ident) types types_map obj st"
        unfolding from_table_def by blast
      with Cons.IH [OF rest [unfolded stp]] False show ?thesis by (auto simp: tables_in_def def)
    qed
  next
    fix sd assume "def = SchemaDefinition sd" "stp = (structs, processed)"
    with rest Cons.IH [of structs processed] show ?thesis by (simp add: tables_in_def)
  qed
qed (simp add: tables_in_def)

lemma query_root_found:
  assumes "get_query_root types doc = (Inr root :: (string, 'e) result)"
  shows "schema_query doc = Some root"
  using assms
proof (induction doc)
  case (Cons def doc)
  then show ?case by (cases def) (auto simp: get_query_root_def expect_def split: option.splits if_splits)
qed (simp add: get_query_root_def expect_def)

lemma process_graphql_schema_Inr:
  assumes "process_graphql_schema parse sha ns ident file = (Inr g :: (generated, 'e) result)"
  obtains doc root types_map where "parse (inject_native_entities_into_schema file) = Some doc" "schema_query doc = Some root"
    and "build_schema_fields_and_types_map doc = (Inr types_map :: (string \<rightharpoonup> string, 'e) result)"
    and "list_all2 (from_table TYPE('e) sha (ns @ ''_'' @ ident) (fst (build_schema_objects_set doc) \<union> primitives) types_map)
      (tables_in root doc) (gn_structs g)"
proof -
  from assms obtain doc root types_map structs pr where "parse (inject_native_entities_into_schema file) = Some doc"
    and root: "get_query_root (fst (build_schema_objects_set doc) \<union> primitives) doc = (Inr root :: (string, 'e) result)"
    and "build_schema_fields_and_types_map doc = (Inr types_map :: (string \<rightharpoonup> string, 'e) result)"
    and f: "foldM (process_definition sha root ns ident (fst (build_schema_objects_set doc) \<union> primitives) types_map) ([], {}) doc
      = (Inr (structs, pr) :: (struct_def list \<times> string set, 'e) result)" and "gn_structs g = structs"
    by (auto simp: process_graphql_schema_def Let_def)
  with that query_root_found [OF root] process_definitions_Inr [OF f] show thesis by simp
qed

lemma from_table_ok: "from_table TYPE('e) sha ns types types_map obj st
    \<Longrightarrow> struct_ok st \<and> st_name st = ob_name obj \<and> st_type_id st = type_id sha ns (ob_name obj)"
  by (auto simp: from_table_def new_struct_def dest!: struct_fields_ok intro: new_struct_ok [unfolded new_struct_def])


section \<open>Rows and columns\<close>

text \<open>
  A column value fits a column of the table: its variant is the column's type, and it may be null
  when the column may; the field that it comes from has the column's name, up to case.
\<close>

definition fits :: "tokens \<times> bool \<times> string \<Rightarrow> new_column \<Rightarrow> bool" where
  "fits = (\<lambda>(column, nullable, name) c. \<forall>t. column = [TIdent t] \<and> t \<in> set variants \<longrightarrow>
     nc_type c = t \<and> nc_nullable c = nullable \<and> to_lowercase name = to_lowercase (nc_name c))"

lemma variant_columns:
  assumes "t \<in> set variants"
  shows "t \<in> primitives \<and> t \<noteq> ''Option'' \<and> (\<exists>ty. column_type_of_name t = (Inr ty :: (column_type, 'e) result) \<and> column_type_name ty = t)"
  using assms by (auto simp: variants_def primitives_eq column_type_of_name_def)

lemma primitive_not_fk: "t \<in> primitives \<Longrightarrow> column_type_of_name t \<noteq> (Inr CtForeignKey :: (column_type, 'e) result)"
  by (auto simp: primitives_eq column_type_of_name_def)

lemma join_info_field: "get_join_directive_info f obj tm = Inr ji \<Longrightarrow> ji_field_name ji = fd_name f"
  by (auto simp: get_join_directive_info_def Let_def referenced_type_def split: option.splits if_splits)

lemma generate_column_shape:
  assumes "generate_column obj tid tbl tm (frs, sb) (pos, f) = (Inr (frs', sb') :: (string list \<times> schema_builder, 'e) result)"
  obtains c where "sb_columns sb' = sb_columns sb @ [c]" "nc_type_id c = tid" "nc_name c = fd_name f" "nc_nullable c = nullable_type (fd_type f)"
    and "base_type (fd_type f) \<in> primitives \<longrightarrow> (\<exists>ty. column_type_of_name (base_type (fd_type f)) = (Inr ty :: (column_type, 'e) result)
      \<and> nc_type c = column_type_name ty)"
    and "base_type (fd_type f) \<notin> primitives \<longrightarrow> (\<exists>ji. get_join_directive_info f obj tm = (Inr ji :: (join_info, 'e) result)
      \<and> nc_type c = ji_reference_field_type_name ji)"
proof -
  from assms obtain ty nullable where p: "process_type (fd_type f) = (Inr (ty, nullable) :: (_, 'e) result)"
    by (cases "process_type (fd_type f) :: (column_type \<times> bool, 'e) result") (auto simp: generate_column_def)
  note shape = process_type_Inr [OF p]
  show thesis
  proof (cases "base_type (fd_type f) \<in> primitives")
    case True
    with shape primitive_not_fk have "ty \<noteq> CtForeignKey" by metis
    with assms p shape True that show thesis
      by (auto simp: generate_column_def Let_def column_for_def split: option.splits)
  next
    case False
    with assms p shape that show thesis
      by (auto simp: generate_column_def Let_def column_for_def)
  qed
qed

lemma written_fits:
  assumes "generate_column obj tid tbl tm (frs, sb) (pos, f) = (Inr (frs', sb') :: (string list \<times> schema_builder, 'e) result)"
    and "plain_written processed f fl \<or> fk_written TYPE('e) processed tm obj f fl"
  shows "\<exists>c. sb_columns sb' = sb_columns sb @ [c] \<and> nc_type_id c = tid \<and> fits fl c"
proof -
  obtain column nullable name where fl: "fl = (column, nullable, name)" by (cases fl)
  from assms(1) obtain c where c: "sb_columns sb' = sb_columns sb @ [c]" "nc_type_id c = tid" "nc_name c = fd_name f"
    "nc_nullable c = nullable_type (fd_type f)"
    and prim: "base_type (fd_type f) \<in> primitives \<longrightarrow> (\<exists>ty. column_type_of_name (base_type (fd_type f)) = (Inr ty :: (column_type, 'e) result)
      \<and> nc_type c = column_type_name ty)"
    and fk: "base_type (fd_type f) \<notin> primitives \<longrightarrow> (\<exists>ji. get_join_directive_info f obj tm = (Inr ji :: (join_info, 'e) result)
      \<and> nc_type c = ji_reference_field_type_name ji)" by (rule generate_column_shape)
  have "nc_type c = t \<and> nc_nullable c = nullable \<and> to_lowercase name = to_lowercase (nc_name c)"
    if t: "column = [TIdent t]" "t \<in> set variants" for t
    using assms(2)
  proof
    assume plain: "plain_written processed f fl"
    with t fl have "base_type (fd_type f) = t" "nullable = nullable_type (fd_type f)" "name = fd_name f"
      by (auto simp: plain_written_def)
    with prim variant_columns [OF t(2), where 'e = 'e] c show ?thesis by auto
  next
    assume "fk_written TYPE('e) processed tm obj f fl"
    then obtain ji where ji: "get_join_directive_info f obj tm = (Inr ji :: (join_info, 'e) result)" "name = to_lowercase (ji_field_name ji)"
      "nullable \<longrightarrow> column = option_of [TIdent (ji_reference_field_type_name ji)]"
      "\<not> nullable \<longrightarrow> column = [TIdent (ji_reference_field_type_name ji)] \<and> \<not> nullable_type (fd_type f) \<and> base_type (fd_type f) \<notin> primitives"
      unfolding fk_written_def fl by auto
    then have "\<not> nullable" using t by (auto simp: option_of_def)
    with ji fk c t join_info_field [OF ji(1)] show ?thesis by auto
  qed
  with c fl show ?thesis by (auto simp: fits_def)
qed


text \<open>The columns of a table are those of the fields and \<^verbatim>\<open>object\<close>.\<close>

definition struct_fits :: "struct_def \<Rightarrow> new_column list \<Rightarrow> bool" where
  "struct_fits st cs \<longleftrightarrow> (\<exists>vs. cs = vs @ [object_column (st_type_id st) (length vs)] \<and> list_all2 fits (st_flattened st) vs)
     \<and> (\<forall>c \<in> set cs. nc_type_id c = st_type_id st)"

lemma fields_fit:
  assumes "foldM (struct_field types tm obj) (st, processed) fs = (Inr (st', processed') :: (struct_def \<times> string set, 'e) result)"
    and "foldM (generate_column obj tid tbl tm) (frs, sb) (enumerate n fs) = (Inr (frs', sb') :: (string list \<times> schema_builder, 'e) result)"
  shows "\<exists>fls cs. st_flattened st' = st_flattened st @ fls \<and> sb_columns sb' = sb_columns sb @ cs \<and> list_all2 fits fls cs
    \<and> (\<forall>c \<in> set cs. nc_type_id c = tid)"
  using assms
proof (induction fs arbitrary: st processed n frs sb)
  case (Cons f fs)
  from Cons.prems(1) obtain st1 pr1 where step: "struct_field types tm obj (st, processed) f = (Inr (st1, pr1) :: (struct_def \<times> string set, 'e) result)"
    and rest: "foldM (struct_field types tm obj) (st1, pr1) fs = (Inr (st', processed') :: (struct_def \<times> string set, 'e) result)" by auto
  from Cons.prems(2) obtain frs1 sb1 where gen: "generate_column obj tid tbl tm (frs, sb) (n, f) = (Inr (frs1, sb1) :: (string list \<times> schema_builder, 'e) result)"
    and rest': "foldM (generate_column obj tid tbl tm) (frs1, sb1) (enumerate (Suc n) fs) = (Inr (frs', sb') :: (string list \<times> schema_builder, 'e) result)"
    by auto
  from step obtain name ty x column nullable where st1: "st1 = add_field name ty x (column, nullable, name) st"
    and w: "plain_written processed f (column, nullable, name) \<or> fk_written TYPE('e) processed tm obj f (column, nullable, name)"
    by (rule struct_field_Inr)
  from written_fits [OF gen w] obtain c where c: "sb_columns sb1 = sb_columns sb @ [c]" "nc_type_id c = tid" "fits (column, nullable, name) c"
    by blast
  from Cons.IH [OF rest rest'] obtain fls cs where "st_flattened st' = st_flattened st1 @ fls" "sb_columns sb' = sb_columns sb1 @ cs"
    "list_all2 fits fls cs" "\<forall>c \<in> set cs. nc_type_id c = tid" by blast
  with c st1 show ?case
    by (intro exI [of _ "(column, nullable, name) # fls"] exI [of _ "c # cs"]) (simp add: add_field_def)
qed simp

lemma table_fits:
  assumes "from_table TYPE('e) sha (full_namespace sb) types tm obj st" "ob_name obj \<noteq> root"
    and "generate_table_sql sha root tm sb (TObject obj) = (Inr sb' :: (schema_builder, 'e) result)"
  shows "\<exists>cs. sb_columns sb' = sb_columns sb @ cs \<and> struct_fits st cs"
proof -
  let ?tid = "type_id sha (full_namespace sb) (ob_name obj)"
  let ?sb1 = "sb\<lparr>sb_types := insert (ob_name obj) (sb_types sb),
                      sb_fields := (sb_fields sb)(ob_name obj \<mapsto> map_fields (ob_fields obj))\<rparr>"
  from assms(2,3) obtain columns sb2 where g: "generate_columns ?sb1 obj ?tid (to_lowercase (ob_name obj)) tm = (Inr (columns, sb2) :: (string \<times> schema_builder, 'e) result)"
    and sb': "sb_columns sb' = sb_columns sb2" by (auto simp: generate_table_sql_def Let_def)
  from g obtain frs sb3 where f: "foldM (generate_column obj ?tid (to_lowercase (ob_name obj)) tm) ([], ?sb1) (enumerate 0 (ob_fields obj))
      = (Inr (frs, sb3) :: (string list \<times> schema_builder, 'e) result)"
    and sb2: "sb_columns sb2 = sb_columns sb3 @ [object_column ?tid (length frs)]" by (auto simp: generate_columns_def)
  from assms(1) obtain pr pr' where m: "foldM (struct_field types tm obj) (new_struct sha (full_namespace sb) obj, pr) (ob_fields obj)
      = (Inr (st, pr') :: (struct_def \<times> string set, 'e) result)" by (auto simp: from_table_def)
  from fields_fit [OF m f] obtain cs where cs: "sb_columns sb3 = sb_columns sb @ cs" "list_all2 fits (st_flattened st) cs"
    "\<forall>c \<in> set cs. nc_type_id c = ?tid" by (auto simp: new_struct_def)
  from generate_fold_keys [OF f] cs(1) have "length frs = length cs"
    by (auto simp: expected_keys_def dest: map_eq_imp_length_eq)
  with cs sb2 sb' from_table_ok [OF assms(1)] show ?thesis
    by (intro exI [of _ "cs @ [object_column ?tid (length frs)]"]) (auto simp: struct_fits_def object_column_def)
qed

lemma tables_fit:
  assumes "list_all2 (from_table TYPE('e) sha (full_namespace sb) types tm) (tables_in root doc) structs"
    and "foldM (generate_table_sql sha root tm) sb (type_definitions doc) = (Inr sb' :: (schema_builder, 'e) result)"
  shows "\<exists>groups. sb_columns sb' = sb_columns sb @ concat groups \<and> list_all2 struct_fits structs groups"
  using assms
proof (induction doc arbitrary: sb structs)
  case (Cons def doc)
  show ?case
  proof (cases def)
    case (TypeDefinition ty)
    with Cons.prems(2) obtain sb1 where step: "generate_table_sql sha root tm sb ty = (Inr sb1 :: (schema_builder, 'e) result)"
      and rest: "foldM (generate_table_sql sha root tm) sb1 (type_definitions doc) = (Inr sb' :: (schema_builder, 'e) result)" by auto
    from generate_table_object [OF step] obtain obj where ty: "ty = TObject obj" ..
    from generate_table_effect [OF step [unfolded ty]] have same: "full_namespace sb1 = full_namespace sb"
      by (simp add: same_target_def full_namespace_def)
    show ?thesis
    proof (cases "ob_name obj = root")
      case True
      with step ty have "sb_columns sb1 = sb_columns sb" by (auto simp: generate_table_sql_def)
      with Cons.IH [of sb1 structs] Cons.prems(1) rest same TypeDefinition ty True show ?thesis by (simp add: tables_in_def)
    next
      case False
      with Cons.prems(1) TypeDefinition ty obtain st sts where structs: "structs = st # sts"
        "from_table TYPE('e) sha (full_namespace sb) types tm obj st"
        "list_all2 (from_table TYPE('e) sha (full_namespace sb) types tm) (tables_in root doc) sts"
        by (auto simp: tables_in_def list_all2_Cons1)
      from table_fits [OF structs(2) False step [unfolded ty]] obtain cs where "sb_columns sb1 = sb_columns sb @ cs" "struct_fits st cs" by blast
      moreover from Cons.IH [of sb1 sts] structs(3) rest same obtain groups where
        "sb_columns sb' = sb_columns sb1 @ concat groups" "list_all2 struct_fits sts groups" by auto
      ultimately show ?thesis using structs(1) by (intro exI [of _ "cs # groups"]) simp
    qed
  qed (use Cons in \<open>auto simp: tables_in_def\<close>)
qed (simp add: tables_in_def)


section \<open>Which foreign keys compile\<close>

definition compiles :: "struct_def \<Rightarrow> bool" where
  "compiles st \<longleftrightarrow> (\<forall>(column, _, _) \<in> set (st_flattened st). \<exists>t \<in> set variants. column = [TIdent t])"

lemma fields_written_prefix:
  "foldM (struct_field types tm obj) (st, processed) fs = (Inr (st', processed') :: (struct_def \<times> string set, 'e) result)
    \<Longrightarrow> set (st_flattened st) \<subseteq> set (st_flattened st')"
proof (induction fs arbitrary: st processed)
  case (Cons f fs)
  from Cons.prems obtain st1 pr1 where step: "struct_field types tm obj (st, processed) f = (Inr (st1, pr1) :: (struct_def \<times> string set, 'e) result)"
    and rest: "foldM (struct_field types tm obj) (st1, pr1) fs = (Inr (st', processed') :: (struct_def \<times> string set, 'e) result)" by auto
  from step have "set (st_flattened st) \<subseteq> set (st_flattened st1)" by (elim struct_field_Inr) (auto simp: add_field_def)
  with Cons.IH [OF rest] show ?case by blast
qed simp

lemma fields_refer_back:
  assumes "foldM (struct_field types tm obj) (st, processed) fs = (Inr (st', processed') :: (struct_def \<times> string set, 'e) result)"
    and "compiles st'" and "processed \<subseteq> N \<union> primitives"
  shows "processed' \<subseteq> N \<union> primitives \<and> (\<forall>f \<in> set fs. base_type (fd_type f) \<notin> primitives
    \<longrightarrow> \<not> nullable_type (fd_type f) \<and> base_type (fd_type f) \<in> N)"
  using assms
proof (induction fs arbitrary: st processed)
  case (Cons f fs)
  from Cons.prems(1) obtain st1 pr1 where step: "struct_field types tm obj (st, processed) f = (Inr (st1, pr1) :: (struct_def \<times> string set, 'e) result)"
    and rest: "foldM (struct_field types tm obj) (st1, pr1) fs = (Inr (st', processed') :: (struct_def \<times> string set, 'e) result)" by auto
  from step obtain name ty x column nullable where st1: "st1 = add_field name ty x (column, nullable, name) st"
    and pr1: "pr1 = insert (tokens_to_string column) processed"
    and w: "plain_written processed f (column, nullable, name) \<or> fk_written TYPE('e) processed tm obj f (column, nullable, name)"
    by (rule struct_field_Inr)
  show ?case
  proof (cases "\<exists>t \<in> set variants. column = [TIdent t]")
    case True
    then obtain t where t: "t \<in> set variants" "column = [TIdent t]" by blast
    note prim = variant_columns [OF t(1), where 'e = 'e]
    from Cons.IH [OF rest Cons.prems(2)] Cons.prems(3) pr1 t prim have
      IH: "processed' \<subseteq> N \<union> primitives" "\<forall>f \<in> set fs. base_type (fd_type f) \<notin> primitives
        \<longrightarrow> \<not> nullable_type (fd_type f) \<and> base_type (fd_type f) \<in> N"
      by auto
    have "\<not> nullable_type (fd_type f) \<and> base_type (fd_type f) \<in> N" if "base_type (fd_type f) \<notin> primitives"
      using w
    proof
      assume "plain_written processed f (column, nullable, name)"
      with t prim that show ?thesis by (auto simp: plain_written_def)
    next
      assume "fk_written TYPE('e) processed tm obj f (column, nullable, name)"
      with t that Cons.prems(3) show ?thesis by (auto simp: fk_written_def option_of_def)
    qed
    with IH show ?thesis by auto
  next
    case False
    from fields_written_prefix [OF rest] st1 have "(column, nullable, name) \<in> set (st_flattened st')" by (auto simp: add_field_def)
    with False Cons.prems(2) show ?thesis by (force simp: compiles_def)
  qed
qed simp


text \<open>The fields of a type that are foreign keys are non-null and refer to types with names in \<open>N\<close>.\<close>

definition refers_back :: "string set \<Rightarrow> object_type \<Rightarrow> bool" where
  "refers_back N obj \<longleftrightarrow> (\<forall>f \<in> set (ob_fields obj). base_type (fd_type f) \<notin> primitives
     \<longrightarrow> \<not> nullable_type (fd_type f) \<and> base_type (fd_type f) \<in> N)"

fun all_refer_back :: "string set \<Rightarrow> object_type list \<Rightarrow> bool" where
  "all_refer_back N [] = True"
| "all_refer_back N (obj # objs) = (refers_back N obj \<and> all_refer_back (insert (ob_name obj) N) objs)"

lemma all_refer_back_split: "all_refer_back N (pre @ obj # post) \<Longrightarrow> refers_back (N \<union> ob_name ` set pre) obj"
proof (induction pre arbitrary: N)
  case (Cons a pre)
  from Cons.IH [of "insert (ob_name a) N"] Cons.prems show ?case by simp
qed simp

lemma definitions_refer_back:
  assumes "foldM (process_definition sha root ns ident types tm) (structs, processed) doc
      = (Inr (structs @ new, processed') :: (struct_def list \<times> string set, 'e) result)"
    and "list_all compiles new" "processed \<subseteq> N \<union> primitives"
  shows "all_refer_back N (tables_in root doc)"
  using assms
proof (induction doc arbitrary: structs processed new N)
  case (Cons def doc)
  from Cons.prems(1) obtain stp where step: "process_definition sha root ns ident types tm (structs, processed) def
      = (Inr stp :: (struct_def list \<times> string set, 'e) result)"
    and rest: "foldM (process_definition sha root ns ident types tm) stp doc
      = (Inr (structs @ new, processed') :: (struct_def list \<times> string set, 'e) result)" by auto
  from process_non_object [OF step] show ?case
  proof (elim disjE exE conjE)
    fix obj assume def: "def = TypeDefinition (TObject obj)"
    show ?thesis
    proof (cases "ob_name obj = root")
      case True
      with step have "stp = (structs, processed)" by (simp add: def process_object)
      with Cons.IH [OF _ Cons.prems(2,3)] rest True def show ?thesis by (simp add: tables_in_def)
    next
      case False
      with step obtain st pr where
        st: "foldM (struct_field types tm obj) (new_struct sha (ns @ ''_'' @ ident) obj, processed) (ob_fields obj)
          = (Inr (st, pr) :: (struct_def \<times> string set, 'e) result)"
        and stp: "stp = (structs @ [st], insert (ob_name obj) pr)"
        by (auto simp: process_object def)
      from process_definitions_Inr [OF rest [unfolded stp]] obtain new' where new: "new = st # new'" by auto
      with Cons.prems(2) have ok: "compiles st" "list_all compiles new'" by auto
      from fields_refer_back [OF st ok(1) Cons.prems(3)] have refer: "pr \<subseteq> N \<union> primitives" "refers_back N obj"
        by (auto simp: refers_back_def)
      have "foldM (process_definition sha root ns ident types tm) (structs @ [st], insert (ob_name obj) pr) doc
          = (Inr ((structs @ [st]) @ new', processed') :: (struct_def list \<times> string set, 'e) result)"
        using rest stp new by simp
      from Cons.IH [OF this ok(2), of "insert (ob_name obj) N"] refer False show ?thesis
        by (auto simp: tables_in_def def)
    qed
  next
    fix sd assume "def = SchemaDefinition sd" "stp = (structs, processed)"
    with Cons.IH [OF _ Cons.prems(2,3)] rest show ?thesis by (simp add: tables_in_def)
  qed
qed (simp add: tables_in_def)

lemma struct_roundtrip:
  assumes "struct_ok st" "to_row st e = Some row" "dom e = set (st_construction st)"
  shows "from_row st row = (Inr e :: (entity, 'f) result)"
proof -
  from assms(1,2) have "extract_all (rev (rev (st_extractors st))) row Map.empty
      = (Inr (\<lambda>n. if n \<in> (snd \<circ> snd) ` set (st_flattened st) then e n else Map.empty n) :: (entity, 'f) result)"
    by (intro extract_all_written) (simp_all add: struct_ok_def to_row_def)
  moreover have "(\<lambda>n. if n \<in> (snd \<circ> snd) ` set (st_flattened st) then e n else Map.empty n) |` set (st_construction st) = e"
  proof
    fix n
    have names: "set (st_construction st) = (snd \<circ> snd) ` set (st_flattened st)" using assms(1) by (simp add: struct_ok_def)
    show "((\<lambda>n. if n \<in> (snd \<circ> snd) ` set (st_flattened st) then e n else Map.empty n) |` set (st_construction st)) n = e n"
      using domIff [of n e] unfolding assms(3) names restrict_map_def by auto
  qed
  ultimately show ?thesis by (simp add: from_row_def del: empty_iff)
qed

lemma generated_struct_ok:
  assumes "process_graphql_schema parse sha ns ident file = (Inr g :: (generated, 'e) result)" "st \<in> set (gn_structs g)"
  shows "struct_ok st"
proof -
  from assms(1) obtain types tm tables where "list_all2 (from_table TYPE('e) sha (ns @ ''_'' @ ident) types tm) tables (gn_structs g)"
    by (rule process_graphql_schema_Inr)
  with assms(2) obtain obj where "from_table TYPE('e) sha (ns @ ''_'' @ ident) types tm obj st"
    by (auto simp: list_all2_conv_all_nth in_set_conv_nth)
  then show ?thesis using from_table_ok by blast
qed

section \<open>Properties\<close>

text \<open>
  C9: what the macro writes for an entity reads back: \<^verbatim>\<open>from_row\<close> of the row that \<^verbatim>\<open>to_row\<close> makes of an entity is
  that entity, and does not panic. (The fields are taken from the end of the row, the last first.)
\<close>

theorem entities_read_back:
  assumes "process_graphql_schema parse sha ns ident file = (Inr g :: (generated, 'e) result)" "st \<in> set (gn_structs g)"
    and "to_row st e = Some row" "dom e = set (st_construction st)"
  shows "from_row st row = (Inr e :: (entity, 'f) result)"
  by (rule struct_roundtrip [OF generated_struct_ok [OF assms(1,2)] assms(3,4)])

text \<open>
  C5: rows fit their tables. For the same schema the macro and the schema builder agree: there is one
  struct for each table, with the id of its type, and the values of a row stand in the order of
  the table's columns, of which only \<^verbatim>\<open>object\<close> is left; each value has its column's type and is
  nullable exactly when the column is.
\<close>

theorem rows_fit_tables:
  assumes "process_graphql_schema parse sha ns ident file = (Inr g :: (generated, 'e) result)"
    and "schema_builder_build parse sha (schema_builder_new ns ident v) (inject_native_entities_into_schema file)
      = (Inr sb :: (schema_builder, 'e) result)"
  shows "map st_name (gn_structs g) = map ti_graphql_name (sb_type_ids sb)
    \<and> map st_type_id (gn_structs g) = map ti_id (sb_type_ids sb)
    \<and> (\<exists>groups. sb_columns sb = concat groups \<and> list_all2 struct_fits (gn_structs g) groups)"
proof -
  from assms(1) obtain doc root tm where doc: "parse (inject_native_entities_into_schema file) = Some doc" "schema_query doc = Some root"
    and tm: "build_schema_fields_and_types_map doc = (Inr tm :: (string \<rightharpoonup> string, 'e) result)"
    and structs: "list_all2 (from_table TYPE('e) sha (ns @ ''_'' @ ident) (fst (build_schema_objects_set doc) \<union> primitives) tm)
      (tables_in root doc) (gn_structs g)" by (rule process_graphql_schema_Inr)
  from assms(2) obtain doc' tm' sb1 where doc': "parse (inject_native_entities_into_schema file) = Some doc'" "schema_query doc' = Some (sb_query sb)"
    and tm': "build_schema_fields_and_types_map doc' = (Inr tm' :: (string \<rightharpoonup> string, 'e) result)"
    and f: "foldM (generate_table_sql sha (sb_query sb) tm') ((schema_builder_new ns ident v)\<lparr>sb_statements :=
        sb_statements (schema_builder_new ns ident v) @ [''CREATE SCHEMA IF NOT EXISTS '' @ full_namespace (schema_builder_new ns ident v)]\<rparr>)
      (type_definitions doc') = (Inr sb1 :: (schema_builder, 'e) result)"
    and sb: "sb = sb1\<lparr>sb_query := sb_query sb, sb_schema := inject_native_entities_into_schema file\<rparr>"
    by (rule schema_builder_build_steps)
  from doc doc' have eq: "doc' = doc" "sb_query sb = root" by simp_all
  with tm tm' have "tm' = tm" by simp
  have ns: "full_namespace (opened_builder ns ident v) = ns @ ''_'' @ ident"
    by (simp add: opened_builder_def schema_builder_new_def full_namespace_def)
  have columns: "sb_columns sb = sb_columns sb1" by (subst sb) simp
  from tables_fit [of sha "opened_builder ns ident v", unfolded ns, OF structs] f eq \<open>tm' = tm\<close> columns
  have "\<exists>groups. sb_columns sb = concat groups \<and> list_all2 struct_fits (gn_structs g) groups"
    by (auto simp: opened_builder_def schema_builder_new_def)
  moreover have "map st_name (gn_structs g) = map ob_name (tables_in root doc)
      \<and> map st_type_id (gn_structs g) = map (\<lambda>obj. type_id sha (ns @ ''_'' @ ident) (ob_name obj)) (tables_in root doc)"
    using structs from_table_ok by (induction rule: list_all2_induct) fastforce+
  moreover have "full_namespace sb = ns @ ''_'' @ ident"
    using built_rows(5,6) [OF assms(2) doc(1)] by (simp add: full_namespace_def)
  ultimately show ?thesis
    using built_rows(1) [OF assms(2) doc(1)] eq by (simp add: type_row_def o_def)
qed

text \<open>
  C36: entities may refer only to earlier ones. If all structs of a schema compile, each field
  whose type is an entity is non-null and that entity is defined before the one that has the field: a
  nullable reference, a reference to a later entity or to the same one gives a column variant that
  does not exist, although the schema builder accepts all three.
\<close>

theorem foreign_keys_refer_back:
  assumes "process_graphql_schema parse sha ns ident file = (Inr g :: (generated, 'e) result)" "list_all compiles (gn_structs g)"
    and "parse (inject_native_entities_into_schema file) = Some doc" "schema_query doc = Some root"
    and "tables_in root doc = pre @ obj # post" "f \<in> set (ob_fields obj)" "base_type (fd_type f) \<notin> primitives"
  shows "\<not> nullable_type (fd_type f) \<and> base_type (fd_type f) \<in> ob_name ` set pre"
proof -
  from assms(1,3) obtain root' tm structs pr where
    root: "get_query_root (fst (build_schema_objects_set doc) \<union> primitives) doc = (Inr root' :: (string, 'e) result)"
    and f: "foldM (process_definition sha root' ns ident (fst (build_schema_objects_set doc) \<union> primitives) tm) ([], {}) doc
      = (Inr (structs, pr) :: (struct_def list \<times> string set, 'e) result)" and g: "gn_structs g = structs"
    by (auto simp: process_graphql_schema_def Let_def)
  from query_root_found [OF root] assms(4) have "root' = root" by simp
  with definitions_refer_back [where structs = "[]" and N = "{}", simplified, OF f] assms(2) g
  have "all_refer_back {} (tables_in root doc)" by simp
  from all_refer_back_split [OF this [unfolded assms(5)]] assms(6,7) show ?thesis by (auto simp: refers_back_def)
qed


text \<open>A schema in which a thing refers to the user that is defined before it.\<close>

definition owned_schema :: schema_document where
  "owned_schema = [
     SchemaDefinition \<lparr>sd_directives = [], sd_query = Some ''QueryRoot'', sd_mutation = None, sd_subscription = None\<rparr>,
     plain_object ''QueryRoot'' [plain_field ''thing'' (NamedType ''Thing'')],
     plain_object ''User'' [plain_field ''id'' (NonNullType (NamedType ''ID'')), plain_field ''name'' (NamedType ''Charfield'')],
     plain_object ''Thing'' [plain_field ''id'' (NonNullType (NamedType ''ID'')), plain_field ''owner'' (NonNullType (NamedType ''User''))]]"

definition parse_owned :: "string \<Rightarrow> schema_document option" where
  "parse_owned s = Some owned_schema"

definition user_struct :: struct_def where
  "user_struct = \<lparr>st_name = ''User'', st_type_id = type_id last_bytes ''ns_idx'' ''User'',
     st_block = [(''id'', [TIdent ''ID'']), (''name'', option_of [TIdent ''Charfield''])],
     st_extractors = [\<lparr>xt_ident = ''name'', xt_column = [TIdent ''Charfield''], xt_nullable = True\<rparr>,
       \<lparr>xt_ident = ''id'', xt_column = [TIdent ''ID''], xt_nullable = False\<rparr>],
     st_construction = [''id'', ''name''],
     st_flattened = [([TIdent ''ID''], False, ''id''), ([TIdent ''Charfield''], True, ''name'')]\<rparr>"

definition thing_struct :: struct_def where
  "thing_struct = \<lparr>st_name = ''Thing'', st_type_id = type_id last_bytes ''ns_idx'' ''Thing'',
     st_block = [(''id'', [TIdent ''ID'']), (''owner'', [TIdent ''UInt8''])],
     st_extractors = [\<lparr>xt_ident = ''owner'', xt_column = [TIdent ''UInt8''], xt_nullable = False\<rparr>,
       \<lparr>xt_ident = ''id'', xt_column = [TIdent ''ID''], xt_nullable = False\<rparr>],
     st_construction = [''id'', ''owner''],
     st_flattened = [([TIdent ''ID''], False, ''id''), ([TIdent ''UInt8''], False, ''owner'')]\<rparr>"

lemma owned_structs:
  obtains g where "process_graphql_schema parse_owned last_bytes ''ns'' ''idx'' [] = (Inr g :: (generated, unit) result)"
    and "gn_structs g = [user_struct, thing_struct]"
  by (simp add: process_graphql_schema_def parse_owned_def owned_schema_def plain_object_def plain_field_def Let_def expect_def
      build_schema_objects_set_def get_query_root_def build_schema_fields_and_types_map_def add_types_of_def
      insert_field_types_def field_id_def remove_char_def process_definition_def process_type_def_def struct_field_def process_field_def
      process_fk_field_def tokens_column_type_simps primitives_eq get_join_directive_info_def sole_directive_def referenced_type_def
      normalize_field_type_name_def trim_def is_whitespace_def to_lowercase_def lower_char_def tokens_to_string_def
      user_struct_def thing_struct_def)

definition alice :: entity where
  "alice = [''id'' \<mapsto> Sure (V64 1), ''name'' \<mapsto> Maybe (Some (VText ''alice''))]"

lemma alice_row: "to_row user_struct alice = Some [FtID (Some 1), FtCharfield (Some ''alice'')]"
  by (simp add: to_row_def user_struct_def to_column_def alice_def wrap_def payload_def)

lemma entities_read_back_witness:
  "from_row user_struct [FtID (Some 1), FtCharfield (Some ''alice'')] = (Inr alice :: (entity, unit) result)"
proof -
  obtain g where g: "process_graphql_schema parse_owned last_bytes ''ns'' ''idx'' [] = (Inr g :: (generated, unit) result)"
    "gn_structs g = [user_struct, thing_struct]" by (rule owned_structs)
  show ?thesis
    by (rule entities_read_back [OF g(1) _ alice_row]) (auto simp: g(2) alice_def user_struct_def)
qed

lemma rows_fit_tables_witness:
  "\<exists>g sb. process_graphql_schema parse_owned last_bytes ''ns'' ''idx'' [] = (Inr g :: (generated, unit) result)
    \<and> schema_builder_build parse_owned last_bytes (schema_builder_new ''ns'' ''idx'' ''v1'') (inject_native_entities_into_schema [])
      = (Inr sb :: (schema_builder, unit) result)
    \<and> map ti_graphql_name (sb_type_ids sb) = [''User'', ''Thing'']"
proof -
  obtain g where g: "process_graphql_schema parse_owned last_bytes ''ns'' ''idx'' [] = (Inr g :: (generated, unit) result)"
    "gn_structs g = [user_struct, thing_struct]" by (rule owned_structs)
  obtain sb where sb: "schema_builder_build parse_owned last_bytes (schema_builder_new ''ns'' ''idx'' ''v1'') (inject_native_entities_into_schema [])
      = (Inr sb :: (schema_builder, unit) result)"
    by (simp add: build_defs parse_owned_def owned_schema_def)
  from rows_fit_tables [OF g(1) sb] g sb show ?thesis by (auto simp: user_struct_def thing_struct_def)
qed

lemma foreign_keys_refer_back_witness:
  "\<exists>g. process_graphql_schema parse_owned last_bytes ''ns'' ''idx'' [] = (Inr g :: (generated, unit) result)
    \<and> list_all compiles (gn_structs g) \<and> map ob_name (tables_in ''QueryRoot'' owned_schema) = [''User'', ''Thing'']
    \<and> \<not> nullable_type (NonNullType (NamedType ''User''))"
proof -
  obtain g where g: "process_graphql_schema parse_owned last_bytes ''ns'' ''idx'' [] = (Inr g :: (generated, unit) result)"
    "gn_structs g = [user_struct, thing_struct]" by (rule owned_structs)
  have compile: "list_all compiles (gn_structs g)"
    by (simp add: g(2) compiles_def user_struct_def thing_struct_def variants_def)
  obtain user thing where tables: "tables_in ''QueryRoot'' owned_schema = [user] @ thing # []" "ob_name user = ''User''" "ob_name thing = ''Thing''"
    "plain_field ''owner'' (NonNullType (NamedType ''User'')) \<in> set (ob_fields thing)"
    by (simp add: tables_in_def owned_schema_def plain_object_def)
  have "\<not> nullable_type (NonNullType (NamedType ''User'')) \<and> ''User'' \<in> ob_name ` set [user]"
    using foreign_keys_refer_back [OF g(1) compile _ _ tables(1,4)]
    by (simp add: parse_owned_def owned_schema_def plain_field_def primitives_eq)
  with g compile tables show ?thesis by auto
qed


section \<open>Saving and loading\<close>

text \<open>
  An entity that a handler saves and loads again, in the same page, is the one that it saved: for a
  serializer with an inverse, and a database that accepts the insert and then answers the
  \<^verbatim>\<open>SELECT\<close> with the bytes inserted, the rest of the run goes on with that entity.
\<close>

theorem saved_entity_loads:
  assumes "process_graphql_schema parse sha ns ident file = (Inr g :: (generated, 'e) result)" "st \<in> set (gn_structs g)"
    and "dom e = set (st_construction st)" "entity_save ser st e (entity_load deser st object_id k) = Some r"
    and "deser (ser row) = Some row"
    and "id_tables db (st_type_id st) = Some table" "id_stashed db = Some c" "\<not> cn_aborted c"
    and "to_row st e = Some row" "put_query table (id_schema db table) row = Inr q"
    and "\<not> sv_rejects sv (id_committed db @ cn_log c) (q, ser row)"
    and "sv_object sv (id_committed db @ cn_log c @ [(q, ser row)]) (get_query table object_id) = Some (ser row)"
  shows "run_wasm deser sv r db
    = run_wasm deser sv (k (Some e)) (db\<lparr>id_stashed := Some (c\<lparr>cn_log := cn_log c @ [(q, ser row)]\<rparr>)\<rparr>)"
proof -
  let ?db = "db\<lparr>id_stashed := Some (c\<lparr>cn_log := cn_log c @ [(q, ser row)]\<rparr>)\<rparr>"
  from assms(4,9) have r: "r = PutObject (st_type_id st) (ser row) (entity_load deser st object_id k)"
    by (simp add: entity_save_def)
  have "idb_put_object sv (st_type_id st) row (ser row) db = (Inr (), ?db)"
    using assms(6-8,10,11) by (simp add: idb_put_object_def run_statement_def)
  moreover have "idb_get_object sv (st_type_id st) object_id ?db = Inr (Some (ser row))"
    using assms(6-8,12) by (simp add: idb_get_object_def expect_def)
  moreover note struct_roundtrip [OF generated_struct_ok [OF assms(1,2)] assms(9,3), where 'f = unit]
  ultimately show ?thesis using assms(5) by (simp add: r entity_load_def)
qed

definition recording_server :: server where
  "recording_server = \<lparr>sv_rejects = (\<lambda>_ _. False), sv_object = (\<lambda>log _. if log = [] then None else Some (snd (last log)))\<rparr>"

lemma saved_entity_loads_witness:
  "\<exists>r db'. entity_save (\<lambda>_. [7]) user_struct alice
      (entity_load (\<lambda>_. Some [FtID (Some 1), FtCharfield (Some ''alice'')]) user_struct 1 (\<lambda>e. if e = Some alice then Finish else Trap)) = Some r
    \<and> run_wasm (\<lambda>_. Some [FtID (Some 1), FtCharfield (Some ''alice'')]) recording_server r
        (thing_database\<lparr>id_tables := [st_type_id user_struct \<mapsto> ''ns_idx.thing'']\<rparr>) = (Finished, db')"
proof -
  obtain g where g: "process_graphql_schema parse_owned last_bytes ''ns'' ''idx'' [] = (Inr g :: (generated, unit) result)"
    "gn_structs g = [user_struct, thing_struct]" by (rule owned_structs)
  let ?row = "[FtID (Some 1), FtCharfield (Some ''alice'')]"
  let ?db = "thing_database\<lparr>id_tables := [st_type_id user_struct \<mapsto> ''ns_idx.thing'']\<rparr>"
  obtain r where r: "entity_save (\<lambda>_. [7]) user_struct alice
      (entity_load (\<lambda>_. Some ?row) user_struct 1 (\<lambda>e. if e = Some alice then Finish else Trap)) = Some r"
    by (simp add: entity_save_def alice_row)
  obtain q where q: "put_query ''ns_idx.thing'' (id_schema ?db ''ns_idx.thing'') ?row = Inr q"
    by (simp add: put_query_def thing_database_def opt_fragment_def expect_def)
  have "st_type_id user_struct = st_type_id user_struct \<and> dom alice = set (st_construction user_struct)"
    by (auto simp: alice_def user_struct_def)
  then have "run_wasm (\<lambda>_. Some ?row) recording_server r ?db
      = run_wasm (\<lambda>_. Some ?row) recording_server Finish (?db\<lparr>id_stashed := Some (clean\<lparr>cn_open := True, cn_log := [(q, [7])]\<rparr>)\<rparr>)"
    using saved_entity_loads [OF g(1) _ _ r _ _ _ _ alice_row q] g(2)
    by (simp add: thing_database_def recording_server_def clean_def)
  with r show ?thesis by auto
qed

end
