(* ===== verification/Handlers.thy ===== *)
theory Handlers
  imports Entity_Laws
begin

text \<open>
  \<^verbatim>\<open>fuel-indexer-macros/src/indexer.rs\<close> and \<^verbatim>\<open>helpers.rs\<close>: the macro \<^verbatim>\<open>#[indexer]\<close> turns the handler functions
  of a module and the JSON ABI of a contract into \<^verbatim>\<open>handle_events\<close>, the entry point of an indexer. The
  first part models the macro, which gives a description of the code that it writes: the arms of
  its matches and the calls of its dispatch. The second is the code that is written, on blocks.

  A \<^verbatim>\<open>usize\<close> is 64 bits wide, as it is where the macro runs. Identifiers are those of ASCII.
\<close>

section \<open>The ABI of a contract\<close>

text \<open>What the macro uses of \<^verbatim>\<open>fuel_abi_types\<close>; a type id that occurs in another type is that of its application.\<close>

record type_declaration =
  td_type_id :: nat
  td_type_field :: string
  td_components :: "nat list option"

record abi_function =
  af_name :: string
  af_inputs :: "nat list"
  af_output :: nat

record logged_type =
  lt_log_id :: "64 word"
  lt_type_id :: nat

record message_type =
  mt_message_id :: "64 word"
  mt_type_id :: nat

record program_abi =
  pa_types :: "type_declaration list"
  pa_functions :: "abi_function list"
  pa_logged_types :: "logged_type list option"
  pa_messages_types :: "message_type list option"

definition empty_abi :: program_abi where
  "empty_abi = \<lparr>pa_types = [], pa_functions = [], pa_logged_types = None, pa_messages_types = None\<rparr>"

section \<open>Names and types (helpers.rs, constant.rs)\<close>

definition fuel_primitives :: "string list" where
  "fuel_primitives = [''BlockData'', ''Call'', ''Log'', ''LogData'', ''MessageOut'', ''Return'', ''ScriptResult'',
     ''Transfer'', ''TransferOut'', ''Panic'', ''Revert'']"

definition fuel_primitives_namespaced :: "string list" where
  "fuel_primitives_namespaced = [''abi :: BlockData'', ''abi :: Call'', ''abi :: Log'', ''abi :: LogData'', ''abi :: MessageOut'',
     ''abi :: Return'', ''abi :: ScriptResult'', ''abi :: Transfer'', ''abi :: TransferOut'', ''abi :: Panic'', ''abi :: Revert'']"

definition generic_types :: "string list" where
  "generic_types = [''generic T'', ''raw untyped ptr'', ''struct RawVec'', ''struct Vec'']"

definition rust_primitives :: "string list" where
  "rust_primitives = [''u8'', ''u16'', ''u32'', ''u64'', ''bool'', ''String'']"

definition is_tuple_type :: "type_declaration \<Rightarrow> bool" where
  "is_tuple_type typ \<longleftrightarrow> take 1 (td_type_field typ) = ''(''"

definition is_ignored_type :: "type_declaration \<Rightarrow> bool" where
  "is_ignored_type typ = (if is_tuple_type typ then True else False)"

definition is_non_decodable_type :: "type_declaration \<Rightarrow> bool" where
  "is_non_decodable_type typ =
     (if td_type_field typ \<in> set generic_types then True else if is_ignored_type typ then True else False)"

definition ident_char :: "char \<Rightarrow> bool" where
  "ident_char c \<longleftrightarrow> (let n = of_char c :: nat in
     n = 95 \<or> 48 \<le> n \<and> n \<le> 57 \<or> 65 \<le> n \<and> n \<le> 90 \<or> 97 \<le> n \<and> n \<le> 122)"

text \<open>\<^verbatim>\<open>format_ident!\<close> panics on a text that is no identifier.\<close>

definition make_ident :: "string \<Rightarrow> (string, 'e) result" where
  "make_ident s = (if s \<noteq> [] \<and> list_all ident_char s \<and> \<not> (48 \<le> (of_char (hd s) :: nat) \<and> of_char (hd s) \<le> (57 :: nat))
     then Inr s else Inl (Panic (s @ '' is not a valid identifier'')))"

definition decoded_ident :: "string \<Rightarrow> (string, 'e) result" where
  "decoded_ident t = make_ident (to_lowercase t @ ''_decoded'')"

text \<open>The text after the last space.\<close>

definition last_word :: "string \<Rightarrow> string" where
  "last_word s = rev (takeWhile (\<lambda>c. c \<noteq> CHR '' '') (rev s))"

definition derive_type_field :: "type_declaration \<Rightarrow> string" where
  "derive_type_field t = last_word (td_type_field t)"

definition rust_type_ident :: "type_declaration \<Rightarrow> (string, 'e) result" where
  "rust_type_ident t =
     (if td_components t \<noteq> None
      then (if is_tuple_type t then Inl (Panic ''Cannot derive rust_type_ident of tuple type.'')
            else decoded_ident (derive_type_field t))
      else decoded_ident (map (\<lambda>c. if c = CHR ''['' \<or> c = CHR '']'' then CHR ''_'' else c) (td_type_field t)))"

text \<open>The tokens of the Rust type, as their text.\<close>

definition rust_type_token :: "type_declaration \<Rightarrow> (string, 'e) result" where
  "rust_type_token t =
     (let s = td_type_field t in
      if td_components t \<noteq> None then make_ident (last_word s)
      else if s \<in> {''()'', ''generic T'', ''raw untyped ptr''} then Inr []
      else if s = ''b256'' then Inr ''B256''
      else if s \<in> {''bool'', ''u16'', ''u32'', ''u64'', ''u8'', ''BlockData''} then Inr s
      else if s \<in> {''Call'', ''Identity'', ''Log'', ''LogData'', ''MessageOut'', ''Return'', ''ScriptResult'', ''Transfer'',
                   ''TransferOut'', ''Panic'', ''Revert''} then Inr (''abi :: '' @ s)
      else if take 4 s = ''str['' then Inr ''String''
      else Inl (Panic ''Unrecognized primitive type''))"

definition is_fuel_primitive :: "string \<Rightarrow> bool" where
  "is_fuel_primitive t \<longleftrightarrow> t \<in> set fuel_primitives \<or> t \<in> set fuel_primitives_namespaced"

definition is_rust_primitive :: "string \<Rightarrow> bool" where
  "is_rust_primitive t \<longleftrightarrow> t \<in> set rust_primitives"

text \<open>The arm that is written for a type: it decodes to the field \<open>name\<close>, or skips.\<close>

datatype arm = DecodeNative string string | SkipPrimitive | DecodeAbi string string

definition decode_snippet :: "string \<Rightarrow> string \<Rightarrow> arm" where
  "decode_snippet t name =
     (if is_fuel_primitive t then DecodeNative t name
      else if is_rust_primitive t then SkipPrimitive
      else DecodeAbi t name)"

section \<open>The macro\<close>

text \<open>The items of the module: a handler with its arguments, of which a path keeps its segments.\<close>

datatype fn_arg = Receiver | PathType "string list" | OtherType

datatype module_item = FnItem string "fn_arg list" | OtherItem

record handler_code =
  hc_arms :: "(nat \<times> arm) list"
  hc_fields :: "string list"
  hc_selectors :: "(64 word \<times> nat) list"
  hc_fn_names :: "(64 word \<times> string) list"
  hc_log_types :: "(64 word \<times> nat) list"
  hc_messages :: "(64 word \<times> nat option) list"
  hc_start_block :: "64 word option"
  hc_contracts :: contract_ids
  hc_dispatchers :: "(string \<times> string list) list"

definition native_type_id :: "(string \<Rightarrow> bytes) \<Rightarrow> string \<Rightarrow> nat" where
  "native_type_id sha x = unat (word_of_int (type_id sha ''fuel'' x) :: 64 word)"

definition fuel_types :: "(string \<Rightarrow> bytes) \<Rightarrow> type_declaration list" where
  "fuel_types sha = map (\<lambda>x. \<lparr>td_type_id = native_type_id sha x, td_type_field = x, td_components = None\<rparr>) fuel_primitives"

text \<open>A type with its identifier, its tokens and its arm.\<close>

definition typed_arm :: "type_declaration \<Rightarrow> (string \<times> string \<times> nat \<times> arm, 'e) result" where
  "typed_arm typ =
     rbind (rust_type_ident typ) (\<lambda>name.
     rbind (rust_type_token typ) (\<lambda>t.
     Inr (name, t, td_type_id typ, decode_snippet t name)))"

definition abi_arm :: "type_declaration \<Rightarrow> (string \<times> string \<times> nat \<times> arm, 'e) result" where
  "abi_arm typ =
     rbind (typed_arm typ) (\<lambda>(name, t, i, a).
     if is_fuel_primitive t then Inl (Panic (t @ '' is a reserved Fuel type.'')) else Inr (name, t, i, a))"

text \<open>The field that an argument of a handler is read from.\<close>

definition input_field :: "string set \<Rightarrow> fn_arg \<Rightarrow> (string, 'e) result" where
  "input_field type_names inp =
     (case inp of
        Receiver \<Rightarrow> Inl (Panic ''`self` argument not allowed in handler function.'')
      | OtherType \<Rightarrow> Inl (Panic ''Arguments must be types defined in the ABI.'')
      | PathType segments \<Rightarrow>
          (if segments = [] then Inl (Panic ''Could not get last path segment.'')
           else rbind (decoded_ident (last segments)) (\<lambda>name.
             if last segments \<notin> type_names then Inl (Panic ''Type with ident not defined in the ABI.'')
             else Inr name)))"

definition dispatcher :: "string set \<Rightarrow> module_item \<Rightarrow> (string \<times> string list, 'e) result" where
  "dispatcher type_names i =
     (case i of
        FnItem f inputs \<Rightarrow> rbind (mapM (input_field type_names) inputs) (\<lambda>names. Inr (f, names))
      | OtherItem \<Rightarrow> Inl (Panic ''Unsupported item in indexer module''))"

text \<open>
  \<open>selector_of\<close> derives the parameter types of a function and hashes its signature: it fails where a type
  is missing from the types that are not ignored.
\<close>

definition abi_selector ::
    "(type_declaration list \<Rightarrow> abi_function \<Rightarrow> 64 word option) \<Rightarrow> program_abi \<Rightarrow> abi_function \<Rightarrow> (64 word \<times> abi_function, 'e) result" where
  "abi_selector selector_of a f =
     rbind (expect (selector_of (filter (\<lambda>typ. \<not> is_ignored_type typ) (pa_types a)) f)
       ''Could not derive TypeApplication param types.'') (\<lambda>sel. Inr (sel, f))"

definition process_fn_items ::
    "(string \<Rightarrow> bytes) \<Rightarrow> (type_declaration list \<Rightarrow> abi_function \<Rightarrow> 64 word option) \<Rightarrow> manifest \<Rightarrow> program_abi option
      \<Rightarrow> module_item list option \<Rightarrow> (handler_code, 'e) result" where
  "process_fn_items sha selector_of m abi content =
     (if content = None \<or> content = Some []
      then Inl (Panic ''No module body, must specify at least one handler function.'')
      else
        let a = (case abi of None \<Rightarrow> empty_abi | Some a \<Rightarrow> a) in
        rbind (mapM abi_arm (filter (\<lambda>typ. \<not> is_non_decodable_type typ) (pa_types a))) (\<lambda>abi_arms.
        rbind (mapM typed_arm (fuel_types sha)) (\<lambda>fuel_arms.
        rbind (mapM (abi_selector selector_of a) (pa_functions a)) (\<lambda>selectors.
        let type_names = set fuel_primitives \<union> (\<lambda>(_, t, _). t) ` set (abi_arms @ fuel_arms) in
        rbind (mapM (dispatcher type_names) (the content)) (\<lambda>dispatchers.
        Inr \<lparr>hc_arms = map (\<lambda>(_, _, i, arm). (i, arm)) (fuel_arms @ abi_arms),
             hc_fields = map fst (abi_arms @ fuel_arms),
             hc_selectors = map (\<lambda>(sel, f). (sel, af_output f)) selectors,
             hc_fn_names = map (\<lambda>(sel, f). (sel, af_name f)) selectors,
             hc_log_types = map (\<lambda>l. (lt_log_id l, lt_type_id l)) (case pa_logged_types a of None \<Rightarrow> [] | Some ls \<Rightarrow> ls),
             hc_messages = map (\<lambda>t. (mt_message_id t, Some (mt_type_id t))) (case pa_messages_types a of None \<Rightarrow> [] | Some ts \<Rightarrow> ts)
               @ [(- 1, None)],
             hc_start_block = mf_start_block m,
             hc_contracts = mf_contract_id m,
             hc_dispatchers = dispatchers\<rparr>)))))"

end
