(* ===== verification/Handle_Events.thy ===== *)
theory Handle_Events
  imports Handlers
begin

text \<open>
  The code that the macro of \<^verbatim>\<open>fuel-indexer-macros/src/indexer.rs\<close> writes, as it runs on blocks: the values
  that are decoded from the receipts of a block's transactions are collected in the struct
  \<^verbatim>\<open>Decoders\<close>, and after each transaction the handlers are called whose arguments are all there.

  What a run does is a list of actions, calls of handlers and the saving of a block's metadata, and
  whether it ended with a panic. Logging is left out.
\<close>

section \<open>Blocks and receipts (fuel-indexer-types, fuel-tx)\<close>

text \<open>A transaction of the Fuel SDK is handed on unread, and stands for itself as bytes.\<close>

datatype receipt =
    RCall bytes bytes "64 word" bytes "64 word" "64 word"
  | RReturn bytes "64 word" "64 word" "64 word"
  | RReturnData bytes bytes
  | RPanic bytes "32 word"
  | RRevert bytes "64 word"
  | RLog bytes "64 word" "64 word"
  | RLogData bytes "64 word" bytes
  | RTransfer bytes bytes bytes "64 word" "64 word" "64 word"
  | RTransferOut bytes bytes bytes "64 word" "64 word" "64 word"
  | RScriptResult "64 word" "64 word"
  | RMessageOut bytes bytes "64 word" bytes "64 word" bytes bytes
  | ROther

datatype transaction_status =
    TsFailure string int string
  | TsSqueezedOut string
  | TsSubmitted int
  | TsSuccess string int

record transaction_data =
  tx_transaction :: bytes
  tx_status :: transaction_status
  tx_receipts :: "receipt list"
  tx_id :: bytes

record block_data =
  bk_height :: "64 word"
  bk_id :: bytes
  bk_producer :: "bytes option"
  bk_time :: "64 word"
  bk_transactions :: "transaction_data list"

text \<open>The native types of \<^verbatim>\<open>abi.rs\<close> that the receipts are turned into.\<close>

datatype native_value =
    NBlockData block_data
  | NCall bytes bytes "64 word" bytes "64 word" string
  | NLog bytes "64 word" "64 word"
  | NReturn bytes "64 word" "64 word" "64 word"
  | NMessageOut bytes bytes bytes "64 word" bytes "64 word" bytes bytes
  | NScriptResult "64 word" "64 word"
  | NTransfer bytes bytes "64 word" bytes "64 word" "64 word"
  | NTransferOut bytes bytes "64 word" bytes "64 word" "64 word"
  | NPanic bytes "32 word"
  | NRevert bytes "64 word"

fun native_name :: "native_value \<Rightarrow> string" where
  "native_name (NBlockData _) = ''BlockData''"
| "native_name (NCall _ _ _ _ _ _) = ''Call''"
| "native_name (NLog _ _ _) = ''Log''"
| "native_name (NReturn _ _ _ _) = ''Return''"
| "native_name (NMessageOut _ _ _ _ _ _ _ _) = ''MessageOut''"
| "native_name (NScriptResult _ _) = ''ScriptResult''"
| "native_name (NTransfer _ _ _ _ _ _) = ''Transfer''"
| "native_name (NTransferOut _ _ _ _ _ _) = ''TransferOut''"
| "native_name (NPanic _ _) = ''Panic''"
| "native_name (NRevert _ _) = ''Revert''"

section \<open>Decoders\<close>

datatype 'v decoded = Native native_value | Abi 'v

type_synonym 'v decoders = "string \<Rightarrow> 'v decoded list"

text \<open>
  What the written code calls: \<^verbatim>\<open>bincode\<close> on native values (a decoder knows its type's tokens) and on
  the blocks of a page, the decoder of the Fuel SDK for a type's tokens, \<^verbatim>\<open>Bech32ContractId\<close> from a
  text and from an id, and SHA-256.
\<close>

record ('v, 'c) runtime =
  rt_bincode :: "native_value \<Rightarrow> bytes"
  rt_unbincode :: "string \<Rightarrow> bytes \<Rightarrow> native_value option"
  rt_unbincode_blocks :: "bytes \<Rightarrow> block_data list option"
  rt_decode :: "string \<Rightarrow> bytes \<Rightarrow> 'v option"
  rt_parse_contract :: "string \<Rightarrow> 'c option"
  rt_contract :: "bytes \<Rightarrow> 'c"
  rt_sha :: "bytes \<Rightarrow> bytes"

definition push :: "string \<Rightarrow> 'v decoded \<Rightarrow> 'v decoders \<Rightarrow> 'v decoders" where
  "push name v dec = dec(name := dec name @ [v])"

definition decode_type :: "('v, 'c) runtime \<Rightarrow> handler_code \<Rightarrow> nat \<Rightarrow> bytes \<Rightarrow> 'v decoders \<Rightarrow> ('v decoders, unit) result" where
  "decode_type rt hc ty_id data dec =
     (case map_of (hc_arms hc) ty_id of
        Some (DecodeNative t name) \<Rightarrow>
          rbind (expect (rt_unbincode rt t data) ''Bad bincode.'') (\<lambda>v. Inr (push name (Native v) dec))
      | Some SkipPrimitive \<Rightarrow> Inr dec
      | Some (DecodeAbi t name) \<Rightarrow>
          rbind (expect (rt_decode rt t data) ''Failed decoding.'') (\<lambda>v. Inr (push name (Abi v) dec))
      | None \<Rightarrow> Inr dec)"

definition selector_to_type_id :: "handler_code \<Rightarrow> 64 word \<Rightarrow> nat" where
  "selector_to_type_id hc sel = (case map_of (hc_selectors hc) sel of Some t \<Rightarrow> t | None \<Rightarrow> 2 ^ 64 - 1)"

definition selector_to_fn_name :: "handler_code \<Rightarrow> 64 word \<Rightarrow> string" where
  "selector_to_fn_name hc sel = (case map_of (hc_fn_names hc) sel of Some n \<Rightarrow> n | None \<Rightarrow> [])"

definition decode_return_type ::
    "('v, 'c) runtime \<Rightarrow> handler_code \<Rightarrow> 64 word \<Rightarrow> bytes \<Rightarrow> 'v decoders \<Rightarrow> ('v decoders, unit) result" where
  "decode_return_type rt hc sel data dec = decode_type rt hc (selector_to_type_id hc sel) data dec"

definition decode_logdata ::
    "('v, 'c) runtime \<Rightarrow> handler_code \<Rightarrow> 64 word \<Rightarrow> bytes \<Rightarrow> 'v decoders \<Rightarrow> ('v decoders, unit) result" where
  "decode_logdata rt hc rb data dec =
     (case map_of (hc_log_types hc) rb of Some t \<Rightarrow> decode_type rt hc t data dec | None \<Rightarrow> Inr dec)"

definition decode_messagedata ::
    "('v, 'c) runtime \<Rightarrow> handler_code \<Rightarrow> 64 word \<Rightarrow> bytes \<Rightarrow> 'v decoders \<Rightarrow> ('v decoders, unit) result" where
  "decode_messagedata rt hc tid data dec =
     (case map_of (hc_messages hc) tid of Some (Some t) \<Rightarrow> decode_type rt hc t data dec | _ \<Rightarrow> Inr dec)"

text \<open>Eight bytes, the first the highest.\<close>

definition be_bytes :: "64 word \<Rightarrow> bytes" where
  "be_bytes w = rev (map (\<lambda>i. ucast (drop_bit (8 * i) w)) [0..<8])"

definition from_be_bytes :: "bytes \<Rightarrow> 64 word" where
  "from_be_bytes bs = from_le_bytes (rev bs)"

definition compute_message_id :: "('v, 'c) runtime \<Rightarrow> bytes \<Rightarrow> bytes \<Rightarrow> bytes \<Rightarrow> 64 word \<Rightarrow> bytes \<Rightarrow> (bytes, unit) result" where
  "compute_message_id rt sender recipient nonce amount data =
     (let raw = rt_sha rt (sender @ recipient @ nonce @ be_bytes amount @ data)
      in if length raw = 32 then Inr raw else Inl (Panic ''Could not calculate message ID from receipt fields''))"

text \<open>A native value goes through its bytes to the field of its type.\<close>

definition decode_native ::
    "('v, 'c) runtime \<Rightarrow> (string \<Rightarrow> bytes) \<Rightarrow> handler_code \<Rightarrow> native_value \<Rightarrow> 'v decoders \<Rightarrow> ('v decoders, unit) result" where
  "decode_native rt sha hc v dec = decode_type rt hc (native_type_id sha (native_name v)) (rt_bincode rt v) dec"

section \<open>Receipts\<close>

text \<open>Whether the manifest's contract ids let a receipt through.\<close>

definition subscribed :: "('v, 'c) runtime \<Rightarrow> handler_code \<Rightarrow> bytes \<Rightarrow> (bool, unit) result" where
  "subscribed rt hc i =
     (case hc_contracts hc of
        Single None \<Rightarrow> Inr True
      | Single (Some c) \<Rightarrow>
          rbind (expect (rt_parse_contract rt c) ''Failed to parse manifest 'contract_id' as Bech32ContractId'') (\<lambda>k.
          Inr (rt_contract rt i = k))
      | Multiple cs \<Rightarrow>
          rbind (mapM (\<lambda>c. expect (rt_parse_contract rt c) ''Failed to parse manifest 'contract_id' as Bech32ContractId'') cs) (\<lambda>ks.
          Inr (rt_contract rt i \<in> set ks)))"

text \<open>The state of the loop over the receipts of one transaction.\<close>

record 'v loop_state =
  lp_decoder :: "'v decoders"
  lp_return_types :: "64 word list"
  lp_callees :: "bytes set"

definition if_subscribed ::
    "('v, 'c) runtime \<Rightarrow> handler_code \<Rightarrow> bytes \<Rightarrow> 'v loop_state \<Rightarrow> ('v loop_state, unit) result \<Rightarrow> ('v loop_state, unit) result" where
  "if_subscribed rt hc i st r = rbind (subscribed rt hc i) (\<lambda>b. if b then r else Inr st)"

definition on_decoder :: "('v decoders \<Rightarrow> ('v decoders, unit) result) \<Rightarrow> 'v loop_state \<Rightarrow> ('v loop_state, unit) result" where
  "on_decoder f st = rbind (f (lp_decoder st)) (\<lambda>dec. Inr (st\<lparr>lp_decoder := dec\<rparr>))"

definition handle_call ::
    "('v, 'c) runtime \<Rightarrow> (string \<Rightarrow> bytes) \<Rightarrow> handler_code \<Rightarrow> 'v loop_state \<Rightarrow> bytes \<Rightarrow> bytes \<Rightarrow> 64 word \<Rightarrow> bytes \<Rightarrow> 64 word
      \<Rightarrow> 64 word \<Rightarrow> ('v loop_state, unit) result" where
  "handle_call rt sha hc st contract to amount asset gas param1 =
     on_decoder (decode_native rt sha hc (NCall contract to amount asset gas (selector_to_fn_name hc param1)))
       (st\<lparr>lp_return_types := lp_return_types st @ [param1], lp_callees := insert to (lp_callees st)\<rparr>)"

definition handle_return_data ::
    "('v, 'c) runtime \<Rightarrow> handler_code \<Rightarrow> 'v loop_state \<Rightarrow> bytes \<Rightarrow> bytes \<Rightarrow> ('v loop_state, unit) result" where
  "handle_return_data rt hc st i data =
     (if i \<notin> lp_callees st then Inr st
      else if lp_return_types st = [] then Inl (Panic ''No return type available. <('-'<)'')
      else on_decoder (decode_return_type rt hc (last (lp_return_types st)) data)
             (st\<lparr>lp_return_types := butlast (lp_return_types st)\<rparr>))"

text \<open>The first eight bytes of a message are the id of its type; a shorter message has none.\<close>

definition handle_message ::
    "('v, 'c) runtime \<Rightarrow> (string \<Rightarrow> bytes) \<Rightarrow> handler_code \<Rightarrow> 'v loop_state \<Rightarrow> bytes \<Rightarrow> bytes \<Rightarrow> 64 word \<Rightarrow> bytes \<Rightarrow> 64 word
      \<Rightarrow> bytes \<Rightarrow> bytes \<Rightarrow> ('v loop_state, unit) result" where
  "handle_message rt sha hc st sender recipient amount nonce len digest data =
     rbind (compute_message_id rt sender recipient nonce amount data) (\<lambda>message_id.
     let tid = (if 8 \<le> length data then from_be_bytes (take 8 data) else - 1);
         rest = (if 8 \<le> length data then drop 8 data else [])
     in rbind (on_decoder (decode_messagedata rt hc tid rest) st) (\<lambda>st'.
        on_decoder (decode_native rt sha hc (NMessageOut message_id sender recipient amount nonce len digest rest)) st'))"

fun handle_receipt ::
    "('v, 'c) runtime \<Rightarrow> (string \<Rightarrow> bytes) \<Rightarrow> handler_code \<Rightarrow> 'v loop_state \<Rightarrow> receipt \<Rightarrow> ('v loop_state, unit) result" where
  "handle_receipt rt sha hc st (RCall contract to amount asset gas param1) =
     if_subscribed rt hc to st (handle_call rt sha hc st contract to amount asset gas param1)"
| "handle_receipt rt sha hc st (RLog i ra rb) =
     if_subscribed rt hc i st (on_decoder (decode_native rt sha hc (NLog i ra rb)) st)"
| "handle_receipt rt sha hc st (RLogData i rb data) =
     if_subscribed rt hc i st (on_decoder (decode_logdata rt hc rb data) st)"
| "handle_receipt rt sha hc st (RReturn i val pc is) =
     if_subscribed rt hc i st
       (if i \<in> lp_callees st then on_decoder (decode_native rt sha hc (NReturn i val pc is)) st else Inr st)"
| "handle_receipt rt sha hc st (RReturnData i data) = if_subscribed rt hc i st (handle_return_data rt hc st i data)"
| "handle_receipt rt sha hc st (RMessageOut sender recipient amount nonce len digest data) =
     handle_message rt sha hc st sender recipient amount nonce len digest data"
| "handle_receipt rt sha hc st (RScriptResult result gas_used) =
     on_decoder (decode_native rt sha hc (NScriptResult result gas_used)) st"
| "handle_receipt rt sha hc st (RTransfer i to asset amount pc is) =
     if_subscribed rt hc i st (on_decoder (decode_native rt sha hc (NTransfer i to amount asset pc is)) st)"
| "handle_receipt rt sha hc st (RTransferOut i to asset amount pc is) =
     if_subscribed rt hc i st (on_decoder (decode_native rt sha hc (NTransferOut i to amount asset pc is)) st)"
| "handle_receipt rt sha hc st (RPanic i reason) =
     if_subscribed rt hc i st (on_decoder (decode_native rt sha hc (NPanic i reason)) st)"
| "handle_receipt rt sha hc st (RRevert i ra) =
     if_subscribed rt hc i st (on_decoder (decode_native rt sha hc (NRevert i (and ra 15))) st)"
| "handle_receipt rt sha hc st ROther = Inr st"

section \<open>Transactions and blocks\<close>

datatype 'v action = CallHandler string "'v decoded list" | SaveMetadata "64 word" "64 word"

text \<open>A handler is called with the first value of each of its arguments' fields.\<close>

definition dispatch :: "handler_code \<Rightarrow> 'v decoders \<Rightarrow> 'v action list" where
  "dispatch hc dec = concat (map (\<lambda>(f, names).
     if \<forall>n \<in> set names. dec n \<noteq> [] then [CallHandler f (map (\<lambda>n. hd (dec n)) names)] else []) (hc_dispatchers hc))"

definition run_receipts ::
    "('v, 'c) runtime \<Rightarrow> (string \<Rightarrow> bytes) \<Rightarrow> handler_code \<Rightarrow> 'v decoders \<Rightarrow> receipt list \<Rightarrow> ('v decoders, unit) result" where
  "run_receipts rt sha hc dec rs =
     rbind (foldM (handle_receipt rt sha hc) \<lparr>lp_decoder = dec, lp_return_types = [], lp_callees = {}\<rparr> rs) (\<lambda>st. Inr (lp_decoder st))"

fun run_transactions ::
    "('v, 'c) runtime \<Rightarrow> (string \<Rightarrow> bytes) \<Rightarrow> handler_code \<Rightarrow> 'v decoders \<Rightarrow> transaction_data list
      \<Rightarrow> 'v action list \<times> (unit, unit) result" where
  "run_transactions rt sha hc dec [] = ([], Inr ())"
| "run_transactions rt sha hc dec (tx # txs) =
     (case run_receipts rt sha hc dec (tx_receipts tx) of
        Inl e \<Rightarrow> ([], Inl e)
      | Inr dec' \<Rightarrow> (case run_transactions rt sha hc dec' txs of (acts, r) \<Rightarrow> (dispatch hc dec' @ acts, r)))"

definition skipped :: "handler_code \<Rightarrow> block_data \<Rightarrow> bool" where
  "skipped hc b = (case hc_start_block hc of Some n \<Rightarrow> bk_height b < n | None \<Rightarrow> False)"

definition run_block ::
    "('v, 'c) runtime \<Rightarrow> (string \<Rightarrow> bytes) \<Rightarrow> handler_code \<Rightarrow> block_data \<Rightarrow> 'v action list \<times> (unit, unit) result" where
  "run_block rt sha hc b =
     (if skipped hc b then ([], Inr ())
      else case decode_native rt sha hc (NBlockData b) (\<lambda>_. []) of
          Inl e \<Rightarrow> ([], Inl e)
        | Inr dec \<Rightarrow>
            (case run_transactions rt sha hc dec (bk_transactions b) of
               (acts, Inl e) \<Rightarrow> (acts, Inl e)
             | (acts, Inr _) \<Rightarrow> (acts @ [SaveMetadata (bk_height b) (bk_time b)], Inr ())))"

fun run_blocks ::
    "('v, 'c) runtime \<Rightarrow> (string \<Rightarrow> bytes) \<Rightarrow> handler_code \<Rightarrow> block_data list \<Rightarrow> 'v action list \<times> (unit, unit) result" where
  "run_blocks rt sha hc [] = ([], Inr ())"
| "run_blocks rt sha hc (b # bs) =
     (case run_block rt sha hc b of
        (acts, Inl e) \<Rightarrow> (acts, Inl e)
      | (acts, Inr _) \<Rightarrow> (case run_blocks rt sha hc bs of (acts', r) \<Rightarrow> (acts @ acts', r)))"

section \<open>The entry point of a WASM module (wasm.rs)\<close>

text \<open>
  The user's code of a handler is an argument: what it does before the rest of the run. The metadata
  of a block is the entity that the macro adds to every schema.
\<close>

definition metadata_row :: "64 word \<Rightarrow> 64 word \<Rightarrow> ft_column list" where
  "metadata_row height time = [FtID (Some height), FtInt8 (Some time)]"

definition perform ::
    "(string \<Rightarrow> 'v decoded list \<Rightarrow> wasm_run \<Rightarrow> wasm_run) \<Rightarrow> (ft_column list \<Rightarrow> bytes) \<Rightarrow> int \<Rightarrow> 'v action \<Rightarrow> wasm_run \<Rightarrow> wasm_run" where
  "perform handler ser metadata a k =
     (case a of
        CallHandler f args \<Rightarrow> handler f args k
      | SaveMetadata height time \<Rightarrow> PutObject metadata (ser (metadata_row height time)) k)"

definition handle_events ::
    "('v, 'c) runtime \<Rightarrow> (string \<Rightarrow> bytes) \<Rightarrow> handler_code \<Rightarrow> (string \<Rightarrow> 'v decoded list \<Rightarrow> wasm_run \<Rightarrow> wasm_run)
      \<Rightarrow> (ft_column list \<Rightarrow> bytes) \<Rightarrow> int \<Rightarrow> bytes \<Rightarrow> wasm_run" where
  "handle_events rt sha hc handler ser metadata blob =
     (case rt_unbincode_blocks rt blob of
        None \<Rightarrow> LogData 0 Finish
      | Some blocks \<Rightarrow>
          (case run_blocks rt sha hc blocks of
             (acts, r) \<Rightarrow> foldr (perform handler ser metadata) acts (case r of Inl _ \<Rightarrow> Trap | Inr _ \<Rightarrow> Finish)))"

end
