(* ===== verification/Handler_Laws.thy ===== *)
theory Handler_Laws
  imports Handle_Events "HOL-Library.Sublist"
begin

text \<open>
  Correctness of the code that the macro writes for the handlers of an indexer. The interface
  \<open>accumulates\<close> is that of a relation between the decoders before and after, which holds when a
  value is pushed to the field of an arm: it holds over receipts, transactions and blocks. The
  handlers' arguments are declared fields; which receipts count, what return data is decoded as,
  and how often handlers are called are properties of whole blocks.
\<close>

section \<open>What the decoders go through\<close>

locale accumulates =
  fixes hc :: handler_code and R :: "'v decoders \<Rightarrow> 'v decoders \<Rightarrow> bool"
  assumes same: "R dec dec"
    and trans: "R dec dec1 \<Longrightarrow> R dec1 dec2 \<Longrightarrow> R dec dec2"
    and pushed: "(i, a) \<in> set (hc_arms hc) \<Longrightarrow> a = DecodeNative t name \<or> a = DecodeAbi t name \<Longrightarrow> R dec (push name v dec)"
begin

lemma decode_type: "decode_type rt hc i data dec = Inr dec' \<Longrightarrow> R dec dec'"
  by (auto simp: decode_type_def same split: option.splits arm.splits dest!: map_of_SomeD intro: pushed)

lemma decode_native: "decode_native rt sha hc v dec = Inr dec' \<Longrightarrow> R dec dec'"
  by (auto simp: decode_native_def intro: decode_type)

lemma decode_other:
  "decode_logdata rt hc rb data dec = Inr dec' \<Longrightarrow> R dec dec'"
  "decode_messagedata rt hc tid data dec = Inr dec' \<Longrightarrow> R dec dec'"
  "decode_return_type rt hc sel data dec = Inr dec' \<Longrightarrow> R dec dec'"
  by (auto simp: decode_logdata_def decode_messagedata_def decode_return_type_def same split: option.splits intro: decode_type)

lemma on_decoder:
  "on_decoder (decode_native rt sha hc v) st = Inr st' \<Longrightarrow> R (lp_decoder st) (lp_decoder st')"
  "on_decoder (decode_logdata rt hc rb data) st = Inr st' \<Longrightarrow> R (lp_decoder st) (lp_decoder st')"
  "on_decoder (decode_messagedata rt hc tid data) st = Inr st' \<Longrightarrow> R (lp_decoder st) (lp_decoder st')"
  "on_decoder (decode_return_type rt hc sel data) st = Inr st' \<Longrightarrow> R (lp_decoder st) (lp_decoder st')"
  by (auto simp: on_decoder_def intro: decode_native decode_other)

lemma handle_call: "handle_call rt sha hc st c t a s g p = Inr st' \<Longrightarrow> R (lp_decoder st) (lp_decoder st')"
  unfolding handle_call_def by (drule on_decoder) simp

lemma handle_return_data: "handle_return_data rt hc st i data = Inr st' \<Longrightarrow> R (lp_decoder st) (lp_decoder st')"
  unfolding handle_return_data_def by (fastforce simp: same split: if_splits dest: on_decoder(4))

lemma handle_message:
  assumes "handle_message rt sha hc st s r a n l d data = Inr st'"
  shows "R (lp_decoder st) (lp_decoder st')"
proof -
  from assms obtain tid rest v st1 where "on_decoder (decode_messagedata rt hc tid rest) st = Inr st1"
    "on_decoder (decode_native rt sha hc v) st1 = Inr st'" by (auto simp: handle_message_def Let_def simp del: if_splits)
  from on_decoder(3) [OF this(1)] on_decoder(1) [OF this(2)] show ?thesis by (rule trans)
qed

lemma if_subscribed:
  assumes "if_subscribed rt hc i st r = Inr st'" "r = Inr st' \<Longrightarrow> R (lp_decoder st) (lp_decoder st')"
  shows "R (lp_decoder st) (lp_decoder st')"
  using assms by (auto simp: if_subscribed_def same split: if_splits)

lemma handle_receipt:
  assumes "handle_receipt rt sha hc st r = Inr st'"
  shows "R (lp_decoder st) (lp_decoder st')"
proof (cases r)
  case (RReturn i w pc js)
  with assms show ?thesis by (auto simp: same split: if_splits elim!: if_subscribed dest: on_decoder(1))
qed (use assms in \<open>auto simp: same elim!: if_subscribed dest: on_decoder handle_call handle_return_data handle_message\<close>)

lemma run_receipts:
  assumes "run_receipts rt sha hc dec rs = Inr dec'"
  shows "R dec dec'"
proof -
  from assms obtain st where f: "foldM (handle_receipt rt sha hc) \<lparr>lp_decoder = dec, lp_return_types = [], lp_callees = {}\<rparr> rs = Inr st"
    and dec': "lp_decoder st = dec'" by (auto simp: run_receipts_def)
  from f have "R dec (lp_decoder st)"
    by (rule foldM_invariant) (auto simp: same intro: trans handle_receipt)
  with dec' show ?thesis by simp
qed

text \<open>The decoders after each transaction of a block.\<close>

lemma run_transactions:
  assumes "run_transactions rt sha hc dec txs = (acts, Inr ())"
  shows "\<exists>decs. length decs = length txs \<and> acts = concat (map (dispatch hc) decs) \<and> sorted_wrt R (dec # decs)"
  using assms
proof (induction txs arbitrary: dec acts)
  case (Cons tx txs)
  from Cons.prems obtain dec' acts' where dec': "run_receipts rt sha hc dec (tx_receipts tx) = Inr dec'"
    and rest: "run_transactions rt sha hc dec' txs = (acts', Inr ())" and acts: "acts = dispatch hc dec' @ acts'"
    by (auto split: sum.splits prod.splits)
  from Cons.IH [OF rest] obtain decs where "length decs = length txs" "acts' = concat (map (dispatch hc) decs)" "sorted_wrt R (dec' # decs)"
    by blast
  with run_receipts [OF dec'] acts show ?case by (intro exI [of _ "dec' # decs"]) (auto intro: trans)
qed simp

end

text \<open>No value is ever lost or moved.\<close>

definition grows :: "'v decoders \<Rightarrow> 'v decoders \<Rightarrow> bool" where
  "grows dec dec' \<longleftrightarrow> (\<forall>n. prefix (dec n) (dec' n))"

interpretation growing: accumulates hc grows for hc
  by unfold_locales (auto simp: grows_def push_def intro: prefix_order.trans)

text \<open>Values arrive only at the fields of the arms.\<close>

definition arm_fields :: "handler_code \<Rightarrow> string set" where
  "arm_fields hc = {name. \<exists>i t. (i, DecodeNative t name) \<in> set (hc_arms hc) \<or> (i, DecodeAbi t name) \<in> set (hc_arms hc)}"

definition elsewhere_same :: "handler_code \<Rightarrow> 'v decoders \<Rightarrow> 'v decoders \<Rightarrow> bool" where
  "elsewhere_same hc dec dec' \<longleftrightarrow> (\<forall>n. n \<notin> arm_fields hc \<longrightarrow> dec' n = dec n)"

interpretation arms: accumulates hc "elsewhere_same hc" for hc
  by unfold_locales (auto simp: elsewhere_same_def push_def arm_fields_def)


section \<open>The arms that are written\<close>

definition native_token :: "string \<Rightarrow> string" where
  "native_token x = (if x = ''BlockData'' then x else ''abi :: '' @ x)"

definition native_field :: "string \<Rightarrow> string" where
  "native_field x = to_lowercase x @ ''_decoded''"

lemma fuel_idents:
  "list_all (\<lambda>x. list_all ident_char (native_field x) \<and> \<not> (48 \<le> (of_char (hd (native_field x)) :: nat) \<and> of_char (hd (native_field x)) \<le> (57 :: nat))
     \<and> map (\<lambda>c. if c = CHR ''['' \<or> c = CHR '']'' then CHR ''_'' else c) x = x) fuel_primitives"
  by code_simp

lemma typed_native:
  assumes "x \<in> set fuel_primitives"
  shows "typed_arm \<lparr>td_type_id = i, td_type_field = x, td_components = None\<rparr>
    = (Inr (native_field x, native_token x, i, DecodeNative (native_token x) (native_field x)) :: (_, 'e) result)"
proof -
  let ?t = "\<lparr>td_type_id = i, td_type_field = x, td_components = None\<rparr>"
  have "rust_type_ident ?t = (Inr (native_field x) :: (string, 'e) result)"
  proof -
    from fuel_idents assms have ok: "list_all ident_char (native_field x)"
      "\<not> (48 \<le> (of_char (hd (native_field x)) :: nat) \<and> of_char (hd (native_field x)) \<le> (57 :: nat))"
      "map (\<lambda>c. if c = CHR ''['' \<or> c = CHR '']'' then CHR ''_'' else c) x = x" unfolding list_all_iff by blast+
    moreover have "native_field x \<noteq> []" by (simp add: native_field_def)
    ultimately show ?thesis
      unfolding rust_type_ident_def decoded_ident_def make_ident_def native_field_def by simp
  qed
  moreover have "rust_type_token ?t = (Inr (native_token x) :: (string, 'e) result)"
    using assms unfolding fuel_primitives_def rust_type_token_def native_token_def
    by (simp only: set_simps insert_iff empty_iff) (elim disjE; simp)
  moreover have "is_fuel_primitive (native_token x)"
    using assms by (auto simp: fuel_primitives_def fuel_primitives_namespaced_def is_fuel_primitive_def native_token_def)
  ultimately show ?thesis by (simp add: typed_arm_def decode_snippet_def)
qed

lemma fuel_arms:
  "mapM typed_arm (fuel_types sha) = (Inr (map (\<lambda>x. (native_field x, native_token x, native_type_id sha x,
     DecodeNative (native_token x) (native_field x))) fuel_primitives) :: (_, 'e) result)"
  unfolding fuel_types_def mapM_Inr_iff list_all2_map1 list_all2_map2
  by (rule list.rel_refl_strong) (rule typed_native)

lemma process_fn_items_Inr:
  assumes "process_fn_items sha selector_of m abi content = (Inr hc :: (handler_code, 'e) result)"
  obtains a abi_arms items where "content = Some items"
    and "mapM abi_arm (filter (\<lambda>typ. \<not> is_non_decodable_type typ) (pa_types a)) = (Inr abi_arms :: (_, 'e) result)"
    and "a = (case abi of None \<Rightarrow> empty_abi | Some a \<Rightarrow> a)"
    and "hc_arms hc = map (\<lambda>x. (native_type_id sha x, DecodeNative (native_token x) (native_field x))) fuel_primitives
        @ map (\<lambda>(_, _, i, arm). (i, arm)) abi_arms"
    and "hc_fields hc = map fst abi_arms @ map native_field fuel_primitives"
    and "mapM (dispatcher (set fuel_primitives \<union> (\<lambda>(_, t, _). t) ` set abi_arms \<union> native_token ` set fuel_primitives)) items
        = (Inr (hc_dispatchers hc) :: (_, 'e) result)"
    and "hc_start_block hc = mf_start_block m" "hc_contracts hc = mf_contract_id m"
proof -
  from assms have "content \<noteq> None" by (auto simp: process_fn_items_def split: if_splits)
  then obtain items where "content = Some items" by auto
  with assms fuel_arms [of sha, where 'e = 'e] that show thesis
    by (auto simp: process_fn_items_def Let_def o_def image_image image_Un Un_assoc split: if_splits)
qed

text \<open>With ids that do not collide, a native value arrives at the field of its type.\<close>

lemma native_arm:
  assumes "process_fn_items sha selector_of m abi content = (Inr hc :: (handler_code, 'e) result)"
    and "inj_on (native_type_id sha) (set fuel_primitives)" "x \<in> set fuel_primitives"
  shows "map_of (hc_arms hc) (native_type_id sha x) = Some (DecodeNative (native_token x) (native_field x))"
proof -
  let ?arms = "map (\<lambda>x. (native_type_id sha x, DecodeNative (native_token x) (native_field x))) fuel_primitives"
  from assms(1) obtain rest where "hc_arms hc = ?arms @ rest" by (rule process_fn_items_Inr)
  moreover have "distinct (map fst ?arms)"
    using assms(2) by (simp add: o_def distinct_map) (simp add: fuel_primitives_def)
  then have "map_of ?arms (native_type_id sha x) = Some (DecodeNative (native_token x) (native_field x))"
    using assms(3) by (intro map_of_is_SomeI) auto
  ultimately show ?thesis by (simp add: map_add_def)
qed

lemma native_names: "native_name v \<in> set fuel_primitives"
  by (cases v) (auto simp: fuel_primitives_def)

lemma decode_native_push:
  assumes "process_fn_items sha selector_of m abi content = (Inr hc :: (handler_code, 'e) result)"
    and "inj_on (native_type_id sha) (set fuel_primitives)"
    and "rt_unbincode rt (native_token (native_name v)) (rt_bincode rt v) = Some v"
  shows "decode_native rt sha hc v dec = Inr (push (native_field (native_name v)) (Native v) dec)"
  using native_arm [OF assms(1,2) native_names [of v]] assms(3)
  by (simp add: decode_native_def decode_type_def expect_def)


section \<open>Which receipts count\<close>

text \<open>The contract id that a receipt is filtered by.\<close>

fun filtered_id :: "receipt \<Rightarrow> bytes option" where
  "filtered_id (RCall c to a s g p) = Some to"
| "filtered_id (RReturn i v pc js) = Some i"
| "filtered_id (RReturnData i d) = Some i"
| "filtered_id (RPanic i r) = Some i"
| "filtered_id (RRevert i ra) = Some i"
| "filtered_id (RLog i ra rb) = Some i"
| "filtered_id (RLogData i rb d) = Some i"
| "filtered_id (RTransfer i t s a pc js) = Some i"
| "filtered_id (RTransferOut i t s a pc js) = Some i"
| "filtered_id _ = None"

definition own_receipt :: "('v, 'c) runtime \<Rightarrow> handler_code \<Rightarrow> receipt \<Rightarrow> bool" where
  "own_receipt rt hc r = (case filtered_id r of None \<Rightarrow> True | Some i \<Rightarrow> subscribed rt hc i \<noteq> Inr False)"

lemma foreign_receipt: "\<not> own_receipt rt hc r \<Longrightarrow> handle_receipt rt sha hc st r = Inr st"
  by (cases r) (auto simp: own_receipt_def if_subscribed_def)

lemma foreign_receipts:
  "foldM (handle_receipt rt sha hc) st (filter (own_receipt rt hc) rs) = foldM (handle_receipt rt sha hc) st rs"
proof (induction rs arbitrary: st)
  case (Cons r rs)
  then show ?case by (cases "own_receipt rt hc r") (simp_all add: foreign_receipt rbind_def split: sum.split)
qed simp

section \<open>Calls within calls\<close>

text \<open>
  The receipts of a transaction whose calls each end with return data: single receipts, and calls
  with what happens inside them.
\<close>

datatype trace = Single_Receipt receipt | Call_Trace bytes bytes "64 word" bytes "64 word" "64 word" "trace list" bytes

fun receipts_of :: "trace \<Rightarrow> receipt list" where
  "receipts_of (Single_Receipt r) = [r]"
| "receipts_of (Call_Trace c to a s g p ts data) = RCall c to a s g p # concat (map receipts_of ts) @ [RReturnData to data]"

fun no_calls :: "receipt \<Rightarrow> bool" where
  "no_calls (RCall c to a s g p) = False"
| "no_calls (RReturn i v pc js) = False"
| "no_calls (RReturnData i d) = False"
| "no_calls _ = True"

fun well_formed :: "trace \<Rightarrow> bool" where
  "well_formed (Single_Receipt r) = no_calls r"
| "well_formed (Call_Trace c to a s g p ts data) = list_all well_formed ts"

text \<open>The specification: the return data of a call is decoded with that call's selector.\<close>

fun expected :: "('v, 'c) runtime \<Rightarrow> (string \<Rightarrow> bytes) \<Rightarrow> handler_code \<Rightarrow> trace \<Rightarrow> 'v decoders \<Rightarrow> ('v decoders, unit) result"
  and expected_all :: "('v, 'c) runtime \<Rightarrow> (string \<Rightarrow> bytes) \<Rightarrow> handler_code \<Rightarrow> trace list \<Rightarrow> 'v decoders \<Rightarrow> ('v decoders, unit) result" where
  "expected rt sha hc (Single_Receipt r) dec = run_receipts rt sha hc dec [r]"
| "expected rt sha hc (Call_Trace c to a s g p ts data) dec =
     rbind (decode_native rt sha hc (NCall c to a s g (selector_to_fn_name hc p)) dec) (\<lambda>dec1.
     rbind (expected_all rt sha hc ts dec1) (\<lambda>dec2.
     decode_return_type rt hc p data dec2))"
| "expected_all rt sha hc [] dec = Inr dec"
| "expected_all rt sha hc (t # ts) dec = rbind (expected rt sha hc t dec) (\<lambda>dec'. expected_all rt sha hc ts dec')"

fun callees_of :: "trace \<Rightarrow> bytes set" where
  "callees_of (Single_Receipt r) = {}"
| "callees_of (Call_Trace c to a s g p ts data) = insert to (\<Union>t \<in> set ts. callees_of t)"

lemma rbind_assoc: "rbind (rbind r f) g = rbind r (\<lambda>x. rbind (f x) g)"
  by (cases r) auto

lemma no_calls_state:
  assumes "no_calls r"
  shows "handle_receipt rt sha hc \<lparr>lp_decoder = dec, lp_return_types = rts, lp_callees = cs\<rparr> r
    = rbind (run_receipts rt sha hc dec [r]) (\<lambda>dec'. Inr \<lparr>lp_decoder = dec', lp_return_types = rts, lp_callees = cs\<rparr>)"
  using assms
  by (cases r) (auto simp: run_receipts_def if_subscribed_def on_decoder_def handle_message_def Let_def rbind_assoc
      intro!: arg_cong2 [where f = rbind] ext)


text \<open>A trace leaves the stack of selectors as it was.\<close>

definition balanced :: "('v, 'c) runtime \<Rightarrow> (string \<Rightarrow> bytes) \<Rightarrow> handler_code \<Rightarrow> receipt list
    \<Rightarrow> ('v decoders \<Rightarrow> ('v decoders, unit) result) \<Rightarrow> bytes set \<Rightarrow> bool" where
  "balanced rt sha hc rs f callees \<longleftrightarrow> (\<forall>dec rts cs.
     foldM (handle_receipt rt sha hc) \<lparr>lp_decoder = dec, lp_return_types = rts, lp_callees = cs\<rparr> rs
     = rbind (f dec) (\<lambda>dec'. Inr \<lparr>lp_decoder = dec', lp_return_types = rts, lp_callees = cs \<union> callees\<rparr>))"

lemma balanced_all:
  assumes "\<forall>t \<in> set ts. balanced rt sha hc (receipts_of t) (expected rt sha hc t) (callees_of t)"
  shows "balanced rt sha hc (concat (map receipts_of ts)) (expected_all rt sha hc ts) (\<Union>t \<in> set ts. callees_of t)"
  using assms
proof (induction ts)
  case (Cons t ts)
  then have "balanced rt sha hc (receipts_of t) (expected rt sha hc t) (callees_of t)"
    "balanced rt sha hc (concat (map receipts_of ts)) (expected_all rt sha hc ts) (\<Union>t \<in> set ts. callees_of t)" by simp_all
  then show ?case by (simp add: balanced_def foldM_append rbind_assoc Un_assoc)
qed (simp add: balanced_def)

lemma trace_balanced:
  assumes "hc_contracts hc = Single None"
  shows "well_formed t \<Longrightarrow> balanced rt sha hc (receipts_of t) (expected rt sha hc t) (callees_of t)"
proof (induction t)
  case (Single_Receipt r)
  then show ?case by (simp add: balanced_def no_calls_state rbind_assoc)
next
  case (Call_Trace c to a s g p ts data)
  then have "balanced rt sha hc (concat (map receipts_of ts)) (expected_all rt sha hc ts) (\<Union>t \<in> set ts. callees_of t)"
    by (intro balanced_all) (simp add: list_all_iff)
  then show ?case
    using assms by (simp add: balanced_def foldM_append rbind_assoc if_subscribed_def subscribed_def handle_call_def
        handle_return_data_def on_decoder_def)
qed

section \<open>Properties of transactions\<close>


text \<open>
  C7: return data is decoded with the selector of the call that it ends, in calls that call each other
  to any depth, for an indexer of all contracts, when each call ends with return data: the stack
  of selectors implements the recursive specification \<open>expected\<close>.
\<close>

theorem return_data_matches_calls:
  assumes "hc_contracts hc = Single None" "list_all well_formed ts"
  shows "run_receipts rt sha hc dec (concat (map receipts_of ts)) = expected_all rt sha hc ts dec"
proof -
  have "balanced rt sha hc (concat (map receipts_of ts)) (expected_all rt sha hc ts) (\<Union>t \<in> set ts. callees_of t)"
    using assms trace_balanced [OF assms(1)] by (intro balanced_all) (auto simp: list_all_iff)
  then show ?thesis
    by (simp add: balanced_def run_receipts_def rbind_assoc) (simp add: rbind_def split: sum.split)
qed

text \<open>
  A call that ends with a plain return leaves its selector behind: when one contract calls
  another whose function returns no data, the data that the outer call returns is decoded with the
  selector of the inner one.
\<close>

theorem plain_return_leaves_selector:
  assumes "hc_contracts hc = Single None"
  shows "run_receipts rt sha hc dec [RCall script a amount asset gas outer, RCall a b amount' asset' gas' inner,
      RReturn b val pc js, RReturnData a data]
    = rbind (decode_native rt sha hc (NCall script a amount asset gas (selector_to_fn_name hc outer)) dec) (\<lambda>dec1.
      rbind (decode_native rt sha hc (NCall a b amount' asset' gas' (selector_to_fn_name hc inner)) dec1) (\<lambda>dec2.
      rbind (decode_native rt sha hc (NReturn b val pc js) dec2) (decode_return_type rt hc inner data)))"
  using assms
  by (simp add: run_receipts_def rbind_assoc if_subscribed_def subscribed_def handle_call_def handle_return_data_def on_decoder_def)
    (simp add: rbind_def split: sum.split)


section \<open>Calls of handlers\<close>

lemma dispatch_grows:
  assumes "grows dec dec'"
  shows "subseq (dispatch hc dec) (dispatch hc dec')"
proof -
  have "subseq (concat (map (\<lambda>(f, names). if \<forall>n \<in> set names. dec n \<noteq> [] then [CallHandler f (map (\<lambda>n. hd (dec n)) names)] else []) ds))
      (concat (map (\<lambda>(f, names). if \<forall>n \<in> set names. dec' n \<noteq> [] then [CallHandler f (map (\<lambda>n. hd (dec' n)) names)] else []) ds))" for ds
  proof (induction ds)
    case (Cons d ds)
    obtain f names where d: "d = (f, names)" by (cases d)
    have same: "dec' n \<noteq> [] \<and> hd (dec' n) = hd (dec n)" if "dec n \<noteq> []" for n
    proof -
      from assms have "prefix (dec n) (dec' n)" by (simp add: grows_def)
      with that show ?thesis by (auto elim!: prefixE)
    qed
    show ?case
    proof (cases "\<forall>n \<in> set names. dec n \<noteq> []")
      case True
      with same have "\<forall>n \<in> set names. dec' n \<noteq> []" "map (\<lambda>n. hd (dec' n)) names = map (\<lambda>n. hd (dec n)) names" by auto
      with True Cons d show ?thesis by simp
    next
      case False
      with Cons d show ?thesis by (auto intro: list_emb_append2)
    qed
  qed simp
  then show ?thesis by (simp add: dispatch_def)
qed

lemma run_block_Inr:
  assumes "run_block rt sha hc b = (acts, Inr ())" "\<not> skipped hc b"
  obtains dec decs where "decode_native rt sha hc (NBlockData b) (\<lambda>_. []) = Inr dec"
    and "length decs = length (bk_transactions b)" "sorted_wrt grows (dec # decs)"
    and "acts = concat (map (dispatch hc) decs) @ [SaveMetadata (bk_height b) (bk_time b)]"
proof -
  from assms obtain dec acts' where dec: "decode_native rt sha hc (NBlockData b) (\<lambda>_. []) = Inr dec"
    and run: "run_transactions rt sha hc dec (bk_transactions b) = (acts', Inr ())"
    and acts: "acts = acts' @ [SaveMetadata (bk_height b) (bk_time b)]"
    by (auto simp: run_block_def split: sum.splits prod.splits)
  from growing.run_transactions [OF run] dec acts that show thesis by blast
qed

lemma dispatch_no_metadata: "SaveMetadata h t \<notin> set (dispatch hc dec)"
  by (auto simp: dispatch_def split: if_splits)

fun is_metadata :: "'v action \<Rightarrow> bool" where
  "is_metadata (SaveMetadata h t) = True"
| "is_metadata (CallHandler f args) = False"

lemma no_metadata: "(\<forall>h t. SaveMetadata h t \<notin> set acts) \<Longrightarrow> filter is_metadata acts = []"
  by (auto simp: filter_empty_conv elim: is_metadata.elims)

lemma run_transactions_metadata: "run_transactions rt sha hc dec txs = (acts, r) \<Longrightarrow> filter is_metadata acts = []"
proof (induction txs arbitrary: dec acts)
  case (Cons tx txs)
  then show ?case
    by (auto simp: dispatch_no_metadata no_metadata split: sum.splits prod.splits)
qed simp

lemma run_block_metadata:
  "run_block rt sha hc b = (acts, r) \<Longrightarrow> filter is_metadata acts
    = (if r = Inr () \<and> \<not> skipped hc b then [SaveMetadata (bk_height b) (bk_time b)] else [])"
  by (auto simp: run_block_def split: sum.splits prod.splits if_splits dest: run_transactions_metadata)




fun calls_of :: "string \<Rightarrow> 'v action \<Rightarrow> bool" where
  "calls_of f (CallHandler g args) = (g = f)"
| "calls_of f (SaveMetadata h t) = False"

lemma dispatch_of:
  assumes "distinct (map fst (hc_dispatchers hc))" "(f, names) \<in> set (hc_dispatchers hc)"
  shows "filter (calls_of f) (dispatch hc dec)
    = (if \<forall>n \<in> set names. dec n \<noteq> [] then [CallHandler f (map (\<lambda>n. hd (dec n)) names)] else [])"
proof -
  let ?call = "\<lambda>(f, names). if \<forall>n \<in> set names. dec n \<noteq> [] then [CallHandler f (map (\<lambda>n. hd (dec n)) names)] else []"
  have none: "filter (calls_of f) (concat (map ?call ds)) = []" if "f \<notin> fst ` set ds" for ds
    using that by (induction ds) (auto split: if_splits)
  have "filter (calls_of f) (concat (map ?call ds)) = ?call (f, names)"
    if "distinct (map fst ds)" "(f, names) \<in> set ds" for ds
    using that
  proof (induction ds)
    case (Cons d ds)
    show ?case
    proof (cases "d = (f, names)")
      case True
      with Cons.prems none [of ds] show ?thesis by auto
    next
      case False
      with Cons.prems have "(f, names) \<in> set ds" by auto
      then have "f \<in> fst ` set ds" by (metis fst_conv image_eqI)
      with Cons.prems(1) have "fst d \<noteq> f" by auto
      then have "filter (calls_of f) (?call d) = []" by (cases d) auto
      with Cons.IH Cons.prems \<open>(f, names) \<in> set ds\<close> show ?thesis by simp
    qed
  qed simp
  with assms show ?thesis by (simp add: dispatch_def)
qed

lemma blockdata: "native_field ''BlockData'' = ''blockdata_decoded''" "native_token ''BlockData'' = ''BlockData''"
  by code_simp+

text \<open>
  A handler of blocks is called once for each transaction of a block, always with that block: not
  once for each block. A block without transactions is never handed to it.
\<close>

theorem block_handlers_run_per_transaction:
  assumes "process_fn_items sha selector_of m abi content = (Inr hc :: (handler_code, 'e) result)"
    and "inj_on (native_type_id sha) (set fuel_primitives)"
    and "rt_unbincode rt ''BlockData'' (rt_bincode rt (NBlockData b)) = Some (NBlockData b)"
    and "(f, [''blockdata_decoded'']) \<in> set (hc_dispatchers hc)" "distinct (map fst (hc_dispatchers hc))"
    and "run_block rt sha hc b = (acts, Inr ())" "\<not> skipped hc b"
  shows "filter (calls_of f) acts = replicate (length (bk_transactions b)) (CallHandler f [Native (NBlockData b)])"
proof -
  from assms(6,7) obtain dec decs where dec: "decode_native rt sha hc (NBlockData b) (\<lambda>_. []) = Inr dec"
    and decs: "length decs = length (bk_transactions b)" "sorted_wrt grows (dec # decs)"
    and acts: "acts = concat (map (dispatch hc) decs) @ [SaveMetadata (bk_height b) (bk_time b)]" by (rule run_block_Inr)
  from decode_native_push [OF assms(1,2), of rt "NBlockData b" "\<lambda>_. []"] assms(3) dec
  have "dec ''blockdata_decoded'' = [Native (NBlockData b)]" by (simp add: blockdata push_def)
  have "filter (calls_of f) (dispatch hc d) = [CallHandler f [Native (NBlockData b)]]" if "d \<in> set decs" for d
  proof -
    from that decs(2) have "prefix (dec ''blockdata_decoded'') (d ''blockdata_decoded'')" by (simp add: grows_def)
    with \<open>dec _ = _\<close> have "d ''blockdata_decoded'' \<noteq> [] \<and> hd (d ''blockdata_decoded'') = Native (NBlockData b)"
      by (auto elim!: prefixE)
    with dispatch_of [OF assms(5,4), of d] show ?thesis by simp
  qed
  then have "filter (calls_of f) (concat (map (dispatch hc) decs)) = concat (map (\<lambda>d. [CallHandler f [Native (NBlockData b)]]) decs)"
    unfolding filter_concat map_map o_def by (intro arg_cong [where f = concat] map_cong) auto
  with acts decs(1) show ?thesis by (simp add: map_replicate_const concat_map_singleton)
qed

section \<open>Arguments have fields\<close>

lemma decoded_ident_Inr: "decoded_ident s = Inr n \<Longrightarrow> n = native_field s \<and> list_all ident_char n"
  by (auto simp: decoded_ident_def make_ident_def native_field_def split: if_splits)

lemma namespaced_no_ident: "\<not> list_all ident_char (native_field (''abi :: '' @ s))"
  by (simp add: native_field_def to_lowercase_def lower_char_def ident_char_def Let_def)

lemma abi_arm_field:
  assumes "abi_arm typ = (Inr (name, t, i, a) :: (_, 'e) result)" "\<not> is_non_decodable_type typ"
    and "td_components typ = None \<longrightarrow> take 4 (td_type_field typ) \<noteq> ''str[''"
    and "decoded_ident t = (Inr n :: (string, 'e) result)"
  shows "name = n"
proof -
  from assms(1) have ident: "rust_type_ident typ = (Inr name :: (string, 'e) result)"
    and token: "rust_type_token typ = (Inr t :: (string, 'e) result)" and fuel: "\<not> is_fuel_primitive t"
    by (auto simp: abi_arm_def typed_arm_def split: if_splits)
  note n = decoded_ident_Inr [OF assms(4)]
  show ?thesis
  proof (cases "td_components typ")
    case None
    let ?s = "td_type_field typ"
    from ident None have name: "name = native_field (map (\<lambda>c. if c = CHR ''['' \<or> c = CHR '']'' then CHR ''_'' else c) ?s)"
      by (auto simp: rust_type_ident_def dest: decoded_ident_Inr)
    have generic: "?s \<notin> {''()'', ''generic T'', ''raw untyped ptr''}"
      using assms(2) by (auto simp: is_non_decodable_type_def generic_types_def is_ignored_type_def is_tuple_type_def split: if_splits)
    have namespaced: "t \<noteq> ''abi :: '' @ ?s" using n namespaced_no_ident by auto
    from token None generic assms(3) namespaced
    have "?s = ''b256'' \<and> t = ''B256'' \<or> ?s \<in> {''bool'', ''u16'', ''u32'', ''u64'', ''u8'', ''BlockData''} \<and> t = ?s"
      unfolding rust_type_token_def Let_def by (simp split: if_splits)
    moreover have "native_field ''b256'' = native_field ''B256''" by code_simp
    ultimately show ?thesis using name n by (elim disjE conjE) auto
  next
    case (Some cs)
    with token have "t = derive_type_field typ" by (auto simp: rust_type_token_def make_ident_def derive_type_field_def Let_def split: if_splits)
    moreover from ident Some have "name = native_field (derive_type_field typ)"
      by (auto simp: rust_type_ident_def split: if_splits dest: decoded_ident_Inr)
    ultimately show ?thesis using n by simp
  qed
qed

lemma dispatcher_fields:
  assumes "dispatcher names0 item = (Inr (f, names) :: (_, 'e) result)" "n \<in> set names"
  shows "\<exists>s \<in> names0. decoded_ident s = (Inr n :: (string, 'e) result)"
proof -
  from assms(1) obtain inputs where "mapM (input_field names0) inputs = (Inr names :: (string list, 'e) result)"
    by (auto simp: dispatcher_def split: module_item.splits)
  with assms(2) obtain inp where "input_field names0 inp = (Inr n :: (string, 'e) result)"
    by (auto simp: mapM_Inr_iff list_all2_conv_all_nth in_set_conv_nth)
  then show ?thesis by (auto simp: input_field_def split: fn_arg.splits if_splits)
qed

text \<open>
  C35: the handlers that the macro accepts read fields that it declares: each argument of a dispatched
  handler is a field of the struct of decoders, unless the ABI has a string type. The field of
  \<^verbatim>\<open>str[4]\<close> is \<^verbatim>\<open>str_4__decoded\<close>, while an argument of type \<^verbatim>\<open>String\<close> reads \<^verbatim>\<open>string_decoded\<close>.
\<close>

theorem arguments_have_fields:
  assumes "process_fn_items sha selector_of m abi content = (Inr hc :: (handler_code, 'e) result)"
    and "\<forall>a typ. abi = Some a \<longrightarrow> typ \<in> set (pa_types a) \<longrightarrow> td_components typ = None \<longrightarrow> take 4 (td_type_field typ) \<noteq> ''str[''"
    and "(f, names) \<in> set (hc_dispatchers hc)"
  shows "set names \<subseteq> set (hc_fields hc)"
proof
  fix n assume n: "n \<in> set names"
  from assms(1) obtain a abi_arms items where
    arms: "mapM abi_arm (filter (\<lambda>typ. \<not> is_non_decodable_type typ) (pa_types a)) = (Inr abi_arms :: (_, 'e) result)"
    and a: "a = (case abi of None \<Rightarrow> empty_abi | Some a \<Rightarrow> a)"
    and fields: "hc_fields hc = map fst abi_arms @ map native_field fuel_primitives"
    and disp: "mapM (dispatcher (set fuel_primitives \<union> (\<lambda>(_, t, _). t) ` set abi_arms \<union> native_token ` set fuel_primitives)) items
        = (Inr (hc_dispatchers hc) :: (_, 'e) result)" by (rule process_fn_items_Inr)
  from disp assms(3) obtain item where "dispatcher (set fuel_primitives \<union> (\<lambda>(_, t, _). t) ` set abi_arms \<union> native_token ` set fuel_primitives) item
      = (Inr (f, names) :: (_, 'e) result)"
    by (auto simp: mapM_Inr_iff list_all2_conv_all_nth in_set_conv_nth)
  from dispatcher_fields [OF this n] obtain s where s: "s \<in> set fuel_primitives \<union> (\<lambda>(_, t, _). t) ` set abi_arms \<union> native_token ` set fuel_primitives"
    "decoded_ident s = (Inr n :: (string, 'e) result)" by blast
  note ns = decoded_ident_Inr [OF s(2)]
  from s(1) show "n \<in> set (hc_fields hc)"
  proof (elim UnE)
    assume "s \<in> set fuel_primitives"
    with ns fields show ?thesis by simp
  next
    assume "s \<in> native_token ` set fuel_primitives"
    with ns namespaced_no_ident have "s = ''BlockData''" by (auto simp: native_token_def split: if_splits)
    with ns fields show ?thesis by (simp add: fuel_primitives_def)
  next
    assume "s \<in> (\<lambda>(_, t, _). t) ` set abi_arms"
    then obtain name i ar where mem: "(name, s, i, ar) \<in> set abi_arms" by auto
    with arms obtain ty where ty: "ty \<in> set (filter (\<lambda>t. \<not> is_non_decodable_type t) (pa_types a))"
      "abi_arm ty = (Inr (name, s, i, ar) :: (_, 'e) result)"
      unfolding mapM_Inr_iff list_all2_conv_all_nth in_set_conv_nth by metis
    have "td_components ty = None \<longrightarrow> take 4 (td_type_field ty) \<noteq> ''str[''"
      using assms(2) ty(1) a by (auto simp: empty_abi_def split: option.splits)
    from abi_arm_field [OF ty(2) _ this s(2)] ty(1) mem fields show ?thesis by force
  qed
qed


section \<open>Examples\<close>

text \<open>An indexer of all contracts with one handler of blocks and one of calls.\<close>

definition demo_items :: "module_item list" where
  "demo_items = [FnItem ''on_block'' [PathType [''BlockData'']], FnItem ''on_call'' [PathType [''abi'', ''Call'']]]"

definition demo_manifest :: manifest where
  "demo_manifest = \<lparr>mf_namespace = ''ns'', mf_abi = None, mf_identifier = ''idx'', mf_fuel_client = None, mf_graphql_schema = ''s'',
     mf_module = WasmModule ''m'', mf_metrics = None, mf_contract_id = Single None, mf_start_block = Some 2, mf_resumable = None\<rparr>"

definition demo_block :: "64 word \<Rightarrow> transaction_data list \<Rightarrow> block_data" where
  "demo_block h txs = \<lparr>bk_height = h, bk_id = [], bk_producer = None, bk_time = 9, bk_transactions = txs\<rparr>"

definition empty_transaction :: transaction_data where
  "empty_transaction = \<lparr>tx_transaction = [], tx_status = TsSqueezedOut [], tx_receipts = [], tx_id = []\<rparr>"

definition demo_runtime :: "native_value \<Rightarrow> (nat, bytes) runtime" where
  "demo_runtime v = \<lparr>rt_bincode = (\<lambda>_. []), rt_unbincode = (\<lambda>_ _. Some v), rt_unbincode_blocks = (\<lambda>_. None),
     rt_decode = (\<lambda>_ _. None), rt_parse_contract = (\<lambda>c. Some (map (\<lambda>x. of_nat (of_char x)) c)), rt_contract = id, rt_sha = id\<rparr>"

lemma native_ids: "inj_on (native_type_id last_bytes) (set fuel_primitives)"
proof -
  have "distinct (map (native_type_id last_bytes) fuel_primitives)"
    by (simp add: fuel_primitives_def native_type_id_def type_id_def last_bytes_def from_le_bytes_def)
  then show ?thesis by (simp only: distinct_map)
qed

lemma demo_code:
  obtains hc where "process_fn_items last_bytes (\<lambda>_ _. None) demo_manifest None (Some demo_items) = (Inr hc :: (handler_code, unit) result)"
    and "hc_dispatchers hc = [(''on_block'', [''blockdata_decoded'']), (''on_call'', [''call_decoded''])]"
    and "hc_start_block hc = Some 2" "hc_contracts hc = Single None"
proof -
  have idents: "decoded_ident ''BlockData'' = (Inr ''blockdata_decoded'' :: (string, unit) result)"
    "decoded_ident ''Call'' = (Inr ''call_decoded'' :: (string, unit) result)"
    by code_simp+
  have "\<exists>hc. process_fn_items last_bytes (\<lambda>_ _. None) demo_manifest None (Some demo_items) = (Inr hc :: (handler_code, unit) result)
    \<and> hc_dispatchers hc = [(''on_block'', [''blockdata_decoded'']), (''on_call'', [''call_decoded''])]
    \<and> hc_start_block hc = Some 2 \<and> hc_contracts hc = Single None"
    by (simp add: process_fn_items_def empty_abi_def demo_items_def fuel_arms dispatcher_def input_field_def idents
      fuel_primitives_def demo_manifest_def)
  then show thesis using that by blast
qed

lemma arguments_have_fields_witness:
  "\<exists>hc. process_fn_items last_bytes (\<lambda>_ _. None) demo_manifest None (Some demo_items) = (Inr hc :: (handler_code, unit) result)
    \<and> {''call_decoded''} \<subseteq> set (hc_fields hc)"
proof -
  obtain hc where hc: "process_fn_items last_bytes (\<lambda>_ _. None) demo_manifest None (Some demo_items) = (Inr hc :: (handler_code, unit) result)"
    "hc_dispatchers hc = [(''on_block'', [''blockdata_decoded'']), (''on_call'', [''call_decoded''])]" by (rule demo_code)
  from arguments_have_fields [OF hc(1), of "''on_call''" "[''call_decoded'']"] hc show ?thesis by auto
qed

lemma demo_run:
  assumes "process_fn_items last_bytes (\<lambda>_ _. None) demo_manifest None (Some demo_items) = (Inr hc :: (handler_code, unit) result)"
    and "hc_start_block hc = Some 2"
  shows "\<exists>acts. run_block (demo_runtime (NBlockData (demo_block 5 [empty_transaction, empty_transaction]))) last_bytes hc
      (demo_block 5 [empty_transaction, empty_transaction]) = (acts, Inr ())"
    and "\<not> skipped hc (demo_block 5 [empty_transaction, empty_transaction])"
proof -
  let ?b = "demo_block 5 [empty_transaction, empty_transaction]"
  show live: "\<not> skipped hc ?b" using assms(2) by (simp add: skipped_def demo_block_def)
  from decode_native_push [OF assms(1) native_ids, of "demo_runtime (NBlockData ?b)" "NBlockData ?b" "\<lambda>_. []"] live
  show "\<exists>acts. run_block (demo_runtime (NBlockData ?b)) last_bytes hc ?b = (acts, Inr ())"
    by (simp add: demo_runtime_def run_block_def run_receipts_def demo_block_def empty_transaction_def)
qed


lemma block_handlers_run_per_transaction_witness:
  "\<exists>hc acts. process_fn_items last_bytes (\<lambda>_ _. None) demo_manifest None (Some demo_items) = (Inr hc :: (handler_code, unit) result)
    \<and> run_block (demo_runtime (NBlockData (demo_block 5 [empty_transaction, empty_transaction]))) last_bytes hc
        (demo_block 5 [empty_transaction, empty_transaction]) = (acts, Inr ())
    \<and> length (filter (calls_of ''on_block'') acts) = 2"
proof -
  let ?b = "demo_block 5 [empty_transaction, empty_transaction]"
  obtain hc where hc: "process_fn_items last_bytes (\<lambda>_ _. None) demo_manifest None (Some demo_items) = (Inr hc :: (handler_code, unit) result)"
    "hc_dispatchers hc = [(''on_block'', [''blockdata_decoded'']), (''on_call'', [''call_decoded''])]"
    "hc_start_block hc = Some 2" by (rule demo_code)
  from demo_run(1) [OF hc(1,3)] obtain acts where run: "run_block (demo_runtime (NBlockData ?b)) last_bytes hc ?b = (acts, Inr ())" by blast
  have "filter (calls_of ''on_block'') acts = replicate (length (bk_transactions ?b)) (CallHandler ''on_block'' [Native (NBlockData ?b)])"
    by (rule block_handlers_run_per_transaction [OF hc(1) native_ids _ _ _ run demo_run(2) [OF hc(1,3)]])
      (simp_all add: demo_runtime_def hc(2))
  with hc(1) run show ?thesis by (auto simp: demo_block_def)
qed


definition open_code :: handler_code where
  "open_code = \<lparr>hc_arms = [(7, DecodeAbi ''u'' ''u_decoded'')], hc_fields = [''u_decoded''], hc_selectors = [(1, 7), (2, 8)], hc_fn_names = [],
     hc_log_types = [], hc_messages = [], hc_start_block = None, hc_contracts = Single None, hc_dispatchers = []\<rparr>"

lemma return_data_matches_calls_witness:
  "run_receipts (demo_runtime (NLog [] 0 0)) last_bytes open_code (\<lambda>_. [])
     [RCall [1] [2] 0 [] 0 1, RCall [2] [3] 0 [] 0 2, RReturnData [3] [5], RReturnData [2] [6]]
   = expected_all (demo_runtime (NLog [] 0 0)) last_bytes open_code [Call_Trace [1] [2] 0 [] 0 1 [Call_Trace [2] [3] 0 [] 0 2 [] [5]] [6]] (\<lambda>_. [])"
  using return_data_matches_calls [of open_code "[Call_Trace [1] [2] 0 [] 0 1 [Call_Trace [2] [3] 0 [] 0 2 [] [5]] [6]]"]
  by (simp add: open_code_def)

lemma plain_return_leaves_selector_witness:
  "run_receipts (demo_runtime (NLog [] 0 0)) last_bytes open_code (\<lambda>_. []) [RCall [1] [2] 0 [] 0 1, RCall [2] [3] 0 [] 0 2,
      RReturn [3] 0 0 0, RReturnData [2] [6]] = Inr (\<lambda>_. [])"
proof -
  have "native_type_id last_bytes x \<noteq> 7" if "x \<in> {''Call'', ''Return''}" for x
    using that by (auto simp: native_type_id_def type_id_def last_bytes_def from_le_bytes_def)
  then have "decode_native (demo_runtime (NLog [] 0 0)) last_bytes open_code v dec = Inr dec" if "native_name v \<in> {''Call'', ''Return''}" for v dec
    using that by (auto simp: decode_native_def decode_type_def open_code_def)
  moreover have "hc_contracts open_code = Single None" by (simp add: open_code_def)
  ultimately show ?thesis
    by (simp add: plain_return_leaves_selector) (simp add: decode_return_type_def selector_to_type_id_def open_code_def decode_type_def)
qed

end
