(* ===== verification/Config.thy ===== *)
theory Config
  imports Api_Laws
begin

text \<open>
  \<^verbatim>\<open>fuel-indexer-lib/src/config\<close> and parts of \<^verbatim>\<open>utils.rs\<close>: the configuration of the service, from the
  command line or from a YAML file, with settings that name environment variables replaced by
  their values; and the attempts to connect to the database. The environment, the parsed YAML document
  and the answers of the database are arguments. Texts are ASCII.
\<close>

section \<open>Environment variables (utils.rs)\<close>

datatype config_error = EnvVarParseError string

type_synonym environment_vars = "string \<Rightarrow> string option"

definition starts_with :: "string \<Rightarrow> string \<Rightarrow> bool" where
  "starts_with p s \<longleftrightarrow> take (length p) s = p"

definition ends_with :: "string \<Rightarrow> string \<Rightarrow> bool" where
  "ends_with p s \<longleftrightarrow> length p \<le> length s \<and> drop (length s - length p) s = p"

definition is_opt_env_var :: "string \<Rightarrow> bool" where
  "is_opt_env_var key \<longleftrightarrow> starts_with ''$'' key \<or> starts_with ''${'' key \<and> ends_with ''}'' key"

text \<open>Slicing a string beyond its bounds panics.\<close>

definition slice :: "nat \<Rightarrow> nat \<Rightarrow> string \<Rightarrow> (string, 'e) result" where
  "slice a b s = (if a \<le> b \<and> b \<le> length s then Inr (take (b - a) (drop a s)) else Inl (Panic ''slice''))"

definition trim_opt_env_key :: "string \<Rightarrow> (string, 'e) result" where
  "trim_opt_env_key key =
     (if starts_with ''${'' key then slice 2 (length key - 1) key else slice 1 (length key) key)"

definition env_var :: "environment_vars \<Rightarrow> string \<Rightarrow> (string, config_error) result" where
  "env_var env k = ok_or (env k) (EnvVarParseError k)"

definition env_or_default :: "environment_vars \<Rightarrow> string \<Rightarrow> string \<Rightarrow> string" where
  "env_or_default env var dflt = (case env var of Some v \<Rightarrow> v | None \<Rightarrow> dflt)"

definition inject :: "environment_vars \<Rightarrow> string \<Rightarrow> (string, config_error) result" where
  "inject env s = (if is_opt_env_var s then rbind (trim_opt_env_key s) (env_var env) else Inr s)"

section \<open>The configuration\<close>

record fuel_node_config =
  fn_host :: string
  fn_port :: string

record graphql_config =
  gc_host :: string
  gc_port :: string
  gc_max_body_size :: nat

record database_config =
  dc_user :: string
  dc_password :: string
  dc_host :: string
  dc_port :: string
  dc_database :: string
  dc_verbose :: string

record indexer_config =
  ic_verbose :: bool
  ic_local_fuel_node :: bool
  ic_indexer_net_config :: bool
  ic_fuel_node :: fuel_node_config
  ic_graphql_api :: graphql_config
  ic_database :: database_config
  ic_metrics :: bool
  ic_stop_idle_indexers :: bool
  ic_run_migrations :: bool
  ic_authentication :: authentication_config

definition fuel_node_default :: fuel_node_config where
  "fuel_node_default = \<lparr>fn_host = ''localhost'', fn_port = ''4000''\<rparr>"

definition graphql_default :: graphql_config where
  "graphql_default = \<lparr>gc_host = ''localhost'', gc_port = ''29987'', gc_max_body_size = 5242880\<rparr>"

definition database_default :: database_config where
  "database_default = \<lparr>dc_user = ''postgres'', dc_password = ''postgres'', dc_host = ''localhost'',
     dc_port = ''5432'', dc_database = ''postgres'', dc_verbose = ''false''\<rparr>"

definition authentication_default :: authentication_config where
  "authentication_default = \<lparr>au_enabled = False, au_strategy = None, au_jwt_secret = None, au_jwt_issuer = None, au_jwt_expiry = None\<rparr>"

definition config_default :: indexer_config where
  "config_default = \<lparr>ic_verbose = False, ic_local_fuel_node = False, ic_indexer_net_config = False,
     ic_fuel_node = fuel_node_default, ic_graphql_api = graphql_default, ic_database = database_default,
     ic_metrics = False, ic_stop_idle_indexers = False, ic_run_migrations = False,
     ic_authentication = authentication_default\<rparr>"

definition inject_fuel_node :: "environment_vars \<Rightarrow> fuel_node_config \<Rightarrow> (fuel_node_config, config_error) result" where
  "inject_fuel_node env c =
     rbind (inject env (fn_host c)) (\<lambda>h. rbind (inject env (fn_port c)) (\<lambda>p. Inr \<lparr>fn_host = h, fn_port = p\<rparr>))"

definition inject_database :: "environment_vars \<Rightarrow> database_config \<Rightarrow> (database_config, config_error) result" where
  "inject_database env c =
     rbind (inject env (dc_user c)) (\<lambda>u. rbind (inject env (dc_password c)) (\<lambda>pw.
     rbind (inject env (dc_host c)) (\<lambda>h. rbind (inject env (dc_port c)) (\<lambda>p.
     rbind (inject env (dc_database c)) (\<lambda>d.
     Inr (c\<lparr>dc_user := u, dc_password := pw, dc_host := h, dc_port := p, dc_database := d\<rparr>))))))"

definition inject_graphql :: "environment_vars \<Rightarrow> graphql_config \<Rightarrow> (graphql_config, config_error) result" where
  "inject_graphql env c =
     rbind (inject env (gc_host c)) (\<lambda>h. rbind (inject env (gc_port c)) (\<lambda>p. Inr (c\<lparr>gc_host := h, gc_port := p\<rparr>)))"

text \<open>\<^verbatim>\<open>IndexerConfig::inject_opt_env_vars\<close>.\<close>

definition inject_opt_env_vars :: "environment_vars \<Rightarrow> indexer_config \<Rightarrow> (indexer_config, config_error) result" where
  "inject_opt_env_vars env c =
     rbind (inject_fuel_node env (ic_fuel_node c)) (\<lambda>f.
     rbind (inject_database env (ic_database c)) (\<lambda>d.
     rbind (inject_graphql env (ic_graphql_api c)) (\<lambda>g.
     Inr (c\<lparr>ic_fuel_node := f, ic_database := d, ic_graphql_api := g\<rparr>))))"

text \<open>\<^verbatim>\<open>AuthenticationConfig::inject_opt_env_vars\<close>, which the method above does not call.\<close>

definition strategy_from_str :: "string \<Rightarrow> authentication_strategy option" where
  "strategy_from_str s = (if to_lowercase s = ''jwt'' then Some JWT else None)"

definition unwrap :: "'a option \<Rightarrow> ('a, 'e) result" where
  "unwrap x = expect x ''called unwrap on a None value''"

definition inject_authentication ::
    "environment_vars \<Rightarrow> authentication_config \<Rightarrow> (authentication_config, config_error) result" where
  "inject_authentication env c =
     rbind (if is_opt_env_var ''JWT_SECRET''
            then rbind (trim_opt_env_key ''JWT_SECRET'') (\<lambda>k. rbind (env_var env k) (\<lambda>v.
                 rbind (unwrap (strategy_from_str v)) (\<lambda>s. Inr (c\<lparr>au_strategy := Some s\<rparr>))))
            else Inr c) (\<lambda>c1.
     if is_opt_env_var ''JWT_ISSUER''
     then rbind (trim_opt_env_key ''JWT_ISSUER'') (\<lambda>k. rbind (env_var env k) (\<lambda>v. Inr (c1\<lparr>au_jwt_issuer := Some v\<rparr>)))
     else Inr c1)"

section \<open>The connection string\<close>

definition database_url :: "database_config \<Rightarrow> string" where
  "database_url c = ''postgres://'' @ dc_user c @ '':'' @ dc_password c @ ''@'' @ dc_host c @ '':'' @ dc_port c
     @ ''/'' @ dc_database c @ ''?verbose='' @ dc_verbose c"

definition derive_http_url :: "string \<Rightarrow> string \<Rightarrow> string" where
  "derive_http_url host port =
     (if port = ''443'' \<or> port = ''4443'' then ''https'' else ''http'') @ ''://'' @ host @ '':'' @ port"

definition fuel_node_to_string :: "fuel_node_config \<Rightarrow> string" where
  "fuel_node_to_string c = fn_host c @ '':'' @ fn_port c"

definition graphql_to_string :: "graphql_config \<Rightarrow> string" where
  "graphql_to_string c = gc_host c @ '':'' @ gc_port c"

section \<open>From the command line\<close>

record indexer_args =
  ia_log_level :: string
  ia_config :: "string option"
  ia_manifest :: "string option"
  ia_fuel_node_host :: string
  ia_fuel_node_port :: string
  ia_graphql_api_host :: string
  ia_graphql_api_port :: string
  ia_database :: string
  ia_max_body_size :: nat
  ia_postgres_user :: "string option"
  ia_postgres_database :: "string option"
  ia_postgres_password :: "string option"
  ia_postgres_host :: "string option"
  ia_postgres_port :: "string option"
  ia_run_migrations :: bool
  ia_metrics :: bool
  ia_stop_idle_indexers :: bool
  ia_embedded_database :: bool
  ia_auth_enabled :: bool
  ia_auth_strategy :: "string option"
  ia_jwt_secret :: "string option"
  ia_jwt_issuer :: "string option"
  ia_jwt_expiry :: "64 word option"
  ia_verbose :: bool
  ia_local_fuel_node :: bool
  ia_indexer_net_config :: bool

text \<open>An argument of the command line, an environment variable or the default.\<close>

definition arg_or_env :: "environment_vars \<Rightarrow> string option \<Rightarrow> string \<Rightarrow> string \<Rightarrow> string" where
  "arg_or_env env arg var dflt = (case arg of Some v \<Rightarrow> v | None \<Rightarrow> env_or_default env var dflt)"

definition args_database :: "environment_vars \<Rightarrow> indexer_args \<Rightarrow> (database_config, config_error) result" where
  "args_database env a =
     (if ia_database a = ''postgres''
      then Inr \<lparr>dc_user = arg_or_env env (ia_postgres_user a) ''POSTGRES_USER'' ''postgres'',
        dc_password = arg_or_env env (ia_postgres_password a) ''POSTGRES_PASSWORD'' ''postgres'',
        dc_host = arg_or_env env (ia_postgres_host a) ''POSTGRES_HOST'' ''localhost'',
        dc_port = arg_or_env env (ia_postgres_port a) ''POSTGRES_PORT'' ''5432'',
        dc_database = arg_or_env env (ia_postgres_database a) ''POSTGRES_DATABASE'' ''postgres'',
        dc_verbose = show_bool (ia_verbose a)\<rparr>
      else Inl (Panic ''Unrecognized database type in options.''))"

definition args_authentication :: "indexer_args \<Rightarrow> (authentication_config, config_error) result" where
  "args_authentication a =
     rbind (case ia_auth_strategy a of None \<Rightarrow> Inr None
            | Some x \<Rightarrow> rbind (unwrap (strategy_from_str x)) (\<lambda>s. Inr (Some s))) (\<lambda>strategy.
     Inr \<lparr>au_enabled = ia_auth_enabled a, au_strategy = strategy, au_jwt_secret = ia_jwt_secret a,
       au_jwt_issuer = ia_jwt_issuer a, au_jwt_expiry = ia_jwt_expiry a\<rparr>)"

definition expect_injected :: "(indexer_config, config_error) result \<Rightarrow> (indexer_config, config_error) result" where
  "expect_injected r = (case r of Inl (Err _) \<Rightarrow> Inl (Panic ''Failed to inject env vars.'') | _ \<Rightarrow> r)"

definition config_from_args :: "environment_vars \<Rightarrow> indexer_args \<Rightarrow> (indexer_config, config_error) result" where
  "config_from_args env a =
     rbind (args_database env a) (\<lambda>database.
     rbind (args_authentication a) (\<lambda>authentication.
     expect_injected (inject_opt_env_vars env \<lparr>ic_verbose = ia_verbose a, ic_local_fuel_node = ia_local_fuel_node a,
       ic_indexer_net_config = ia_indexer_net_config a,
       ic_fuel_node = \<lparr>fn_host = ia_fuel_node_host a, fn_port = ia_fuel_node_port a\<rparr>,
       ic_graphql_api = \<lparr>gc_host = ia_graphql_api_host a, gc_port = ia_graphql_api_port a, gc_max_body_size = ia_max_body_size a\<rparr>,
       ic_database = database, ic_metrics = ia_metrics a, ic_stop_idle_indexers = ia_stop_idle_indexers a,
       ic_run_migrations = ia_run_migrations a, ic_authentication = authentication\<rparr>)))"

section \<open>From a file\<close>

text \<open>The values of a YAML document, and its lookup: only a mapping has entries.\<close>

datatype setting = SBool bool | SNum nat | SStr string | SMap "(string \<times> setting) list" | SOther

definition setting_get :: "string \<Rightarrow> setting \<Rightarrow> setting option" where
  "setting_get k v = (case v of SMap m \<Rightarrow> map_of m k | _ \<Rightarrow> None)"

definition as_bool :: "setting \<Rightarrow> bool option" where
  "as_bool v = (case v of SBool b \<Rightarrow> Some b | _ \<Rightarrow> None)"

definition as_str :: "setting \<Rightarrow> string option" where
  "as_str v = (case v of SStr s \<Rightarrow> Some s | _ \<Rightarrow> None)"

text \<open>A number of up to 64 bits.\<close>

definition as_u64 :: "setting \<Rightarrow> nat option" where
  "as_u64 v = (case v of SNum n \<Rightarrow> (if n < 2 ^ 64 then Some n else None) | _ \<Rightarrow> None)"

definition as_port :: "setting \<Rightarrow> string option" where
  "as_port v = map_option show_nat (as_u64 v)"

text \<open>A setting replaces a field when it is there; one of another type panics.\<close>

definition set_from :: "string \<Rightarrow> (setting \<Rightarrow> 'a option) \<Rightarrow> ('a \<Rightarrow> 'c \<Rightarrow> 'c) \<Rightarrow> setting \<Rightarrow> 'c \<Rightarrow> ('c, config_error) result" where
  "set_from k read upd section c =
     (case setting_get k section of None \<Rightarrow> Inr c | Some v \<Rightarrow> rbind (unwrap (read v)) (\<lambda>x. Inr (upd x c)))"

definition file_flags :: "setting \<Rightarrow> indexer_config \<Rightarrow> (indexer_config, config_error) result" where
  "file_flags content c =
     rbind (set_from ''metrics'' as_bool (\<lambda>b. ic_metrics_update (\<lambda>_. b)) content c) (\<lambda>c.
     rbind (set_from ''stop_idle_indexers'' as_bool (\<lambda>b. ic_stop_idle_indexers_update (\<lambda>_. b)) content c) (\<lambda>c.
     rbind (set_from ''run_migrations'' as_bool (\<lambda>b. ic_run_migrations_update (\<lambda>_. b)) content c) (\<lambda>c.
     rbind (set_from ''verbose'' as_bool (\<lambda>b. ic_verbose_update (\<lambda>_. b)) content c) (\<lambda>c.
     rbind (set_from ''local_fuel_node'' as_bool (\<lambda>b. ic_local_fuel_node_update (\<lambda>_. b)) content c) (\<lambda>c.
     set_from ''indexer_net_config'' as_bool (\<lambda>b. ic_indexer_net_config_update (\<lambda>_. b)) content c)))))"

definition file_fuel_node :: "setting \<Rightarrow> fuel_node_config \<Rightarrow> (fuel_node_config, config_error) result" where
  "file_fuel_node section c =
     rbind (set_from ''host'' as_str (\<lambda>h. fn_host_update (\<lambda>_. h)) section c) (\<lambda>c.
     set_from ''port'' as_port (\<lambda>p. fn_port_update (\<lambda>_. p)) section c)"

definition file_graphql :: "setting \<Rightarrow> graphql_config \<Rightarrow> (graphql_config, config_error) result" where
  "file_graphql section c =
     rbind (set_from ''host'' as_str (\<lambda>h. gc_host_update (\<lambda>_. h)) section c) (\<lambda>c.
     rbind (set_from ''port'' as_port (\<lambda>p. gc_port_update (\<lambda>_. p)) section c) (\<lambda>c.
     set_from ''max_body_size'' as_u64 (\<lambda>n. gc_max_body_size_update (\<lambda>_. n)) section c))"

definition file_database :: "bool \<Rightarrow> setting \<Rightarrow> (database_config, config_error) result" where
  "file_database verbose section =
     rbind (set_from ''host'' as_str (\<lambda>h. dc_host_update (\<lambda>_. h)) section database_default) (\<lambda>c.
     rbind (set_from ''port'' as_port (\<lambda>p. dc_port_update (\<lambda>_. p)) section c) (\<lambda>c.
     rbind (set_from ''user'' as_str (\<lambda>u. dc_user_update (\<lambda>_. u)) section c) (\<lambda>c.
     rbind (set_from ''password'' as_str (\<lambda>p. dc_password_update (\<lambda>_. p)) section c) (\<lambda>c.
     rbind (set_from ''database'' as_str (\<lambda>d. dc_database_update (\<lambda>_. d)) section c) (\<lambda>c.
     Inr (c\<lparr>dc_verbose := show_bool verbose\<rparr>))))))"

definition as_strategy :: "setting \<Rightarrow> authentication_strategy option" where
  "as_strategy v = (case as_str v of None \<Rightarrow> None | Some s \<Rightarrow> strategy_from_str s)"

definition file_authentication :: "setting \<Rightarrow> authentication_config \<Rightarrow> (authentication_config, config_error) result" where
  "file_authentication section c =
     rbind (set_from ''auth_enabled'' as_bool (\<lambda>b. au_enabled_update (\<lambda>_. b)) section c) (\<lambda>c.
     rbind (set_from ''auth_strategy'' as_strategy (\<lambda>s. au_strategy_update (\<lambda>_. Some s)) section c) (\<lambda>c.
     rbind (set_from ''jwt_secret'' as_str (\<lambda>s. au_jwt_secret_update (\<lambda>_. Some s)) section c) (\<lambda>c.
     set_from ''jwt_issuer'' as_str (\<lambda>s. au_jwt_issuer_update (\<lambda>_. Some s)) section c)))"

text \<open>A section that is there changes the part of the configuration that it is for.\<close>

definition in_section :: "string \<Rightarrow> setting \<Rightarrow> (setting \<Rightarrow> 'c \<Rightarrow> ('c, config_error) result) \<Rightarrow> 'c \<Rightarrow> ('c, config_error) result" where
  "in_section k content f c = (case setting_get k content of None \<Rightarrow> Inr c | Some section \<Rightarrow> f section c)"

definition config_from_file :: "environment_vars \<Rightarrow> setting \<Rightarrow> (indexer_config, config_error) result" where
  "config_from_file env content =
     rbind (file_flags content config_default) (\<lambda>c.
     rbind (in_section ''fuel_node'' content file_fuel_node (ic_fuel_node c)) (\<lambda>fuel.
     rbind (in_section ''graphql_api'' content file_graphql (ic_graphql_api c)) (\<lambda>graphql.
     rbind (in_section ''database'' content (\<lambda>section d.
              in_section ''postgres'' section (\<lambda>pg _. file_database (ic_verbose c) pg) d) (ic_database c)) (\<lambda>database.
     rbind (in_section ''authentication'' content file_authentication (ic_authentication c)) (\<lambda>authentication.
     inject_opt_env_vars env (c\<lparr>ic_fuel_node := fuel, ic_graphql_api := graphql, ic_database := database,
       ic_authentication := authentication\<rparr>))))))"

section \<open>Connecting to the database (utils.rs)\<close>

text \<open>
  \<^verbatim>\<open>attempt_database_connection\<close> on the answers of the database, one for each attempt, with the
  seconds slept so far; \<open>None\<close> means that the attempts go on when the answers are used up.
\<close>

definition max_database_connection_attempts :: nat where
  "max_database_connection_attempts = 5"

definition initial_retry_delay_secs :: nat where
  "initial_retry_delay_secs = 2"

fun attempt_loop :: "nat \<Rightarrow> nat \<Rightarrow> nat \<Rightarrow> 'c option list \<Rightarrow> (('c, unit) result \<times> nat) option" where
  "attempt_loop retries delay slept [] = None"
| "attempt_loop retries delay slept (Some c # answers) = Some (Inr c, slept)"
| "attempt_loop retries delay slept (None # answers) =
     (if retries > 0 then attempt_loop (retries - 1) (delay * 2) (slept + delay) answers
      else Some (Inl (Panic ''Retry attempts exceeded; could not connect to database backend!''), slept))"

definition attempt_database_connection :: "'c option list \<Rightarrow> (('c, unit) result \<times> nat) option" where
  "attempt_database_connection answers =
     attempt_loop max_database_connection_attempts initial_retry_delay_secs 0 answers"

section \<open>What the settings of a file become\<close>

lemma set_from_Inr:
  "set_from k read upd section c = Inr c' \<longleftrightarrow>
    (case setting_get k section of None \<Rightarrow> c' = c | Some v \<Rightarrow> (\<exists>x. read v = Some x \<and> c' = upd x c))"
  by (auto simp: set_from_def unwrap_def rbind_Inr_iff split: option.splits)

lemma in_section_Inr:
  "in_section k content f c = Inr c' \<longleftrightarrow>
    (case setting_get k content of None \<Rightarrow> c' = c | Some section \<Rightarrow> f section c = Inr c')"
  by (auto simp: in_section_def split: option.splits)

lemma set_from_field:
  assumes "set_from k read upd section c = Inr c'" and "\<And>x. g (upd x c) = g c \<or> setting_get k section = None"
  shows "g c' = g c"
  using assms by (auto simp: set_from_Inr split: option.splits)

lemma file_flags_authentication:
  assumes "file_flags content c = Inr c'"
  shows "ic_authentication c' = ic_authentication c"
proof -
  from assms obtain c1 c2 c3 c4 c5 where "set_from ''metrics'' as_bool (\<lambda>b. ic_metrics_update (\<lambda>_. b)) content c = Inr c1"
    "set_from ''stop_idle_indexers'' as_bool (\<lambda>b. ic_stop_idle_indexers_update (\<lambda>_. b)) content c1 = Inr c2"
    "set_from ''run_migrations'' as_bool (\<lambda>b. ic_run_migrations_update (\<lambda>_. b)) content c2 = Inr c3"
    "set_from ''verbose'' as_bool (\<lambda>b. ic_verbose_update (\<lambda>_. b)) content c3 = Inr c4"
    "set_from ''local_fuel_node'' as_bool (\<lambda>b. ic_local_fuel_node_update (\<lambda>_. b)) content c4 = Inr c5"
    "set_from ''indexer_net_config'' as_bool (\<lambda>b. ic_indexer_net_config_update (\<lambda>_. b)) content c5 = Inr c'"
    unfolding file_flags_def rbind_Inr_iff by blast
  from this [THEN set_from_field [where g = ic_authentication]] show ?thesis by simp
qed

lemma file_authentication_keys:
  assumes "file_authentication section c = Inr c'"
  shows "au_jwt_expiry c' = au_jwt_expiry c \<and> (setting_get ''auth_enabled'' section = None \<longrightarrow> au_enabled c' = au_enabled c)"
proof -
  from assms obtain c1 c2 c3 where s: "set_from ''auth_enabled'' as_bool (\<lambda>b. au_enabled_update (\<lambda>_. b)) section c = Inr c1"
    "set_from ''auth_strategy'' as_strategy (\<lambda>s. au_strategy_update (\<lambda>_. Some s)) section c1 = Inr c2"
    "set_from ''jwt_secret'' as_str (\<lambda>s. au_jwt_secret_update (\<lambda>_. Some s)) section c2 = Inr c3"
    "set_from ''jwt_issuer'' as_str (\<lambda>s. au_jwt_issuer_update (\<lambda>_. Some s)) section c3 = Inr c'"
    unfolding file_authentication_def rbind_Inr_iff by blast
  from s [THEN set_from_field [where g = au_jwt_expiry]] have "au_jwt_expiry c' = au_jwt_expiry c" by simp
  moreover from s(2-4) [THEN set_from_field [where g = au_enabled]] have "au_enabled c' = au_enabled c1" by simp
  moreover have "setting_get ''auth_enabled'' section = None \<Longrightarrow> au_enabled c1 = au_enabled c"
    by (rule set_from_field [OF s(1), where g = au_enabled]) simp
  ultimately show ?thesis by simp
qed

lemma inject_frame:
  assumes "inject_opt_env_vars env c = Inr c'"
  shows "ic_authentication c' = ic_authentication c"
  using assms by (auto simp: inject_opt_env_vars_def rbind_Inr_iff)

section \<open>Properties\<close>

text \<open>The nine settings in which an environment variable may be named.\<close>

definition injectable :: "indexer_config \<Rightarrow> string list" where
  "injectable c = [fn_host (ic_fuel_node c), fn_port (ic_fuel_node c), dc_user (ic_database c), dc_password (ic_database c),
     dc_host (ic_database c), dc_port (ic_database c), dc_database (ic_database c), gc_host (ic_graphql_api c), gc_port (ic_graphql_api c)]"

definition resolves :: "environment_vars \<Rightarrow> string \<Rightarrow> string \<Rightarrow> bool" where
  "resolves env s v \<longleftrightarrow> (\<forall>n. s = ''${'' @ n @ ''}'' \<longrightarrow> env n = Some v)
     \<and> (\<forall>n. s = ''$'' @ n \<and> \<not> starts_with ''{'' n \<longrightarrow> env n = Some v)
     \<and> (\<not> starts_with ''$'' s \<longrightarrow> v = s)"

lemma starts_with_simps [simp]: "starts_with [] s" "starts_with (c # p) (d # s) \<longleftrightarrow> c = d \<and> starts_with p s" "\<not> starts_with (c # p) []"
  by (auto simp: starts_with_def)

lemma inject_resolves:
  assumes "inject env s = Inr v" shows "resolves env s v"
proof -
  have "env n = Some v" if "s = ''${'' @ n @ ''}''" for n
    using assms that by (auto simp: inject_def is_opt_env_var_def trim_opt_env_key_def slice_def env_var_def rbind_Inr_iff)
  moreover have "env n = Some v" if "s = ''$'' @ n" "\<not> starts_with ''{'' n" for n
    using assms that by (auto simp: inject_def is_opt_env_var_def trim_opt_env_key_def slice_def env_var_def rbind_Inr_iff)
  moreover have "v = s" if "\<not> starts_with ''$'' s"
  proof -
    from that have "\<not> starts_with ''${'' s" by (cases s) auto
    with that assms show ?thesis by (simp add: inject_def is_opt_env_var_def)
  qed
  ultimately show ?thesis unfolding resolves_def by blast
qed

text \<open>
  After the environment was injected, each host, port and credential that named a variable, as
  \<open>$NAME\<close> or \<open>${NAME}\<close>, has the value of that variable, and all others are as they were; a variable that is
  not set is an error. Nothing else changes: the authentication settings name no variables.
\<close>

theorem environment_is_injected:
  assumes "inject_opt_env_vars env c = Inr c'"
  shows "list_all2 (resolves env) (injectable c) (injectable c')
    \<and> ic_authentication c' = ic_authentication c
    \<and> dc_verbose (ic_database c') = dc_verbose (ic_database c)
    \<and> gc_max_body_size (ic_graphql_api c') = gc_max_body_size (ic_graphql_api c)"
  using assms
  by (auto simp: inject_opt_env_vars_def inject_fuel_node_def inject_database_def inject_graphql_def rbind_Inr_iff
      injectable_def intro!: inject_resolves)

lemma environment_is_injected_witness:
  "\<exists>c'. inject_opt_env_vars (\<lambda>k. if k = ''PW'' then Some ''secret'' else None)
      (config_default\<lparr>ic_database := database_default\<lparr>dc_password := ''${PW}''\<rparr>\<rparr>) = Inr c'
    \<and> dc_password (ic_database c') = ''secret''"
proof -
  let ?env = "\<lambda>k. if k = ''PW'' then Some ''secret'' else None"
  let ?c = "config_default\<lparr>ic_database := database_default\<lparr>dc_password := ''${PW}''\<rparr>\<rparr>"
  obtain c' where c': "inject_opt_env_vars ?env ?c = Inr c'"
    by (simp add: inject_opt_env_vars_def inject_fuel_node_def inject_database_def inject_graphql_def inject_def
        is_opt_env_var_def trim_opt_env_key_def slice_def env_var_def config_default_def fuel_node_default_def
        database_default_def graphql_default_def ok_or_def)
  from environment_is_injected [OF this] have "resolves ?env ''${PW}'' (dc_password (ic_database c'))"
    by (simp add: injectable_def)
  then have "?env ''PW'' = Some (dc_password (ic_database c'))" unfolding resolves_def by (elim conjE allE [of _ "''PW''"]) simp
  with c' show ?thesis by simp
qed

text \<open>
  C40: a configuration file whose authentication section does not have the key \<^verbatim>\<open>auth_enabled\<close>, such as the
  one that is documented with the keys \<^verbatim>\<open>enabled\<close> and \<^verbatim>\<open>strategy\<close>, leaves the API open: the middleware
  gives every request claims that pass for authenticated. The life time of tokens is never read.
\<close>

theorem documented_authentication_leaves_api_open:
  assumes "setting_get ''authentication'' content = Some section" "setting_get ''auth_enabled'' section = None"
    and "config_from_file env content = Inr c" "ap_auth ap = ic_authentication c"
  shows "middleware ap header = Inr claims_default \<and> \<not> is_unauthenticated claims_default
    \<and> au_jwt_expiry (ic_authentication c) = None"
proof -
  from assms(1,3) obtain c1 a where c1: "file_flags content config_default = Inr c1"
    and a: "file_authentication section (ic_authentication c1) = Inr a" and c: "ic_authentication c = a"
    by (auto simp: config_from_file_def rbind_Inr_iff in_section_Inr dest!: inject_frame)
  from file_flags_authentication [OF c1] have "ic_authentication c1 = authentication_default" by (simp add: config_default_def)
  with file_authentication_keys [OF a] assms(2) c
  have "\<not> au_enabled (ic_authentication c)" "au_jwt_expiry (ic_authentication c) = None"
    by (simp_all add: authentication_default_def)
  then show ?thesis by (simp add: middleware_def assms(4) is_unauthenticated_def claims_default_def)
qed

lemma documented_authentication_leaves_api_open_witness:
  "\<exists>c. config_from_file (\<lambda>_. None) (SMap [(''authentication'', SMap [(''enabled'', SBool True), (''strategy'', SStr ''jwt'')])]) = Inr c
    \<and> middleware (demo_api\<lparr>ap_auth := ic_authentication c\<rparr>) None = Inr claims_default"
proof -
  let ?section = "SMap [(''enabled'', SBool True), (''strategy'', SStr ''jwt'')]"
  let ?content = "SMap [(''authentication'', ?section)]"
  obtain c where c: "config_from_file (\<lambda>_. None) ?content = Inr c"
    by (simp add: config_from_file_def file_flags_def set_from_def setting_get_def in_section_def file_authentication_def
        inject_opt_env_vars_def inject_fuel_node_def inject_database_def inject_graphql_def inject_def is_opt_env_var_def
        config_default_def fuel_node_default_def database_default_def graphql_default_def)
  have "setting_get ''authentication'' ?content = Some ?section" "setting_get ''auth_enabled'' ?section = None"
    by (simp_all add: setting_get_def)
  from documented_authentication_leaves_api_open [OF this c, of "demo_api\<lparr>ap_auth := ic_authentication c\<rparr>" None] c
  show ?thesis by auto
qed

text \<open>
  Connecting to the database takes at most six attempts: it returns the first connection that one of
  them gives, having slept two seconds before the second and twice as long each time, and it
  panics after 62 seconds of sleep when all six fail.
\<close>

theorem six_connection_attempts:
  assumes "6 \<le> length answers"
  shows "attempt_database_connection answers =
    (case filter (\<lambda>k. answers ! k \<noteq> None) [0..<6] of
       [] \<Rightarrow> Some (Inl (Panic ''Retry attempts exceeded; could not connect to database backend!''), 62)
     | k # _ \<Rightarrow> Some (Inr (the (answers ! k)), 2 ^ (k + 1) - 2))"
proof -
  from assms obtain a b c d e f rest where answers: "answers = a # b # c # d # e # f # rest"
    by (auto simp: numeral_eq_Suc Suc_le_length_iff)
  have "[0..<6] = [0, 1, 2, 3, 4, 5 :: nat]" by (simp add: upt_rec)
  then show ?thesis
    by (cases a; cases b; cases c; cases d; cases e; cases f)
       (simp_all add: answers attempt_database_connection_def max_database_connection_attempts_def
         initial_retry_delay_secs_def numeral_eq_Suc)
qed

lemma six_connection_attempts_witness:
  "attempt_database_connection [None, None, Some (7 :: nat), None, None, None] = Some (Inr 7, 6)"
  using six_connection_attempts [of "[None, None, Some (7 :: nat), None, None, None]"] by (simp add: upt_rec)

end
