(* ===== verification/Api_Routes.thy ===== *)
theory Api_Routes
  imports Config
begin

text \<open>
  The web server around the handlers: the routes of \<^verbatim>\<open>fuel-indexer-api-server/src/api.rs\<close> with their limit on the size of
  a body, the reading of a request by the handlers' arguments, and the responses. What axum answers by itself, to a path
  or a method without a route, a body that is too long or one of another form than the handler asks for, is the
  response \<open>Rejected\<close>; a panic in a handler drops the connection.
\<close>

section \<open>Requests\<close>

datatype http_method = GET | POST | PUT | DELETE

text \<open>Bodies: a form of several parts, a JSON object with a signature and its message, a GraphQL request.\<close>

datatype http_body = NoBody | MultipartBody "(string \<times> bytes) list" | SignatureBody string string | GraphQLBody string | OtherBody

record http_request =
  rq_method :: http_method
  rq_path :: string
  rq_authorization :: "string option"
  rq_length :: nat
  rq_body :: http_body

text \<open>What the handlers read from the world: a new unique id, and the clock, which is read twice.\<close>

record moment =
  mo_uid :: string
  mo_now :: int
  mo_issued :: "64 word"

text \<open>\<^verbatim>\<open>str::split\<close> with a character.\<close>

fun split_at_char :: "char \<Rightarrow> string \<Rightarrow> string list" where
  "split_at_char c [] = [[]]"
| "split_at_char c (x # xs) =
     (if x = c then [] # split_at_char c xs
      else case split_at_char c xs of [] \<Rightarrow> [[x]] | w # ws \<Rightarrow> (x # w) # ws)"

section \<open>Routes (api.rs)\<close>

datatype endpoint =
    Health
  | Playground string string
  | UploadAt string string
  | StopAt string string
  | RevertAt string string
  | GraphAt string string
  | NonceAt
  | SignatureAt

definition index_route :: "http_method \<Rightarrow> string \<Rightarrow> string \<Rightarrow> endpoint option" where
  "index_route meth ns ident =
     (case meth of POST \<Rightarrow> Some (UploadAt ns ident) | DELETE \<Rightarrow> Some (StopAt ns ident) | PUT \<Rightarrow> Some (RevertAt ns ident) | GET \<Rightarrow> None)"

text \<open>The parameters \<^verbatim>\<open>:namespace\<close> and \<^verbatim>\<open>:identifier\<close> of a path match segments that are not empty.\<close>

definition named_route :: "http_method \<Rightarrow> string \<Rightarrow> string \<Rightarrow> string \<Rightarrow> endpoint option" where
  "named_route meth family ns ident =
     (if ns = [] \<or> ident = [] then None
      else if family = ''index'' then index_route meth ns ident
      else if family = ''graph'' \<and> meth = POST then Some (GraphAt ns ident)
      else if family = ''playground'' \<and> meth = GET then Some (Playground ns ident)
      else None)"

definition auth_route :: "http_method \<Rightarrow> string \<Rightarrow> endpoint option" where
  "auth_route meth what =
     (if what = ''nonce'' \<and> meth = GET then Some NonceAt
      else if what = ''signature'' \<and> meth = POST then Some SignatureAt else None)"

definition api_route :: "http_method \<Rightarrow> string \<Rightarrow> endpoint option" where
  "api_route meth path =
     (case split_at_char CHR ''/'' path of
        [root, api, family, a, b] \<Rightarrow> if root = [] \<and> api = ''api'' then named_route meth family a b else None
      | [root, api, family, a] \<Rightarrow> if root = [] \<and> api = ''api'' \<and> family = ''auth'' then auth_route meth a else None
      | [root, api, a] \<Rightarrow> if root = [] \<and> api = ''api'' \<and> a = ''health'' \<and> meth = GET then Some Health else None
      | _ \<Rightarrow> None)"

definition limited :: "endpoint \<Rightarrow> bool" where
  "limited ep = (case ep of Health \<Rightarrow> False | NonceAt \<Rightarrow> False | SignatureAt \<Rightarrow> False | _ \<Rightarrow> True)"

text \<open>The request to a handler; an upload takes a body of any other form as none.\<close>

definition handler_request :: "moment \<Rightarrow> http_request \<Rightarrow> endpoint \<Rightarrow> api_request option" where
  "handler_request mo rq ep =
     (case ep of
        UploadAt ns ident \<Rightarrow> Some (Upload (rq_authorization rq) ns ident
          (case rq_body rq of MultipartBody parts \<Rightarrow> Some parts | _ \<Rightarrow> None))
      | StopAt ns ident \<Rightarrow> Some (Stop (rq_authorization rq) ns ident)
      | RevertAt ns ident \<Rightarrow> Some (Revert (rq_authorization rq) ns ident)
      | GraphAt ns ident \<Rightarrow> (case rq_body rq of GraphQLBody query \<Rightarrow> Some (QueryGraph ns ident query) | _ \<Rightarrow> None)
      | NonceAt \<Rightarrow> Some (GetNonce (mo_uid mo) (mo_now mo))
      | SignatureAt \<Rightarrow> (case rq_body rq of
          SignatureBody signature message \<Rightarrow> Some (VerifySignature (mo_now mo) (mo_issued mo) signature message) | _ \<Rightarrow> None)
      | _ \<Rightarrow> None)"

section \<open>Responses\<close>

text \<open>A JSON object with a status: the handler's answer, or without one the details of an error.\<close>

datatype response = Reply nat "answer option" | HealthReply | Page string | Rejected | Dropped

definition into_response :: "(answer, api_error) result \<Rightarrow> response" where
  "into_response r = (case r of Inr y \<Rightarrow> Reply 200 (Some y) | Inl (Err e) \<Rightarrow> Reply (error_status e) None | Inl (Panic _) \<Rightarrow> Dropped)"

definition playground_endpoint :: "string \<Rightarrow> string \<Rightarrow> string" where
  "playground_endpoint ns ident = ''/api/graph/'' @ ns @ ''/'' @ ident"

definition http_handle :: "api_env \<Rightarrow> indexer_config \<Rightarrow> moment \<Rightarrow> http_request \<Rightarrow> system \<Rightarrow> response \<times> system" where
  "http_handle ap c mo rq s =
     (case api_route (rq_method rq) (rq_path rq) of
        None \<Rightarrow> (Rejected, s)
      | Some ep \<Rightarrow>
          if limited ep \<and> rq_length rq > gc_max_body_size (ic_graphql_api c) then (Rejected, s)
          else case ep of
              Health \<Rightarrow> (HealthReply, s)
            | Playground ns ident \<Rightarrow> (Page (playground_endpoint ns ident), s)
            | _ \<Rightarrow>
                (case handler_request mo rq ep of
                   None \<Rightarrow> (Rejected, s)
                 | Some q \<Rightarrow> (case handle_api ap q s of (r, s') \<Rightarrow> (into_response r, s'))))"

section \<open>Paths\<close>

lemma split_no_char: "c \<notin> set s \<Longrightarrow> split_at_char c s = [s]"
  by (induction s) auto

lemma split_append: "c \<notin> set s \<Longrightarrow> split_at_char c (s @ c # t) = s # split_at_char c t"
  by (induction s) (auto split: list.splits)

lemma split_not_Nil [simp]: "split_at_char c s \<noteq> []"
  by (cases s) (auto split: list.splits)

text \<open>The path of an indexer is routed to its handlers, with its namespace and identifier.\<close>

definition index_path :: "string \<Rightarrow> string \<Rightarrow> string" where
  "index_path ns ident = ''/api/index/'' @ ns @ ''/'' @ ident"

lemma index_path_routed:
  assumes "CHR ''/'' \<notin> set ns" "CHR ''/'' \<notin> set ident" "ns \<noteq> []" "ident \<noteq> []"
  shows "api_route meth (index_path ns ident) = index_route meth ns ident"
proof -
  have "split_at_char CHR ''/'' (ns @ CHR ''/'' # ident) = [ns, ident]"
    using assms(1,2) by (simp add: split_append split_no_char)
  then have "split_at_char CHR ''/'' (index_path ns ident) = [[], ''api'', ''index'', ns, ident]"
    by (simp add: index_path_def)
  with assms(3,4) show ?thesis by (simp add: api_route_def named_route_def)
qed

lemma auth_paths_routed:
  "api_route GET ''/api/auth/nonce'' = Some NonceAt" "api_route POST ''/api/auth/signature'' = Some SignatureAt"
  by (simp_all add: api_route_def auth_route_def)

end
