(* ===== verification/Api_Standalone.thy ===== *)
theory Api_Standalone
  imports Config
begin

text \<open>
  The API server as a program of its own, \<^verbatim>\<open>fuel-indexer-api-server/src/commands/run.rs\<close>: its arguments, its configuration
  and the system it starts. The reading of a configuration file, the connection to the database and
  the migrations are arguments.
\<close>

section \<open>Arguments and configuration (config/mod.rs)\<close>

record api_server_args =
  aa_config :: "string option"
  aa_fuel_node_host :: string
  aa_fuel_node_port :: string
  aa_graphql_api_host :: string
  aa_graphql_api_port :: string
  aa_database :: string
  aa_max_body_size :: nat
  aa_run_migrations :: bool
  aa_postgres_user :: "string option"
  aa_postgres_database :: "string option"
  aa_postgres_password :: "string option"
  aa_postgres_host :: "string option"
  aa_postgres_port :: "string option"
  aa_metrics :: bool
  aa_auth_enabled :: bool
  aa_auth_strategy :: "string option"
  aa_jwt_secret :: "string option"
  aa_jwt_issuer :: "string option"
  aa_jwt_expiry :: "64 word option"
  aa_verbose :: bool

definition local_fuel_node :: bool where
  "local_fuel_node = False"

definition indexer_net_config :: bool where
  "indexer_net_config = False"

definition stop_idle_indexers :: bool where
  "stop_idle_indexers = False"

definition api_args_database :: "environment_vars \<Rightarrow> api_server_args \<Rightarrow> (database_config, config_error) result" where
  "api_args_database env a =
     (if aa_database a = ''postgres''
      then Inr \<lparr>dc_user = arg_or_env env (aa_postgres_user a) ''POSTGRES_USER'' ''postgres'',
        dc_password = arg_or_env env (aa_postgres_password a) ''POSTGRES_PASSWORD'' ''postgres'',
        dc_host = arg_or_env env (aa_postgres_host a) ''POSTGRES_HOST'' ''localhost'',
        dc_port = arg_or_env env (aa_postgres_port a) ''POSTGRES_PORT'' ''5432'',
        dc_database = arg_or_env env (aa_postgres_database a) ''POSTGRES_DATABASE'' ''postgres'',
        dc_verbose = show_bool (aa_verbose a)\<rparr>
      else Inl (Panic ''Unrecognized database type in options.''))"

definition api_args_authentication :: "api_server_args \<Rightarrow> (authentication_config, config_error) result" where
  "api_args_authentication a =
     rbind (case aa_auth_strategy a of None \<Rightarrow> Inr None
            | Some x \<Rightarrow> rbind (unwrap (strategy_from_str x)) (\<lambda>s. Inr (Some s))) (\<lambda>strategy.
     Inr \<lparr>au_enabled = aa_auth_enabled a, au_strategy = strategy, au_jwt_secret = aa_jwt_secret a,
       au_jwt_issuer = aa_jwt_issuer a, au_jwt_expiry = aa_jwt_expiry a\<rparr>)"

definition config_from_api_args :: "environment_vars \<Rightarrow> api_server_args \<Rightarrow> (indexer_config, config_error) result" where
  "config_from_api_args env a =
     rbind (api_args_database env a) (\<lambda>database.
     rbind (api_args_authentication a) (\<lambda>authentication.
     expect_injected (inject_opt_env_vars env \<lparr>ic_verbose = aa_verbose a, ic_local_fuel_node = local_fuel_node,
       ic_indexer_net_config = indexer_net_config,
       ic_fuel_node = \<lparr>fn_host = aa_fuel_node_host a, fn_port = aa_fuel_node_port a\<rparr>,
       ic_graphql_api = \<lparr>gc_host = aa_graphql_api_host a, gc_port = aa_graphql_api_port a, gc_max_body_size = aa_max_body_size a\<rparr>,
       ic_database = database, ic_metrics = aa_metrics a, ic_stop_idle_indexers = stop_idle_indexers,
       ic_run_migrations = aa_run_migrations a, ic_authentication = authentication\<rparr>)))"

section \<open>The program (commands/run.rs)\<close>

datatype start_error = ConfigFailed config_error | FileFailed | ConnectFailed | MigrationFailed

definition api_config ::
    "environment_vars \<Rightarrow> (string \<Rightarrow> setting option) \<Rightarrow> api_server_args \<Rightarrow> (indexer_config, start_error) result" where
  "api_config env read a =
     (case aa_config a of
        Some path \<Rightarrow> rbind (ok_or (read path) FileFailed) (\<lambda>content. map_fault ConfigFailed (config_from_file env content))
      | None \<Rightarrow> map_fault ConfigFailed (config_from_api_args env a))"

text \<open>The channel that the server gets is made with \<^verbatim>\<open>let (tx, _) = channel(..)\<close>, which drops the receiver at once.\<close>

definition api_exec ::
    "environment_vars \<Rightarrow> (string \<Rightarrow> setting option) \<Rightarrow> (string \<Rightarrow> database option) \<Rightarrow> (database \<Rightarrow> database option)
      \<Rightarrow> api_server_args \<Rightarrow> (indexer_config \<times> system, start_error) result" where
  "api_exec env read connect migrate a =
     rbind (api_config env read a) (\<lambda>c.
     rbind (ok_or (connect (database_url (ic_database c))) ConnectFailed) (\<lambda>d.
     rbind (if ic_run_migrations c then ok_or (migrate d) MigrationFailed else Inr d) (\<lambda>d.
     Inr (c, \<lparr>sy_service = service_new d, sy_queue = [], sy_receiving = False\<rparr>))))"

section \<open>Properties\<close>

text \<open>The same settings as arguments of the service.\<close>

definition service_args :: "api_server_args \<Rightarrow> indexer_args" where
  "service_args a = \<lparr>ia_log_level = ''info'', ia_config = aa_config a, ia_manifest = None,
     ia_fuel_node_host = aa_fuel_node_host a, ia_fuel_node_port = aa_fuel_node_port a,
     ia_graphql_api_host = aa_graphql_api_host a, ia_graphql_api_port = aa_graphql_api_port a,
     ia_database = aa_database a, ia_max_body_size = aa_max_body_size a,
     ia_postgres_user = aa_postgres_user a, ia_postgres_database = aa_postgres_database a,
     ia_postgres_password = aa_postgres_password a, ia_postgres_host = aa_postgres_host a, ia_postgres_port = aa_postgres_port a,
     ia_run_migrations = aa_run_migrations a, ia_metrics = aa_metrics a, ia_stop_idle_indexers = False, ia_embedded_database = False,
     ia_auth_enabled = aa_auth_enabled a, ia_auth_strategy = aa_auth_strategy a, ia_jwt_secret = aa_jwt_secret a,
     ia_jwt_issuer = aa_jwt_issuer a, ia_jwt_expiry = aa_jwt_expiry a, ia_verbose = aa_verbose a,
     ia_local_fuel_node = False, ia_indexer_net_config = False\<rparr>"

text \<open>
  The server's arguments give the configuration that the service makes of the same arguments, panics and missing
  environment variables included.
\<close>

theorem server_and_service_configured_alike: "config_from_api_args env a = config_from_args env (service_args a)"
  by (simp add: config_from_api_args_def config_from_args_def api_args_database_def args_database_def
      api_args_authentication_def args_authentication_def service_args_def local_fuel_node_def indexer_net_config_def
      stop_idle_indexers_def)

lemma api_exec_deaf: "api_exec env read connect migrate a = Inr (c, s) \<Longrightarrow> \<not> sy_receiving s \<and> live_executors (sy_service s) = []"
  by (auto simp: api_exec_def rbind_Inr_iff service_new_def live_executors_def)

text \<open>Requests that the service would have to hear of are never answered with success once nobody receives them.\<close>

lemma deaf_runs: "(system_step ap)\<^sup>*\<^sup>* s0 s \<Longrightarrow> \<not> sy_receiving s0 \<Longrightarrow> \<not> sy_receiving s"
proof (induction rule: rtranclp_induct)
  case (step s s')
  then have deaf: "\<not> sy_receiving s" by simp
  from step.hyps(2) deaf obtain q r where run: "handle_api ap q s = (r, s')" by (auto elim: system_stepE)
  from still.keptD [OF still.kept_api _ run, of "sy_receiving s" "live_executors (sy_service s)"] deaf
  show ?case by simp
qed simp

lemma send_deaf: "send q s = (Inr x, s') \<Longrightarrow> sy_receiving s"
  by (simp add: send_def split: if_splits)

lemma receiving_aquery: "aquery f q s = (r, s') \<Longrightarrow> sy_receiving s' = sy_receiving s"
  by (auto simp: aquery_def split: prod.splits)

lemma receiving_uploads: "register_uploads ap sub ns ident parts s = (r, s') \<Longrightarrow> sy_receiving s' = sy_receiving s"
  using still.keptD [OF still.kept_uploads, of s "sy_receiving s" "live_executors (sy_service s)"] by blast

lemma confirmed_stop:
  assumes "stop_indexer c ns ident s = (Inr x, s')"
  shows "sy_receiving s"
proof -
  from assms obtain s1 where s1: "aquery Sqlx start_transaction s = (Inr (), s1)"
    by (auto simp: stop_indexer_def sbind_Inr slift_def split: if_splits)
  obtain r s2 where s2: "aquery Sqlx (remove_indexer ns ident) s1 = (r, s2)" by fastforce
  with assms s1 show ?thesis
    by (auto simp: stop_indexer_def sbind_def slift_def split: if_splits sum.splits fault.splits prod.splits
        dest!: receiving_aquery send_deaf)
qed

lemma confirmed_revert: "revert_indexer c ns ident s = (Inr x, s') \<Longrightarrow> sy_receiving s"
  by (auto simp: revert_indexer_def sbind_Inr slift_def split: if_splits dest!: receiving_aquery send_deaf)

lemma confirmed_upload: "register_indexer_assets ap c ns ident multipart s = (Inr x, s') \<Longrightarrow> sy_receiving s"
  by (auto simp: register_indexer_assets_def sbind_Inr slift_def split: if_splits option.splits
      dest!: receiving_aquery receiving_uploads send_deaf)

lemma slift_then: "sbind (slift r) f s = (Inr y, s') \<Longrightarrow> \<exists>x. f x s = (Inr y, s')"
  by (auto simp: sbind_Inr slift_def)

lemma confirmed_change:
  assumes "handle_api ap q s = (Inr y, s')" "\<not> sy_receiving s"
  shows "y \<noteq> Success" "y \<noteq> Assets assets"
proof -
  from assms have "y \<noteq> Success \<and> y \<noteq> Assets assets"
    by (cases q)
       (auto simp: as_answer_Inr split: prod.splits option.splits sum.splits
         dest!: slift_then confirmed_stop confirmed_revert confirmed_upload)
  then show "y \<noteq> Success" "y \<noteq> Assets assets" by simp_all
qed

text \<open>
  C31: an API server that runs as a program of its own never confirms a change: whatever requests it has handled
  before, every request to stop or to revert an indexer and every upload is answered with an error, or panics; only
  queries, nonces and tokens are ever answered with success.
\<close>

theorem standalone_server_confirms_nothing:
  assumes "api_exec env read connect migrate a = Inr (c, s0)" "(system_step ap)\<^sup>*\<^sup>* s0 s" "handle_api ap q s = (Inr y, s')"
  shows "(\<exists>n. y = NonceOf n) \<or> (\<exists>t. y = Token t) \<or> (\<exists>d. y = Data d)"
proof -
  from deaf_runs [OF assms(2)] api_exec_deaf [OF assms(1)] have "\<not> sy_receiving s" by blast
  from confirmed_change [OF assms(3) this] show ?thesis by (cases y) auto
qed

definition demo_args :: api_server_args where
  "demo_args = \<lparr>aa_config = None, aa_fuel_node_host = ''localhost'', aa_fuel_node_port = ''4000'', aa_graphql_api_host = ''localhost'',
     aa_graphql_api_port = ''29987'', aa_database = ''postgres'', aa_max_body_size = 5242880, aa_run_migrations = False,
     aa_postgres_user = Some ''u'', aa_postgres_database = Some ''d'', aa_postgres_password = Some ''p'', aa_postgres_host = Some ''h'',
     aa_postgres_port = Some ''1'', aa_metrics = False, aa_auth_enabled = False, aa_auth_strategy = None, aa_jwt_secret = None,
     aa_jwt_issuer = None, aa_jwt_expiry = None, aa_verbose = False\<rparr>"

text \<open>The nonce of a server that has already refused to stop an indexer.\<close>

lemma standalone_server_confirms_nothing_witness:
  "\<exists>c s0 s s' y. api_exec Map.empty Map.empty (\<lambda>_. Some served_database) Map.empty demo_args = Inr (c, s0)
    \<and> system_step demo_api s0 s \<and> handle_api demo_api (GetNonce ''n'' 1) s = (Inr y, s') \<and> y \<noteq> Success"
proof -
  obtain c s0 where start: "api_exec Map.empty Map.empty (\<lambda>_. Some served_database) Map.empty demo_args = Inr (c, s0)"
      and s0: "s0 = \<lparr>sy_service = service_new served_database, sy_queue = [], sy_receiving = False\<rparr>"
    by (simp add: api_exec_def api_config_def demo_args_def config_from_api_args_def api_args_database_def arg_or_env_def
        api_args_authentication_def expect_injected_def inject_opt_env_vars_def inject_fuel_node_def inject_database_def
        inject_graphql_def inject_authentication_def inject_def is_opt_env_var_def ends_with_def show_bool_def ok_or_def map_fault_def)
  have "\<exists>r. handle_api demo_api (Stop None ''ns'' ''idx'') s0 = (r, s0)"
    by (simp add: demo_middleware is_unauthenticated_def claims_unauthenticated_def sbind_def slift_def as_answer_def stop_indexer_def)
  then have step: "system_step demo_api s0 s0" by (blast intro: system_step.web)
  have "\<exists>y s'. handle_api demo_api (GetNonce ''n'' 1) s0 = (Inr y, s')"
    by (simp add: as_answer_def sbind_def api_get_nonce_def aquery_def system_db_def s0 service_new_def create_nonce_def
        statement_def served_database_def empty_database_def empty_tables_def fits_def Let_def)
  then obtain y s' where y: "handle_api demo_api (GetNonce ''n'' 1) s0 = (Inr y, s')" by blast
  have "y \<noteq> Success" using standalone_server_confirms_nothing [OF start r_into_rtranclp [of "system_step demo_api", OF step] y] by blast
  with start step y show ?thesis by blast
qed

end
