(* ===== verification/Forc_Index.thy ===== *)
theory Forc_Index
  imports Api_Routes Api_Standalone
begin

text \<open>
  The command line tool \<^verbatim>\<open>plugins/forc-index/src/ops\<close>: building an indexer, deploying, removing and reverting it at a
  server, logging in, and starting the service. The parsing of arguments, the file system, other
  programs and the transport of requests are arguments; what is logged is left out.
\<close>

section \<open>Projects (utils)\<close>

datatype cli_error = Bail string

text \<open>\<^verbatim>\<open>Path::join\<close>: an absolute path replaces the base.\<close>

definition path_join :: "string \<Rightarrow> string \<Rightarrow> string" where
  "path_join a b =
     (if take 1 b = ''/'' then b else if a = [] \<or> last a = CHR ''/'' then a @ b else a @ ''/'' @ b)"

definition dasherize_to_underscore :: "string \<Rightarrow> string" where
  "dasherize_to_underscore s = map (\<lambda>c. if c = CHR ''-'' then CHR ''_'' else c) s"

definition manifest_name :: "string \<Rightarrow> string" where
  "manifest_name name = name @ ''.manifest.yaml''"

text \<open>\<open>canonical\<close> is the absolute path with its last component, when it exists and has one.\<close>

definition project_dir_info ::
    "string \<Rightarrow> (string \<Rightarrow> (string \<times> string option) option) \<Rightarrow> string option \<Rightarrow> string option
      \<Rightarrow> (string \<times> string \<times> string, cli_error) result" where
  "project_dir_info cwd canonical path manifest =
     rbind (ok_or (canonical (case path of None \<Rightarrow> cwd | Some p \<Rightarrow> p)) (Bail ''canonicalize'')) (\<lambda>(root, file_name).
     rbind (expect file_name ''called `Option::unwrap()` on a `None` value'') (\<lambda>name.
     let mani_name = dasherize_to_underscore (manifest_name name)
     in Inr (root, path_join root (case manifest of None \<Rightarrow> mani_name | Some f \<Rightarrow> f), name)))"

text \<open>The working directory, and what the tool reads from it: canonical paths, manifests, and the bytes of files.\<close>

record cli_env =
  ce_cwd :: string
  ce_canonical :: "string \<Rightarrow> (string \<times> string option) option"
  ce_manifest :: "string \<Rightarrow> (manifest, cli_error) result"
  ce_file :: "string \<Rightarrow> bytes option"

definition indexer_manifest ::
    "cli_env \<Rightarrow> string option \<Rightarrow> string option \<Rightarrow> (string \<times> string \<times> manifest, cli_error) result" where
  "indexer_manifest e path manifest =
     rbind (project_dir_info (ce_cwd e) (ce_canonical e) path manifest) (\<lambda>(root, manifest_path, _).
     rbind (ce_manifest e manifest_path) (\<lambda>m. Inr (root, manifest_path, m)))"

section \<open>Building (forc\_index\_build.rs)\<close>

record build_command =
  bc_manifest :: "string option"
  bc_path :: "string option"
  bc_target :: string
  bc_release :: string
  bc_profile :: "string option"
  bc_locked :: bool
  bc_native :: bool
  bc_target_dir :: "string option"
  bc_verbose :: bool

definition parse_bool :: "string \<Rightarrow> (bool, 'e) result" where
  "parse_bool s = (if s = ''true'' then Inr True else if s = ''false'' then Inr False else Inl (Panic ''ParseBoolError''))"

definition cargo_args :: "build_command \<Rightarrow> bool \<Rightarrow> string \<Rightarrow> string list" where
  "cargo_args b optimized cargo_manifest =
     [''build'', ''--manifest-path'', cargo_manifest, ''--target'', bc_target b]
       @ map snd (filter fst [(optimized, ''--release''), (bc_verbose b, ''--verbose''), (bc_locked b, ''--locked'')])
       @ (case bc_profile b of None \<Rightarrow> [] | Some p \<Rightarrow> [''--profile'', p])"

text \<open>
  The programs that are run: each answers with the success of its run, or fails to start. The answers of \<open>cargo\<close> are a
  list, as a quiet build runs it twice: for its output and for its status.
\<close>

definition run_cargo :: "bool \<Rightarrow> bool option list \<Rightarrow> (unit, cli_error) result" where
  "run_cargo verbose runs =
     (if verbose
      then case runs of Some True # _ \<Rightarrow> Inr () | _ \<Rightarrow> Inl (Err (Bail ''Build failed.''))
      else case runs of
          Some _ # second # _ \<Rightarrow>
            (case second of
               Some True \<Rightarrow> Inr ()
             | Some False \<Rightarrow> Inl (Err (Bail ''Failed to build index.''))
             | None \<Rightarrow> Inl (Err (Bail ''Failed to determine process exit status'')))
        | _ \<Rightarrow> Inl (Err (Bail ''Build failed'')))"

definition wasm_paths :: "build_command \<Rightarrow> bool \<Rightarrow> string \<Rightarrow> string \<times> string" where
  "wasm_paths b optimized package =
     (let binary = package @ ''.wasm'';
          profile = (if optimized then ''release'' else ''debug'');
          dir = path_join (case bc_target_dir b of None \<Rightarrow> ''.'' | Some d \<Rightarrow> d) ''target'';
          in_dir = (\<lambda>d. path_join (path_join (path_join d (bc_target b)) profile) binary)
      in (in_dir dir, in_dir ''target''))"

definition snip_args :: "string \<Rightarrow> string list" where
  "snip_args wasm = [wasm, ''-o'', wasm, ''-p'', ''__wbindgen'']"

text \<open>
  The manifest as it is after the build, and the arguments of the runs. \<open>package\<close> is the name in the project's Cargo
  manifest, unless it is missing or does not parse.
\<close>

definition build_op ::
    "cli_env \<Rightarrow> (string \<Rightarrow> (string, cli_error) result) \<Rightarrow> (string list \<Rightarrow> bool option list)
      \<Rightarrow> (string list \<Rightarrow> bool option) \<Rightarrow> build_command \<Rightarrow> (manifest, cli_error) result" where
  "build_op e package cargo snip b =
     rbind (parse_bool (bc_release b)) (\<lambda>optimized.
     rbind (project_dir_info (ce_cwd e) (ce_canonical e) (bc_path b) (bc_manifest b)) (\<lambda>(root, manifest_path, _).
     let cargo_manifest = path_join root ''Cargo.toml''
     in rbind (package cargo_manifest) (\<lambda>name.
        rbind (ce_manifest e (path_join root manifest_path)) (\<lambda>m.
        rbind (run_cargo (bc_verbose b) (cargo (cargo_args b optimized cargo_manifest))) (\<lambda>_.
        if bc_native b then Inr m
        else case wasm_paths b optimized name of (wasm, relative) \<Rightarrow>
          (case snip (snip_args wasm) of
             None \<Rightarrow> Inl (Panic ''Failed to spawn wasm-snip process'')
           | Some False \<Rightarrow> Inl (Err (Bail ''Failed to execute wasm-snip''))
           | Some True \<Rightarrow> Inr (m\<lparr>mf_module := WasmModule relative\<rparr>)))))))"

section \<open>Requests\<close>

text \<open>The transport: a request with its target, authorization and body, on a state of the world.\<close>

type_synonym 'w ask = "http_method \<Rightarrow> string \<Rightarrow> string option \<Rightarrow> http_body \<Rightarrow> 'w \<Rightarrow> response \<times> 'w"

type_synonym ('a, 'w) cli = "('a, 'w, cli_error) op"

definition send_request :: "'w ask \<Rightarrow> string \<Rightarrow> http_method \<Rightarrow> string \<Rightarrow> string option \<Rightarrow> http_body \<Rightarrow> (response, 'w) cli" where
  "send_request ask msg meth target auth body w =
     (case ask meth target auth body w of (r, w') \<Rightarrow> (if r = Dropped then Inl (Panic msg) else Inr r, w'))"

text \<open>The value of a header: visible ASCII characters.\<close>

definition header_value :: "string \<Rightarrow> bool" where
  "header_value s \<longleftrightarrow> (\<forall>c \<in> set s. of_char c = (9 :: nat) \<or> 32 \<le> (of_char c :: nat) \<and> of_char c < (127 :: nat))"

definition authorization :: "string option \<Rightarrow> (string option, cli_error) result" where
  "authorization auth =
     (case auth of None \<Rightarrow> Inr None | Some a \<Rightarrow> if header_value a then Inr (Some a) else Inl (Err (Bail ''failed to parse header value'')))"

datatype outcome = Confirmed "answer option" | Refused nat

text \<open>A refusal is printed, and the command ends without an error.\<close>

definition conclude :: "response \<Rightarrow> (outcome, cli_error) result" where
  "conclude r =
     (case r of
        Reply status y \<Rightarrow> Inr (if status = 200 then Confirmed y else Refused status)
      | HealthReply \<Rightarrow> Inr (Confirmed None)
      | _ \<Rightarrow> Inl (Panic ''Failed to read JSON response.''))"

definition index_url :: "string \<Rightarrow> manifest \<Rightarrow> string" where
  "index_url url m = url @ index_path (mf_namespace m) (mf_identifier m)"

text \<open>The arguments of the commands on a deployed indexer.\<close>

record target_command =
  tc_url :: string
  tc_manifest :: "string option"
  tc_path :: "string option"
  tc_auth :: "string option"

definition remove_op :: "cli_env \<Rightarrow> 'w ask \<Rightarrow> target_command \<Rightarrow> (outcome, 'w) cli" where
  "remove_op e ask t =
     sbind (slift (indexer_manifest e (tc_path t) (tc_manifest t))) (\<lambda>(_, _, m).
     sbind (slift (authorization (tc_auth t))) (\<lambda>h.
     sbind (send_request ask ''Failed to remove indexer.'' DELETE (index_url (tc_url t) m) h NoBody) (\<lambda>r. slift (conclude r))))"

definition revert_op :: "cli_env \<Rightarrow> 'w ask \<Rightarrow> target_command \<Rightarrow> (outcome, 'w) cli" where
  "revert_op e ask t =
     sbind (slift (indexer_manifest e (tc_path t) (tc_manifest t))) (\<lambda>(_, _, m).
     sbind (slift (authorization (Some (case tc_auth t of None \<Rightarrow> ''fuel'' | Some a \<Rightarrow> a)))) (\<lambda>h.
     sbind (send_request ask ''Failed to deploy indexer.'' PUT (index_url (tc_url t) m) h NoBody) (\<lambda>r. slift (conclude r))))"

text \<open>Deploying: the three files of the form, the module's path being that of the manifest.\<close>

definition file_part :: "(string \<Rightarrow> bytes option) \<Rightarrow> string \<Rightarrow> string \<Rightarrow> (string \<times> bytes, cli_error) result" where
  "file_part files name path = rbind (ok_or (files path) (Bail path)) (\<lambda>bs. Inr (name, bs))"

definition deploy_form :: "(string \<Rightarrow> bytes option) \<Rightarrow> string \<Rightarrow> manifest \<Rightarrow> ((string \<times> bytes) list, cli_error) result" where
  "deploy_form files manifest_path m =
     rbind (file_part files ''manifest'' manifest_path) (\<lambda>a.
     rbind (file_part files ''schema'' (mf_graphql_schema m)) (\<lambda>b.
     rbind (module_to_string (mf_module m)) (\<lambda>path.
     rbind (file_part files ''wasm'' path) (\<lambda>c. Inr [a, b, c]))))"

text \<open>\<open>built\<close> is the result of the build, after which the manifest and the other files are read.\<close>

definition deploy_op :: "cli_env \<Rightarrow> 'w ask \<Rightarrow> bool \<Rightarrow> (manifest, cli_error) result \<Rightarrow> target_command \<Rightarrow> (outcome, 'w) cli" where
  "deploy_op e ask skip_build built t =
     sbind (slift (if skip_build then Inr () else rbind built (\<lambda>_. Inr ()))) (\<lambda>_.
     sbind (slift (indexer_manifest e (tc_path t) (tc_manifest t))) (\<lambda>(_, manifest_path, m).
     sbind (slift (deploy_form (ce_file e) manifest_path m)) (\<lambda>parts.
     sbind (slift (authorization (tc_auth t))) (\<lambda>h.
     sbind (send_request ask ''Failed to deploy indexer.'' POST (index_url (tc_url t) m) h (MultipartBody parts)) (\<lambda>r.
     slift (conclude r))))))"

section \<open>Logging in (forc\_index\_auth.rs)\<close>

definition derive_signature_from_output :: "string \<Rightarrow> string" where
  "derive_signature_from_output s = trim (last (split_at_char CHR '':'' s))"

definition strip_newline :: "string \<Rightarrow> string option" where
  "strip_newline s = (if s \<noteq> [] \<and> last s = newline then Some (butlast s) else None)"

datatype login = LoggedIn string | NoToken | LoginRefused nat

text \<open>
  The status of a reply, where 400 stands for whichever status axum rejects a request with, and the fields that the tool
  reads from an answer.
\<close>

definition status_of :: "response \<Rightarrow> (nat \<times> answer option, cli_error) result" where
  "status_of r = (case r of Reply status y \<Rightarrow> Inr (status, y) | HealthReply \<Rightarrow> Inr (200, None) | Page _ \<Rightarrow> Inr (200, None) | _ \<Rightarrow> Inr (400, None))"

definition nonce_response :: "answer option \<Rightarrow> (string, cli_error) result" where
  "nonce_response y = (case y of
     Some (NonceOf n) \<Rightarrow> if 0 \<le> no_expiry n then Inr (no_uid n) else Inl (Panic ''invalid value: integer, expected u64'')
   | _ \<Rightarrow> Inl (Panic ''missing field `uid`''))"

definition signature_response :: "answer option \<Rightarrow> (string option, cli_error) result" where
  "signature_response y = (case y of None \<Rightarrow> Inl (Panic ''error decoding response body'') | Some (Token t) \<Rightarrow> Inr (Some t) | Some _ \<Rightarrow> Inr None)"

text \<open>A request whose reply ends the login unless its status is 200.\<close>

definition checked :: "'w ask \<Rightarrow> string \<Rightarrow> http_method \<Rightarrow> string \<Rightarrow> http_body \<Rightarrow> (answer option \<Rightarrow> (login, 'w) cli) \<Rightarrow> (login, 'w) cli" where
  "checked ask msg meth target body rest =
     sbind (send_request ask msg meth target None body) (\<lambda>r.
     sbind (slift (status_of r)) (\<lambda>(status, y). if status \<noteq> 200 then sret (LoginRefused status) else rest y))"

text \<open>\<open>wallet\<close> is what \<^verbatim>\<open>forc-wallet sign\<close> prints for a message, unless it does not run.\<close>

definition auth_op :: "'w ask \<Rightarrow> (string \<Rightarrow> string option) \<Rightarrow> string \<Rightarrow> (login, 'w) cli" where
  "auth_op ask wallet url =
     checked ask ''Failed to deploy indexer.'' GET (url @ ''/api/auth/nonce'') NoBody (\<lambda>y.
     sbind (slift (nonce_response y)) (\<lambda>nonce.
     sbind (slift (ok_or (wallet nonce) (Bail ''Failed to sign nonce''))) (\<lambda>stdout.
     sbind (slift (expect (strip_newline stdout) ''Failed to capture signature output.'')) (\<lambda>msg.
     checked ask ''Failed post signature.'' POST (url @ ''/api/auth/signature'')
         (SignatureBody (derive_signature_from_output msg) nonce) (\<lambda>y.
     sbind (slift (signature_response y)) (\<lambda>token.
     sret (case token of Some t \<Rightarrow> LoggedIn t | None \<Rightarrow> NoToken)))))))"

section \<open>Starting the service (forc\_index\_start.rs)\<close>

text \<open>The arguments of \<^verbatim>\<open>fuel-indexer\<close>; an embedded database is created before by another tool.\<close>

definition option_args :: "string \<Rightarrow> string option \<Rightarrow> string list" where
  "option_args opt v = (case v of None \<Rightarrow> [] | Some x \<Rightarrow> [opt, x])"

definition bool_args :: "(string \<times> bool) list \<Rightarrow> string list" where
  "bool_args opts = map fst (filter snd opts)"

definition start_args :: "indexer_args \<Rightarrow> (string list, cli_error) result" where
  "start_args a =
     rbind
       (case ia_config a of
          Some path \<Rightarrow> Inr [''--config'', path]
        | None \<Rightarrow>
            let options = [''--fuel-node-host'', ia_fuel_node_host a, ''--fuel-node-port'', ia_fuel_node_port a,
                ''--graphql-api-host'', ia_graphql_api_host a, ''--graphql-api-port'', ia_graphql_api_port a, ''--log-level'', ia_log_level a]
              @ bool_args [(''--run-migrations'', ia_run_migrations a), (''--metrics'', ia_metrics a), (''--auth-enabled'', ia_auth_enabled a),
                  (''--verbose'', ia_verbose a), (''--local-fuel-node'', ia_local_fuel_node a)]
              @ concat (map (\<lambda>(opt, v). option_args opt v)
                  [(''--auth-strategy'', ia_auth_strategy a), (''--jwt-secret'', ia_jwt_secret a), (''--jwt-issuer'', ia_jwt_issuer a),
                   (''--jwt-expiry'', map_option (\<lambda>n. show_nat (unat n)) (ia_jwt_expiry a))])
            in if ia_database a = ''postgres''
               then Inr (options @ concat (map (\<lambda>(opt, v). option_args opt v)
                  [(''--postgres-user'', ia_postgres_user a), (''--postgres-password'', ia_postgres_password a),
                   (''--postgres-host'', ia_postgres_host a), (''--postgres-port'', ia_postgres_port a),
                   (''--postgres-database'', ia_postgres_database a)]))
               else Inl (Panic ''postgres is currently the only supported database option.''))
       (\<lambda>args. Inr (''run'' # option_args ''--manifest'' (ia_manifest a) @ args))"

end
