(* ===== verification/Forc_Index_Laws.thy ===== *)
theory Forc_Index_Laws
  imports Forc_Index
begin

text \<open>
  The command line tool and the server together: what a login, a deployment and a removal that are reported as done
  have done to the system, over a transport that hands each request to the server as it is.
\<close>

section \<open>A transport\<close>

text \<open>
  The server at \<open>base\<close>; the world is the number of requests so far, which gives their time, and the system. A target's
  path arrives as it was sent, as it does for paths of unreserved characters.
\<close>

definition server_at ::
    "api_env \<Rightarrow> indexer_config \<Rightarrow> string \<Rightarrow> (http_body \<Rightarrow> nat) \<Rightarrow> (nat \<Rightarrow> moment) \<Rightarrow> (nat \<times> system) ask" where
  "server_at ap c base len clock meth target auth body w =
     (if take (length base) target = base
      then case http_handle ap c (clock (fst w)) \<lparr>rq_method = meth, rq_path = drop (length base) target, rq_authorization = auth,
             rq_length = len body, rq_body = body\<rparr> (snd w) of (r, s) \<Rightarrow> (r, (Suc (fst w), s))
      else (Dropped, w))"

lemma server_at_path:
  "server_at ap c base len clock meth (base @ path) auth body (n, s) =
     (case http_handle ap c (clock n) \<lparr>rq_method = meth, rq_path = path, rq_authorization = auth, rq_length = len body, rq_body = body\<rparr> s
      of (r, s') \<Rightarrow> (r, (Suc n, s')))"
  by (simp add: server_at_def)

definition unreserved :: string where
  "unreserved = ''abcdefghijklmnopqrstuvwxyzABCDEFGHIJKLMNOPQRSTUVWXYZ0123456789-._~''"

definition url_safe :: "string \<Rightarrow> bool" where
  "url_safe name \<longleftrightarrow> name \<noteq> [] \<and> name \<noteq> ''.'' \<and> name \<noteq> ''..'' \<and> set name \<subseteq> set unreserved"

definition safe_names :: "manifest \<Rightarrow> bool" where
  "safe_names m \<longleftrightarrow> url_safe (mf_namespace m) \<and> url_safe (mf_identifier m)"

lemma safe_no_slash: "url_safe name \<Longrightarrow> CHR ''/'' \<notin> set name"
proof -
  have "CHR ''/'' \<notin> set unreserved" by code_simp
  then show "url_safe name \<Longrightarrow> CHR ''/'' \<notin> set name" by (auto simp: url_safe_def)
qed

lemma safe_routed:
  assumes "safe_names m"
  shows "api_route meth (index_path (mf_namespace m) (mf_identifier m)) = index_route meth (mf_namespace m) (mf_identifier m)"
  using assms by (intro index_path_routed safe_no_slash) (auto simp: safe_names_def url_safe_def)

lemma error_status_not_ok: "error_status e \<noteq> 200"
  by (simp add: error_status_def split: api_error.split http_error.split)

section \<open>What a command's result says\<close>

lemma send_request_Inr:
  "send_request ask msg meth target auth body w = (Inr r, w') \<longleftrightarrow> ask meth target auth body w = (r, w') \<and> r \<noteq> Dropped"
  by (auto simp: send_request_def split: prod.splits)

lemma slift_Inr: "slift r w = (Inr x, w') \<longleftrightarrow> r = Inr x \<and> w' = w"
  by (auto simp: slift_def)

lemma conclude_Confirmed: "conclude r = Inr (Confirmed y) \<longleftrightarrow> r = Reply 200 y \<or> r = HealthReply \<and> y = None"
  by (auto simp: conclude_def split: response.splits if_splits)

lemma into_response_ok: "into_response r = Reply 200 y \<longleftrightarrow> (\<exists>x. r = Inr x \<and> y = Some x)"
  using error_status_not_ok by (auto simp: into_response_def split: sum.splits fault.splits)

lemma removal_handled:
  assumes "safe_names m" "http_handle ap c mo \<lparr>rq_method = DELETE, rq_path = index_path (mf_namespace m) (mf_identifier m),
      rq_authorization = auth, rq_length = k, rq_body = b\<rparr> s = (r, s')" "conclude r = Inr (Confirmed y)"
  shows "handle_api ap (Stop auth (mf_namespace m) (mf_identifier m)) s = (Inr Success, s')"
proof -
  let ?q = "Stop auth (mf_namespace m) (mf_identifier m)"
  obtain x s2 where h: "handle_api ap ?q s = (x, s2)" by fastforce
  from assms(2) h have "r = Rejected \<or> r = into_response x \<and> s' = s2"
    by (auto simp: http_handle_def safe_routed [OF assms(1)] index_route_def handler_request_def split: if_splits simp del: handle_api.simps)
  with assms(3) have ok: "r = into_response x" "s' = s2" by (auto simp: conclude_def)
  with assms(3) obtain a where a: "x = Inr a"
    by (auto simp: conclude_Confirmed into_response_ok) (auto simp: into_response_def split: sum.splits fault.splits)
  have "a = Success" using h unfolding a by (auto simp: as_answer_Inr dest!: slift_then)
  with h a ok(2) show ?thesis by (simp del: handle_api.simps)
qed

text \<open>
  When \<^verbatim>\<open>forc index remove\<close> reports success, its token was accepted, the indexer is gone from the registry, and
  the service has been told to stop exactly that indexer.
\<close>

theorem reported_removal_is_done:
  assumes "indexer_manifest e (tc_path t) (tc_manifest t) = Inr (root, manifest_path, m)" "safe_names m" "db_ok (system_db s)"
    and "remove_op e (server_at ap c (tc_url t) len clock) t (n, s) = (Inr (Confirmed y), (n', s'))"
  shows "find_index (db_tables (system_db s')) (mf_namespace m) (mf_identifier m) = None
    \<and> sy_queue s' = sy_queue s @ [IndexStop (mf_namespace m) (mf_identifier m)]
    \<and> (\<exists>claims. middleware ap (tc_auth t) = Inr claims \<and> \<not> is_unauthenticated claims)"
proof -
  let ?auth = "tc_auth t" and ?url = "tc_url t"
  let ?ns = "mf_namespace m" and ?id = "mf_identifier m"
  from assms(1,4) obtain h r where h: "authorization ?auth = Inr h" "conclude r = Inr (Confirmed y)"
    and ask: "server_at ap c ?url len clock DELETE (index_url ?url m) h NoBody (n, s) = (r, (n', s'))"
    by (auto simp: remove_op_def sbind_Inr slift_Inr send_request_Inr)
  from h(1) have h': "h = ?auth" by (auto simp: authorization_def split: option.splits if_splits)
  from ask have handled: "http_handle ap c (clock n) \<lparr>rq_method = DELETE, rq_path = index_path ?ns ?id, rq_authorization = ?auth,
      rq_length = len NoBody, rq_body = NoBody\<rparr> s = (r, s')"
    unfolding index_url_def server_at_path h' by (simp split: prod.splits)
  from removal_handled [OF assms(2) handled h(2)] obtain claims where cl: "middleware ap ?auth = Inr claims"
      and stop: "stop_indexer claims ?ns ?id s = (Inr (), s')"
    by (auto simp: as_answer_Inr sbind_Inr slift_Inr)
  from stop have auth: "\<not> is_unauthenticated claims" by (auto simp: stop_indexer_def slift_def split: if_splits)
  from stop auth obtain d1 where d1: "start_transaction (system_db s) = (Inr (), d1)"
    by (auto simp: stop_indexer_def sbind_Inr aquery_Inr)
  obtain x d2 where d2: "remove_indexer ?ns ?id d1 = (x, d2)" by fastforce
  from stop auth d1 d2 obtain d3 where x: "x = Inr ()" and d3: "commit_transaction d2 = (Inr (), d3)"
    and s': "s' = (with_db d3 s)\<lparr>sy_queue := sy_queue s @ [IndexStop ?ns ?id]\<rparr>"
    by (auto simp: stop_indexer_def sbind_def aquery_def send_def slift_def map_fault_Inr split: if_splits sum.splits fault.splits prod.splits)
  from keepsD [OF keeps_transactions(1) assms(3)] d1 have ok: "db_ok d1" by simp
  note gone = removed_indexer_is_gone [OF ok d2 [unfolded x]]
  from d1 have "\<not> db_aborted d1" by (auto simp: start_transaction_def split: if_splits)
  with remove_indexer_found [of d1 ?ns ?id] gone d2 have "\<not> db_aborted d2" by fastforce
  with d3 have "db_tables d3 = db_tables d2" by (auto simp: commit_transaction_def split: if_splits)
  with gone cl auth show ?thesis by (auto simp: s' system_db_def)
qed

section \<open>Logging in and deploying\<close>

lemma deployment_handled:
  assumes "safe_names m" "octets \<le> gc_max_body_size (ic_graphql_api c)"
  shows "http_handle ap c mo \<lparr>rq_method = POST, rq_path = index_path (mf_namespace m) (mf_identifier m), rq_authorization = auth,
      rq_length = octets, rq_body = MultipartBody parts\<rparr> s
    = (case handle_api ap (Upload auth (mf_namespace m) (mf_identifier m) (Some parts)) s of (r, s') \<Rightarrow> (into_response r, s'))"
  using assms(2) by (simp add: http_handle_def safe_routed [OF assms(1)] index_route_def handler_request_def del: handle_api.simps)

text \<open>The two requests of a login, as the server handles them.\<close>

lemma nonce_created:
  assumes "handle_api ap (GetNonce name now) s = (Inr y, s')"
  shows "\<exists>nonce. y = NonceOf nonce \<and> no_uid nonce = name"
  using assms by (auto simp: as_answer_Inr api_get_nonce_def aquery_Inr create_nonce_def statement_def Let_def split: if_splits sum.splits)

lemma checked_logged_in:
  assumes "checked ask msg meth target body rest w = (Inr (LoggedIn token), w')" "ask meth target None body w = (into_response x, w1)"
  shows "\<exists>a. x = Inr a \<and> rest (Some a) w1 = (Inr (LoggedIn token), w')"
  using assms
  by (auto simp: checked_def sbind_Inr slift_Inr send_request_Inr status_of_def into_response_def sret_def error_status_not_ok
      split: sum.splits fault.splits if_splits)

lemma checked_ok:
  "ask meth target None body w = (Reply 200 y, w1) \<Longrightarrow> checked ask msg meth target body rest w = rest y w1"
  by (simp add: checked_def sbind_def slift_def send_request_def status_of_def)

lemma login_requests:
  assumes "auth_op (server_at ap c url len clock) wallet url (n, s) = (Inr (LoggedIn token), (n', s'))"
  shows "\<exists>s1 signature. handle_api ap (VerifySignature (mo_now (clock (Suc n))) (mo_issued (clock (Suc n))) signature (mo_uid (clock n))) s1
      = (Inr (Token token), s')
    \<and> (\<exists>out msg. wallet (mo_uid (clock n)) = Some out \<and> strip_newline out = Some msg \<and> signature = derive_signature_from_output msg)"
proof -
  let ?name = "mo_uid (clock n)"
  obtain r1 s1 where r1: "handle_api ap (GetNonce ?name (mo_now (clock n))) s = (r1, s1)" by fastforce
  have ask1: "server_at ap c url len clock GET (url @ ''/api/auth/nonce'') None NoBody (n, s) = (into_response r1, (Suc n, s1))"
    unfolding server_at_path using r1
    by (simp add: http_handle_def auth_paths_routed limited_def handler_request_def del: handle_api.simps)
  from checked_logged_in [OF assms [unfolded auth_op_def] ask1] obtain y where y: "r1 = Inr y"
    and rest: "(sbind (slift (nonce_response (Some y))) (\<lambda>nonce.
       sbind (slift (ok_or (wallet nonce) (Bail ''Failed to sign nonce''))) (\<lambda>stdout.
       sbind (slift (expect (strip_newline stdout) ''Failed to capture signature output.'')) (\<lambda>msg.
       checked (server_at ap c url len clock) ''Failed post signature.'' POST (url @ ''/api/auth/signature'')
         (SignatureBody (derive_signature_from_output msg) nonce) (\<lambda>y.
       sbind (slift (signature_response y)) (\<lambda>token.
       sret (case token of Some t \<Rightarrow> LoggedIn t | None \<Rightarrow> NoToken))))))) (Suc n, s1) = (Inr (LoggedIn token), (n', s'))" by blast
  from nonce_created r1 y obtain nonce where "y = NonceOf nonce" "no_uid nonce = ?name" by blast
  with rest obtain out msg where w: "wallet ?name = Some out" "strip_newline out = Some msg"
    and post: "checked (server_at ap c url len clock) ''Failed post signature.'' POST (url @ ''/api/auth/signature'')
       (SignatureBody (derive_signature_from_output msg) ?name) (\<lambda>y. sbind (slift (signature_response y)) (\<lambda>token.
       sret (case token of Some t \<Rightarrow> LoggedIn t | None \<Rightarrow> NoToken))) (Suc n, s1) = (Inr (LoggedIn token), (n', s'))"
    by (auto simp: sbind_Inr [where m = "slift _"] slift_Inr nonce_response_def expect_def ok_or_def split: if_splits option.splits)
  let ?sig = "derive_signature_from_output msg"
  obtain r2 s2 where r2: "handle_api ap (VerifySignature (mo_now (clock (Suc n))) (mo_issued (clock (Suc n))) ?sig ?name) s1 = (r2, s2)"
    by fastforce
  have ask2: "server_at ap c url len clock POST (url @ ''/api/auth/signature'') None (SignatureBody ?sig ?name) (Suc n, s1)
      = (into_response r2, (Suc (Suc n), s2))"
    unfolding server_at_path using r2
    by (simp add: http_handle_def auth_paths_routed limited_def handler_request_def del: handle_api.simps)
  from checked_logged_in [OF post ask2] obtain z where "r2 = Inr z"
      "sbind (slift (signature_response (Some z))) (\<lambda>token. sret (case token of Some t \<Rightarrow> LoggedIn t | None \<Rightarrow> NoToken)) (Suc (Suc n), s2)
        = (Inr (LoggedIn token), (n', s'))" by blast
  moreover from this have "z = Token token" "s2 = s'"
    by (auto simp: sbind_Inr slift_Inr signature_response_def sret_def split: answer.splits option.splits)
  ultimately show ?thesis using r2 w by blast
qed

lemma issued_claims:
  assumes "issue_token ap issued message n sig s = (Inr token, s')"
  shows "\<exists>cl. ap_recover ap sig message = Some (cl_sub cl) \<and> ap_verify ap sig (cl_sub cl) message \<and> cl_iat cl = issued
    \<and> ap_jwt_encode ap (case au_jwt_secret (ap_auth ap) of None \<Rightarrow> [] | Some k \<Rightarrow> k) cl = Some token"
proof -
  let ?key = "case au_jwt_secret (ap_auth ap) of None \<Rightarrow> [] | Some k \<Rightarrow> k"
  let ?cl = "\<lambda>pk. \<lparr>cl_sub = pk, cl_iss = (case au_jwt_issuer (ap_auth ap) of None \<Rightarrow> [] | Some i \<Rightarrow> i), cl_iat = issued,
             cl_exp = issued + (case au_jwt_expiry (ap_auth ap) of None \<Rightarrow> jwt_expiry_secs | Some e \<Rightarrow> e)\<rparr>"
  from assms obtain pk where pk: "ap_recover ap sig message = Some pk"
    by (cases "ap_recover ap sig message") (simp_all add: issue_token_def sbind_def slift_def ok_or_def)
  with assms have ok: "ap_verify ap sig pk message"
    by (auto simp: issue_token_def sbind_def slift_def ok_or_def Let_def split: if_splits)
  with assms pk have "ap_jwt_encode ap ?key (?cl pk) = Some token"
    by (cases "ap_jwt_encode ap ?key (?cl pk)")
       (auto simp: issue_token_def sbind_def slift_def sret_def ok_or_def Let_def split: prod.splits sum.splits)
  with ok have "ap_verify ap sig pk message" "ap_jwt_encode ap ?key (?cl pk) = Some token" by simp_all
  with pk show ?thesis by (intro exI [of _ "?cl pk"]) simp
qed

lemma token_names_signer:
  assumes "au_enabled (ap_auth ap)" "au_strategy (ap_auth ap) = Some JWT"
    and "\<And>k cl t. ap_jwt_encode ap k cl = Some t \<Longrightarrow> ap_jwt_decode ap k t = Some cl"
    and "handle_api ap (VerifySignature now issued signature message) s = (Inr (Token token), s')" "issued \<noteq> 1"
  shows "\<exists>cl sig. middleware ap (Some token) = Inr cl \<and> \<not> is_unauthenticated cl
    \<and> ap_recover ap sig message = Some (cl_sub cl) \<and> ap_verify ap sig (cl_sub cl) message"
proof -
  from assms(4) have "verify_signature ap now issued signature message s = (Inr token, s')" by (simp add: as_answer_Inr)
  then obtain n sig s1 where "issue_token ap issued message n sig s1 = (Inr token, s')"
    by (auto simp: verify_signature_jwt [OF assms(1,2)] sbind_Inr slift_Inr split: if_splits)
  from issued_claims [OF this] obtain cl where cl: "ap_recover ap sig message = Some (cl_sub cl)" "ap_verify ap sig (cl_sub cl) message"
      "cl_iat cl = issued" "ap_jwt_encode ap (case au_jwt_secret (ap_auth ap) of None \<Rightarrow> [] | Some k \<Rightarrow> k) cl = Some token" by blast
  from assms(3) [OF cl(4)] have "middleware ap (Some token) = Inr cl" by (simp add: middleware_def assms(1,2) Let_def)
  moreover from cl(3) assms(5) have "\<not> is_unauthenticated cl" by (simp add: is_unauthenticated_def)
  ultimately show ?thesis using cl(1,2) by blast
qed


section \<open>Building and starting\<close>

text \<open>A build changes nothing of the manifest but the module, whose path does not depend on the directory for artifacts.\<close>

lemma build_sets_module:
  assumes "build_op e package cargo snip b = Inr m'"
  shows "\<exists>m path. ce_manifest e path = Inr m
    \<and> (m' = m \<and> bc_native b \<or> (\<exists>optimized name. m' = m\<lparr>mf_module := WasmModule (snd (wasm_paths (b\<lparr>bc_target_dir := None\<rparr>) optimized name))\<rparr>))"
  using assms
  by (auto simp: build_op_def rbind_Inr_iff Let_def wasm_paths_def split: if_splits option.splits bool.splits prod.splits)

text \<open>Settings of \<^verbatim>\<open>forc index start\<close> that the service is not told of.\<close>

lemma settings_not_handed_on:
  "start_args (a\<lparr>ia_max_body_size := n, ia_stop_idle_indexers := b, ia_indexer_net_config := c\<rparr>) = start_args a"
  by (cases "ia_config a") (simp_all add: start_args_def)

section \<open>Examples\<close>

definition cli_manifest :: manifest where
  "cli_manifest = \<lparr>mf_namespace = ''ns'', mf_abi = None, mf_identifier = ''idx'', mf_fuel_client = None, mf_graphql_schema = ''s.graphql'',
     mf_module = WasmModule ''m.wasm'', mf_metrics = None, mf_contract_id = Single None, mf_start_block = None, mf_resumable = None\<rparr>"

definition cli_world :: cli_env where
  "cli_world = \<lparr>ce_cwd = ''/p'', ce_canonical = (\<lambda>d. Some (d, Some ''p'')), ce_manifest = (\<lambda>_. Inr cli_manifest), ce_file = (\<lambda>_. Some [1])\<rparr>"

lemma cli_world_manifest: "indexer_manifest cli_world None None = Inr (''/p'', ''/p/p.manifest.yaml'', cli_manifest)"
  by (simp add: indexer_manifest_def project_dir_info_def cli_world_def ok_or_def expect_def manifest_name_def dasherize_to_underscore_def
      path_join_def Let_def)

definition cli_target :: "string \<Rightarrow> target_command" where
  "cli_target token = \<lparr>tc_url = ''http://h'', tc_manifest = None, tc_path = None, tc_auth = Some token\<rparr>"

lemma demo_names: "safe_names cli_manifest"
proof -
  have "set ''ns'' \<subseteq> set unreserved" "set ''idx'' \<subseteq> set unreserved" by code_simp+
  then show ?thesis by (simp add: safe_names_def url_safe_def cli_manifest_def)
qed

definition demo_clock :: "nat \<Rightarrow> moment" where
  "demo_clock n = \<lparr>mo_uid = ''n1'', mo_now = 50, mo_issued = 50\<rparr>"

lemma demo_paths:
  "api_route meth ''/api/index/ns/idx'' = index_route meth ''ns'' ''idx''"
  using safe_routed [OF demo_names, of meth] by (simp add: cli_manifest_def index_path_def)

lemma reported_removal_is_done_witness:
  "\<exists>y s'. remove_op cli_world (server_at demo_api config_default ''http://h'' (\<lambda>_. 0) demo_clock) (cli_target ''good'') (0, demo_system)
      = (Inr (Confirmed y), (1, s')) \<and> sy_queue s' = [IndexStop ''ns'' ''idx'']"
proof -
  let ?server = "server_at demo_api config_default ''http://h'' (\<lambda>_. 0) demo_clock"
  obtain s' where "handle_api demo_api (Stop (Some ''good'') ''ns'' ''idx'') demo_system = (Inr Success, s')"
    by (simp add: demo_middleware is_unauthenticated_def as_answer_def sbind_def stop_indexer_def aquery_def demo_system_def
        system_db_def with_db_def demo_service_db served_database_def empty_database_def empty_tables_def
        start_transaction_def commit_transaction_def remove_indexer_def dbind_def index_id_for_def select_one_simp
        delete_assets_def delete_index_def update_simp send_def)
  moreover have "authorization (Some ''good'') = Inr (Some ''good'')" by (simp add: authorization_def header_value_def)
  ultimately have run: "remove_op cli_world ?server (cli_target ''good'') (0, demo_system)
      = (Inr (Confirmed (Some Success)), (1, s'))"
    by (simp add: remove_op_def cli_target_def cli_world_manifest sbind_def slift_def send_request_def index_url_def server_at_def http_handle_def cli_manifest_def
        index_path_def demo_paths index_route_def limited_def handler_request_def into_response_def conclude_def
        del: handle_api.simps)
  from reported_removal_is_done [of cli_world "cli_target ''good''", OF _ demo_names demo_system_ok(1), of _ _ demo_api config_default] run
  show ?thesis by (auto simp: demo_system_def cli_manifest_def cli_world_manifest cli_target_def)
qed

text \<open>A server whose tokens decode to their claims, and a wallet.\<close>

definition key_claims :: claims where
  "key_claims = \<lparr>cl_sub = ''key'', cl_iss = [], cl_iat = 50, cl_exp = 2592050\<rparr>"

definition token_api :: api_env where
  "token_api = demo_api\<lparr>ap_jwt_encode := (\<lambda>k cl. if cl = key_claims then Some ''t'' else None), ap_jwt_decode := (\<lambda>k t. Some key_claims)\<rparr>"


end
