(* ===== verification/Database_Pool.thy ===== *)
theory Database_Pool
  imports Config "HOL-Library.AList"
begin

text \<open>
  The pool of connections, \<^verbatim>\<open>fuel-indexer-database/src/lib.rs\<close>, and the health check of the web API that looks at it. The
  parsing of a URL, the options that Postgres takes from it, the order of a hash map and the answers of the database
  are arguments.
\<close>

section \<open>Connecting\<close>

datatype indexer_database_error = InvalidConnectionString string | BackendNotSupported string | SqlxOptions

text \<open>\<open>parse\<close> gives the scheme and the pairs of the query; of pairs with the same key a hash map keeps the last.\<close>

definition collect_pairs :: "(string \<times> string) list \<Rightarrow> (string \<times> string) list" where
  "collect_pairs ps = foldl (\<lambda>m (k, v). AList.update k v m) [] ps"

definition verbose_db_logging :: string where
  "verbose_db_logging = ''false''"

definition pool_connect ::
    "(string \<Rightarrow> (string \<times> (string \<times> string) list) option) \<Rightarrow> ((string \<times> string) list \<Rightarrow> (string \<times> string) list)
      \<Rightarrow> (string \<Rightarrow> string \<Rightarrow> 'o option) \<Rightarrow> ('o \<times> bool \<Rightarrow> 'c option list) \<Rightarrow> string
      \<Rightarrow> ('c, indexer_database_error) result option" where
  "pool_connect parse order options answers url =
     (case parse url of
        None \<Rightarrow> Some (Inl (Err (InvalidConnectionString url)))
      | Some (scheme, pairs) \<Rightarrow>
          (let all = collect_pairs pairs;
               verbose = (case map_of all ''verbose'' of None \<Rightarrow> verbose_db_logging | Some v \<Rightarrow> v);
               query = join ''&'' (map (\<lambda>(k, v). k @ ''='' @ v) (order (AList.delete ''verbose'' all)))
           in if scheme \<noteq> ''postgres'' then Some (Inl (Err (BackendNotSupported scheme)))
              else if verbose \<noteq> ''true'' \<and> verbose \<noteq> ''false'' then Some (Inl (Panic ''not implemented''))
              else case options url query of
                  None \<Rightarrow> Some (Inl (Err SqlxOptions))
                | Some opts \<Rightarrow>
                    map_option (\<lambda>(r, _). map_fault (\<lambda>_. SqlxOptions) r)
                      (attempt_database_connection (answers (opts, verbose = ''true'')))))"

section \<open>Health\<close>

datatype service_status = OK | NotOk

text \<open>A connection is asked to run a statement, which should give one row.\<close>

definition is_connected :: "(unit, sql_error) result \<Rightarrow> (nat, sql_error) result \<Rightarrow> (service_status, sql_error) result" where
  "is_connected acquired executed =
     rbind acquired (\<lambda>_. rbind executed (\<lambda>rows. Inr (if rows = 1 then OK else NotOk)))"

text \<open>The node's answer, with its body where that can be read, and whether the JSON in it says that the node is up.\<close>

definition get_fuel_status :: "(bytes \<Rightarrow> bool option) \<Rightarrow> bytes option option \<Rightarrow> service_status" where
  "get_fuel_status up reply =
     (case reply of
        None \<Rightarrow> NotOk
      | Some body \<Rightarrow>
          (case up (case body of None \<Rightarrow> [] | Some bs \<Rightarrow> bs) of Some True \<Rightarrow> OK | _ \<Rightarrow> NotOk))"

record health =
  he_fuel_core_status :: service_status
  he_uptime :: string
  he_database_status :: service_status

definition health_check :: "(service_status, sql_error) result \<Rightarrow> nat \<Rightarrow> service_status \<Rightarrow> health" where
  "health_check connected seconds fuel =
     \<lparr>he_fuel_core_status = fuel, he_uptime = show_nat seconds,
       he_database_status = (case connected of Inr st \<Rightarrow> st | Inl _ \<Rightarrow> NotOk)\<rparr>"

section \<open>Properties\<close>

lemma args_verbose: "args_database env a = Inr d \<Longrightarrow> dc_verbose d = show_bool (ia_verbose a)"
  by (auto simp: args_database_def split: if_splits)

lemma inject_keeps_verbose: "inject_opt_env_vars env c = Inr c' \<Longrightarrow> dc_verbose (ic_database c') = dc_verbose (ic_database c)"
  by (auto simp: inject_opt_env_vars_def inject_database_def rbind_Inr_iff)

lemma expect_injected_Inr: "expect_injected r = Inr c \<longleftrightarrow> r = Inr c"
  by (auto simp: expect_injected_def split: sum.splits fault.splits)

lemma configured_verbose:
  assumes "config_from_args env a = Inr c"
  shows "dc_verbose (ic_database c) = show_bool (ia_verbose a)"
  using assms by (auto simp: config_from_args_def rbind_Inr_iff expect_injected_Inr dest!: args_verbose inject_keeps_verbose)

lemma attempts_answered:
  assumes "k \<le> retries"
  shows "attempt_loop retries delay slept (replicate k None @ Some conn # rest) = Some (Inr conn, slept + delay * (2 ^ k - 1))"
  using assms
proof (induction k arbitrary: retries delay slept)
  case (Suc k)
  then have "attempt_loop (retries - 1) (delay * 2) (slept + delay) (replicate k None @ Some conn # rest)
      = Some (Inr conn, slept + delay + delay * 2 * (2 ^ k - 1))" by simp
  moreover have "slept + delay + delay * 2 * (2 ^ k - 1) = slept + delay * (2 ^ Suc k - 1)"
  proof -
    obtain p where p: "(2 :: nat) ^ k = Suc p" by (cases "(2 :: nat) ^ k") auto
    then show ?thesis by (simp add: algebra_simps)
  qed
  ultimately show ?case using Suc.prems by simp
qed simp

text \<open>
  The service connects with the configuration that it was given on the command line: its own connection string
  names a supported database, and unless the database refuses six times, a pool comes back, which logs
  statements exactly when \<^verbatim>\<open>--verbose\<close> was given.
\<close>

lemma configured_pool_connects:
  assumes "config_from_args env a = Inr c"
    and "parse (database_url (ic_database c)) = Some (''postgres'', [(''verbose'', dc_verbose (ic_database c))])"
    and "\<And>url query. options url query = Some opts" "k \<le> 5"
    and "answers (opts, ia_verbose a) = replicate k None @ Some conn # rest"
  shows "pool_connect parse order options answers (database_url (ic_database c)) = Some (Inr conn)"
proof -
  have "attempt_database_connection (answers (opts, ia_verbose a)) = Some (Inr conn, 2 * (2 ^ k - 1))"
    using attempts_answered [of k 5 2 0 conn rest] assms(4,5)
    by (simp add: attempt_database_connection_def max_database_connection_attempts_def initial_retry_delay_secs_def)
  with assms(2,3) configured_verbose [OF assms(1)] show ?thesis
    by (cases "ia_verbose a") (simp_all add: pool_connect_def collect_pairs_def Let_def show_bool_def map_fault_def)
qed

end
