(* ===== verification/Indexer_Utils.thy ===== *)
theory Indexer_Utils
  imports Ft_Column
begin

text \<open>
  The helpers that indexers make ids with: \<^verbatim>\<open>indexer_utils\<close> in \<^verbatim>\<open>fuel-indexer-lib/src/utils.rs\<close>, which the plugin hands
  on to every module. The hash function is an argument.
\<close>

section \<open>Ids (utils.rs)\<close>

definition sha256_digest :: "(bytes \<Rightarrow> bytes) \<Rightarrow> bytes \<Rightarrow> string" where
  "sha256_digest sha blob = hex_encode (sha blob)"

definition as_bytes :: "string \<Rightarrow> bytes" where
  "as_bytes s = map of_char s"

text \<open>\<^verbatim>\<open>copy_from_slice\<close> from the start of a text, which panics when the text is shorter.\<close>

definition first_bytes :: "nat \<Rightarrow> string \<Rightarrow> (bytes, 'e) result" where
  "first_bytes n s = (if n \<le> length s then Inr (take n (as_bytes s)) else Inl (Panic ''range end index out of range for slice''))"

definition u64_id :: "bytes \<Rightarrow> 64 word" where
  "u64_id d = from_le_bytes d"

definition first8_bytes_to_u64 :: "(bytes \<Rightarrow> bytes) \<Rightarrow> bytes \<Rightarrow> (64 word, 'e) result" where
  "first8_bytes_to_u64 sha data = rbind (first_bytes 8 (sha256_digest sha data)) (\<lambda>buff. Inr (u64_id buff))"

definition first32_bytes_to_bytes32 :: "(bytes \<Rightarrow> bytes) \<Rightarrow> bytes \<Rightarrow> (bytes, 'e) result" where
  "first32_bytes_to_bytes32 sha data = first_bytes 32 (sha256_digest sha data)"

definition u64_id_from_inputs :: "(bytes \<Rightarrow> bytes) \<Rightarrow> bytes \<Rightarrow> bytes \<Rightarrow> (64 word, 'e) result" where
  "u64_id_from_inputs sha ident inputs = first8_bytes_to_u64 sha (concat [ident, inputs])"

definition bytes32_from_inputs :: "(bytes \<Rightarrow> bytes) \<Rightarrow> bytes \<Rightarrow> bytes \<Rightarrow> (bytes, 'e) result" where
  "bytes32_from_inputs sha ident inputs = first32_bytes_to_bytes32 sha (concat [ident, inputs])"

definition trim_sized_ascii_string :: "string \<Rightarrow> string" where
  "trim_sized_ascii_string s = rev (dropWhile (\<lambda>c. c = CHR '' '') (rev s))"

section \<open>How many ids there are\<close>

text \<open>The bytes of a digest's text are the codes of hexadecimal digits.\<close>

definition hex_codes :: "8 word set" where
  "hex_codes = (\<lambda>d. of_char (digit_char d)) ` {..<16}"

lemma card_hex_codes: "card hex_codes \<le> 16"
  unfolding hex_codes_def using card_image_le [of "{..<16 :: nat}"] by simp

lemma finite_hex_codes: "finite hex_codes"
  by (simp add: hex_codes_def)

lemma hex_byte_codes: "set (as_bytes (hex_byte b)) \<subseteq> hex_codes"
proof -
  have "unat b div 16 < 16" using unsigned_less [of b, where 'a = nat] by (simp add: less_mult_imp_div_less)
  then show ?thesis by (auto simp: as_bytes_def hex_byte_def hex_codes_def)
qed

lemma digest_codes: "set (as_bytes (sha256_digest sha blob)) \<subseteq> hex_codes"
  using hex_byte_codes by (fastforce simp: sha256_digest_def hex_encode_def as_bytes_def)

lemma first_bytes_codes: "first_bytes n (sha256_digest sha blob) = Inr buff \<Longrightarrow> length buff = n \<and> set buff \<subseteq> hex_codes"
  using digest_codes [of sha blob] by (auto simp: first_bytes_def as_bytes_def dest!: in_set_takeD split: if_splits)

lemma card_code_lists: "card {xs. set xs \<subseteq> hex_codes \<and> length xs = n} \<le> 16 ^ n"
  using card_hex_codes by (simp add: card_lists_length_eq [OF finite_hex_codes] power_mono)

lemma few_values:
  assumes "range f \<subseteq> g ` {xs. set xs \<subseteq> hex_codes \<and> length xs = n}" "inj_on f A"
  shows "finite A \<and> card A \<le> 16 ^ n"
proof -
  let ?L = "{xs. set xs \<subseteq> hex_codes \<and> length xs = n}"
  have fin: "finite ?L" by (rule finite_lists_length_eq [OF finite_hex_codes])
  have sub: "f ` A \<subseteq> g ` ?L" using assms(1) by blast
  then have "finite (f ` A)" using fin by (blast intro: finite_subset)
  with assms(2) have "finite A" by (simp add: finite_image_iff)
  moreover have "card A = card (f ` A)" by (simp add: card_image [OF assms(2)])
  moreover have "card (f ` A) \<le> card (g ` ?L)" using sub fin by (intro card_mono) auto
  moreover have "card (g ` ?L) \<le> card ?L" by (rule card_image_le [OF fin])
  ultimately show ?thesis using card_code_lists [of n] by linarith
qed

lemma digest_prefix:
  assumes "length (sha x) = 32" "n \<le> 64"
  shows "\<exists>buff. first_bytes n (sha256_digest sha x) = Inr buff \<and> set buff \<subseteq> hex_codes \<and> length buff = n"
proof -
  have "first_bytes n (sha256_digest sha x) = Inr (take n (as_bytes (sha256_digest sha x)))"
    using assms by (simp add: first_bytes_def sha256_digest_def)
  with first_bytes_codes show ?thesis by blast
qed

text \<open>
  C24: the 64-bit ids that modules make of hashes have only \<open>2 ^ 32\<close> values and the 32-byte ids only \<open>2 ^ 128\<close>,
  whatever the hash function is: they are cut from the hexadecimal text of the digest, not from the digest. A set
  of inputs that all get different ids has at most that many members, so that blocks or transactions share ids long
  before the 64 bits are used up. Making an id never panics.
\<close>

theorem ids_use_half_their_bits:
  fixes key :: "bytes \<Rightarrow> (64 word, 'e) result" and long_key :: "bytes \<Rightarrow> (bytes, 'e) result"
  assumes "\<And>x. length (sha x) = 32" and key: "key = first8_bytes_to_u64 sha" and long_key: "long_key = first32_bytes_to_bytes32 sha"
  shows "(\<exists>ident. key x = Inr ident) \<and> (\<exists>ident. long_key x = Inr ident)
    \<and> (inj_on key A \<longrightarrow> finite A \<and> card A \<le> 2 ^ 32) \<and> (inj_on long_key A \<longrightarrow> finite A \<and> card A \<le> 2 ^ 128)"
proof -
  have 8: "\<exists>buff. key x = Inr (u64_id buff) \<and> set buff \<subseteq> hex_codes \<and> length buff = 8" for x
  proof -
    obtain buff where "first_bytes 8 (sha256_digest sha x) = (Inr buff :: (bytes, 'e) result)" "set buff \<subseteq> hex_codes" "length buff = 8"
      using digest_prefix [of sha x 8, OF assms(1)] by auto
    then show ?thesis by (auto simp: key first8_bytes_to_u64_def intro!: exI [of _ buff])
  qed
  have 32: "\<exists>buff. long_key x = Inr buff \<and> set buff \<subseteq> hex_codes \<and> length buff = 32" for x
    using digest_prefix [of sha x 32, OF assms(1)] by (auto simp: long_key first32_bytes_to_bytes32_def)
  have "range key \<subseteq> (\<lambda>b. Inr (u64_id b)) ` {xs. set xs \<subseteq> hex_codes \<and> length xs = 8}" using 8 by blast
  moreover have "range long_key \<subseteq> Inr ` {xs. set xs \<subseteq> hex_codes \<and> length xs = 32}" using 32 by blast
  ultimately show ?thesis using 8 [of x] 32 [of x] few_values [of key _ 8 A] few_values [of long_key _ 32 A] by fastforce
qed

lemma ids_use_half_their_bits_witness:
  "\<not> inj_on (first8_bytes_to_u64 (\<lambda>b. take 32 (b @ replicate 32 0)) :: bytes \<Rightarrow> (64 word, unit) result) UNIV"
proof
  let ?sha = "\<lambda>b. take 32 (b @ replicate 32 0) :: bytes"
  assume "inj_on (first8_bytes_to_u64 ?sha :: bytes \<Rightarrow> (64 word, unit) result) UNIV"
  moreover have "length (?sha x) = 32" for x by (cases "length x \<le> 32") simp_all
  ultimately have "finite (UNIV :: bytes set)"
    using ids_use_half_their_bits [of ?sha "first8_bytes_to_u64 ?sha" _ "[]" UNIV] by blast
  then show False by (simp add: infinite_UNIV_listI)
qed

end
