(* ===== verification/Executor_New.thy ===== *)
theory Executor_New
  imports Wasm_Memory
begin

text \<open>
  The creation of executors in \<^verbatim>\<open>fuel-indexer/src/executor.rs\<close>: a WASM module is compiled and instantiated (by wasmer, an
  argument), the schema is loaded for the indexer that the module names in its memory, and the module must have the entry point.
\<close>

section \<open>Instances\<close>

text \<open>What the host calls of an instance: its memory, the addresses and lengths of its names, and the entry point.\<close>

record wasm_instance =
  in_memory :: "ffi_error + wasm_memory"
  in_namespace_ptr :: "ffi_error + 32 word option"
  in_namespace_len :: "ffi_error + 32 word option"
  in_identifier_ptr :: "ffi_error + 32 word option"
  in_identifier_len :: "ffi_error + 32 word option"
  in_version_ptr :: "ffi_error + 32 word option"
  in_version_len :: "ffi_error + 32 word option"
  in_entry_point :: bool

definition ffi_message :: "ffi_error \<Rightarrow> string" where
  "ffi_message e =
     (case e of
        MemoryBound \<Rightarrow> ''Invalid memory access''
      | Runtime \<Rightarrow> ''Error calling into wasm function''
      | HostEnvInit \<Rightarrow> ''Error initializing host environment''
      | Export \<Rightarrow> ''Invalid export''
      | NoResult what \<Rightarrow> ''Expected result from call '' @ what)"

text \<open>The bytes of a string that passed the check for UTF-8, as a text.\<close>

definition exported :: "(bytes \<Rightarrow> string) \<Rightarrow> ffi_error + bytes \<Rightarrow> (string, indexer_error) result" where
  "exported utf8 r = (case r of Inl e \<Rightarrow> Inl (Err (FFIError (ffi_message e))) | Inr bs \<Rightarrow> Inr (utf8 bs))"

definition instance_exports :: "wasm_env \<Rightarrow> (bytes \<Rightarrow> string) \<Rightarrow> wasm_instance \<Rightarrow> wasm_exports" where
  "instance_exports env utf8 i =
     \<lparr>we_namespace = exported utf8 (get_namespace env (in_memory i) (in_namespace_ptr i) (in_namespace_len i)),
      we_identifier = exported utf8 (get_identifier env (in_memory i) (in_identifier_ptr i) (in_identifier_len i)),
      we_version = exported utf8 (get_version env (in_memory i) (in_version_ptr i) (in_version_len i))\<rparr>"

section \<open>Executors (executor.rs)\<close>

definition wasm_executor_new ::
    "(bytes \<Rightarrow> (wasm_instance, indexer_error) result) \<Rightarrow> wasm_env \<Rightarrow> (bytes \<Rightarrow> string) \<Rightarrow> manifest \<Rightarrow> bytes \<Rightarrow> database
      \<Rightarrow> pg_statement list \<Rightarrow> (wasm_instance \<times> indexer_database, indexer_error) result" where
  "wasm_executor_new instantiate env utf8 m wasm_bytes reg committed =
     rbind (instantiate wasm_bytes) (\<lambda>i.
       case idb_load_schema m (Some (instance_exports env utf8 i)) reg (database_new committed) of
         (Inl e, _) \<Rightarrow> Inl e
       | (Inr _, db) \<Rightarrow> if in_entry_point i then Inr (i, db) else Inl (Err MissingHandler))"

definition native_executor_new :: "manifest \<Rightarrow> database \<Rightarrow> pg_statement list \<Rightarrow> (indexer_database, indexer_error) result" where
  "native_executor_new m reg committed =
     (case idb_load_schema m None reg (database_new committed) of (Inl e, _) \<Rightarrow> Inl e | (Inr _, db) \<Rightarrow> Inr db)"

section \<open>Whose tables an executor writes to\<close>

lemma loaded_tables:
  assumes "load_columns reg db = (Inr u, db')" "id_tables db = Map.empty" "id_tables db' tid = Some table"
  shows "\<exists>name. table = idb_namespace db @ ''.'' @ name"
  using assms by (auto simp: load_columns_def add_columns_tables table_of_def split: sum.splits)

lemma loaded_for_exports:
  assumes "\<not> is_native m" "idb_load_schema m (Some e) reg db0 = (Inr u, db)"
  obtains ns ident v where "we_namespace e = Inr ns" "we_identifier e = Inr ident"
    "load_columns reg (db0\<lparr>id_namespace := ns, id_identifier := ident, id_version := v\<rparr>) = (Inr (), db)"
  using assms by (simp add: idb_load_schema_def Let_def split: sum.splits)

lemma module_loads:
  assumes "\<not> is_native m" "wasm_executor_new instantiate env utf8 m bs reg committed = Inr (i, db)"
  obtains ns ident v where "we_namespace (instance_exports env utf8 i) = Inr ns"
    "we_identifier (instance_exports env utf8 i) = Inr ident"
    "load_columns reg ((database_new committed)\<lparr>id_namespace := ns, id_identifier := ident, id_version := v\<rparr>) = (Inr (), db)"
proof -
  from assms(2) obtain j where "(case idb_load_schema m (Some (instance_exports env utf8 j)) reg (database_new committed) of
      (Inl e, _) \<Rightarrow> Inl e | (Inr _, db) \<Rightarrow> if in_entry_point j then Inr (j, db) else Inl (Err MissingHandler)) = Inr (i, db)"
    unfolding wasm_executor_new_def rbind_Inr_iff by blast
  then obtain u where "idb_load_schema m (Some (instance_exports env utf8 i)) reg (database_new committed) = (Inr u, db)"
    by (cases "idb_load_schema m (Some (instance_exports env utf8 j)) reg (database_new committed)")
       (auto split: sum.splits if_splits)
  from loaded_for_exports [OF assms(1) this] that show thesis by metis
qed

text \<open>
  A module chooses the tables it works on. The tables that an executor writes to are those of the namespace and the
  identifier in the module's own memory; the manifest it is registered with, and the indexer it was uploaded for, play
  no part.
\<close>

theorem module_chooses_its_tables:
  assumes "\<not> is_native m" "wasm_executor_new instantiate env utf8 m bs reg committed = Inr (i, db)"
  shows "(\<exists>ns ident. we_namespace (instance_exports env utf8 i) = Inr ns \<and> we_identifier (instance_exports env utf8 i) = Inr ident
      \<and> (\<forall>tid table. id_tables db tid = Some table \<longrightarrow> (\<exists>name. table = ns @ ''_'' @ ident @ ''.'' @ name)))
    \<and> (\<forall>m'. \<not> is_native m' \<longrightarrow> wasm_executor_new instantiate env utf8 m' bs reg committed = Inr (i, db))"
proof -
  from module_loads [OF assms] obtain ns ident v where x: "we_namespace (instance_exports env utf8 i) = Inr ns"
      "we_identifier (instance_exports env utf8 i) = Inr ident"
    and load: "load_columns reg ((database_new committed)\<lparr>id_namespace := ns, id_identifier := ident, id_version := v\<rparr>) = (Inr (), db)"
    by metis
  have "\<exists>name. table = ns @ ''_'' @ ident @ ''.'' @ name" if "id_tables db tid = Some table" for tid table
    using loaded_tables [OF load _ that] by (simp add: database_new_def idb_namespace_def)
  moreover have "wasm_executor_new instantiate env utf8 m' bs reg committed = Inr (i, db)" if "\<not> is_native m'" for m'
    using assms that by (simp add: wasm_executor_new_def idb_load_schema_def)
  ultimately show ?thesis using x by blast
qed

end
